(* ===== verification/Squall_Prelude.thy ===== *)
theory Squall_Prelude
  imports Main "HOL-Library.Word" "HOL-Library.Sublist" "HOL-Library.Multiset"
begin

text \<open>
  Shared vocabulary of the development: Go's time arithmetic (\<open>time.Time\<close>, \<open>time.Duration\<close>
  at its 64-bit width), the functions of Go's \<open>strings\<close> package that squall calls, Go maps
  as association lists, and the generic lemmas the component theories use.
\<close>

named_theorems squall_defs \<open>definitions that the component proofs unfold together\<close>
named_theorems squall_inv \<open>preservation lemmas of the component invariants\<close>

section \<open>Time\<close>

text \<open>
  A \<open>time.Time\<close> is the number of nanoseconds since Go's zero time (1 January of year 1, UTC),
  so \<open>IsZero\<close> is equality with 0. A \<open>*metav1.Time\<close> is an option. A \<open>time.Duration\<close> is an
  \<open>int64\<close> count of nanoseconds, kept as an \<open>int\<close> with the wrap-around of its arithmetic
  written out by \<open>wrap64\<close>.
\<close>

type_synonym gotime = int
type_synonym duration = int

abbreviation Millisecond :: duration where "Millisecond \<equiv> 1000000"
abbreviation Second :: duration where "Second \<equiv> 1000000000"
abbreviation Minute :: duration where "Minute \<equiv> 60000000000"
abbreviation Hour :: duration where "Hour \<equiv> 3600000000000"

definition minDuration :: duration where
  "minDuration = - (2 ^ 63)"

definition maxDuration :: duration where
  "maxDuration = 2 ^ 63 - 1"

definition is_duration :: "int \<Rightarrow> bool" where
  "is_duration d \<longleftrightarrow> minDuration \<le> d \<and> d \<le> maxDuration"

definition wrap64 :: "int \<Rightarrow> int" where
  "wrap64 x = (x + 2 ^ 63) mod 2 ^ 64 - 2 ^ 63"

text \<open>\<open>Time.Sub\<close> saturates at the ends of \<open>Duration\<close>.\<close>

definition time_sub :: "gotime \<Rightarrow> gotime \<Rightarrow> duration" where
  "time_sub t u =
     (let d = t - u
      in if d < minDuration then minDuration else if maxDuration < d then maxDuration else d)"

definition isZero :: "gotime \<Rightarrow> bool" where
  "isZero t \<longleftrightarrow> t = 0"

text \<open>\<open>(*metav1.Time).IsZero\<close> is true of a nil pointer.\<close>

definition isZeroPtr :: "gotime option \<Rightarrow> bool" where
  "isZeroPtr p = (case p of None \<Rightarrow> True | Some t \<Rightarrow> isZero t)"

text \<open>Integer division of durations truncates towards zero.\<close>

definition go_div :: "int \<Rightarrow> int \<Rightarrow> int" where
  "go_div a b = sgn a * sgn b * (\<bar>a\<bar> div \<bar>b\<bar>)"

lemmas time_defs = minDuration_def maxDuration_def time_sub_def isZero_def isZeroPtr_def

lemma time_sub_self [simp]: "time_sub t t = 0"
  by (simp add: time_defs)

lemma time_sub_anti: "u \<le> v \<Longrightarrow> time_sub t v \<le> time_sub t u"
  by (simp add: time_defs Let_def)

lemma wrap64_sint: "wrap64 x = sint (word_of_int x :: 64 word)"
  by (simp add: wrap64_def int_word_sint)

lemma wrap64_range: "is_duration (wrap64 x)"
proof -
  have "0 \<le> (x + 2 ^ 63) mod 2 ^ 64" and "(x + 2 ^ 63) mod 2 ^ 64 < (2::int) ^ 64"
    by simp_all
  then show ?thesis by (simp add: is_duration_def wrap64_def minDuration_def maxDuration_def)
qed

lemma wrap64_id: "is_duration x \<Longrightarrow> wrap64 x = x"
  by (simp add: is_duration_def wrap64_def minDuration_def maxDuration_def)

lemma time_sub_range: "is_duration (time_sub t u)"
  by (simp add: is_duration_def time_defs Let_def)

lemma time_sub_gt_iff:
  "minDuration \<le> d \<Longrightarrow> d < maxDuration \<Longrightarrow> d < time_sub t u \<longleftrightarrow> d < t - u"
  by (auto simp: time_defs Let_def)

lemma time_sub_lt_iff:
  "minDuration < d \<Longrightarrow> d \<le> maxDuration \<Longrightarrow> time_sub t u < d \<longleftrightarrow> t - u < d"
  by (auto simp: time_defs Let_def)

lemma time_sub_le_iff:
  "minDuration \<le> d \<Longrightarrow> d < maxDuration \<Longrightarrow> time_sub t u \<le> d \<longleftrightarrow> t - u \<le> d"
  by (auto simp: time_defs Let_def)

lemma time_sub_mono: "t \<le> t' \<Longrightarrow> u' \<le> u \<Longrightarrow> time_sub t u \<le> time_sub t' u'"
  by (auto simp: time_defs Let_def)

lemma time_sub_gt_imp: "d < time_sub t u \<Longrightarrow> minDuration \<le> d \<Longrightarrow> d < t - u"
  by (auto simp: time_defs Let_def split: if_splits)

lemma go_div_nonneg: "0 \<le> a \<Longrightarrow> 0 < b \<Longrightarrow> go_div a b = a div b"
  by (auto simp: go_div_def sgn_if)

section \<open>Strings\<close>

text \<open>Go strings are byte sequences; the functions below are those of package \<open>strings\<close>.\<close>

definition HasPrefix :: "string \<Rightarrow> string \<Rightarrow> bool" where
  "HasPrefix s p \<longleftrightarrow> prefix p s"

definition HasSuffix :: "string \<Rightarrow> string \<Rightarrow> bool" where
  "HasSuffix s p \<longleftrightarrow> suffix p s"

fun Contains :: "string \<Rightarrow> string \<Rightarrow> bool" where
  "Contains [] p \<longleftrightarrow> p = []"
| "Contains (c # s) p \<longleftrightarrow> prefix p (c # s) \<or> Contains s p"

definition TrimPrefix :: "string \<Rightarrow> string \<Rightarrow> string" where
  "TrimPrefix s p = (if prefix p s then drop (length p) s else s)"

definition TrimSuffix :: "string \<Rightarrow> string \<Rightarrow> string" where
  "TrimSuffix s p = (if suffix p s then take (length s - length p) s else s)"

text \<open>\<open>strings.Trim\<close> with a one-character cutset.\<close>

definition Trim_char :: "char \<Rightarrow> string \<Rightarrow> string" where
  "Trim_char c s = rev (dropWhile (\<lambda>x. x = c) (rev (dropWhile (\<lambda>x. x = c) s)))"

definition is_space :: "char \<Rightarrow> bool" where
  "is_space c \<longleftrightarrow> c \<in> set [CHR '' '', CHR 0x09, CHR 0x0A, CHR 0x0B, CHR 0x0C, CHR 0x0D]"

definition TrimSpace :: "string \<Rightarrow> string" where
  "TrimSpace s = rev (dropWhile is_space (rev (dropWhile is_space s)))"

definition lower_char :: "char \<Rightarrow> char" where
  "lower_char c =
     (let n = of_char c :: nat in if 65 \<le> n \<and> n \<le> 90 then char_of (n + 32) else c)"

definition ToLower :: "string \<Rightarrow> string" where
  "ToLower s = map lower_char s"

fun Join :: "string list \<Rightarrow> string \<Rightarrow> string" where
  "Join [] sep = []"
| "Join [s] sep = s"
| "Join (s # t # ss) sep = s @ sep @ Join (t # ss) sep"

text \<open>\<open>strings.ReplaceAll\<close> of a single character.\<close>

definition ReplaceAll_char :: "char \<Rightarrow> string \<Rightarrow> string \<Rightarrow> string" where
  "ReplaceAll_char c r s = concat (map (\<lambda>x. if x = c then r else [x]) s)"

fun Split_char :: "char \<Rightarrow> string \<Rightarrow> string list" where
  "Split_char c [] = [[]]"
| "Split_char c (x # s) =
     (if x = c then [] # Split_char c s
      else (case Split_char c s of [] \<Rightarrow> [[x]] | w # ws \<Rightarrow> (x # w) # ws))"

lemma Split_char_no_sep: "c \<notin> set w \<Longrightarrow> Split_char c w = [w]"
  by (induction w) auto

lemma Split_char_append: "c \<notin> set w \<Longrightarrow> Split_char c (w @ c # s) = w # Split_char c s"
  by (induction w) auto

text \<open>\<open>strconv.Itoa\<close>: decimal rendering.\<close>

fun show_nat :: "nat \<Rightarrow> string" where
  "show_nat n =
     (if n < 10 then [char_of (48 + n)] else show_nat (n div 10) @ [char_of (48 + n mod 10)])"

declare show_nat.simps [simp del]

definition Itoa :: "int \<Rightarrow> string" where
  "Itoa i = (if i < 0 then CHR ''-'' # show_nat (nat (- i)) else show_nat (nat i))"

text \<open>\<open>net.JoinHostPort\<close> brackets a host with a colon.\<close>

definition JoinHostPort :: "string \<Rightarrow> string \<Rightarrow> string" where
  "JoinHostPort host port =
     (if CHR '':'' \<in> set host then ''['' @ host @ '']:'' @ port else host @ '':'' @ port)"

lemma Contains_iff: "Contains s p \<longleftrightarrow> (\<exists>us vs. s = us @ p @ vs)"
proof (induction s)
  case Nil
  then show ?case by simp
next
  case (Cons c s)
  show ?case
  proof
    assume "Contains (c # s) p"
    then consider "prefix p (c # s)" | "Contains s p" by auto
    then show "\<exists>us vs. c # s = us @ p @ vs"
    proof cases
      case 1
      then obtain vs where "c # s = p @ vs" by (auto simp: prefix_def)
      then have "c # s = [] @ p @ vs" by simp
      then show ?thesis by blast
    next
      case 2
      with Cons.IH obtain us vs where "s = us @ p @ vs" by blast
      then have "c # s = (c # us) @ p @ vs" by simp
      then show ?thesis by blast
    qed
  next
    assume "\<exists>us vs. c # s = us @ p @ vs"
    then obtain us vs where eq: "c # s = us @ p @ vs" by blast
    show "Contains (c # s) p"
    proof (cases us)
      case Nil
      with eq have "prefix p (c # s)" by (auto simp: prefix_def)
      then show ?thesis by simp
    next
      case (Cons u us')
      with eq have "s = us' @ p @ vs" by simp
      with Cons.IH show ?thesis by auto
    qed
  qed
qed

lemma show_nat_set: "set (show_nat n) \<subseteq> char_of ` {48..<58::nat}"
proof (induction n rule: less_induct)
  case (less n)
  show ?case
  proof (cases "n < 10")
    case True
    then have "48 + n \<in> {48..<58::nat}" by simp
    then show ?thesis using True by (simp only: show_nat.simps [of n] if_True) auto
  next
    case False
    then have "set (show_nat (n div 10)) \<subseteq> char_of ` {48..<58::nat}" by (intro less) simp
    moreover have "48 + n mod 10 \<in> {48..<58::nat}" by simp
    ultimately show ?thesis using False by (subst show_nat.simps) auto
  qed
qed

lemma show_nat_no_dash: "CHR ''-'' \<notin> set (show_nat n)"
proof
  assume "CHR ''-'' \<in> set (show_nat n)"
  then obtain k :: nat where "k \<in> {48..<58}" "CHR ''-'' = char_of k" using show_nat_set by blast
  then have "of_char (CHR ''-'') = k" by (simp only: of_char_of) simp
  with \<open>k \<in> {48..<58}\<close> show False by simp
qed

lemma show_nat_ne: "show_nat n \<noteq> []"
  by (subst show_nat.simps) simp

lemma char_of_digit_inj: "i < 10 \<Longrightarrow> j < 10 \<Longrightarrow> char_of (48 + i) = (char_of (48 + j) :: char) \<Longrightarrow> i = (j::nat)"
proof -
  assume lt: "i < 10" "j < 10" and eq: "char_of (48 + i) = (char_of (48 + j) :: char)"
  then have "of_char (char_of (48 + i) :: char) = (of_char (char_of (48 + j) :: char) :: nat)" by simp
  with lt show "i = j" by (simp add: of_char_of)
qed

lemma show_nat_length: "(n < 10) = (length (show_nat n) = 1)"
  using show_nat_ne [of "n div 10"] by (subst show_nat.simps) (auto simp: Suc_le_eq)

lemma show_nat_inj: "show_nat m = show_nat n \<Longrightarrow> m = n"
proof (induction m arbitrary: n rule: less_induct)
  case (less m)
  have small: "m < 10 \<longleftrightarrow> n < 10" using less.prems by (simp add: show_nat_length)
  show ?case
  proof (cases "m < 10")
    case True
    with small less.prems show ?thesis
      by (auto simp: show_nat.simps [of m] show_nat.simps [of n] dest: char_of_digit_inj)
  next
    case False
    with small have "show_nat (m div 10) = show_nat (n div 10)"
      and "char_of (48 + m mod 10) = (char_of (48 + n mod 10) :: char)"
      using less.prems by (simp_all add: show_nat.simps [of m] show_nat.simps [of n])
    moreover have "m div 10 < m" using False by simp
    ultimately have "m div 10 = n div 10" "m mod 10 = n mod 10"
      using less.IH by (auto intro: char_of_digit_inj)
    then show ?thesis by (metis div_mult_mod_eq)
  qed
qed

text \<open>A separator that does not occur after it determines both sides.\<close>

lemma append_sep_eq:
  assumes "xs @ c # ys = xs' @ c # ys'" and "c \<notin> set ys" and "c \<notin> set ys'"
  shows "xs = xs' \<and> ys = ys'"
proof -
  have "rev (xs @ c # ys) = rev (xs' @ c # ys')" by (simp only: assms(1))
  then have "rev ys @ c # rev xs = rev ys' @ c # rev xs'" by simp
  moreover have "takeWhile (\<lambda>x. x \<noteq> c) (rev zs @ c # ws) = rev zs" if "c \<notin> set zs" for zs ws
    using that by (auto simp: takeWhile_append2 takeWhile_tail)
  ultimately have "rev ys = rev ys'" using assms(2,3) by metis
  with assms(1) show ?thesis by simp
qed

section \<open>Lists\<close>

definition head_option :: "'a list \<Rightarrow> 'a option" where
  "head_option xs = (case xs of [] \<Rightarrow> None | x # _ \<Rightarrow> Some x)"

lemma head_option_simps [simp]:
  "head_option [] = None" "head_option (x # xs) = Some x"
  "head_option (xs @ ys) = (case head_option xs of None \<Rightarrow> head_option ys | Some x \<Rightarrow> Some x)"
  by (simp_all add: head_option_def split: list.split)

section \<open>Go maps as association lists\<close>

text \<open>
  A Go map that the program iterates over is an association list with distinct keys. Writing
  a key keeps its position or appends it; Go leaves the iteration order open, so a result that
  depends on it is stated for every order.
\<close>

type_synonym 'v gomap = "(string \<times> 'v) list"

fun gomap_put :: "string \<Rightarrow> 'v \<Rightarrow> 'v gomap \<Rightarrow> 'v gomap" where
  "gomap_put k v [] = [(k, v)]"
| "gomap_put k v ((k', v') # m) = (if k' = k then (k, v) # m else (k', v') # gomap_put k v m)"

definition gomap_del :: "string \<Rightarrow> 'v gomap \<Rightarrow> 'v gomap" where
  "gomap_del k m = filter (\<lambda>(k', v). k' \<noteq> k) m"

abbreviation gomap_get :: "'v gomap \<Rightarrow> string \<Rightarrow> 'v option" where
  "gomap_get m k \<equiv> map_of m k"

abbreviation gomap_wf :: "'v gomap \<Rightarrow> bool" where
  "gomap_wf m \<equiv> distinct (map fst m)"

lemma gomap_get_put [simp]: "gomap_get (gomap_put k v m) k' = (if k' = k then Some v else gomap_get m k')"
  by (induction m) auto

lemma gomap_get_del [simp]: "gomap_get (gomap_del k m) k' = (if k' = k then None else gomap_get m k')"
  by (induction m) (auto simp: gomap_del_def)

lemma fst_set_gomap_put [simp]: "fst ` set (gomap_put k v m) = insert k (fst ` set m)"
proof (induction m)
  case (Cons e m)
  then show ?case by (cases e) (auto simp: insert_commute)
qed simp

lemma gomap_wf_put [simp]: "gomap_wf m \<Longrightarrow> gomap_wf (gomap_put k v m)"
  by (induction m) auto

lemma gomap_wf_del [simp]: "gomap_wf m \<Longrightarrow> gomap_wf (gomap_del k m)"
  by (induction m) (auto simp: gomap_del_def)

lemma set_gomap_del: "x \<in> set (gomap_del k m) \<longleftrightarrow> x \<in> set m \<and> fst x \<noteq> k"
  by (auto simp: gomap_del_def)

lemma gomap_get_iff: "gomap_wf m \<Longrightarrow> gomap_get m k = Some v \<longleftrightarrow> (k, v) \<in> set m"
  by (rule map_of_eq_Some_iff)

section \<open>Results\<close>

text \<open>A call that can fail returns \<open>Inl\<close> the error or \<open>Inr\<close> the value.\<close>

definition is_err :: "'e + 'a \<Rightarrow> bool" where
  "is_err r = (case r of Inl _ \<Rightarrow> True | Inr _ \<Rightarrow> False)"

lemma is_err_simps [simp]: "is_err (Inl e)" "\<not> is_err (Inr v)"
  by (simp_all add: is_err_def)

text \<open>A fold that keeps the largest time seen, as Go's \<open>if t.After(newest)\<close> loops do.\<close>

lemma fold_max_ge: "(a::int) \<le> fold (\<lambda>x m. max m x) xs a"
  by (induction xs arbitrary: a) (auto intro: order_trans[OF max.cobounded1])

lemma fold_max_upper: "x \<in> set xs \<Longrightarrow> (x::int) \<le> fold (\<lambda>x m. max m x) xs a"
  by (induction xs arbitrary: a) (auto intro: order_trans[OF max.cobounded2 fold_max_ge])

end
