(* ===== verification/Squall_API.thy ===== *)
theory Squall_API
  imports Squall_Prelude
begin

text \<open>
  The \<open>Model\<close> custom resource of \<open>api/squall/v1alpha1\<close>: its spec, its status, the condition
  types and reasons, the price ceiling and the activity report the proxy serves. Kubernetes'
  condition helpers (\<open>k8s.io/apimachinery/pkg/api/meta\<close>) are not part of the repository: they
  are the parameter \<open>meta_api\<close>, and \<open>meta_ok\<close> names the documented behaviour squall relies on.
\<close>

section \<open>Enumerations\<close>

datatype ModelEngine = VLLM | LlamaCpp | Ollama | EngineOther string

datatype ModelFeature = TextGeneration | TextEmbedding | SpeechToText | FeatureOther string

text \<open>The empty phase of a Model never reconciled is \<open>PhaseOther ''''\<close>.\<close>

datatype ModelPhase = Asleep | Waking | Ready | Draining | Recreating | Dead | PhaseOther string

datatype ConditionStatus = CondTrue | CondFalse | CondUnknown

record Condition =
  cond_Type :: string
  cond_Status :: ConditionStatus
  cond_Reason :: string
  cond_Message :: string
  cond_LastTransitionTime :: gotime

text \<open>
  A literal \<open>metav1.Condition\<close> leaves \<open>LastTransitionTime\<close> at its zero value unless it
  names one.
\<close>

definition mk_condition :: "string \<Rightarrow> ConditionStatus \<Rightarrow> string \<Rightarrow> string \<Rightarrow> Condition" where
  "mk_condition t s r m =
     \<lparr>cond_Type = t, cond_Status = s, cond_Reason = r, cond_Message = m,
      cond_LastTransitionTime = 0\<rparr>"

section \<open>Condition types, reasons and fleet states\<close>

definition ConditionSchedulable :: string where
  "ConditionSchedulable = ''Schedulable''"

definition ConditionProvisioning :: string where
  "ConditionProvisioning = ''Provisioning''"

definition ConditionServedModelVerified :: string where
  "ConditionServedModelVerified = ''ServedModelVerified''"

definition ConditionHealthy :: string where
  "ConditionHealthy = ''Healthy''"

definition ReasonSchedulable :: string where "ReasonSchedulable = ''Schedulable''"
definition ReasonBackendUnavailable :: string where "ReasonBackendUnavailable = ''BackendUnavailable''"
definition ReasonNoFleet :: string where "ReasonNoFleet = ''NoFleet''"
definition ReasonCannotOverride :: string where "ReasonCannotOverride = ''CannotOverride''"
definition ReasonVerified :: string where "ReasonVerified = ''Verified''"
definition ReasonUnverified :: string where "ReasonUnverified = ''Unverified''"
definition ReasonServedModelMismatch :: string where "ReasonServedModelMismatch = ''ServedModelMismatch''"
definition ReasonInvalidPrice :: string where "ReasonInvalidPrice = ''InvalidPrice''"
definition ReasonInvalidSpec :: string where "ReasonInvalidSpec = ''InvalidSpec''"
definition ReasonRunFromAnotherIncarnation :: string where
  "ReasonRunFromAnotherIncarnation = ''RunFromAnotherIncarnation''"
definition ReasonNoSuccessfulResponses :: string where
  "ReasonNoSuccessfulResponses = ''NoSuccessfulResponses''"
definition ReasonHardStopFired :: string where "ReasonHardStopFired = ''HardStopFired''"
definition ReasonHealthy :: string where "ReasonHealthy = ''Healthy''"
definition ReasonProvisioningTimeout :: string where "ReasonProvisioningTimeout = ''ProvisioningTimeout''"
definition ReasonProvisioned :: string where "ReasonProvisioned = ''Provisioned''"
definition ReasonInsufficientCredit :: string where "ReasonInsufficientCredit = ''InsufficientCredit''"
definition ReasonNoCapacity :: string where "ReasonNoCapacity = ''NoCapacity''"
definition ReasonBackendRateLimited :: string where "ReasonBackendRateLimited = ''BackendRateLimited''"
definition ReasonProvisioningFailed :: string where "ReasonProvisioningFailed = ''ProvisioningFailed''"

definition FleetStateAdmitting :: string where "FleetStateAdmitting = ''Admitting''"
definition FleetStateCreated :: string where "FleetStateCreated = ''Created''"
definition FleetStateUnfleeted :: string where "FleetStateUnfleeted = ''Unfleeted''"
definition FleetStateUnconfigured :: string where "FleetStateUnconfigured = ''Unconfigured''"

definition DemandAnnotation :: string where
  "DemandAnnotation = ''squall.ackstorm.ai/demand-since''"

lemmas condition_type_defs = ConditionSchedulable_def ConditionProvisioning_def
  ConditionServedModelVerified_def ConditionHealthy_def

lemmas reason_defs = ReasonSchedulable_def ReasonBackendUnavailable_def ReasonNoFleet_def
  ReasonCannotOverride_def ReasonVerified_def ReasonUnverified_def ReasonServedModelMismatch_def
  ReasonInvalidPrice_def ReasonInvalidSpec_def ReasonRunFromAnotherIncarnation_def
  ReasonNoSuccessfulResponses_def ReasonHardStopFired_def ReasonHealthy_def
  ReasonProvisioningTimeout_def ReasonProvisioned_def ReasonInsufficientCredit_def
  ReasonNoCapacity_def ReasonBackendRateLimited_def ReasonProvisioningFailed_def

lemma condition_type_neq [simp]:
  "ConditionSchedulable \<noteq> ConditionProvisioning" "ConditionProvisioning \<noteq> ConditionSchedulable"
  "ConditionSchedulable \<noteq> ConditionServedModelVerified"
  "ConditionServedModelVerified \<noteq> ConditionSchedulable"
  "ConditionSchedulable \<noteq> ConditionHealthy" "ConditionHealthy \<noteq> ConditionSchedulable"
  "ConditionProvisioning \<noteq> ConditionServedModelVerified"
  "ConditionServedModelVerified \<noteq> ConditionProvisioning"
  "ConditionProvisioning \<noteq> ConditionHealthy" "ConditionHealthy \<noteq> ConditionProvisioning"
  "ConditionServedModelVerified \<noteq> ConditionHealthy"
  "ConditionHealthy \<noteq> ConditionServedModelVerified"
  by (simp_all add: condition_type_defs)

section \<open>Kubernetes' condition helpers\<close>

text \<open>
  \<open>m_Find\<close> is \<open>meta.FindStatusCondition\<close>, \<open>m_Set\<close> is \<open>meta.SetStatusCondition\<close>, \<open>m_Remove\<close> is
  \<open>meta.RemoveStatusCondition\<close> and \<open>m_IsTrue\<close> is \<open>meta.IsStatusConditionTrue\<close>.
\<close>

record meta_api =
  m_Find :: "Condition list \<Rightarrow> string \<Rightarrow> Condition option"
  m_Set :: "Condition list \<Rightarrow> Condition \<Rightarrow> Condition list"
  m_Remove :: "Condition list \<Rightarrow> string \<Rightarrow> Condition list"
  m_IsTrue :: "Condition list \<Rightarrow> string \<Rightarrow> bool"

text \<open>
  The documented contract: a set condition is found with the new status, reason and message;
  its transition time is the old one when the status is unchanged and the caller's (if it
  gave one) when the status changed or the condition is new; other types are untouched;
  a removed type is gone.
\<close>

definition meta_set_law :: "meta_api \<Rightarrow> bool" where
  "meta_set_law M \<longleftrightarrow>
     (\<forall>cs c. \<exists>d. m_Find M (m_Set M cs c) (cond_Type c) = Some d \<and>
        cond_Type d = cond_Type c \<and> cond_Status d = cond_Status c \<and>
        cond_Reason d = cond_Reason c \<and> cond_Message d = cond_Message c \<and>
        (case m_Find M cs (cond_Type c) of
           None \<Rightarrow> \<not> isZero (cond_LastTransitionTime c) \<longrightarrow>
                   cond_LastTransitionTime d = cond_LastTransitionTime c
         | Some old \<Rightarrow>
             if cond_Status old = cond_Status c
             then cond_LastTransitionTime d = cond_LastTransitionTime old
             else \<not> isZero (cond_LastTransitionTime c) \<longrightarrow>
                  cond_LastTransitionTime d = cond_LastTransitionTime c))"

definition meta_ok :: "meta_api \<Rightarrow> bool" where
  "meta_ok M \<longleftrightarrow> meta_set_law M \<and>
     (\<forall>cs c t. t \<noteq> cond_Type c \<longrightarrow> m_Find M (m_Set M cs c) t = m_Find M cs t) \<and>
     (\<forall>cs t. m_Find M (m_Remove M cs t) t = None) \<and>
     (\<forall>cs t t'. t' \<noteq> t \<longrightarrow> m_Find M (m_Remove M cs t) t' = m_Find M cs t') \<and>
     (\<forall>cs t. m_IsTrue M cs t \<longleftrightarrow>
        (\<exists>c. m_Find M cs t = Some c \<and> cond_Status c = CondTrue))"

lemmas meta_okD = meta_ok_def [THEN iffD1]

lemma meta_okD_set: "meta_ok M \<Longrightarrow> meta_set_law M"
  by (drule meta_okD) (elim conjE, assumption)

lemma meta_find_set_other [simp]:
  assumes "meta_ok M" and "t \<noteq> cond_Type c"
  shows "m_Find M (m_Set M cs c) t = m_Find M cs t"
  using meta_okD [OF assms(1), THEN conjunct2, THEN conjunct1] assms(2) by blast

lemma meta_find_remove [simp]:
  assumes "meta_ok M"
  shows "m_Find M (m_Remove M cs t) t' = (if t' = t then None else m_Find M cs t')"
proof (cases "t' = t")
  case True
  have "m_Find M (m_Remove M cs t) t = None"
    by (rule meta_okD [OF assms, THEN conjunct2, THEN conjunct2, THEN conjunct1, rule_format])
  with True show ?thesis by simp
next
  case False
  then have "m_Find M (m_Remove M cs t) t' = m_Find M cs t'"
    by (rule meta_okD [OF assms, THEN conjunct2, THEN conjunct2, THEN conjunct2, THEN conjunct1,
          rule_format])
  with False show ?thesis by simp
qed

lemma meta_is_true:
  assumes "meta_ok M"
  shows "m_IsTrue M cs t \<longleftrightarrow> (\<exists>c. m_Find M cs t = Some c \<and> cond_Status c = CondTrue)"
  using meta_okD [OF assms, THEN conjunct2, THEN conjunct2, THEN conjunct2, THEN conjunct2]
  by blast

lemma meta_find_set_same:
  assumes "meta_ok M"
  obtains d where "m_Find M (m_Set M cs c) (cond_Type c) = Some d"
    and "cond_Type d = cond_Type c" and "cond_Status d = cond_Status c"
    and "cond_Reason d = cond_Reason c" and "cond_Message d = cond_Message c"
  using meta_okD_set [OF assms] unfolding meta_set_law_def by blast

text \<open>A transition time set explicitly on a condition that is new or whose status changes.\<close>

lemma meta_find_set_fresh_time:
  assumes "meta_ok M" and "\<not> isZero (cond_LastTransitionTime c)"
    and "\<And>old. m_Find M cs (cond_Type c) = Some old \<Longrightarrow> cond_Status old \<noteq> cond_Status c"
  shows "\<exists>d. m_Find M (m_Set M cs c) (cond_Type c) = Some d \<and> cond_Type d = cond_Type c \<and>
           cond_Status d = cond_Status c \<and> cond_Reason d = cond_Reason c \<and>
           cond_Message d = cond_Message c \<and>
           cond_LastTransitionTime d = cond_LastTransitionTime c"
proof -
  from assms(1) have "meta_set_law M" by (rule meta_okD_set)
  then obtain d where d: "m_Find M (m_Set M cs c) (cond_Type c) = Some d"
      "cond_Type d = cond_Type c" "cond_Status d = cond_Status c" "cond_Reason d = cond_Reason c"
      "cond_Message d = cond_Message c"
    and t: "case m_Find M cs (cond_Type c) of
           None \<Rightarrow> \<not> isZero (cond_LastTransitionTime c) \<longrightarrow>
                   cond_LastTransitionTime d = cond_LastTransitionTime c
         | Some old \<Rightarrow>
             if cond_Status old = cond_Status c
             then cond_LastTransitionTime d = cond_LastTransitionTime old
             else \<not> isZero (cond_LastTransitionTime c) \<longrightarrow>
                  cond_LastTransitionTime d = cond_LastTransitionTime c"
    unfolding meta_set_law_def by blast
  from t assms(2,3) have "cond_LastTransitionTime d = cond_LastTransitionTime c"
    by (auto split: option.splits)
  with d show ?thesis by blast
qed

text \<open>When the status does not change the old transition time stays.\<close>

lemma meta_find_set_kept_time:
  assumes "meta_ok M" and "m_Find M cs (cond_Type c) = Some old"
    and "cond_Status old = cond_Status c"
  shows "\<exists>d. m_Find M (m_Set M cs c) (cond_Type c) = Some d \<and> cond_Type d = cond_Type c \<and>
           cond_Status d = cond_Status c \<and> cond_Reason d = cond_Reason c \<and>
           cond_Message d = cond_Message c \<and>
           cond_LastTransitionTime d = cond_LastTransitionTime old"
proof -
  from assms(1) have "meta_set_law M" by (rule meta_okD_set)
  then obtain d where "m_Find M (m_Set M cs c) (cond_Type c) = Some d"
      "cond_Type d = cond_Type c" "cond_Status d = cond_Status c" "cond_Reason d = cond_Reason c"
      "cond_Message d = cond_Message c"
      "cond_LastTransitionTime d = cond_LastTransitionTime old"
    using assms(2,3) unfolding meta_set_law_def by fastforce
  then show ?thesis by blast
qed

text \<open>
  A concrete instance that meets the contract, used where a hypothesis has to be shown
  satisfiable: the clock it stamps with is its argument.
\<close>

fun ref_set :: "gotime \<Rightarrow> Condition list \<Rightarrow> Condition \<Rightarrow> Condition list" where
  "ref_set clk [] c =
     [c\<lparr>cond_LastTransitionTime :=
          (if isZero (cond_LastTransitionTime c) then clk else cond_LastTransitionTime c)\<rparr>]"
| "ref_set clk (d # cs) c =
     (if cond_Type d = cond_Type c
      then (if cond_Status d = cond_Status c
            then c\<lparr>cond_LastTransitionTime := cond_LastTransitionTime d\<rparr>
            else c\<lparr>cond_LastTransitionTime :=
                     (if isZero (cond_LastTransitionTime c) then clk
                      else cond_LastTransitionTime c)\<rparr>) # cs
      else d # ref_set clk cs c)"

definition ref_find :: "Condition list \<Rightarrow> string \<Rightarrow> Condition option" where
  "ref_find cs t = List.find (\<lambda>c. cond_Type c = t) cs"

definition ref_meta :: "gotime \<Rightarrow> meta_api" where
  "ref_meta clk =
     \<lparr>m_Find = ref_find, m_Set = ref_set clk,
      m_Remove = (\<lambda>cs t. filter (\<lambda>c. cond_Type c \<noteq> t) cs),
      m_IsTrue = (\<lambda>cs t. case ref_find cs t of
                    None \<Rightarrow> False | Some c \<Rightarrow> cond_Status c = CondTrue)\<rparr>"

lemma ref_find_set_other: "t \<noteq> cond_Type c \<Longrightarrow> ref_find (ref_set clk cs c) t = ref_find cs t"
  by (induction cs) (auto simp: ref_find_def)

lemma ref_find_remove:
  "ref_find (filter (\<lambda>c. cond_Type c \<noteq> t) cs) t' = (if t' = t then None else ref_find cs t')"
  by (induction cs) (auto simp: ref_find_def)

lemma ref_set_law: "meta_set_law (ref_meta clk)"
  unfolding meta_set_law_def
proof (intro allI)
  fix cs c
  show "\<exists>d. m_Find (ref_meta clk) (m_Set (ref_meta clk) cs c) (cond_Type c) = Some d \<and>
        cond_Type d = cond_Type c \<and> cond_Status d = cond_Status c \<and>
        cond_Reason d = cond_Reason c \<and> cond_Message d = cond_Message c \<and>
        (case m_Find (ref_meta clk) cs (cond_Type c) of
           None \<Rightarrow> \<not> isZero (cond_LastTransitionTime c) \<longrightarrow>
                   cond_LastTransitionTime d = cond_LastTransitionTime c
         | Some old \<Rightarrow>
             if cond_Status old = cond_Status c
             then cond_LastTransitionTime d = cond_LastTransitionTime old
             else \<not> isZero (cond_LastTransitionTime c) \<longrightarrow>
                  cond_LastTransitionTime d = cond_LastTransitionTime c)"
    by (induction cs) (auto simp: ref_meta_def ref_find_def)
qed

lemma ref_meta_ok: "meta_ok (ref_meta clk)"
  using ref_set_law [of clk]
  by (auto simp: meta_ok_def ref_meta_def ref_find_set_other ref_find_remove split: option.splits)

section \<open>The Model resource\<close>

record GPUSpec =
  gpu_Vendor :: string
  gpu_Name :: "string list"
  gpu_Count :: string
  gpu_Memory :: string
  gpu_TotalMemory :: string
  gpu_ComputeCapability :: string

record CPUSpec =
  cpu_Arch :: string
  cpu_Count :: string

record SecretKeyRef =
  ref_Name :: string
  ref_Key :: string

record ModelProbe =
  mp_Path :: string
  mp_Method :: string
  mp_Timeout :: "duration option"
  mp_Interval :: "duration option"
  mp_ReadyAfter :: "int option"

record ModelResources =
  mr_CPU :: "CPUSpec option"
  mr_Memory :: string
  mr_ShmSize :: string
  mr_GPU :: "GPUSpec option"
  mr_Disk :: string

record ModelPlacement =
  pl_Backends :: "string list"
  pl_Regions :: "string list"
  pl_MaxPricePerHour :: "string option"

record ModelHealth =
  mh_UnhealthyAfter :: duration
  mh_FailureThreshold :: int

record ModelSpec =
  sp_Engine :: ModelEngine
  sp_Image :: string
  sp_Model :: string
  sp_Features :: "ModelFeature list"
  sp_Owner :: string
  sp_Args :: "string list"
  sp_Env :: "string gomap"
  sp_Resources :: ModelResources
  sp_SecretEnv :: "SecretKeyRef gomap"
  sp_Probe :: "ModelProbe option"
  sp_Placement :: ModelPlacement
  sp_MinReplicas :: int
  sp_HoldTimeout :: duration
  sp_IdleTimeout :: duration
  sp_UncontrolledTimeout :: "duration option"
  sp_Health :: ModelHealth
  sp_DrainTimeout :: duration
  sp_ProvisioningTimeout :: duration
  sp_MaxLifetime :: duration
  sp_HardStop :: duration

record ReplicaEndpoint =
  re_Host :: string
  re_SSHPort :: int
  re_User :: string
  re_ServicePort :: int

record FleetStatus =
  fs_Backend :: string
  fs_Name :: string
  fs_State :: string

record ModelStatus =
  st_Phase :: ModelPhase
  st_RunID :: string
  st_RunName :: string
  st_RunUID :: string
  st_DeploymentNum :: int
  st_ServiceURL :: string
  st_Replica :: "ReplicaEndpoint option"
  st_ServedModel :: string
  st_ForwardModel :: string
  st_WakeStartedAt :: "gotime option"
  st_Fleet :: "FleetStatus list"
  st_LastRequestAt :: "gotime option"
  st_UncontrolledSince :: "gotime option"
  st_Conditions :: "Condition list"

text \<open>Of the object metadata, the fields squall reads or writes.\<close>

record Model =
  md_Name :: string
  md_Namespace :: string
  md_UID :: string
  md_Annotations :: "string gomap"
  md_DeletionTimestamp :: "gotime option"
  md_Finalizers :: "string list"
  md_Spec :: ModelSpec
  md_Status :: ModelStatus

section \<open>Price\<close>

text \<open>
  A \<open>float64\<close> is not-a-number, an infinity or a finite dyadic value (mantissa and binary
  exponent). \<open>strconv.ParseFloat\<close> is an argument: squall uses only whether it succeeds and the
  class of its result.
\<close>

datatype float64 = F_NaN | F_Inf bool | F_Fin int int

fun f_le_zero :: "float64 \<Rightarrow> bool" where
  "f_le_zero F_NaN = False"
| "f_le_zero (F_Inf neg) = neg"
| "f_le_zero (F_Fin m e) = (m \<le> 0)"

fun f_gt_zero :: "float64 \<Rightarrow> bool" where
  "f_gt_zero F_NaN = False"
| "f_gt_zero (F_Inf neg) = (\<not> neg)"
| "f_gt_zero (F_Fin m e) = (0 < m)"

datatype price_error = PriceNotDecimal string | PriceNotFinite string | PriceNotPositive string

definition Price_Validate :: "(string \<Rightarrow> float64 option) \<Rightarrow> string \<Rightarrow> price_error + unit" where
  "Price_Validate ParseFloat p =
     (case ParseFloat p of
        None \<Rightarrow> Inl (PriceNotDecimal p)
      | Some v \<Rightarrow>
          (if v = F_NaN \<or> (\<exists>neg\<in>{True, False}. v = F_Inf neg) then Inl (PriceNotFinite p)
           else if f_le_zero v then Inl (PriceNotPositive p)
           else Inr ()))"

lemma Price_Validate_ok_iff:
  "Price_Validate pf p = Inr () \<longleftrightarrow> (\<exists>m e. pf p = Some (F_Fin m e) \<and> 0 < m)"
  by (cases "pf p") (auto simp: Price_Validate_def split: if_splits elim!: f_le_zero.elims)

section \<open>Activity report\<close>

record ModelActivity =
  ma_InFlight :: int
  ma_LastRequestAt :: gotime
  ma_LastSuccessAt :: gotime
  ma_FailuresSinceSuccess :: int

text \<open>\<open>ActivityReport.Models\<close> is a map from the Model's name to its activity.\<close>

type_synonym ActivityReport = "ModelActivity gomap"

section \<open>Sample objects\<close>

text \<open>
  An on-demand Model with the defaults of the resource definition, and the status of a Model
  never reconciled: the concrete inputs at which the properties' hypotheses are shown to hold.
\<close>

definition sample_resources :: ModelResources where
  "sample_resources =
     \<lparr>mr_CPU = None, mr_Memory = [], mr_ShmSize = [], mr_GPU = None, mr_Disk = []\<rparr>"

definition sample_spec :: ModelSpec where
  "sample_spec =
     \<lparr>sp_Engine = VLLM, sp_Image = [], sp_Model = ''qwen'', sp_Features = [TextGeneration],
      sp_Owner = [], sp_Args = [], sp_Env = [], sp_Resources = sample_resources,
      sp_SecretEnv = [], sp_Probe = None,
      sp_Placement = \<lparr>pl_Backends = [''vastai''], pl_Regions = [], pl_MaxPricePerHour = None\<rparr>,
      sp_MinReplicas = 0, sp_HoldTimeout = 10 * Minute, sp_IdleTimeout = 5 * Minute,
      sp_UncontrolledTimeout = None,
      sp_Health = \<lparr>mh_UnhealthyAfter = 10 * Minute, mh_FailureThreshold = 3\<rparr>,
      sp_DrainTimeout = 2 * Minute, sp_ProvisioningTimeout = 30 * Minute,
      sp_MaxLifetime = 0, sp_HardStop = 0\<rparr>"

definition sample_status :: ModelStatus where
  "sample_status =
     \<lparr>st_Phase = PhaseOther [], st_RunID = [], st_RunName = [], st_RunUID = [],
      st_DeploymentNum = 0, st_ServiceURL = [], st_Replica = None, st_ServedModel = [],
      st_ForwardModel = [], st_WakeStartedAt = None, st_Fleet = [], st_LastRequestAt = None,
      st_UncontrolledSince = None, st_Conditions = []\<rparr>"

end
