(* ===== verification/Squall_Dstack.thy ===== *)
theory Squall_Dstack
  imports Squall_API "HOL-Library.Monad_Syntax"
begin

text \<open>
  The dstack client of \<open>internal/dstack\<close>: the run and request types of \<open>client.go\<close>, the error
  classification of \<open>errors.go\<close>, the readiness, endpoint and price derivations of \<open>probes.go\<close>,
  and the conversions between squall's types and the wire (\<open>wire.go\<close>, \<open>http.go\<close>). A decoded
  wire value stands for what \<open>encoding/json\<close> made of the response body.
\<close>

section \<open>JSON values\<close>

text \<open>
  A JSON document as its tree. \<open>JNum\<close> is a number written as an integer and \<open>JFloat\<close> any other
  number, by the \<open>float64\<close> it denotes; \<open>JTime\<close> is the string literal in which \<open>time.Time\<close>
  marshals that instant. The text of a document is a separate matter and nothing below reads it.
\<close>

datatype json = JNull | JBool bool | JNum int | JFloat float64 | JStr string | JTime gotime
  | JArr "json list" | JObj "(string \<times> json) list"

text \<open>
  What \<open>json.Unmarshal\<close> does with a struct field: keys match their field in any letter case, the
  last one wins, an absent key and null leave the zero value, and a value of another type is an
  error (\<open>None\<close>).
\<close>

definition json_field :: "(string \<times> json) list \<Rightarrow> string \<Rightarrow> json option" where
  "json_field kvs f = head_option (rev (map snd (filter (\<lambda>(k, v). ToLower k = f) kvs)))"

definition json_string :: "json option \<Rightarrow> string option" where
  "json_string j =
     (case j of None \<Rightarrow> Some [] | Some JNull \<Rightarrow> Some [] | Some (JStr s) \<Rightarrow> Some s | Some _ \<Rightarrow> None)"

definition json_int :: "json option \<Rightarrow> int option" where
  "json_int j =
     (case j of None \<Rightarrow> Some 0 | Some JNull \<Rightarrow> Some 0
      | Some (JNum n) \<Rightarrow> if is_duration n then Some n else None | Some _ \<Rightarrow> None)"

definition json_bool :: "json option \<Rightarrow> bool option" where
  "json_bool j =
     (case j of None \<Rightarrow> Some False | Some JNull \<Rightarrow> Some False | Some (JBool b) \<Rightarrow> Some b | Some _ \<Rightarrow> None)"

definition json_float :: "json option \<Rightarrow> float64 option" where
  "json_float j =
     (case j of None \<Rightarrow> Some (F_Fin 0 0) | Some JNull \<Rightarrow> Some (F_Fin 0 0)
      | Some (JNum n) \<Rightarrow> Some (F_Fin n 0) | Some (JFloat f) \<Rightarrow> Some f | Some _ \<Rightarrow> None)"

definition json_time :: "json option \<Rightarrow> gotime option" where
  "json_time j =
     (case j of None \<Rightarrow> Some 0 | Some JNull \<Rightarrow> Some 0 | Some (JTime t) \<Rightarrow> Some t | Some _ \<Rightarrow> None)"

text \<open>A pointer field stays nil on an absent key and on null.\<close>

definition json_ptr :: "(json option \<Rightarrow> 'a option) \<Rightarrow> json option \<Rightarrow> 'a option option" where
  "json_ptr d j = (case j of None \<Rightarrow> Some None | Some JNull \<Rightarrow> Some None | Some v \<Rightarrow> map_option Some (d (Some v)))"

text \<open>An object's fields; an absent or null struct has none set.\<close>

definition json_fields :: "json option \<Rightarrow> (string \<times> json) list option" where
  "json_fields j =
     (case j of None \<Rightarrow> Some [] | Some JNull \<Rightarrow> Some [] | Some (JObj kvs) \<Rightarrow> Some kvs | Some _ \<Rightarrow> None)"

fun decode_all :: "('a \<Rightarrow> 'b option) \<Rightarrow> 'a list \<Rightarrow> 'b list option" where
  "decode_all d [] = Some []"
| "decode_all d (x # xs) =
     (case (d x, decode_all d xs) of (Some y, Some ys) \<Rightarrow> Some (y # ys) | _ \<Rightarrow> None)"

definition json_list :: "(json \<Rightarrow> 'a option) \<Rightarrow> json option \<Rightarrow> 'a list option" where
  "json_list d j =
     (case j of None \<Rightarrow> Some [] | Some JNull \<Rightarrow> Some [] | Some (JArr js) \<Rightarrow> decode_all d js | Some _ \<Rightarrow> None)"

definition json_string_map :: "json option \<Rightarrow> string gomap option" where
  "json_string_map j =
     (case json_fields j of
        None \<Rightarrow> None
      | Some kvs \<Rightarrow> map_option (\<lambda>vs. fold (\<lambda>(k, v) m. gomap_put k v m) vs [])
          (decode_all (\<lambda>(k, v). map_option (Pair k) (json_string (Some v))) kvs))"

section \<open>Runs and apply requests (client.go)\<close>

record ProvisioningFailure =
  pf_RunID :: string
  pf_Reason :: string
  pf_Message :: string

record Run =
  run_Name :: string
  run_RunID :: string
  run_DeploymentNum :: int
  run_Replicas :: int
  run_Replica :: "ReplicaEndpoint option"
  run_ServiceURL :: string
  run_PricePerHour :: float64
  run_ProbesReady :: bool
  run_Env :: "string gomap"
  run_IdleDuration :: "duration option"
  run_MaxDuration :: duration
  run_SSHKeyPub :: string
  run_Status :: string
  run_SubmittedAt :: gotime
  run_ProvisioningFailure :: "ProvisioningFailure option"
  run_raw :: json

record GPU =
  g_Vendor :: string
  g_Name :: "string list"
  g_Count :: string
  g_Memory :: string
  g_TotalMemory :: string
  g_ComputeCapability :: string

record Resources =
  rs_CPUArch :: string
  rs_CPUCount :: string
  rs_Memory :: string
  rs_ShmSize :: string
  rs_Disk :: string
  rs_GPU :: "GPU option"

record Probe =
  pb_Path :: string
  pb_Method :: string
  pb_TimeoutSeconds :: int
  pb_IntervalSeconds :: int
  pb_ReadyAfter :: int

record Placement =
  pc_Backends :: "string list"
  pc_Regions :: "string list"
  pc_MaxPrice :: string

record FleetSpec =
  fl_Name :: string
  fl_Backends :: "string list"
  fl_IdleDuration :: duration

text \<open>There is no force field: no caller can ask for a forced apply.\<close>

record ApplyRequest =
  req_Name :: string
  req_Replicas :: int
  req_SSHKeyPub :: string
  req_Image :: string
  req_Port :: int
  req_Env :: "string gomap"
  req_Args :: "string list"
  req_Resources :: "Resources option"
  req_Probe :: "Probe option"
  req_Placement :: Placement
  req_IdleDuration :: "duration option"
  req_MaxDuration :: duration
  req_Current :: "Run option"

definition FleetName :: "string \<Rightarrow> string" where
  "FleetName backend = ''squall-auto-'' @ backend"

definition finishedRunStatuses :: "string list" where
  "finishedRunStatuses = [''terminated'', ''failed'', ''done'']"

definition IsTerminal :: "Run \<Rightarrow> bool" where
  "IsTerminal r \<longleftrightarrow> run_Status r \<in> set finishedRunStatuses"

section \<open>Errors (errors.go)\<close>

text \<open>
  The sentinels a caller can test for with \<open>errors.Is\<close>. An \<open>HTTPError\<close> carries the status code
  beside the classified error; a transport, encoding or decoding failure is \<open>OtherError\<close>.
\<close>

datatype err_kind = ErrNotFound | ErrResourceChanged | ErrCannotOverride | ErrUnauthorized | ErrPlain

datatype dstack_error = HTTPError int err_kind string | OtherError string

fun err_is :: "dstack_error \<Rightarrow> err_kind \<Rightarrow> bool" where
  "err_is (HTTPError code k msg) k' = (k = k')"
| "err_is (OtherError msg) k' = False"

record errorDetail =
  ed_Msg :: string
  ed_Code :: string

definition resourceNotExistsCode :: string where
  "resourceNotExistsCode = ''resource_not_exists''"

definition resourceChangedMarker :: string where
  "resourceChangedMarker = ''resource has been changed''"

definition cannotOverrideMarker :: string where
  "cannotOverrideMarker = ''cannot override active run''"

definition decode_errorDetail :: "json \<Rightarrow> errorDetail option" where
  "decode_errorDetail j =
     (case j of
        JNull \<Rightarrow> Some \<lparr>ed_Msg = [], ed_Code = []\<rparr>
      | JObj kvs \<Rightarrow>
          (case (json_string (json_field kvs ''msg''), json_string (json_field kvs ''code'')) of
             (Some m, Some c) \<Rightarrow> Some \<lparr>ed_Msg = m, ed_Code = c\<rparr>
           | _ \<Rightarrow> None)
      | _ \<Rightarrow> None)"

text \<open>
  The three shapes of \<open>detail\<close>, tried in the order of the source: a list of details, one
  object, a bare string. \<open>None\<close> is a body that is not JSON.
\<close>

definition parseDetails :: "json option \<Rightarrow> errorDetail list" where
  "parseDetails body =
     (case body of
        Some (JObj kvs) \<Rightarrow>
          (case json_field kvs ''detail'' of
             None \<Rightarrow> []
           | Some JNull \<Rightarrow> []
           | Some (JArr js) \<Rightarrow> (case decode_all decode_errorDetail js of Some ds \<Rightarrow> ds | None \<Rightarrow> [])
           | Some (JObj o1) \<Rightarrow> (case decode_errorDetail (JObj o1) of Some d \<Rightarrow> [d] | None \<Rightarrow> [])
           | Some (JStr m) \<Rightarrow> [\<lparr>ed_Msg = m, ed_Code = []\<rparr>]
           | Some _ \<Rightarrow> [])
      | _ \<Rightarrow> [])"

definition summarise :: "errorDetail list \<Rightarrow> string \<Rightarrow> string" where
  "summarise details raw =
     (case details of
        d # _ \<Rightarrow> if ed_Msg d \<noteq> [] then ed_Msg d else take 256 raw
      | [] \<Rightarrow> take 256 raw)"

fun classify_details :: "errorDetail list \<Rightarrow> (err_kind \<times> string) option" where
  "classify_details [] = None"
| "classify_details (d # ds) =
     (if ed_Code d = resourceNotExistsCode then Some (ErrNotFound, ed_Msg d)
      else if Contains (ToLower (ed_Msg d)) resourceChangedMarker
      then Some (ErrResourceChanged, ed_Msg d)
      else if Contains (ToLower (ed_Msg d)) cannotOverrideMarker
      then Some (ErrCannotOverride, ed_Msg d)
      else classify_details ds)"

definition classifyErrorBody :: "int \<Rightarrow> string \<Rightarrow> json option \<Rightarrow> err_kind \<times> string" where
  "classifyErrorBody status raw body =
     (let details = parseDetails body in
      case classify_details details of
        Some r \<Rightarrow> r
      | None \<Rightarrow>
          if status = 401 \<or> status = 403 then (ErrUnauthorized, summarise details raw)
          else (ErrPlain, summarise details raw))"

definition classifyError :: "int \<Rightarrow> string \<Rightarrow> json option \<Rightarrow> dstack_error option" where
  "classifyError status raw body =
     (if 200 \<le> status \<and> status < 300 then None
      else (let (k, m) = classifyErrorBody status raw body in Some (HTTPError status k m)))"

section \<open>Readiness, endpoint and price (probes.go)\<close>

record jobProvisioningDataWire =
  jp_Hostname :: string
  jp_SSHPort :: int
  jp_Username :: string
  jp_Price :: float64
  jp_SSHProxy :: "json option"
  jp_Dockerized :: bool

record jobSubmissionWire =
  js_SubmittedAt :: gotime
  js_DeploymentNum :: int
  js_Status :: string
  js_StatusMessage :: string
  js_TerminationReason :: string
  js_TerminationReasonMessage :: string
  js_Error :: string
  js_Probes :: "int list"
  js_JobProvisioningData :: "jobProvisioningDataWire option"

record jobWire =
  jw_JobSubmissions :: "jobSubmissionWire list"
  jw_ServicePort :: "int option"

definition finishedJobStatuses :: "string list" where
  "finishedJobStatuses = [''terminated'', ''failed'', ''done'', ''aborted'']"

definition sub_skipped :: "int \<Rightarrow> jobSubmissionWire \<Rightarrow> bool" where
  "sub_skipped deploymentNum s \<longleftrightarrow>
     js_DeploymentNum s \<noteq> deploymentNum \<or> js_Status s \<in> set finishedJobStatuses"

fun price_of_subs :: "int \<Rightarrow> jobSubmissionWire list \<Rightarrow> float64 option" where
  "price_of_subs n [] = None"
| "price_of_subs n (s # ss) =
     (if sub_skipped n s then price_of_subs n ss
      else case js_JobProvisioningData s of
             Some p \<Rightarrow> if f_gt_zero (jp_Price p) then Some (jp_Price p) else price_of_subs n ss
           | None \<Rightarrow> price_of_subs n ss)"

fun replicaPricePerHour :: "jobWire list \<Rightarrow> int \<Rightarrow> float64" where
  "replicaPricePerHour [] n = F_Fin 0 0"
| "replicaPricePerHour (j # js) n =
     (case price_of_subs n (jw_JobSubmissions j) of
        Some p \<Rightarrow> p | None \<Rightarrow> replicaPricePerHour js n)"

fun endpoint_of_subs :: "int \<Rightarrow> int \<Rightarrow> jobSubmissionWire list \<Rightarrow> ReplicaEndpoint option" where
  "endpoint_of_subs port n [] = None"
| "endpoint_of_subs port n (s # ss) =
     (if sub_skipped n s then endpoint_of_subs port n ss
      else case js_JobProvisioningData s of
             None \<Rightarrow> endpoint_of_subs port n ss
           | Some p \<Rightarrow>
               if jp_Hostname p = [] \<or> jp_SSHPort p \<le> 0 \<or> jp_Username p = []
               then endpoint_of_subs port n ss
               else if jp_Dockerized p \<or> jp_SSHProxy p \<noteq> None \<and> jp_SSHProxy p \<noteq> Some JNull
               then endpoint_of_subs port n ss
               else Some \<lparr>re_Host = jp_Hostname p, re_SSHPort = jp_SSHPort p,
                          re_User = jp_Username p, re_ServicePort = port\<rparr>)"

fun replicaEndpoint :: "jobWire list \<Rightarrow> int \<Rightarrow> ReplicaEndpoint option" where
  "replicaEndpoint [] n = None"
| "replicaEndpoint (j # js) n =
     (case jw_ServicePort j of
        None \<Rightarrow> replicaEndpoint js n
      | Some port \<Rightarrow>
          if port \<le> 0 then replicaEndpoint js n
          else case endpoint_of_subs port n (jw_JobSubmissions j) of
                 Some e \<Rightarrow> Some e | None \<Rightarrow> replicaEndpoint js n)"

text \<open>
  The two nested loops of \<open>probesReady\<close>: \<open>None\<close> is the early \<open>return false\<close>, \<open>Some live\<close> the
  count so far.
\<close>

fun probes_subs :: "int \<Rightarrow> int \<Rightarrow> jobSubmissionWire list \<Rightarrow> nat \<Rightarrow> nat option" where
  "probes_subs n readyAfter [] live = Some live"
| "probes_subs n readyAfter (s # ss) live =
     (if sub_skipped n s then probes_subs n readyAfter ss live
      else if js_Probes s = [] then None
      else if list_ex (\<lambda>streak. streak < readyAfter) (js_Probes s) then None
      else probes_subs n readyAfter ss (Suc live))"

fun probes_jobs :: "int \<Rightarrow> int \<Rightarrow> jobWire list \<Rightarrow> nat \<Rightarrow> nat option" where
  "probes_jobs n readyAfter [] live = Some live"
| "probes_jobs n readyAfter (j # js) live =
     (case probes_subs n readyAfter (jw_JobSubmissions j) live of
        None \<Rightarrow> None | Some live' \<Rightarrow> probes_jobs n readyAfter js live')"

definition probesReady :: "jobWire list \<Rightarrow> int \<Rightarrow> int \<Rightarrow> bool" where
  "probesReady jobs deploymentNum readyAfter =
     (if readyAfter < 1 then False
      else case probes_jobs deploymentNum readyAfter jobs 0 of
             None \<Rightarrow> False | Some live \<Rightarrow> 0 < live)"

section \<open>Durations on the wire (wire.go)\<close>

definition defaultReadyAfter :: int where "defaultReadyAfter = 2"
definition defaultProbePath :: string where "defaultProbePath = ''/health''"
definition probeIntervalSeconds :: int where "probeIntervalSeconds = 5"

definition dstackDuration :: "duration \<Rightarrow> string" where
  "dstackDuration d = (if d \<le> 0 then [] else Itoa (go_div d Second) @ ''s'')"

definition dstackSeconds :: "duration \<Rightarrow> int" where
  "dstackSeconds d = (let d = (if d < 0 then 0 else d) in go_div d Second)"

definition dstackSecondsPtr :: "duration option \<Rightarrow> int option" where
  "dstackSecondsPtr d = (case d of None \<Rightarrow> None | Some x \<Rightarrow> Some (dstackSeconds x))"

definition wireSecondsPtr :: "int option \<Rightarrow> duration option" where
  "wireSecondsPtr v = (case v of None \<Rightarrow> None | Some x \<Rightarrow> Some (wrap64 (x * Second)))"

definition wireSeconds :: "int option \<Rightarrow> duration" where
  "wireSeconds v = (case v of None \<Rightarrow> 0 | Some x \<Rightarrow> wrap64 (x * Second))"

section \<open>Decoding a run (http.go, wire.go)\<close>

record probeConfigWire =
  pw_Type :: string
  pw_URL :: string
  pw_Method :: string
  pw_Timeout :: int
  pw_Interval :: int
  pw_ReadyAfter :: int

record runWire =
  rw_ID :: string
  rw_SubmittedAt :: gotime
  rw_Status :: string
  rw_StatusMessage :: string
  rw_TerminationReason :: string
  rw_Error :: string
  rw_DeploymentNum :: int
  rw_Jobs :: "jobWire list"
  rw_LatestJobSubmission :: "jobSubmissionWire option"
  rw_Service :: "string option"
  rw_RunName :: string
  rw_ReplicasMin :: int
  rw_ReplicasMax :: int
  rw_IdleDuration :: "int option"
  rw_MaxDuration :: "int option"
  rw_Probes :: "probeConfigWire list"
  rw_Env :: "string gomap"
  rw_SSHKeyPub :: string

definition serviceURL :: "string option \<Rightarrow> string" where
  "serviceURL s = (case s of None \<Rightarrow> [] | Some u \<Rightarrow> u)"

fun first_ready_after :: "probeConfigWire list \<Rightarrow> int" where
  "first_ready_after [] = defaultReadyAfter"
| "first_ready_after (p # ps) =
     (if 0 < pw_ReadyAfter p then pw_ReadyAfter p else first_ready_after ps)"

definition echoedReadyAfter :: "runWire \<Rightarrow> int" where
  "echoedReadyAfter w = first_ready_after (rw_Probes w)"

definition decodeProvisioningFailure :: "runWire \<Rightarrow> ProvisioningFailure option" where
  "decodeProvisioningFailure w =
     (if rw_Status w \<notin> set finishedRunStatuses then None
      else
        let reason = rw_TerminationReason w;
            message = (if rw_StatusMessage w = [] then rw_Error w else rw_StatusMessage w);
            (reason, message) =
              (case rw_LatestJobSubmission w of
                 None \<Rightarrow> (reason, message)
               | Some s \<Rightarrow>
                   (if js_TerminationReason s \<noteq> [] then js_TerminationReason s else reason,
                    case List.find (\<lambda>c. c \<noteq> [])
                           [js_TerminationReasonMessage s, js_StatusMessage s, js_Error s] of
                      Some c \<Rightarrow> c | None \<Rightarrow> message))
        in if reason = [] \<and> message = [] then None
           else Some \<lparr>pf_RunID = rw_ID w, pf_Reason = reason, pf_Message = message\<rparr>)"

text \<open>Unmarshalling a run, one decoder per struct.\<close>

definition decode_probeConfigWire :: "json \<Rightarrow> probeConfigWire option" where
  "decode_probeConfigWire j = do {
     o1 \<leftarrow> json_fields (Some j);
     ty \<leftarrow> json_string (json_field o1 ''type'');
     url \<leftarrow> json_string (json_field o1 ''url'');
     meth \<leftarrow> json_string (json_field o1 ''method'');
     tmo \<leftarrow> json_int (json_field o1 ''timeout'');
     itv \<leftarrow> json_int (json_field o1 ''interval'');
     ra \<leftarrow> json_int (json_field o1 ''ready_after'');
     Some \<lparr>pw_Type = ty, pw_URL = url, pw_Method = meth, pw_Timeout = tmo, pw_Interval = itv,
           pw_ReadyAfter = ra\<rparr> }"

definition decode_provisioning :: "json option \<Rightarrow> jobProvisioningDataWire option" where
  "decode_provisioning j = do {
     o1 \<leftarrow> json_fields j;
     host \<leftarrow> json_string (json_field o1 ''hostname'');
     port \<leftarrow> json_int (json_field o1 ''ssh_port'');
     user \<leftarrow> json_string (json_field o1 ''username'');
     price \<leftarrow> json_float (json_field o1 ''price'');
     dockerized \<leftarrow> json_bool (json_field o1 ''dockerized'');
     Some \<lparr>jp_Hostname = host, jp_SSHPort = port, jp_Username = user, jp_Price = price,
           jp_SSHProxy = json_field o1 ''ssh_proxy'', jp_Dockerized = dockerized\<rparr> }"

definition decode_streak :: "json \<Rightarrow> int option" where
  "decode_streak j = do {
     o1 \<leftarrow> json_fields (Some j);
     json_int (json_field o1 ''success_streak'') }"

definition decode_submission :: "json option \<Rightarrow> jobSubmissionWire option" where
  "decode_submission j = do {
     o1 \<leftarrow> json_fields j;
     at \<leftarrow> json_time (json_field o1 ''submitted_at'');
     n \<leftarrow> json_int (json_field o1 ''deployment_num'');
     st \<leftarrow> json_string (json_field o1 ''status'');
     sm \<leftarrow> json_string (json_field o1 ''status_message'');
     tr \<leftarrow> json_string (json_field o1 ''termination_reason'');
     tm \<leftarrow> json_string (json_field o1 ''termination_reason_message'');
     er \<leftarrow> json_string (json_field o1 ''error'');
     pr \<leftarrow> json_list decode_streak (json_field o1 ''probes'');
     jp \<leftarrow> json_ptr decode_provisioning (json_field o1 ''job_provisioning_data'');
     Some \<lparr>js_SubmittedAt = at, js_DeploymentNum = n, js_Status = st, js_StatusMessage = sm,
           js_TerminationReason = tr, js_TerminationReasonMessage = tm, js_Error = er,
           js_Probes = pr, js_JobProvisioningData = jp\<rparr> }"

definition decode_service_port :: "json option \<Rightarrow> int option" where
  "decode_service_port j = do {
     o1 \<leftarrow> json_fields j;
     json_int (json_field o1 ''service_port'') }"

definition decode_job :: "json \<Rightarrow> jobWire option" where
  "decode_job j = do {
     o1 \<leftarrow> json_fields (Some j);
     subs \<leftarrow> json_list (\<lambda>x. decode_submission (Some x)) (json_field o1 ''job_submissions'');
     port \<leftarrow> json_ptr decode_service_port (json_field o1 ''job_spec'');
     Some \<lparr>jw_JobSubmissions = subs, jw_ServicePort = port\<rparr> }"

definition decode_service_url :: "json option \<Rightarrow> string option" where
  "decode_service_url j = do {
     o1 \<leftarrow> json_fields j;
     json_string (json_field o1 ''url'') }"

definition decode_runWire :: "json \<Rightarrow> runWire option" where
  "decode_runWire j = do {
     o1 \<leftarrow> json_fields (Some j);
     ident \<leftarrow> json_string (json_field o1 ''id'');
     at \<leftarrow> json_time (json_field o1 ''submitted_at'');
     st \<leftarrow> json_string (json_field o1 ''status'');
     sm \<leftarrow> json_string (json_field o1 ''status_message'');
     tr \<leftarrow> json_string (json_field o1 ''termination_reason'');
     er \<leftarrow> json_string (json_field o1 ''error'');
     n \<leftarrow> json_int (json_field o1 ''deployment_num'');
     jobs \<leftarrow> json_list decode_job (json_field o1 ''jobs'');
     latest \<leftarrow> json_ptr decode_submission (json_field o1 ''latest_job_submission'');
     svc \<leftarrow> json_ptr decode_service_url (json_field o1 ''service'');
     spec \<leftarrow> json_fields (json_field o1 ''run_spec'');
     name \<leftarrow> json_string (json_field spec ''run_name'');
     key \<leftarrow> json_string (json_field spec ''ssh_key_pub'');
     cfg \<leftarrow> json_fields (json_field spec ''configuration'');
     reps \<leftarrow> json_fields (json_field cfg ''replicas'');
     rmin \<leftarrow> json_int (json_field reps ''min'');
     rmax \<leftarrow> json_int (json_field reps ''max'');
     idle \<leftarrow> json_ptr json_int (json_field cfg ''idle_duration'');
     maxd \<leftarrow> json_ptr json_int (json_field cfg ''max_duration'');
     probes \<leftarrow> json_list decode_probeConfigWire (json_field cfg ''probes'');
     env \<leftarrow> json_string_map (json_field cfg ''env'');
     Some \<lparr>rw_ID = ident, rw_SubmittedAt = at, rw_Status = st, rw_StatusMessage = sm,
           rw_TerminationReason = tr, rw_Error = er, rw_DeploymentNum = n, rw_Jobs = jobs,
           rw_LatestJobSubmission = latest, rw_Service = svc, rw_RunName = name,
           rw_ReplicasMin = rmin, rw_ReplicasMax = rmax, rw_IdleDuration = idle,
           rw_MaxDuration = maxd, rw_Probes = probes, rw_Env = env, rw_SSHKeyPub = key\<rparr> }"

definition run_of_wire :: "json \<Rightarrow> runWire \<Rightarrow> Run" where
  "run_of_wire body w =
     \<lparr>run_Name = rw_RunName w, run_RunID = rw_ID w, run_DeploymentNum = rw_DeploymentNum w,
      run_Replicas = rw_ReplicasMin w,
      run_Replica = replicaEndpoint (rw_Jobs w) (rw_DeploymentNum w),
      run_ServiceURL = serviceURL (rw_Service w),
      run_PricePerHour = replicaPricePerHour (rw_Jobs w) (rw_DeploymentNum w),
      run_ProbesReady = probesReady (rw_Jobs w) (rw_DeploymentNum w) (echoedReadyAfter w),
      run_Env = rw_Env w, run_IdleDuration = wireSecondsPtr (rw_IdleDuration w),
      run_MaxDuration = wireSeconds (rw_MaxDuration w), run_SSHKeyPub = rw_SSHKeyPub w,
      run_Status = rw_Status w, run_SubmittedAt = rw_SubmittedAt w,
      run_ProvisioningFailure = decodeProvisioningFailure w, run_raw = body\<rparr>"

text \<open>\<open>None\<close> is a body that is not JSON; the whole body is kept as the anchor of a later Apply.\<close>

definition decodeRun :: "json option \<Rightarrow> dstack_error + Run" where
  "decodeRun body =
     (case body of
        None \<Rightarrow> Inl (OtherError ''dstack: decode run'')
      | Some j \<Rightarrow>
          (case decode_runWire j of
             None \<Rightarrow> Inl (OtherError ''dstack: decode run'')
           | Some w \<Rightarrow> Inr (run_of_wire j w)))"

definition sample_run :: Run where
  "sample_run =
     \<lparr>run_Name = ''squall-qwen'', run_RunID = ''r1'', run_DeploymentNum = 0, run_Replicas = 1,
      run_Replica = None, run_ServiceURL = [], run_PricePerHour = F_Fin 0 0,
      run_ProbesReady = True, run_Env = [], run_IdleDuration = None, run_MaxDuration = 0,
      run_SSHKeyPub = [], run_Status = ''running'', run_SubmittedAt = 0,
      run_ProvisioningFailure = None, run_raw = JNull\<rparr>"

section \<open>Properties\<close>

text \<open>The submissions that count: those of the current deployment whose job has not finished.\<close>

definition live_subs :: "int \<Rightarrow> jobWire list \<Rightarrow> jobSubmissionWire list" where
  "live_subs n jobs = filter (\<lambda>s. \<not> sub_skipped n s) (concat (map jw_JobSubmissions jobs))"

definition sub_probes_pass :: "int \<Rightarrow> jobSubmissionWire \<Rightarrow> bool" where
  "sub_probes_pass readyAfter s \<longleftrightarrow> js_Probes s \<noteq> [] \<and> (\<forall>streak\<in>set (js_Probes s). readyAfter \<le> streak)"

lemma sub_probes_pass_alt:
  "sub_probes_pass ra s \<longleftrightarrow> \<not> (js_Probes s = [] \<or> list_ex (\<lambda>streak. streak < ra) (js_Probes s))"
  by (auto simp: sub_probes_pass_def list_ex_iff not_le [symmetric])

lemma probes_subs_step:
  "probes_subs n ra (s # ss) live =
     (if sub_skipped n s then probes_subs n ra ss live
      else if sub_probes_pass ra s then probes_subs n ra ss (Suc live) else None)"
  by (simp add: sub_probes_pass_alt)

lemma probes_subs_eq:
  "probes_subs n ra ss live =
     (if \<forall>s\<in>set ss. \<not> sub_skipped n s \<longrightarrow> sub_probes_pass ra s
      then Some (live + length (filter (\<lambda>s. \<not> sub_skipped n s) ss)) else None)"
  by (induction ss arbitrary: live) (auto simp: probes_subs_step simp del: probes_subs.simps(2))

lemma probes_jobs_eq:
  "probes_jobs n ra jobs live =
     (if \<forall>s\<in>set (live_subs n jobs). sub_probes_pass ra s
      then Some (live + length (live_subs n jobs)) else None)"
  by (induction jobs arbitrary: live) (auto simp: probes_subs_eq live_subs_def)

text \<open>
  Readiness is every probe of every live submission: with a sane threshold \<open>probesReady\<close> holds
  exactly when the current deployment has at least one submission that is not finished, and each
  such submission reports at least one probe and every probe's success streak reaches
  \<open>readyAfter\<close>. Submissions of older deployments and finished ones never count.
\<close>

theorem probesReady_iff:
  "probesReady jobs n ra \<longleftrightarrow>
     1 \<le> ra \<and> live_subs n jobs \<noteq> [] \<and> (\<forall>s\<in>set (live_subs n jobs). sub_probes_pass ra s)"
  by (auto simp: probesReady_def probes_jobs_eq)

definition sample_sub :: jobSubmissionWire where
  "sample_sub =
     \<lparr>js_SubmittedAt = 1, js_DeploymentNum = 2, js_Status = ''running'', js_StatusMessage = [],
      js_TerminationReason = [], js_TerminationReasonMessage = [], js_Error = [],
      js_Probes = [3],
      js_JobProvisioningData = Some \<lparr>jp_Hostname = ''h'', jp_SSHPort = 22, jp_Username = ''root'',
        jp_Price = F_Fin 1 0, jp_SSHProxy = Some JNull, jp_Dockerized = False\<rparr>\<rparr>"

theorem probesReady_iff_witness:
  "probesReady [\<lparr>jw_JobSubmissions = [sample_sub], jw_ServicePort = Some 8000\<rparr>] 2 2 \<and>
   \<not> probesReady [\<lparr>jw_JobSubmissions = [sample_sub], jw_ServicePort = Some 8000\<rparr>] 3 2"
  by (simp add: probesReady_iff live_subs_def sub_probes_pass_def sub_skipped_def sample_sub_def
      finishedJobStatuses_def)

definition direct_endpoint :: "int \<Rightarrow> jobProvisioningDataWire \<Rightarrow> ReplicaEndpoint" where
  "direct_endpoint port p =
     \<lparr>re_Host = jp_Hostname p, re_SSHPort = jp_SSHPort p, re_User = jp_Username p,
      re_ServicePort = port\<rparr>"

definition directly_reachable :: "jobProvisioningDataWire \<Rightarrow> bool" where
  "directly_reachable p \<longleftrightarrow>
     jp_Hostname p \<noteq> [] \<and> 0 < jp_SSHPort p \<and> jp_Username p \<noteq> [] \<and> \<not> jp_Dockerized p \<and>
     (jp_SSHProxy p = None \<or> jp_SSHProxy p = Some JNull)"

text \<open>The candidates in the order of the loops; the first one is the endpoint.\<close>

definition endpoint_candidates :: "int \<Rightarrow> jobWire list \<Rightarrow> ReplicaEndpoint list" where
  "endpoint_candidates n jobs =
     concat (map (\<lambda>j. case jw_ServicePort j of
        None \<Rightarrow> []
      | Some port \<Rightarrow> if port \<le> 0 then [] else
          concat (map (\<lambda>s. case js_JobProvisioningData s of
             None \<Rightarrow> []
           | Some p \<Rightarrow> if \<not> sub_skipped n s \<and> directly_reachable p then [direct_endpoint port p] else [])
            (jw_JobSubmissions j))) jobs)"

lemma endpoint_of_subs_eq:
  "endpoint_of_subs port n ss =
     head_option (concat (map (\<lambda>s. case js_JobProvisioningData s of
             None \<Rightarrow> []
           | Some p \<Rightarrow> if \<not> sub_skipped n s \<and> directly_reachable p then [direct_endpoint port p] else []) ss))"
  by (induction ss) (auto simp: directly_reachable_def direct_endpoint_def split: option.split)

text \<open>
  The direct endpoint is the first reachable one: \<open>replicaEndpoint\<close> returns the first live
  submission of the current deployment that carries a host, an SSH port and a user, is neither
  dockerized nor behind an SSH proxy, and belongs to a job with a positive service port; it
  returns none exactly when there is no such submission.
\<close>

theorem replicaEndpoint_first: "replicaEndpoint jobs n = head_option (endpoint_candidates n jobs)"
  by (induction jobs) (auto simp: endpoint_candidates_def endpoint_of_subs_eq split: option.split)

lemma classify_details_not_found:
  "classify_details ds = Some (ErrNotFound, m) \<Longrightarrow> \<exists>d\<in>set ds. ed_Code d = resourceNotExistsCode"
  by (induction ds) (auto split: if_splits)

lemma classify_details_changed:
  "classify_details ds = Some (ErrResourceChanged, m) \<Longrightarrow>
     \<exists>d\<in>set ds. Contains (ToLower (ed_Msg d)) resourceChangedMarker"
  by (induction ds) (auto split: if_splits)

lemma classify_details_override:
  "classify_details ds = Some (ErrCannotOverride, m) \<Longrightarrow>
     \<exists>d\<in>set ds. Contains (ToLower (ed_Msg d)) cannotOverrideMarker"
  by (induction ds) (auto split: if_splits)

lemma classify_details_kinds:
  "classify_details ds = Some (k, m) \<Longrightarrow> k \<in> {ErrNotFound, ErrResourceChanged, ErrCannotOverride}"
  by (induction ds) (auto split: if_splits)

text \<open>
  Errors are classified by what the server says, never by the bare status. Not-found needs
  the code \<open>resource_not_exists\<close> in the body, a conflict and an override refusal need their
  message, unauthorized needs 401 or 403, and a success status is no error.
\<close>

theorem classifyError_sound:
  assumes "classifyError status raw body = Some err"
  shows "(status < 200 \<or> 300 \<le> status) \<and>
    (err_is err ErrNotFound \<longrightarrow> (\<exists>d\<in>set (parseDetails body). ed_Code d = resourceNotExistsCode)) \<and>
    (err_is err ErrResourceChanged \<longrightarrow>
      (\<exists>d\<in>set (parseDetails body). Contains (ToLower (ed_Msg d)) resourceChangedMarker)) \<and>
    (err_is err ErrCannotOverride \<longrightarrow>
      (\<exists>d\<in>set (parseDetails body). Contains (ToLower (ed_Msg d)) cannotOverrideMarker)) \<and>
    (err_is err ErrUnauthorized \<longrightarrow> status \<in> {401, 403})"
  using assms
  by (auto simp: classifyError_def classifyErrorBody_def Let_def
      dest: classify_details_not_found classify_details_changed classify_details_override
        classify_details_kinds
      split: if_splits option.splits prod.splits)

theorem classifyError_sound_witness:
  "classifyError 404 ''gone'' None = Some (HTTPError 404 ErrPlain ''gone'') \<and>
   \<not> err_is (HTTPError 404 ErrPlain ''gone'') ErrNotFound"
proof -
  have "classifyError 404 ''gone'' None = Some (HTTPError 404 ErrPlain ''gone'')"
    by (simp add: classifyError_def classifyErrorBody_def parseDetails_def summarise_def)
  with classifyError_sound [OF this] show ?thesis by (auto simp: parseDetails_def)
qed

text \<open>
  Durations survive the wire: a whole number of seconds (at least zero) sent as
  \<open>idle_duration\<close> is read back unchanged, and the unset pointer stays unset, so that an explicit
  zero is never confused with no value.
\<close>

theorem wire_seconds_roundtrip:
  assumes "case d of None \<Rightarrow> True | Some x \<Rightarrow> 0 \<le> x \<and> x \<le> maxDuration \<and> Second dvd x"
  shows "wireSecondsPtr (dstackSecondsPtr d) = d"
proof (cases d)
  case (Some x)
  with assms have "0 \<le> x" "x \<le> maxDuration" "x div Second * Second = x" by auto
  then show ?thesis
    using Some by (simp add: wireSecondsPtr_def dstackSecondsPtr_def dstackSeconds_def go_div_nonneg
        wrap64_id is_duration_def minDuration_def)
qed (simp add: wireSecondsPtr_def dstackSecondsPtr_def)

theorem wire_seconds_roundtrip_witness:
  "wireSecondsPtr (dstackSecondsPtr (Some (5 * Minute))) = Some (5 * Minute)"
  by (rule wire_seconds_roundtrip) (simp add: maxDuration_def)

end
