(* ===== verification/Squall_Phase.thy ===== *)
theory Squall_Phase
  imports Squall_Dstack
begin

text \<open>
  The phase state machine of \<open>internal/controller/squall/phase.go\<close>: \<open>Decide\<close> as a pure function
  of the observation, the last status, the spec, the demand bit and the time, with the four
  deadlines it consults. Kubernetes' \<open>meta.FindStatusCondition\<close> enters as a \<open>meta_api\<close>.
\<close>

section \<open>Observation and action\<close>

record ActivityEvidence =
  ev_Complete :: bool
  ev_AllIdle :: bool
  ev_AnyData :: bool
  ev_NewestLastRequestAt :: gotime
  ev_NewestLastSuccessAt :: gotime
  ev_FailuresSinceSuccess :: int

record Observed =
  ob_Run :: "Run option"
  ob_ProvisioningFailure :: "ProvisioningFailure option"
  ob_Ready :: bool
  ob_Activity :: "ActivityEvidence option"

record Action =
  ac_Apply :: bool
  ac_Current :: "Run option"
  ac_Replicas :: int
  ac_Alarm :: bool
  ac_Unhealthy :: bool
  ac_Uncontrolled :: bool
  ac_ProvisioningTimedOut :: bool
  ac_At :: gotime
  ac_Throttled :: bool
  ac_ThrottledUntil :: gotime

text \<open>A composite literal \<open>Action{At: now}\<close>: every other field has its zero value.\<close>

definition action_at :: "gotime \<Rightarrow> Action" where
  "action_at now =
     \<lparr>ac_Apply = False, ac_Current = None, ac_Replicas = 0, ac_Alarm = False,
      ac_Unhealthy = False, ac_Uncontrolled = False, ac_ProvisioningTimedOut = False,
      ac_At = now, ac_Throttled = False, ac_ThrottledUntil = 0\<rparr>"

section \<open>Deadlines\<close>

definition DefaultUncontrolledGrace :: duration where
  "DefaultUncontrolledGrace = 15 * Minute"

definition MaxUncontrolledTimeout :: duration where
  "MaxUncontrolledTimeout = 2 * Hour"

definition MaxExplicitUncontrolledTimeout :: duration where
  "MaxExplicitUncontrolledTimeout = 24 * Hour"

definition MinHardStop :: duration where
  "MinHardStop = Hour"

definition MinIdleTimeout :: duration where
  "MinIdleTimeout = Minute"

definition ProvisioningRetryBackoff :: duration where
  "ProvisioningRetryBackoff = Minute"

definition DefaultUnhealthyFailureThreshold :: int where
  "DefaultUnhealthyFailureThreshold = 3"

definition backoffReasons :: "string list" where
  "backoffReasons = [ReasonNoCapacity, ReasonInsufficientCredit, ReasonBackendRateLimited]"

lemmas deadline_consts = DefaultUncontrolledGrace_def MaxUncontrolledTimeout_def
  MaxExplicitUncontrolledTimeout_def MinHardStop_def MinIdleTimeout_def
  ProvisioningRetryBackoff_def DefaultUnhealthyFailureThreshold_def

definition provisioningBackoff :: "meta_api \<Rightarrow> ModelStatus \<Rightarrow> gotime \<Rightarrow> gotime \<times> bool" where
  "provisioningBackoff M prior now =
     (case m_Find M (st_Conditions prior) ConditionProvisioning of
        None \<Rightarrow> (0, False)
      | Some cond \<Rightarrow>
          if cond_Status cond \<noteq> CondFalse then (0, False)
          else if cond_Reason cond \<notin> set backoffReasons then (0, False)
          else if isZero (cond_LastTransitionTime cond) then (0, False)
          else (let next = cond_LastTransitionTime cond + ProvisioningRetryBackoff
                in if now < next then (next, True) else (0, False)))"

text \<open>\<open>4*spec.IdleTimeout.Duration + DefaultUncontrolledGrace\<close> is \<open>int64\<close> arithmetic and wraps.\<close>

definition uncontrolledTimeoutFor :: "ModelSpec \<Rightarrow> duration" where
  "uncontrolledTimeoutFor spec =
     (case sp_UncontrolledTimeout spec of
        Some d \<Rightarrow>
          if 0 < d
          then (if MaxExplicitUncontrolledTimeout < d then MaxExplicitUncontrolledTimeout else d)
          else (let d' = wrap64 (4 * sp_IdleTimeout spec + DefaultUncontrolledGrace)
                in if MaxUncontrolledTimeout < d' then MaxUncontrolledTimeout else d')
      | None \<Rightarrow>
          (let d' = wrap64 (4 * sp_IdleTimeout spec + DefaultUncontrolledGrace)
           in if MaxUncontrolledTimeout < d' then MaxUncontrolledTimeout else d'))"

definition uncontrolledDue :: "gotime option \<Rightarrow> duration \<Rightarrow> bool \<Rightarrow> gotime \<Rightarrow> bool" where
  "uncontrolledDue since timeout hasDemand now \<longleftrightarrow>
     \<not> hasDemand \<and> 0 < timeout \<and>
     (case since of None \<Rightarrow> False | Some t \<Rightarrow> \<not> isZero t \<and> timeout < time_sub now t)"

definition provisioningDue :: "gotime option \<Rightarrow> bool \<Rightarrow> duration \<Rightarrow> gotime \<Rightarrow> bool" where
  "provisioningDue wakeStartedAt ready timeout now =
     (case wakeStartedAt of
        None \<Rightarrow> False
      | Some t \<Rightarrow>
          if ready \<or> timeout \<le> 0 \<or> isZero t then False else timeout < time_sub now t)"

definition sleepDue ::
  "ActivityEvidence option \<Rightarrow> gotime option \<Rightarrow> duration \<Rightarrow> gotime \<Rightarrow> bool" where
  "sleepDue activity durableLastRequestAt idleTimeout now =
     (case activity of
        None \<Rightarrow> False
      | Some a \<Rightarrow>
          if \<not> ev_Complete a \<or> \<not> ev_AllIdle a then False
          else if \<not> ev_AnyData a \<and> isZero (ev_NewestLastRequestAt a)
          then (case durableLastRequestAt of
                  None \<Rightarrow> False
                | Some t \<Rightarrow> if isZero t then False else idleTimeout < time_sub now t)
          else idleTimeout < time_sub now (ev_NewestLastRequestAt a))"

definition unhealthyDue ::
  "ActivityEvidence option \<Rightarrow> bool \<Rightarrow> gotime option \<Rightarrow> duration \<Rightarrow> int \<Rightarrow> duration \<Rightarrow> gotime \<Rightarrow> bool" where
  "unhealthyDue activity ready wakeStartedAt unhealthyAfter failureThreshold idleTimeout now =
     (if \<not> ready \<or> unhealthyAfter \<le> 0 then False
      else case activity of
        None \<Rightarrow> False
      | Some a \<Rightarrow>
          if \<not> ev_Complete a then False
          else if idleTimeout < time_sub now (ev_NewestLastRequestAt a) then False
          else
            let threshold = (if failureThreshold \<le> 0 then DefaultUnhealthyFailureThreshold
                             else failureThreshold)
            in if ev_FailuresSinceSuccess a < threshold then False
               else
                 let anchor = (case wakeStartedAt of
                                 Some w \<Rightarrow> if ev_NewestLastSuccessAt a < w then w
                                           else ev_NewestLastSuccessAt a
                               | None \<Rightarrow> ev_NewestLastSuccessAt a)
                 in if isZero anchor then False else unhealthyAfter < time_sub now anchor)"

section \<open>Decide\<close>

definition Decide ::
  "meta_api \<Rightarrow> Observed \<Rightarrow> ModelStatus \<Rightarrow> ModelSpec \<Rightarrow> bool \<Rightarrow> gotime \<Rightarrow> ModelPhase \<times> Action" where
  "Decide M observed prior spec hasDemand now =
     (let wantAwake = (sp_MinReplicas spec = 1 \<or> hasDemand) in
      case ob_Run observed of
        None \<Rightarrow>
          (let died = (st_RunID prior \<noteq> []) in
           if \<not> wantAwake
           then (if died then (Dead, (action_at now)\<lparr>ac_Alarm := True\<rparr>)
                 else (Asleep, action_at now))
           else
             let phase = (if died then Recreating else Waking);
                 (throttledUntil, throttled) = provisioningBackoff M prior now
             in if throttled
                then (phase, (action_at now)\<lparr>ac_Throttled := True, ac_ThrottledUntil := throttledUntil\<rparr>)
                else (phase, (action_at now)\<lparr>ac_Apply := True, ac_Replicas := 1, ac_Alarm := died\<rparr>))
      | Some run \<Rightarrow>
          if run_Replicas run = 0
          then (if \<not> wantAwake then (Asleep, action_at now)
                else (Waking, (action_at now)\<lparr>ac_Apply := True, ac_Replicas := 1, ac_Current := Some run\<rparr>))
          else if provisioningDue (st_WakeStartedAt prior) (ob_Ready observed) (sp_ProvisioningTimeout spec) now
          then (Dead, (action_at now)\<lparr>ac_Apply := True, ac_Replicas := 0, ac_Current := Some run,
                        ac_Alarm := True, ac_ProvisioningTimedOut := True\<rparr>)
          else if sp_MinReplicas spec = 0 \<and>
                  sleepDue (ob_Activity observed) (st_LastRequestAt prior) (sp_IdleTimeout spec) now
          then (Asleep, (action_at now)\<lparr>ac_Apply := True, ac_Replicas := 0, ac_Current := Some run\<rparr>)
          else if sp_MinReplicas spec = 0 \<and>
                  unhealthyDue (ob_Activity observed) (ob_Ready observed) (st_WakeStartedAt prior)
                    (mh_UnhealthyAfter (sp_Health spec)) (mh_FailureThreshold (sp_Health spec))
                    (sp_IdleTimeout spec) now
          then (Asleep, (action_at now)\<lparr>ac_Apply := True, ac_Replicas := 0, ac_Current := Some run,
                          ac_Unhealthy := True\<rparr>)
          else if sp_MinReplicas spec = 0 \<and>
                  uncontrolledDue (st_UncontrolledSince prior) (uncontrolledTimeoutFor spec) hasDemand now
          then (Asleep, (action_at now)\<lparr>ac_Apply := True, ac_Replicas := 0, ac_Current := Some run,
                          ac_Uncontrolled := True\<rparr>)
          else if ob_Ready observed then (Ready, (action_at now)\<lparr>ac_Replicas := 1\<rparr>)
          else if st_Phase prior = Recreating then (Recreating, (action_at now)\<lparr>ac_Replicas := 1\<rparr>)
          else (Waking, (action_at now)\<lparr>ac_Replicas := 1\<rparr>))"


section \<open>Characteristic equations\<close>

lemma action_at_simps [simp]:
  "ac_Apply (action_at now) = False" "ac_Current (action_at now) = None"
  "ac_Replicas (action_at now) = 0" "ac_Alarm (action_at now) = False"
  "ac_Unhealthy (action_at now) = False" "ac_Uncontrolled (action_at now) = False"
  "ac_ProvisioningTimedOut (action_at now) = False" "ac_At (action_at now) = now"
  "ac_Throttled (action_at now) = False" "ac_ThrottledUntil (action_at now) = 0"
  by (simp_all add: action_at_def)

text \<open>The instant the idle clock counts from, when the evidence has one.\<close>

definition idle_anchor :: "ActivityEvidence \<Rightarrow> gotime option \<Rightarrow> gotime option" where
  "idle_anchor e durable =
     (if ev_AnyData e \<or> ev_NewestLastRequestAt e \<noteq> 0 then Some (ev_NewestLastRequestAt e)
      else case durable of Some t \<Rightarrow> if t = 0 then None else Some t | None \<Rightarrow> None)"

text \<open>The instant the success clock counts from.\<close>

definition success_anchor :: "ActivityEvidence \<Rightarrow> gotime option \<Rightarrow> gotime" where
  "success_anchor e wake =
     (case wake of Some w \<Rightarrow> max w (ev_NewestLastSuccessAt e) | None \<Rightarrow> ev_NewestLastSuccessAt e)"

definition failure_floor :: "int \<Rightarrow> int" where
  "failure_floor n = (if n \<le> 0 then DefaultUnhealthyFailureThreshold else n)"

lemma success_anchor_newer: "ev_NewestLastSuccessAt e \<le> success_anchor e wake"
  by (simp add: success_anchor_def split: option.split)

lemma sleepDue_iff:
  "sleepDue act durable idle now \<longleftrightarrow>
     (\<exists>e t. act = Some e \<and> ev_Complete e \<and> ev_AllIdle e \<and> idle_anchor e durable = Some t \<and>
        idle < time_sub now t)"
  by (auto simp: sleepDue_def idle_anchor_def isZero_def split: option.splits if_splits)

lemma unhealthyDue_iff:
  "unhealthyDue act ready wake after n idle now \<longleftrightarrow>
     ready \<and> 0 < after \<and>
     (\<exists>e. act = Some e \<and> ev_Complete e \<and> time_sub now (ev_NewestLastRequestAt e) \<le> idle \<and>
        failure_floor n \<le> ev_FailuresSinceSuccess e \<and> success_anchor e wake \<noteq> 0 \<and>
        after < time_sub now (success_anchor e wake))"
  by (auto simp: unhealthyDue_def success_anchor_def failure_floor_def isZero_def Let_def max_def
      split: option.splits if_splits)

lemma provisioningDue_iff:
  "provisioningDue wake ready timeout now \<longleftrightarrow>
     \<not> ready \<and> 0 < timeout \<and> (\<exists>w. wake = Some w \<and> w \<noteq> 0 \<and> timeout < time_sub now w)"
  by (auto simp: provisioningDue_def isZero_def split: option.splits)

lemma uncontrolledDue_iff:
  "uncontrolledDue since timeout demand now \<longleftrightarrow>
     \<not> demand \<and> 0 < timeout \<and> (\<exists>t. since = Some t \<and> t \<noteq> 0 \<and> timeout < time_sub now t)"
  by (auto simp: uncontrolledDue_def isZero_def split: option.splits)

lemma provisioningBackoff_iff:
  "snd (provisioningBackoff M prior now) \<longleftrightarrow>
     (\<exists>c. m_Find M (st_Conditions prior) ConditionProvisioning = Some c \<and>
        cond_Status c = CondFalse \<and> cond_Reason c \<in> set backoffReasons \<and>
        cond_LastTransitionTime c \<noteq> 0 \<and>
        now < cond_LastTransitionTime c + ProvisioningRetryBackoff)"
  by (auto simp: provisioningBackoff_def isZero_def Let_def split: option.splits)

lemma failure_floor_pos: "1 \<le> failure_floor n"
  by (simp add: failure_floor_def deadline_consts)

lemmas due_iffs = sleepDue_iff unhealthyDue_iff provisioningDue_iff uncontrolledDue_iff

text \<open>The four reasons for which a running replica may be given up.\<close>

definition scale_down_due :: "Observed \<Rightarrow> ModelStatus \<Rightarrow> ModelSpec \<Rightarrow> bool \<Rightarrow> gotime \<Rightarrow> bool" where
  "scale_down_due ob prior spec demand now \<longleftrightarrow>
     provisioningDue (st_WakeStartedAt prior) (ob_Ready ob) (sp_ProvisioningTimeout spec) now \<or>
     sp_MinReplicas spec = 0 \<and>
       (sleepDue (ob_Activity ob) (st_LastRequestAt prior) (sp_IdleTimeout spec) now \<or>
        unhealthyDue (ob_Activity ob) (ob_Ready ob) (st_WakeStartedAt prior)
          (mh_UnhealthyAfter (sp_Health spec)) (mh_FailureThreshold (sp_Health spec))
          (sp_IdleTimeout spec) now \<or>
        uncontrolledDue (st_UncontrolledSince prior) (uncontrolledTimeoutFor spec) demand now)"

lemma Decide_no_run:
  "ob_Run ob = None \<Longrightarrow>
   Decide M ob prior spec demand now =
     (if sp_MinReplicas spec = 1 \<or> demand
      then (if st_RunID prior \<noteq> [] then Recreating else Waking,
            if snd (provisioningBackoff M prior now)
            then (action_at now)\<lparr>ac_Throttled := True,
                   ac_ThrottledUntil := fst (provisioningBackoff M prior now)\<rparr>
            else (action_at now)\<lparr>ac_Apply := True, ac_Replicas := 1, ac_Alarm := (st_RunID prior \<noteq> [])\<rparr>)
      else if st_RunID prior \<noteq> [] then (Dead, (action_at now)\<lparr>ac_Alarm := True\<rparr>)
      else (Asleep, action_at now))"
  by (auto simp: Decide_def Let_def split: prod.splits)

lemma Decide_asleep:
  "ob_Run ob = Some run \<Longrightarrow> run_Replicas run = 0 \<Longrightarrow>
   Decide M ob prior spec demand now =
     (if sp_MinReplicas spec = 1 \<or> demand
      then (Waking, (action_at now)\<lparr>ac_Apply := True, ac_Replicas := 1, ac_Current := Some run\<rparr>)
      else (Asleep, action_at now))"
  by (simp add: Decide_def Let_def)

lemma Decide_up_kept:
  "ob_Run ob = Some run \<Longrightarrow> run_Replicas run \<noteq> 0 \<Longrightarrow> \<not> scale_down_due ob prior spec demand now \<Longrightarrow>
   Decide M ob prior spec demand now =
     (if ob_Ready ob then Ready else if st_Phase prior = Recreating then Recreating else Waking,
      (action_at now)\<lparr>ac_Replicas := 1\<rparr>)"
  by (auto simp: Decide_def Let_def scale_down_due_def)

lemma Decide_up_given_up:
  assumes "ob_Run ob = Some run" and "run_Replicas run \<noteq> 0" and "scale_down_due ob prior spec demand now"
  shows "ac_Apply (snd (Decide M ob prior spec demand now))"
    and "ac_Replicas (snd (Decide M ob prior spec demand now)) = 0"
    and "ac_Current (snd (Decide M ob prior spec demand now)) = Some run"
    and "ac_Throttled (snd (Decide M ob prior spec demand now)) = False"
    and "fst (Decide M ob prior spec demand now) \<in> {Dead, Asleep}"
  using assms by (auto simp: Decide_def Let_def scale_down_due_def)

lemma backoff_until:
  "snd (provisioningBackoff M prior now) \<Longrightarrow> now < fst (provisioningBackoff M prior now)"
  by (auto simp: provisioningBackoff_def Let_def split: option.splits if_splits)

lemma Decide_At: "ac_At (snd (Decide M ob prior spec demand now)) = now"
  by (simp add: Decide_def Let_def split: option.split prod.split)

lemma Decide_Apply_shape:
  shows "ac_Replicas (snd (Decide M ob prior spec demand now)) \<in> {0, 1}"
    and "ac_Apply (snd (Decide M ob prior spec demand now)) \<Longrightarrow>
       ac_Current (snd (Decide M ob prior spec demand now)) = ob_Run ob"
    and "ac_Apply (snd (Decide M ob prior spec demand now)) \<Longrightarrow>
       ac_Replicas (snd (Decide M ob prior spec demand now)) = 0 \<Longrightarrow> ob_Run ob \<noteq> None"
proof -
  consider "ob_Run ob = None" | run where "ob_Run ob = Some run" "run_Replicas run = 0"
    | run where "ob_Run ob = Some run" "run_Replicas run \<noteq> 0" "scale_down_due ob prior spec demand now"
    | run where "ob_Run ob = Some run" "run_Replicas run \<noteq> 0" "\<not> scale_down_due ob prior spec demand now"
    by (cases "ob_Run ob") blast+
  then have "ac_Replicas (snd (Decide M ob prior spec demand now)) \<in> {0, 1} \<and>
      (ac_Apply (snd (Decide M ob prior spec demand now)) \<longrightarrow>
         ac_Current (snd (Decide M ob prior spec demand now)) = ob_Run ob \<and>
         (ac_Replicas (snd (Decide M ob prior spec demand now)) = 0 \<longrightarrow> ob_Run ob \<noteq> None))"
    by cases (simp_all add: Decide_no_run Decide_asleep Decide_up_kept Decide_up_given_up)
  then show "ac_Replicas (snd (Decide M ob prior spec demand now)) \<in> {0, 1}"
    and "ac_Apply (snd (Decide M ob prior spec demand now)) \<Longrightarrow>
       ac_Current (snd (Decide M ob prior spec demand now)) = ob_Run ob"
    and "ac_Apply (snd (Decide M ob prior spec demand now)) \<Longrightarrow>
       ac_Replicas (snd (Decide M ob prior spec demand now)) = 0 \<Longrightarrow> ob_Run ob \<noteq> None"
    by blast+
qed

lemmas Decide_cases = Decide_no_run Decide_asleep Decide_up_kept Decide_up_given_up

section \<open>Properties\<close>

definition sample_evidence :: ActivityEvidence where
  "sample_evidence =
     \<lparr>ev_Complete = True, ev_AllIdle = True, ev_AnyData = True,
      ev_NewestLastRequestAt = 100 * Minute, ev_NewestLastSuccessAt = 100 * Minute,
      ev_FailuresSinceSuccess = 0\<rparr>"

definition sample_observed :: Observed where
  "sample_observed =
     \<lparr>ob_Run = Some sample_run, ob_ProvisioningFailure = None, ob_Ready = True,
      ob_Activity = Some sample_evidence\<rparr>"

lemmas sample_defs = sample_evidence_def sample_observed_def sample_run_def sample_spec_def
  sample_status_def sample_resources_def

text \<open>
  C1. Scaling down fails safe. Whenever \<open>Decide\<close> asks for replicas 0, there is a live run
  with a replica, the request is anchored on exactly that run, and one of four causes holds in
  real time: a wake that never became ready outlived \<open>provisioningTimeout\<close>; or the Model is not
  pinned and either every proxy replica reported complete idle evidence older than
  \<open>idleTimeout\<close>, or the ready replica took recent traffic, failed at least the threshold of
  requests and delivered no success for \<open>unhealthyAfter\<close>, or activity has been unobservable
  for longer than the uncontrolled timeout while nobody demands the Model.
\<close>

theorem decide_scale_down_cause:
  assumes "ac_Apply (snd (Decide M ob prior spec demand now))"
    and "ac_Replicas (snd (Decide M ob prior spec demand now)) = 0"
    and "is_duration (sp_IdleTimeout spec)"
  shows "\<exists>run. ob_Run ob = Some run \<and> run_Replicas run \<noteq> 0 \<and>
     ac_Current (snd (Decide M ob prior spec demand now)) = Some run \<and>
     ((\<exists>w. st_WakeStartedAt prior = Some w \<and> w \<noteq> 0 \<and> \<not> ob_Ready ob \<and>
         0 < sp_ProvisioningTimeout spec \<and> sp_ProvisioningTimeout spec < now - w) \<or>
      sp_MinReplicas spec = 0 \<and>
      ((\<exists>e t. ob_Activity ob = Some e \<and> ev_Complete e \<and> ev_AllIdle e \<and>
          idle_anchor e (st_LastRequestAt prior) = Some t \<and> sp_IdleTimeout spec < now - t) \<or>
       (\<exists>e. ob_Activity ob = Some e \<and> ob_Ready ob \<and> ev_Complete e \<and>
          failure_floor (mh_FailureThreshold (sp_Health spec)) \<le> ev_FailuresSinceSuccess e \<and>
          0 < mh_UnhealthyAfter (sp_Health spec) \<and>
          mh_UnhealthyAfter (sp_Health spec) < now - success_anchor e (st_WakeStartedAt prior) \<and>
          time_sub now (ev_NewestLastRequestAt e) \<le> sp_IdleTimeout spec) \<or>
       (\<exists>t. st_UncontrolledSince prior = Some t \<and> t \<noteq> 0 \<and> \<not> demand \<and>
          0 < uncontrolledTimeoutFor spec \<and> uncontrolledTimeoutFor spec < now - t)))"
proof (cases "ob_Run ob")
  case None
  with assms(1,2) show ?thesis by (auto simp: Decide_no_run split: if_splits)
next
  case (Some run)
  have nz: "run_Replicas run \<noteq> 0" using assms(1,2) Some by (auto simp: Decide_asleep split: if_splits)
  have due: "scale_down_due ob prior spec demand now"
    using Decide_up_kept [OF Some nz] assms(1) by (cases "scale_down_due ob prior spec demand now") auto
  have pos: "0 < d \<Longrightarrow> d < time_sub now t \<Longrightarrow> d < now - t" for d t
    by (rule time_sub_gt_imp) (auto simp: minDuration_def)
  have idle: "sp_IdleTimeout spec < time_sub now t \<Longrightarrow> sp_IdleTimeout spec < now - t" for t
    using assms(3) by (intro time_sub_gt_imp) (auto simp: is_duration_def)
  from due show ?thesis
    unfolding scale_down_due_def due_iffs
    using Some nz Decide_up_given_up(3) [OF Some nz due, of M]
    by (elim disjE conjE exE) (use pos idle in blast)+
qed

theorem decide_scale_down_cause_witness:
  "ac_Apply (snd (Decide (ref_meta 0) sample_observed sample_status sample_spec False (106 * Minute))) \<and>
   (\<exists>run. ob_Run sample_observed = Some run \<and> run_Replicas run \<noteq> 0)"
proof -
  let ?D = "Decide (ref_meta 0) sample_observed sample_status sample_spec False (106 * Minute)"
  have "ac_Apply (snd ?D)" "ac_Replicas (snd ?D) = 0" "is_duration (sp_IdleTimeout sample_spec)"
    by (simp_all add: sample_defs Decide_def due_iffs idle_anchor_def time_sub_def is_duration_def
        minDuration_def maxDuration_def)
  from decide_scale_down_cause [OF this] this(1) show ?thesis by blast
qed

text \<open>
  C17. Waking fails open. \<open>Decide\<close> asks for replicas 1 exactly when the Model is wanted (pinned
  or demanded) and it has no replica, except while the backoff after a backend refusal runs:
  a capacity, credit or rate-limit failure recorded less than a minute ago. The request is
  anchored on the run that was observed, which is none when a new run must be minted.
\<close>

theorem decide_wake_iff:
  "ac_Apply (snd (Decide M ob prior spec demand now)) \<and>
   ac_Replicas (snd (Decide M ob prior spec demand now)) = 1 \<and>
   ac_Current (snd (Decide M ob prior spec demand now)) = ob_Run ob
   \<longleftrightarrow>
   (sp_MinReplicas spec = 1 \<or> demand) \<and>
   (case ob_Run ob of
      Some run \<Rightarrow> run_Replicas run = 0
    | None \<Rightarrow> \<not> (\<exists>c. m_Find M (st_Conditions prior) ConditionProvisioning = Some c \<and>
                cond_Status c = CondFalse \<and>
                cond_Reason c \<in> {ReasonNoCapacity, ReasonInsufficientCredit, ReasonBackendRateLimited} \<and>
                cond_LastTransitionTime c \<noteq> 0 \<and>
                now < cond_LastTransitionTime c + Minute))"
proof (cases "ob_Run ob")
  case None
  have "(\<exists>c. m_Find M (st_Conditions prior) ConditionProvisioning = Some c \<and>
      cond_Status c = CondFalse \<and>
      cond_Reason c \<in> {ReasonNoCapacity, ReasonInsufficientCredit, ReasonBackendRateLimited} \<and>
      cond_LastTransitionTime c \<noteq> 0 \<and> now < cond_LastTransitionTime c + Minute)
      \<longleftrightarrow> snd (provisioningBackoff M prior now)"
    by (auto simp: provisioningBackoff_iff backoffReasons_def ProvisioningRetryBackoff_def)
  note eq = this
  show ?thesis
    unfolding eq None option.case using None by (simp add: Decide_no_run)
next
  case (Some run)
  show ?thesis
  proof (cases "run_Replicas run = 0")
    case True
    with Some show ?thesis by (simp add: Decide_asleep)
  next
    case nz: False
    then show ?thesis
      using Some Decide_up_given_up(2) [OF Some nz, of prior spec demand now M]
      by (cases "scale_down_due ob prior spec demand now") (simp_all add: Decide_up_kept)
  qed
qed

text \<open>
  The compare-and-swap anchor. In every branch, an action that applies carries exactly the
  observed run as its anchor, an action never applies and throttles at once, replicas are only
  ever set to 0 or 1, and the action's time is the caller's.
\<close>

theorem decide_action_shape:
  "(ac_Apply (snd (Decide M ob prior spec demand now)) \<longrightarrow>
      ac_Current (snd (Decide M ob prior spec demand now)) = ob_Run ob) \<and>
   (ac_Throttled (snd (Decide M ob prior spec demand now)) \<longrightarrow>
      \<not> ac_Apply (snd (Decide M ob prior spec demand now)) \<and>
      now < ac_ThrottledUntil (snd (Decide M ob prior spec demand now))) \<and>
   ac_Replicas (snd (Decide M ob prior spec demand now)) \<in> {0, 1} \<and>
   ac_At (snd (Decide M ob prior spec demand now)) = now \<and>
   fst (Decide M ob prior spec demand now) \<in> {Asleep, Waking, Ready, Recreating, Dead}"
proof (cases "ob_Run ob")
  case None
  then show ?thesis using backoff_until [of M prior now] by (auto simp: Decide_no_run)
next
  case (Some run)
  show ?thesis
  proof (cases "run_Replicas run = 0")
    case True
    with Some show ?thesis by (simp add: Decide_asleep)
  next
    case nz: False
    show ?thesis
    proof (cases "scale_down_due ob prior spec demand now")
      case True
      from Decide_up_given_up [OF Some nz this, of M] Some show ?thesis by (auto simp: Decide_At)
    next
      case False
      from Decide_up_kept [OF Some nz this] show ?thesis by simp
    qed
  qed
qed

theorem decide_action_shape_witness:
  "ac_Current (snd (Decide (ref_meta 0) sample_observed sample_status sample_spec False (106 * Minute)))
     = Some sample_run"
proof -
  have "ac_Apply (snd (Decide (ref_meta 0) sample_observed sample_status sample_spec False (106 * Minute)))"
    by (simp add: sample_defs Decide_def due_iffs idle_anchor_def time_sub_def minDuration_def
        maxDuration_def)
  with decide_action_shape [of "ref_meta 0" sample_observed sample_status sample_spec False "106 * Minute"]
  show ?thesis by (simp add: sample_observed_def)
qed

text \<open>
  A pinned Model (\<open>minReplicas: 1\<close>) is never put to sleep: without a passed provisioning
  deadline \<open>Decide\<close> never asks for replicas 0 and never reports it asleep, whatever the
  activity evidence, the demand and the clock say.
\<close>

theorem decide_pinned_never_sleeps:
  assumes "sp_MinReplicas spec = 1"
    and "\<not> provisioningDue (st_WakeStartedAt prior) (ob_Ready ob) (sp_ProvisioningTimeout spec) now"
  shows "fst (Decide M ob prior spec demand now) \<in> {Waking, Ready, Recreating} \<and>
     \<not> (ac_Apply (snd (Decide M ob prior spec demand now)) \<and>
        ac_Replicas (snd (Decide M ob prior spec demand now)) = 0)"
proof (cases "ob_Run ob")
  case None
  with assms(1) show ?thesis by (simp add: Decide_no_run)
next
  case (Some run)
  have "\<not> scale_down_due ob prior spec demand now" using assms by (simp add: scale_down_due_def)
  with Some assms(1) show ?thesis
    by (cases "run_Replicas run = 0") (simp_all add: Decide_asleep Decide_up_kept)
qed

theorem decide_pinned_never_sleeps_witness:
  "fst (Decide (ref_meta 0) sample_observed sample_status (sample_spec\<lparr>sp_MinReplicas := 1\<rparr>) False (900 * Minute))
     \<in> {Waking, Ready, Recreating}"
  using decide_pinned_never_sleeps [of "sample_spec\<lparr>sp_MinReplicas := 1\<rparr>" sample_status sample_observed
      "900 * Minute" "ref_meta 0" False]
  by (simp add: sample_defs provisioningDue_def)

text \<open>
  The alarm: it fires exactly for a journalled run that vanished while no retry is being
  paced, and for a live run whose wake outlived \<open>provisioningTimeout\<close>.
\<close>

theorem decide_alarm_iff:
  "ac_Alarm (snd (Decide M ob prior spec demand now)) \<longleftrightarrow>
     (case ob_Run ob of
        None \<Rightarrow> st_RunID prior \<noteq> [] \<and>
          \<not> ((sp_MinReplicas spec = 1 \<or> demand) \<and> snd (provisioningBackoff M prior now))
      | Some run \<Rightarrow> run_Replicas run \<noteq> 0 \<and>
          provisioningDue (st_WakeStartedAt prior) (ob_Ready ob) (sp_ProvisioningTimeout spec) now)"
  by (auto simp: Decide_def Let_def split: option.splits prod.splits)

text \<open>
  Scale to zero happens. An on-demand Model with a live replica and complete idle evidence
  is flipped to replicas 0 at every moment more than \<open>idleTimeout\<close> after the last request,
  whether or not the replica is ready, demand is annotated or another deadline has passed.
\<close>

theorem decide_sleep_live:
  assumes "ob_Run ob = Some run" and "run_Replicas run \<noteq> 0" and "sp_MinReplicas spec = 0"
    and "ob_Activity ob = Some e" and "ev_Complete e" and "ev_AllIdle e"
    and "idle_anchor e (st_LastRequestAt prior) = Some t"
    and "0 \<le> sp_IdleTimeout spec" and "sp_IdleTimeout spec < maxDuration"
    and "t + sp_IdleTimeout spec < now"
  shows "ac_Apply (snd (Decide M ob prior spec demand now)) \<and>
     ac_Replicas (snd (Decide M ob prior spec demand now)) = 0 \<and>
     ac_Current (snd (Decide M ob prior spec demand now)) = Some run"
proof -
  have "sp_IdleTimeout spec < time_sub now t"
    using assms(8-10) by (subst time_sub_gt_iff) (auto simp: minDuration_def)
  then have "scale_down_due ob prior spec demand now"
    using assms(3-7) by (auto simp: scale_down_due_def sleepDue_iff)
  with assms(1,2) show ?thesis by (simp add: Decide_up_given_up)
qed

theorem decide_sleep_live_witness:
  "ac_Apply (snd (Decide (ref_meta 0) sample_observed sample_status sample_spec True (106 * Minute)))"
  using decide_sleep_live [of sample_observed sample_run sample_spec sample_evidence sample_status
      "100 * Minute" "106 * Minute" "ref_meta 0" True]
  by (simp add: sample_defs idle_anchor_def maxDuration_def)

text \<open>
  The uncontrolled timeout is bounded: it is at most 24 hours always and at most 2 hours when
  the spec gives none; and for every idle timeout of up to 70 years it is positive, so that the
  deadline is armed.
\<close>

theorem uncontrolled_timeout_bounds:
  assumes "0 \<le> sp_IdleTimeout spec" and "sp_IdleTimeout spec \<le> 70 * 365 * 24 * Hour"
  shows "0 < uncontrolledTimeoutFor spec \<and> uncontrolledTimeoutFor spec \<le> 24 * Hour \<and>
    (sp_UncontrolledTimeout spec = None \<longrightarrow> uncontrolledTimeoutFor spec \<le> 2 * Hour)"
proof -
  have "wrap64 (4 * sp_IdleTimeout spec + DefaultUncontrolledGrace) =
      4 * sp_IdleTimeout spec + DefaultUncontrolledGrace"
    using assms by (intro wrap64_id) (simp add: is_duration_def minDuration_def maxDuration_def
        DefaultUncontrolledGrace_def)
  with assms(1) show ?thesis
    by (auto simp: uncontrolledTimeoutFor_def deadline_consts Let_def split: option.split)
qed

theorem uncontrolled_timeout_bounds_witness:
  "uncontrolledTimeoutFor sample_spec = 35 * Minute \<and> uncontrolledTimeoutFor sample_spec \<le> 2 * Hour"
  using uncontrolled_timeout_bounds [of sample_spec]
  by (simp add: sample_spec_def uncontrolledTimeoutFor_def deadline_consts wrap64_def)

text \<open>
  Past that bound the deadline can disarm itself: \<open>4*idleTimeout + 15m\<close> is computed in
  \<open>int64\<close>, so an idle timeout of \<open>2^61\<close> nanoseconds (about 73 years) makes the timeout negative
  and \<open>uncontrolledDue\<close> false at every moment, however long activity has been unobservable.
\<close>

theorem uncontrolled_timeout_overflow:
  assumes "sp_UncontrolledTimeout spec = None" and "sp_IdleTimeout spec = 2 ^ 61"
  shows "uncontrolledTimeoutFor spec < 0 \<and>
    \<not> uncontrolledDue since (uncontrolledTimeoutFor spec) demand now"
proof -
  have "uncontrolledTimeoutFor spec < 0"
    using assms by (simp add: uncontrolledTimeoutFor_def deadline_consts wrap64_def)
  then show ?thesis by (simp add: uncontrolledDue_def)
qed

theorem uncontrolled_timeout_overflow_witness:
  "\<not> uncontrolledDue (Some 1) (uncontrolledTimeoutFor (sample_spec\<lparr>sp_IdleTimeout := 2 ^ 61\<rparr>)) False (10 ^ 30)"
  using uncontrolled_timeout_overflow [of "sample_spec\<lparr>sp_IdleTimeout := 2 ^ 61\<rparr>" "Some 1" False "10 ^ 30"]
  by (simp add: sample_spec_def)

end
