(* ===== verification/Proxy_Activity.thy ===== *)
theory Proxy_Activity
  imports Squall_API
begin

text \<open>
  squall-proxy's activity tracker (\<open>internal/proxy/activity.go\<close>): per-model in-flight counts and
  the instants of the last request and the last success, as served at \<open>ActivityPath\<close>. A
  request is a token: \<open>Begin\<close> hands one out, the returned \<open>done\<close> function is the token's first
  \<open>Done\<close>, and a second call on the same token does nothing (the \<open>sync.Once\<close> of the source).
\<close>

section \<open>State and operations\<close>

record modelCounters =
  mc_inFlight :: int
  mc_lastRequestAt :: gotime
  mc_lastSuccessAt :: gotime
  mc_failuresSinceSuccess :: int

text \<open>
  \<open>tr_models\<close> is the tracker's map. \<open>tr_open\<close> holds the tokens whose \<open>done\<close> has not run yet
  with the model they captured, \<open>tr_next\<close> the next token.
\<close>

record ActivityTracker =
  tr_models :: "modelCounters gomap"
  tr_open :: "(nat \<times> string) list"
  tr_next :: nat

definition zero_counters :: modelCounters where
  "zero_counters =
     \<lparr>mc_inFlight = 0, mc_lastRequestAt = 0, mc_lastSuccessAt = 0, mc_failuresSinceSuccess = 0\<rparr>"

definition NewActivityTracker :: ActivityTracker where
  "NewActivityTracker = \<lparr>tr_models = [], tr_open = [], tr_next = 0\<rparr>"

text \<open>The counters of a model, fresh ones when the map has no key for it.\<close>

definition counters_for :: "ActivityTracker \<Rightarrow> string \<Rightarrow> modelCounters" where
  "counters_for t m = (case gomap_get (tr_models t) m of Some c \<Rightarrow> c | None \<Rightarrow> zero_counters)"

definition tracker_Begin :: "gotime \<Rightarrow> string \<Rightarrow> ActivityTracker \<Rightarrow> nat \<times> ActivityTracker" where
  "tracker_Begin now m t =
     (let c = counters_for t m;
          c' = c\<lparr>mc_inFlight := mc_inFlight c + 1, mc_lastRequestAt := now\<rparr>
      in (tr_next t,
          t\<lparr>tr_models := gomap_put m c' (tr_models t),
            tr_open := (tr_next t, m) # tr_open t, tr_next := Suc (tr_next t)\<rparr>))"

definition tracker_Done :: "gotime \<Rightarrow> nat \<Rightarrow> ActivityTracker \<Rightarrow> ActivityTracker" where
  "tracker_Done now tok t =
     (case map_of (tr_open t) tok of
        None \<Rightarrow> t
      | Some m \<Rightarrow>
          let c = counters_for t m;
              c' = c\<lparr>mc_inFlight := mc_inFlight c - 1, mc_lastRequestAt := now\<rparr>
          in t\<lparr>tr_models := gomap_put m c' (tr_models t),
               tr_open := filter (\<lambda>e. fst e \<noteq> tok) (tr_open t)\<rparr>)"

definition tracker_Success :: "gotime \<Rightarrow> string \<Rightarrow> ActivityTracker \<Rightarrow> ActivityTracker" where
  "tracker_Success now m t =
     (let c = counters_for t m
      in t\<lparr>tr_models := gomap_put m (c\<lparr>mc_lastSuccessAt := now, mc_failuresSinceSuccess := 0\<rparr>)
                          (tr_models t)\<rparr>)"

definition tracker_Failure :: "string \<Rightarrow> ActivityTracker \<Rightarrow> ActivityTracker" where
  "tracker_Failure m t =
     (let c = counters_for t m
      in t\<lparr>tr_models := gomap_put m
             (c\<lparr>mc_failuresSinceSuccess := mc_failuresSinceSuccess c + 1\<rparr>) (tr_models t)\<rparr>)"

definition tracker_Report :: "ActivityTracker \<Rightarrow> ActivityReport" where
  "tracker_Report t =
     map (\<lambda>(name, c). (name, \<lparr>ma_InFlight = mc_inFlight c, ma_LastRequestAt = mc_lastRequestAt c,
                              ma_LastSuccessAt = mc_lastSuccessAt c,
                              ma_FailuresSinceSuccess = mc_failuresSinceSuccess c\<rparr>)) (tr_models t)"

section \<open>Runs of the tracker\<close>

datatype tracker_event = EvBegin string | EvDone nat | EvSuccess string | EvFailure string

fun tracker_step :: "gotime \<Rightarrow> tracker_event \<Rightarrow> ActivityTracker \<Rightarrow> ActivityTracker" where
  "tracker_step now (EvBegin m) t = snd (tracker_Begin now m t)"
| "tracker_step now (EvDone tok) t = tracker_Done now tok t"
| "tracker_step now (EvSuccess m) t = tracker_Success now m t"
| "tracker_step now (EvFailure m) t = tracker_Failure m t"

fun tracker_run :: "(gotime \<times> tracker_event) list \<Rightarrow> ActivityTracker \<Rightarrow> ActivityTracker" where
  "tracker_run [] t = t"
| "tracker_run ((now, e) # es) t = tracker_run es (tracker_step now e t)"

text \<open>The requests for a model that have been accepted and not finished.\<close>

definition in_flight :: "ActivityTracker \<Rightarrow> string \<Rightarrow> nat" where
  "in_flight t m = length (filter (\<lambda>e. snd e = m) (tr_open t))"

definition tracker_inv :: "ActivityTracker \<Rightarrow> bool" where
  "tracker_inv t \<longleftrightarrow>
     gomap_wf (tr_models t) \<and> distinct (map fst (tr_open t)) \<and>
     (\<forall>e\<in>set (tr_open t). fst e < tr_next t) \<and>
     (\<forall>m. mc_inFlight (counters_for t m) = int (in_flight t m)) \<and>
     (\<forall>m. gomap_get (tr_models t) m = None \<longrightarrow> in_flight t m = 0)"

lemma counters_for_put [simp]:
  "counters_for (t\<lparr>tr_models := gomap_put m c (tr_models t), tr_open := os, tr_next := n\<rparr>) m' =
     (if m' = m then c else counters_for t m')"
  "counters_for (t\<lparr>tr_models := gomap_put m c (tr_models t), tr_open := os\<rparr>) m' =
     (if m' = m then c else counters_for t m')"
  "counters_for (t\<lparr>tr_models := gomap_put m c (tr_models t)\<rparr>) m' =
     (if m' = m then c else counters_for t m')"
  by (simp_all add: counters_for_def)

lemma in_flight_upd [simp]: "in_flight (t\<lparr>tr_models := ms\<rparr>) m = in_flight t m"
  by (simp add: in_flight_def)

lemma tracker_inv_new: "tracker_inv NewActivityTracker"
  by (simp add: tracker_inv_def NewActivityTracker_def counters_for_def zero_counters_def
      in_flight_def)

lemma tracker_inv_Begin [squall_inv]:
  assumes "tracker_inv t" shows "tracker_inv (snd (tracker_Begin now m t))"
  using assms
  by (auto simp: tracker_inv_def tracker_Begin_def Let_def in_flight_def less_Suc_eq)

lemma length_filter_remove_token:
  assumes "distinct (map fst os)" and "map_of os tok = Some m"
  shows "length (filter (\<lambda>e. snd e = m') (filter (\<lambda>e. fst e \<noteq> tok) os)) =
         length (filter (\<lambda>e. snd e = m') os) - (if m' = m then 1 else 0)"
    and "m' = m \<Longrightarrow> 0 < length (filter (\<lambda>e. snd e = m') os)"
  using assms
proof (induction os)
  case (Cons e os)
  {
    case 1
    show ?case
    proof (cases "fst e = tok")
      case True
      then have "filter (\<lambda>e. fst e \<noteq> tok) os = os" using 1
        by (auto simp: filter_id_conv image_iff)
      with True 1 show ?thesis by (cases e) auto
    next
      case False
      with 1 have tl: "distinct (map fst os)" "map_of os tok = Some m" by (cases e; simp)+
      with Cons.IH have "length (filter (\<lambda>e. snd e = m') (filter (\<lambda>e. fst e \<noteq> tok) os)) =
         length (filter (\<lambda>e. snd e = m') os) - (if m' = m then 1 else 0)"
        and "m' = m \<Longrightarrow> 0 < length (filter (\<lambda>e. snd e = m') os)" by blast+
      with False show ?thesis by auto
    qed
  next
    case 2
    then show ?case
      by (cases e) (force split: if_splits dest!: map_of_SomeD simp: filter_empty_conv)
  }
qed simp_all

lemma tracker_inv_Done [squall_inv]:
  assumes "tracker_inv t" shows "tracker_inv (tracker_Done now tok t)"
proof (cases "map_of (tr_open t) tok")
  case None
  with assms show ?thesis by (simp add: tracker_Done_def)
next
  case (Some m)
  have d: "distinct (map fst (tr_open t))" using assms by (simp add: tracker_inv_def)
  note rm = length_filter_remove_token [OF d Some]
  have "distinct (map fst (filter (\<lambda>e. fst e \<noteq> tok) (tr_open t)))"
    using d by (simp add: distinct_map_filter)
  moreover have "\<forall>m'. mc_inFlight (counters_for (tracker_Done now tok t) m') =
      int (in_flight (tracker_Done now tok t) m')"
    using assms Some rm
    by (auto simp: tracker_Done_def Let_def tracker_inv_def in_flight_def of_nat_diff Suc_le_eq)
  moreover have "\<forall>e\<in>set (tr_open (tracker_Done now tok t)). fst e < tr_next (tracker_Done now tok t)"
    using assms Some by (auto simp: tracker_inv_def tracker_Done_def Let_def)
  moreover have "gomap_wf (tr_models (tracker_Done now tok t))"
    using assms Some by (simp add: tracker_inv_def tracker_Done_def Let_def)
  moreover have "\<forall>m'. gomap_get (tr_models (tracker_Done now tok t)) m' = None \<longrightarrow>
      in_flight (tracker_Done now tok t) m' = 0"
    using assms Some rm(1) by (auto simp: tracker_inv_def tracker_Done_def Let_def in_flight_def)
  ultimately show ?thesis
    using Some unfolding tracker_inv_def by (simp add: tracker_Done_def Let_def)
qed

lemma tracker_inv_Success [squall_inv]:
  "tracker_inv t \<Longrightarrow> tracker_inv (tracker_Success now m t)"
  by (auto simp: tracker_inv_def tracker_Success_def Let_def)

lemma tracker_inv_Failure [squall_inv]:
  "tracker_inv t \<Longrightarrow> tracker_inv (tracker_Failure m t)"
  by (auto simp: tracker_inv_def tracker_Failure_def Let_def)

lemma tracker_inv_step [squall_inv]: "tracker_inv t \<Longrightarrow> tracker_inv (tracker_step now e t)"
  by (cases e) (auto intro: squall_inv)

lemma tracker_inv_run: "tracker_inv t \<Longrightarrow> tracker_inv (tracker_run es t)"
  by (induction es t rule: tracker_run.induct) (auto intro: squall_inv)

lemma report_lookup:
  "gomap_get (tracker_Report t) m =
     map_option (\<lambda>c. \<lparr>ma_InFlight = mc_inFlight c, ma_LastRequestAt = mc_lastRequestAt c,
                      ma_LastSuccessAt = mc_lastSuccessAt c,
                      ma_FailuresSinceSuccess = mc_failuresSinceSuccess c\<rparr>)
       (gomap_get (tr_models t) m)"
  by (simp add: tracker_Report_def map_of_map)

section \<open>The interface the controller reads\<close>

text \<open>
  What a reader of the report relies on: an entry counts exactly the requests in flight, and a
  model without an entry has none. Both laws hold in every state the tracker reaches.
\<close>

locale idle_reporter =
  fixes report :: "'s \<Rightarrow> ActivityReport"
    and flight :: "'s \<Rightarrow> string \<Rightarrow> nat"
    and inv :: "'s \<Rightarrow> bool"
  assumes report_key:
      "inv s \<Longrightarrow> gomap_get (report s) m = Some a \<Longrightarrow> ma_InFlight a = int (flight s m)"
    and report_no_key: "inv s \<Longrightarrow> gomap_get (report s) m = None \<Longrightarrow> flight s m = 0"

interpretation tracker: idle_reporter tracker_Report in_flight tracker_inv
proof unfold_locales
  fix s m a
  assume "tracker_inv s" and "gomap_get (tracker_Report s) m = Some a"
  then show "ma_InFlight a = int (in_flight s m)"
    by (auto simp: report_lookup tracker_inv_def counters_for_def dest!: spec [of _ m])
next
  fix s m
  assume "tracker_inv s" and "gomap_get (tracker_Report s) m = None"
  then show "in_flight s m = 0" by (auto simp: report_lookup tracker_inv_def)
qed

text \<open>
  In every state squall-proxy's tracker can reach, the report's in-flight count for a
  model is the number of accepted requests whose \<open>done\<close> has not run (never negative), and a
  model with no entry has no request in flight: absence of a key proves zero in-flight work.
\<close>

theorem report_counts_open_requests:
  "case gomap_get (tracker_Report (tracker_run es NewActivityTracker)) m of
     None \<Rightarrow> in_flight (tracker_run es NewActivityTracker) m = 0
   | Some a \<Rightarrow> ma_InFlight a = int (in_flight (tracker_run es NewActivityTracker) m)"
proof -
  let ?t = "tracker_run es NewActivityTracker"
  have inv: "tracker_inv ?t" by (rule tracker_inv_run [OF tracker_inv_new])
  show ?thesis
    by (auto split: option.split intro: tracker.report_key [OF inv] tracker.report_no_key [OF inv])
qed

section \<open>The sleep anchor never moves backwards\<close>

definition last_request :: "ActivityTracker \<Rightarrow> string \<Rightarrow> gotime" where
  "last_request t m = mc_lastRequestAt (counters_for t m)"

definition stamps_upto :: "gotime \<Rightarrow> ActivityTracker \<Rightarrow> bool" where
  "stamps_upto now t \<longleftrightarrow> (\<forall>m. last_request t m \<le> now)"

fun clock_monotone :: "gotime \<Rightarrow> (gotime \<times> tracker_event) list \<Rightarrow> bool" where
  "clock_monotone now [] \<longleftrightarrow> True"
| "clock_monotone now ((t, e) # es) \<longleftrightarrow> now \<le> t \<and> clock_monotone t es"

lemma tracker_step_stamps:
  assumes "stamps_upto now t" and "now \<le> now'"
  shows "last_request t m \<le> last_request (tracker_step now' e t) m \<and>
         last_request (tracker_step now' e t) m \<le> now'"
proof -
  have "last_request t m' \<le> now'" for m'
    using assms by (meson order_trans stamps_upto_def)
  then show ?thesis
    by (cases e) (auto simp: last_request_def tracker_Begin_def tracker_Done_def
      tracker_Success_def tracker_Failure_def Let_def split: option.split)
qed

lemma tracker_run_anchor_mono:
  "stamps_upto now t \<Longrightarrow> clock_monotone now es \<Longrightarrow>
     last_request t m \<le> last_request (tracker_run es t) m"
proof (induction es arbitrary: now t)
  case (Cons p es)
  obtain now' e where p: "p = (now', e)" by (cases p)
  with Cons.prems have le: "now \<le> now'" and mono: "clock_monotone now' es" by auto
  have st: "stamps_upto now' (tracker_step now' e t)"
    using tracker_step_stamps [OF Cons.prems(1) le] by (simp add: stamps_upto_def)
  have "last_request t m \<le> last_request (tracker_step now' e t) m"
    using tracker_step_stamps [OF Cons.prems(1) le] by blast
  also have "\<dots> \<le> last_request (tracker_run es (tracker_step now' e t)) m"
    by (rule Cons.IH [OF st mono])
  finally show ?case by (simp add: p)
qed simp

end
