(* ===== verification/Squall_Activity.thy ===== *)
theory Squall_Activity
  imports Squall_Phase Proxy_Activity
begin

text \<open>
  The idle evidence of section 6: \<open>internal/controller/squall/activity.go\<close> (the aggregation of the
  proxy replicas' reports) and the gathering in \<open>model_controller.go\<close> (listing the proxy
  Service's EndpointSlices, querying each address, decoding its report). The EndpointSlice list
  and the HTTP exchange are arguments. Go does not fix the order in which it ranges over a map:
  \<open>aggregateActivity\<close> takes the order as an argument and its result is shown not to depend on it.
\<close>

section \<open>Aggregation\<close>

record ActivityQuery =
  aq_Address :: string
  aq_OK :: bool
  aq_NoData :: bool
  aq_InFlight :: int
  aq_LastRequestAt :: gotime
  aq_LastSuccessAt :: gotime
  aq_FailuresSinceSuccess :: int

definition no_evidence :: ActivityEvidence where
  "no_evidence =
     \<lparr>ev_Complete = False, ev_AllIdle = False, ev_AnyData = False, ev_NewestLastRequestAt = 0,
      ev_NewestLastSuccessAt = 0, ev_FailuresSinceSuccess = 0\<rparr>"

text \<open>The local variables of the aggregation loop.\<close>

record agg_state =
  ag_allIdle :: bool
  ag_sawData :: bool
  ag_failures :: int
  ag_newest :: gotime
  ag_newestSuccess :: gotime

definition query_bad :: "gotime \<Rightarrow> ActivityQuery \<Rightarrow> bool" where
  "query_bad now q \<longleftrightarrow> \<not> aq_OK q \<or> aq_InFlight q < 0 \<or> now < aq_LastRequestAt q"

definition agg_step :: "ActivityQuery \<Rightarrow> agg_state \<Rightarrow> agg_state" where
  "agg_step q s =
     (if aq_NoData q then s
      else \<lparr>ag_allIdle = (if aq_InFlight q \<noteq> 0 then False else ag_allIdle s),
            ag_sawData = True,
            ag_failures = (if 0 < aq_FailuresSinceSuccess q
                           then wrap64 (ag_failures s + aq_FailuresSinceSuccess q)
                           else ag_failures s),
            ag_newest = (if ag_newest s < aq_LastRequestAt q then aq_LastRequestAt q
                         else ag_newest s),
            ag_newestSuccess = (if ag_newestSuccess s < aq_LastSuccessAt q
                                then aq_LastSuccessAt q else ag_newestSuccess s)\<rparr>)"

text \<open>\<open>None\<close> is the early return of empty evidence.\<close>

fun agg_loop :: "gotime \<Rightarrow> ActivityQuery list \<Rightarrow> agg_state \<Rightarrow> agg_state option" where
  "agg_loop now [] s = Some s"
| "agg_loop now (q # qs) s = (if query_bad now q then None else agg_loop now qs (agg_step q s))"

definition got_queries :: "string list \<Rightarrow> ActivityQuery list \<Rightarrow> ActivityQuery gomap" where
  "got_queries expected queries =
     fold (\<lambda>q m. if aq_Address q \<in> set expected then gomap_put (aq_Address q) q m else m) queries []"

text \<open>
  \<open>order\<close> is the order in which the keys of \<open>want\<close> are visited. A key without a query would read
  the zero \<open>ActivityQuery\<close>; the length test above the loop excludes that.
\<close>

definition zero_query :: ActivityQuery where
  "zero_query =
     \<lparr>aq_Address = [], aq_OK = False, aq_NoData = False, aq_InFlight = 0, aq_LastRequestAt = 0,
      aq_LastSuccessAt = 0, aq_FailuresSinceSuccess = 0\<rparr>"

definition got_at :: "ActivityQuery gomap \<Rightarrow> string \<Rightarrow> ActivityQuery" where
  "got_at got addr = (case gomap_get got addr of Some q \<Rightarrow> q | None \<Rightarrow> zero_query)"

definition aggregateActivity ::
  "string list \<Rightarrow> string list \<Rightarrow> ActivityQuery list \<Rightarrow> gotime \<Rightarrow> ActivityEvidence" where
  "aggregateActivity order expected queries now =
     (if expected = [] then no_evidence
      else
        let got = got_queries expected queries in
        if length got \<noteq> card (set expected) then no_evidence
        else case agg_loop now (map (got_at got) order)
                    \<lparr>ag_allIdle = True, ag_sawData = False, ag_failures = 0, ag_newest = 0,
                     ag_newestSuccess = 0\<rparr> of
               None \<Rightarrow> no_evidence
             | Some s \<Rightarrow>
                 if \<not> ag_sawData s then no_evidence\<lparr>ev_Complete := True, ev_AllIdle := True\<rparr>
                 else \<lparr>ev_Complete = True, ev_AllIdle = ag_allIdle s, ev_AnyData = True,
                       ev_NewestLastRequestAt = ag_newest s,
                       ev_NewestLastSuccessAt = ag_newestSuccess s,
                       ev_FailuresSinceSuccess = ag_failures s\<rparr>)"

definition range_order :: "string list \<Rightarrow> string list \<Rightarrow> bool" where
  "range_order order expected \<longleftrightarrow> distinct order \<and> set order = set expected"

section \<open>Gathering\<close>

definition ActivityPath :: string where
  "ActivityPath = ''/internal/activity''"

text \<open>
  What an HTTP GET of one replica comes to: no request could be built or sent, or a status code
  with the body as \<open>json.Decoder\<close> read it.
\<close>

datatype activity_response = ActivityUnreachable | ActivityAnswer int "ActivityReport option"

definition queryActivity :: "(string \<Rightarrow> activity_response) \<Rightarrow> string \<Rightarrow> string \<Rightarrow> ActivityQuery" where
  "queryActivity do_get address modelName =
     (let q = zero_query\<lparr>aq_Address := address\<rparr> in
      case do_get (''http://'' @ address @ ActivityPath) of
        ActivityUnreachable \<Rightarrow> q
      | ActivityAnswer code body \<Rightarrow>
          if code \<noteq> 200 then q
          else case body of
                 None \<Rightarrow> q
               | Some report \<Rightarrow>
                   (case gomap_get report modelName of
                      None \<Rightarrow> q\<lparr>aq_OK := True, aq_NoData := True\<rparr>
                    | Some a \<Rightarrow> q\<lparr>aq_OK := True, aq_InFlight := ma_InFlight a,
                                aq_FailuresSinceSuccess := ma_FailuresSinceSuccess a,
                                aq_LastRequestAt := ma_LastRequestAt a,
                                aq_LastSuccessAt := ma_LastSuccessAt a\<rparr>))"

record Endpoint =
  ep_Serving :: "bool option"
  ep_Addresses :: "string list"

record EndpointSlice =
  es_Ports :: "int option list"
  es_Endpoints :: "Endpoint list"

definition slice_port :: "EndpointSlice \<Rightarrow> string" where
  "slice_port s = (case es_Ports s of Some p # _ \<Rightarrow> Itoa p | _ \<Rightarrow> [])"

definition slice_addresses :: "EndpointSlice \<Rightarrow> string list" where
  "slice_addresses s =
     concat (map (\<lambda>e. if ep_Serving e = Some False then []
                      else map (\<lambda>a. if slice_port s = [] then a else JoinHostPort a (slice_port s))
                             (ep_Addresses e))
               (es_Endpoints s))"

text \<open>
  \<open>slices\<close> is the answer of the List call (\<open>None\<close> an error) and \<open>configured\<close> is false when
  \<open>r.ProxyService\<close> is its zero value. \<open>do_get i\<close> answers the \<open>i\<close>-th request of the pass. The result \<open>None\<close> is the nil pointer: not evaluated.
\<close>

definition gatherActivity ::
  "bool \<Rightarrow> EndpointSlice list option \<Rightarrow> (nat \<Rightarrow> string \<Rightarrow> activity_response) \<Rightarrow> string \<Rightarrow> gotime \<Rightarrow>
   (string list \<Rightarrow> string list) \<Rightarrow> ActivityEvidence option" where
  "gatherActivity configured slices do_get name now order =
     (if \<not> configured then None
      else case slices of
             None \<Rightarrow> Some (aggregateActivity (order []) [] [] now)
           | Some items \<Rightarrow>
               let addrs = concat (map slice_addresses items);
                   queries = map (\<lambda>(i, a). queryActivity (do_get i) a name) (enumerate 0 addrs)
               in Some (aggregateActivity (order addrs) addrs queries now))"

definition freshSuccess :: "ActivityEvidence option \<Rightarrow> gotime \<Rightarrow> duration \<Rightarrow> bool" where
  "freshSuccess ev now window =
     (case ev of
        None \<Rightarrow> False
      | Some e \<Rightarrow>
          if \<not> ev_Complete e \<or> isZero (ev_NewestLastSuccessAt e) then False
          else time_sub now (ev_NewestLastSuccessAt e) \<le> window)"

definition drainEvidenceClean :: "ActivityEvidence option \<Rightarrow> bool" where
  "drainEvidenceClean ev = (case ev of None \<Rightarrow> False | Some e \<Rightarrow> ev_Complete e \<and> ev_AllIdle e)"

section \<open>What the loop computes\<close>

definition query_data :: "ActivityQuery list \<Rightarrow> ActivityQuery list" where
  "query_data qs = filter (\<lambda>q. \<not> aq_NoData q) qs"

lemma query_data_simps [simp]:
  "query_data [] = []"
  "query_data (q # qs) = (if aq_NoData q then query_data qs else q # query_data qs)"
  "set (query_data qs) = {q \<in> set qs. \<not> aq_NoData q}"
  by (auto simp: query_data_def)

lemma agg_loop_None: "agg_loop now qs s = None \<longleftrightarrow> (\<exists>q\<in>set qs. query_bad now q)"
  by (induction qs arbitrary: s) auto

lemma wrap64_add_left: "wrap64 (wrap64 a + b) = wrap64 (a + b)"
proof -
  have "(wrap64 a + b + 2 ^ 63) mod 2 ^ 64 = ((a + 2 ^ 63) mod 2 ^ 64 + b) mod 2 ^ 64"
    by (simp add: wrap64_def algebra_simps)
  also have "\<dots> = (a + 2 ^ 63 + b) mod 2 ^ 64" by (rule mod_add_left_eq)
  also have "a + 2 ^ 63 + b = a + b + 2 ^ 63" by simp
  finally show ?thesis by (simp add: wrap64_def)
qed

lemma agg_loop_Some:
  "agg_loop now qs s = Some t \<Longrightarrow>
     ag_allIdle t = (ag_allIdle s \<and> (\<forall>q\<in>set (query_data qs). aq_InFlight q = 0)) \<and>
     ag_sawData t = (ag_sawData s \<or> query_data qs \<noteq> []) \<and>
     ag_newest t = fold (\<lambda>x m. max m x) (map aq_LastRequestAt (query_data qs)) (ag_newest s) \<and>
     ag_newestSuccess t =
       fold (\<lambda>x m. max m x) (map aq_LastSuccessAt (query_data qs)) (ag_newestSuccess s) \<and>
     (is_duration (ag_failures s) \<longrightarrow>
        ag_failures t = wrap64 (ag_failures s +
          sum_list (map (\<lambda>q. max 0 (aq_FailuresSinceSuccess q)) (query_data qs))))"
proof (induction qs arbitrary: s)
  case Nil
  then show ?case by (auto simp: wrap64_id)
next
  case (Cons q qs)
  then have step: "agg_loop now qs (agg_step q s) = Some t" by (simp split: if_splits)
  have dur: "is_duration (ag_failures s) \<Longrightarrow> is_duration (ag_failures (agg_step q s))"
    by (simp add: agg_step_def wrap64_range)
  have fl: "wrap64 (ag_failures (agg_step q s) + x) =
      wrap64 (ag_failures s + (if aq_NoData q then 0 else max 0 (aq_FailuresSinceSuccess q)) + x)" for x
    by (auto simp: agg_step_def wrap64_add_left)
  from Cons.IH [OF step] show ?case
    using dur fl by (auto simp: agg_step_def max_def add.assoc)
qed

lemma fold_max_eq_Max: "fold (\<lambda>x m. max m x) xs (a::int) = Max (insert a (set xs))"
proof (induction xs arbitrary: a)
  case (Cons x xs)
  have "fold (\<lambda>x m. max m x) (x # xs) a = Max (insert (max a x) (set xs))"
    by (simp add: Cons.IH)
  also have "\<dots> = Max (insert a (insert x (set xs)))"
    by (cases "xs = []") (simp_all add: max.assoc)
  finally show ?case by simp
qed simp

text \<open>The reference reading of the aggregation, over the set of addresses: no order in it.\<close>

definition data_addresses :: "ActivityQuery gomap \<Rightarrow> string set \<Rightarrow> string set" where
  "data_addresses got A = {a \<in> A. \<not> aq_NoData (got_at got a)}"

definition aggregate_ref :: "string set \<Rightarrow> ActivityQuery gomap \<Rightarrow> gotime \<Rightarrow> ActivityEvidence" where
  "aggregate_ref A got now =
     (if A = {} \<or> length got \<noteq> card A \<or> (\<exists>a\<in>A. query_bad now (got_at got a)) then no_evidence
      else if data_addresses got A = {} then no_evidence\<lparr>ev_Complete := True, ev_AllIdle := True\<rparr>
      else \<lparr>ev_Complete = True,
            ev_AllIdle = (\<forall>a\<in>data_addresses got A. aq_InFlight (got_at got a) = 0),
            ev_AnyData = True,
            ev_NewestLastRequestAt =
              Max (insert 0 ((\<lambda>a. aq_LastRequestAt (got_at got a)) ` data_addresses got A)),
            ev_NewestLastSuccessAt =
              Max (insert 0 ((\<lambda>a. aq_LastSuccessAt (got_at got a)) ` data_addresses got A)),
            ev_FailuresSinceSuccess =
              wrap64 (\<Sum>a\<in>data_addresses got A. max 0 (aq_FailuresSinceSuccess (got_at got a)))\<rparr>)"

lemma query_data_map: "query_data (map f xs) = map f (filter (\<lambda>x. \<not> aq_NoData (f x)) xs)"
  by (simp add: query_data_def filter_map comp_def)

lemma aggregate_eq_ref:
  assumes "range_order order expected"
  shows "aggregateActivity order expected queries now =
         aggregate_ref (set expected) (got_queries expected queries) now"
proof -
  let ?got = "got_queries expected queries"
  let ?q = "got_at ?got"
  let ?data = "filter (\<lambda>a. \<not> aq_NoData (?q a)) order"
  let ?s0 = "\<lparr>ag_allIdle = True, ag_sawData = False, ag_failures = 0, ag_newest = 0, ag_newestSuccess = 0\<rparr>"
  have so: "set order = set expected" and "distinct order"
    using assms by (simp_all add: range_order_def)
  then have data: "set ?data = data_addresses ?got (set expected)" and dist: "distinct ?data"
    by (auto simp: data_addresses_def)
  have sum: "sum_list (map (\<lambda>a. max 0 (aq_FailuresSinceSuccess (?q a))) ?data) =
      (\<Sum>a\<in>data_addresses ?got (set expected). max 0 (aq_FailuresSinceSuccess (?q a)))"
    using dist data by (simp add: sum_list_distinct_conv_sum_set)
  have zero: "is_duration 0" by (simp add: is_duration_def minDuration_def maxDuration_def)
  show ?thesis
  proof (cases "agg_loop now (map ?q order) ?s0")
    case None
    then have "\<exists>a\<in>set expected. query_bad now (?q a)" by (auto simp: agg_loop_None so)
    with None show ?thesis by (auto simp: aggregateActivity_def aggregate_ref_def Let_def)
  next
    case (Some t)
    then have "\<not> (\<exists>a\<in>set expected. query_bad now (?q a))"
      using agg_loop_None [of now "map ?q order" ?s0] so by auto
    moreover have "ag_sawData t \<longleftrightarrow> data_addresses ?got (set expected) \<noteq> {}"
      using agg_loop_Some [OF Some] data by (auto simp: query_data_map simp flip: set_empty)
    moreover have "ag_failures t =
        wrap64 (\<Sum>a\<in>data_addresses ?got (set expected). max 0 (aq_FailuresSinceSuccess (?q a)))"
      using agg_loop_Some [OF Some] zero sum by (simp add: query_data_map comp_def)
    moreover have "ag_allIdle t \<longleftrightarrow> (\<forall>a\<in>data_addresses ?got (set expected). aq_InFlight (?q a) = 0)"
      using agg_loop_Some [OF Some] so by (auto simp: data_addresses_def)
    moreover have "ag_newest t =
        Max (insert 0 ((\<lambda>a. aq_LastRequestAt (?q a)) ` data_addresses ?got (set expected)))"
      "ag_newestSuccess t =
        Max (insert 0 ((\<lambda>a. aq_LastSuccessAt (?q a)) ` data_addresses ?got (set expected)))"
      using agg_loop_Some [OF Some]
      by (simp_all add: fold_max_eq_Max query_data_map image_image flip: data)
    ultimately show ?thesis
      using Some by (simp add: aggregateActivity_def aggregate_ref_def Let_def)
  qed
qed

section \<open>Which query answers for an address\<close>

definition last_query :: "ActivityQuery list \<Rightarrow> string \<Rightarrow> ActivityQuery option" where
  "last_query qs a = List.find (\<lambda>q. aq_Address q = a) (rev qs)"

lemma last_query_snoc [simp]:
  "last_query (qs @ [q]) a = (if aq_Address q = a then Some q else last_query qs a)"
  by (simp add: last_query_def)

lemma last_query_Nil [simp]: "last_query [] a = None"
  by (simp add: last_query_def)

lemma got_queries_snoc:
  "got_queries expected (qs @ [q]) =
     (if aq_Address q \<in> set expected then gomap_put (aq_Address q) q (got_queries expected qs)
      else got_queries expected qs)"
  by (simp add: got_queries_def)

lemma got_queries_get:
  "gomap_get (got_queries expected qs) a = (if a \<in> set expected then last_query qs a else None)"
proof (induction qs rule: rev_induct)
  case Nil
  then show ?case by (simp add: got_queries_def)
next
  case (snoc q qs)
  then show ?case by (auto simp: got_queries_snoc)
qed

lemma got_queries_wf: "gomap_wf (got_queries expected qs)"
proof (induction qs rule: rev_induct)
  case Nil
  then show ?case by (simp add: got_queries_def)
next
  case (snoc q qs)
  then show ?case by (simp add: got_queries_snoc)
qed

lemma got_queries_keys:
  "fst ` set (got_queries expected qs) = {a \<in> set expected. last_query qs a \<noteq> None}"
proof -
  have "fst ` set (got_queries expected qs) = dom (gomap_get (got_queries expected qs))"
    by (simp add: dom_map_of_conv_image_fst)
  then show ?thesis by (auto simp: got_queries_get dom_def)
qed

lemma got_queries_length:
  "length (got_queries expected qs) = card (set expected) \<longleftrightarrow>
     (\<forall>a\<in>set expected. last_query qs a \<noteq> None)"
proof -
  have "length (got_queries expected qs) = card {a \<in> set expected. last_query qs a \<noteq> None}"
    using distinct_card [OF got_queries_wf [of expected qs]] by (simp only: length_map set_map got_queries_keys)
  moreover have "card {a \<in> set expected. last_query qs a \<noteq> None} = card (set expected) \<longleftrightarrow>
      {a \<in> set expected. last_query qs a \<noteq> None} = set expected"
    using card_subset_eq [of "set expected" "{a \<in> set expected. last_query qs a \<noteq> None}"] by auto
  ultimately show ?thesis by auto
qed

lemma got_at_expected:
  "a \<in> set expected \<Longrightarrow> last_query qs a = Some q \<Longrightarrow> got_at (got_queries expected qs) a = q"
  by (simp add: got_at_def got_queries_get)

lemma aggregate_ref_complete:
  "ev_Complete (aggregate_ref (set expected) (got_queries expected qs) now) \<longleftrightarrow>
     expected \<noteq> [] \<and>
     (\<forall>a\<in>set expected. \<exists>q. last_query qs a = Some q \<and> aq_OK q \<and> 0 \<le> aq_InFlight q \<and>
        aq_LastRequestAt q \<le> now)"
  (is "?L \<longleftrightarrow> ?R")
proof
  assume ?L
  then have ne: "expected \<noteq> []" and len: "\<forall>a\<in>set expected. last_query qs a \<noteq> None"
    and ok: "\<forall>a\<in>set expected. \<not> query_bad now (got_at (got_queries expected qs) a)"
    by (auto simp: aggregate_ref_def no_evidence_def got_queries_length split: if_splits)
  show ?R
  proof (intro conjI ballI)
    fix a assume a: "a \<in> set expected"
    with len obtain q where q: "last_query qs a = Some q" by auto
    with ok a have "\<not> query_bad now q" by (auto dest: got_at_expected)
    with q show "\<exists>q. last_query qs a = Some q \<and> aq_OK q \<and> 0 \<le> aq_InFlight q \<and>
        aq_LastRequestAt q \<le> now"
      by (auto simp: query_bad_def)
  qed (use ne in simp)
next
  assume R: ?R
  have "\<not> query_bad now (got_at (got_queries expected qs) a)" if a: "a \<in> set expected" for a
  proof -
    from R a obtain q where "last_query qs a = Some q" "\<not> query_bad now q"
      by (fastforce simp: query_bad_def)
    with a show ?thesis by (simp add: got_at_expected)
  qed
  moreover have "length (got_queries expected qs) = card (set expected)"
    using R by (auto simp: got_queries_length)
  ultimately show ?L using R by (simp add: aggregate_ref_def)
qed

text \<open>Complete and idle evidence: every address answered, and none with work in flight.\<close>

lemma aggregate_ref_idle:
  assumes "ev_Complete (aggregate_ref (set expected) (got_queries expected qs) now)"
    and "ev_AllIdle (aggregate_ref (set expected) (got_queries expected qs) now)"
    and "a \<in> set expected"
  obtains q where "last_query qs a = Some q" and "aq_OK q" and "aq_NoData q \<or> aq_InFlight q = 0"
proof -
  from assms(1,3) obtain q where q: "last_query qs a = Some q" "aq_OK q"
    by (auto simp: aggregate_ref_complete)
  have "aq_NoData q \<or> aq_InFlight q = 0"
    using assms q(1) by (auto simp: aggregate_ref_def no_evidence_def data_addresses_def
        got_at_expected split: if_splits)
  with q that show ?thesis by blast
qed

section \<open>Properties of the aggregation\<close>

text \<open>
  The aggregation does not depend on Go's map iteration order: two orders over the same
  addresses give the same evidence, the wrapped sum of failures included.
\<close>

theorem aggregate_order_independent:
  assumes "range_order order expected" and "range_order order' expected"
  shows "aggregateActivity order expected queries now = aggregateActivity order' expected queries now"
  using assms by (simp add: aggregate_eq_ref)

theorem aggregate_order_independent_witness:
  "aggregateActivity [''a'', ''b''] [''a'', ''b'', ''a''] [] 5 =
   aggregateActivity [''b'', ''a''] [''a'', ''b'', ''a''] [] 5"
  by (rule aggregate_order_independent) (auto simp: range_order_def)

text \<open>
  Completeness is exact. The evidence is complete if and only if at least one address was
  expected and the last query of every expected address succeeded with a non-negative in-flight
  count and no request stamped in the future. Results of other addresses never count.
\<close>

theorem aggregate_complete_iff:
  assumes "range_order order expected"
  shows "ev_Complete (aggregateActivity order expected queries now) \<longleftrightarrow>
     expected \<noteq> [] \<and>
     (\<forall>a\<in>set expected. \<exists>q. last_query queries a = Some q \<and> aq_OK q \<and> 0 \<le> aq_InFlight q \<and>
        aq_LastRequestAt q \<le> now)"
  by (simp add: aggregate_eq_ref [OF assms] aggregate_ref_complete)

theorem aggregate_complete_iff_witness:
  "ev_Complete (aggregateActivity [''a''] [''a''] [zero_query\<lparr>aq_Address := ''a'', aq_OK := True\<rparr>] 5)"
  using aggregate_complete_iff [of "[''a'']" "[''a'']"
      "[zero_query\<lparr>aq_Address := ''a'', aq_OK := True\<rparr>]" 5]
  by (simp add: range_order_def last_query_def zero_query_def)

section \<open>Soundness of idle evidence\<close>

lemma last_query_SomeD: "last_query qs a = Some q \<Longrightarrow> q \<in> set qs \<and> aq_Address q = a"
  by (induction qs rule: rev_induct) (auto split: if_splits)

lemma queryActivity_Address [simp]: "aq_Address (queryActivity g a name) = a"
  by (simp add: queryActivity_def zero_query_def Let_def
      split: activity_response.split option.split)

lemma last_query_enumerate:
  assumes "last_query (map (\<lambda>(i, a). queryActivity (do_get i) a name) (enumerate 0 addrs)) a = Some q"
  shows "\<exists>i. i < length addrs \<and> addrs ! i = a \<and> q = queryActivity (do_get i) a name"
  using last_query_SomeD [OF assms] by (auto simp: in_set_enumerate_eq)

lemma queryActivity_ok:
  assumes "aq_OK (queryActivity g a name)"
  obtains report where "g (''http://'' @ a @ ActivityPath) = ActivityAnswer 200 (Some report)"
    and "aq_NoData (queryActivity g a name) \<longleftrightarrow> gomap_get report name = None"
    and "\<And>m. gomap_get report name = Some m \<Longrightarrow> aq_InFlight (queryActivity g a name) = ma_InFlight m"
proof (cases "g (''http://'' @ a @ ActivityPath)")
  case ActivityUnreachable
  with assms show ?thesis by (simp add: queryActivity_def zero_query_def)
next
  case (ActivityAnswer code body)
  with assms obtain report where "code = 200" "body = Some report"
    by (cases body) (auto simp: queryActivity_def zero_query_def Let_def split: if_splits)
  with ActivityAnswer that show ?thesis
    by (cases "gomap_get report name") (auto simp: queryActivity_def zero_query_def Let_def)
qed

context idle_reporter
begin

text \<open>
  The reader of the reports: whatever replica state stood behind an answer, complete idle
  evidence means that state had no request in flight for the Model.
\<close>

lemma gathered_idle:
  assumes gather: "gatherActivity True (Some items) do_get name now order = Some e"
    and order: "range_order (order (concat (map slice_addresses items))) (concat (map slice_addresses items))"
    and idle: "ev_Complete e" "ev_AllIdle e"
    and addr: "a \<in> set (concat (map slice_addresses items))"
    and honest: "\<And>i r. do_get i (''http://'' @ a @ ActivityPath) = ActivityAnswer 200 (Some r) \<Longrightarrow>
       inv (state i) \<and> r = report (state i)"
  shows "\<exists>i. i < length (concat (map slice_addresses items)) \<and>
    concat (map slice_addresses items) ! i = a \<and> flight (state i) name = 0"
proof -
  let ?addrs = "concat (map slice_addresses items)"
  let ?qs = "map (\<lambda>(i, a). queryActivity (do_get i) a name) (enumerate 0 ?addrs)"
  have e: "e = aggregate_ref (set ?addrs) (got_queries ?addrs ?qs) now"
    using gather by (simp add: gatherActivity_def Let_def aggregate_eq_ref [OF order])
  obtain q where q: "last_query ?qs a = Some q" "aq_OK q" "aq_NoData q \<or> aq_InFlight q = 0"
    using aggregate_ref_idle [of ?addrs ?qs now a] idle addr unfolding e by blast
  then obtain i where i: "i < length ?addrs" "?addrs ! i = a" and qi: "q = queryActivity (do_get i) a name"
    using last_query_enumerate [OF q(1)] by blast
  with q(2) obtain r where r: "do_get i (''http://'' @ a @ ActivityPath) = ActivityAnswer 200 (Some r)"
    "aq_NoData q \<longleftrightarrow> gomap_get r name = None"
    "\<And>m. gomap_get r name = Some m \<Longrightarrow> aq_InFlight q = ma_InFlight m"
    using queryActivity_ok [of "do_get i" a name] by blast
  from honest [OF r(1)] have inv: "inv (state i)" and rr: "r = report (state i)" by auto
  have "flight (state i) name = 0"
  proof (cases "gomap_get r name")
    case None
    with report_no_key [OF inv] rr show ?thesis by simp
  next
    case (Some m)
    with r(2,3) q(3) have "ma_InFlight m = 0" by auto
    with report_key [OF inv] rr Some show ?thesis by force
  qed
  with i show ?thesis by blast
qed

end

text \<open>
  C2. Sleep evidence is sound end to end. Suppose every successful answer of an address is the
  report of a proxy tracker that ran some history of requests. If the controller's gathered
  evidence is complete and idle, then at every address that a serving endpoint lists (ready,
  not ready or terminating), the tracker that answered had no request for the Model in flight
  when it reported.
\<close>

theorem gather_idle_sound:
  assumes "gatherActivity True (Some items) do_get name now order = Some e"
    and "range_order (order (concat (map slice_addresses items))) (concat (map slice_addresses items))"
    and "ev_Complete e" and "ev_AllIdle e"
    and "\<And>a i r. a \<in> set (concat (map slice_addresses items)) \<Longrightarrow>
       do_get i (''http://'' @ a @ ActivityPath) = ActivityAnswer 200 (Some r) \<Longrightarrow>
       r = tracker_Report (tracker_run (history a i) NewActivityTracker)"
  shows "\<forall>a\<in>set (concat (map slice_addresses items)).
     \<exists>i. i < length (concat (map slice_addresses items)) \<and>
       concat (map slice_addresses items) ! i = a \<and>
       in_flight (tracker_run (history a i) NewActivityTracker) name = 0"
proof
  fix a assume a: "a \<in> set (concat (map slice_addresses items))"
  show "\<exists>i. i < length (concat (map slice_addresses items)) \<and>
       concat (map slice_addresses items) ! i = a \<and>
       in_flight (tracker_run (history a i) NewActivityTracker) name = 0"
    by (rule tracker.gathered_idle [OF assms(1-4) a])
      (use assms(5) a in \<open>auto intro: tracker_inv_run tracker_inv_new\<close>)
qed

text \<open>An open request anywhere keeps the evidence from being idle.\<close>

lemma open_request_not_idle:
  assumes "gatherActivity True (Some items) do_get name now order = Some e"
    and "range_order (order (concat (map slice_addresses items))) (concat (map slice_addresses items))"
    and "a \<in> set (concat (map slice_addresses items))"
    and "\<And>i r. do_get i (''http://'' @ a @ ActivityPath) = ActivityAnswer 200 (Some r) \<Longrightarrow>
       r = tracker_Report (tracker_run (history i) NewActivityTracker)"
    and "\<And>i. 0 < in_flight (tracker_run (history i) NewActivityTracker) name"
  shows "\<not> (ev_Complete e \<and> ev_AllIdle e)"
proof
  assume idle: "ev_Complete e \<and> ev_AllIdle e"
  have "\<exists>i. i < length (concat (map slice_addresses items)) \<and> concat (map slice_addresses items) ! i = a \<and>
      in_flight (tracker_run (history i) NewActivityTracker) name = 0"
    by (rule tracker.gathered_idle [OF assms(1,2) conjunct1 [OF idle] conjunct2 [OF idle] assms(3)])
      (use assms(4) in \<open>auto intro: tracker_inv_run tracker_inv_new\<close>)
  with assms(5) show False by (metis less_numeral_extra(3))
qed

definition sample_slice :: EndpointSlice where
  "sample_slice =
     \<lparr>es_Ports = [Some 8080], es_Endpoints = [\<lparr>ep_Serving = None, ep_Addresses = [''a'']\<rparr>]\<rparr>"

lemma sample_slice_addresses: "slice_addresses sample_slice = [''a:8080'']"
  by (simp add: sample_slice_def slice_addresses_def slice_port_def JoinHostPort_def Itoa_def
      show_nat.simps char_of_def bit_0)

theorem gather_idle_sound_witness:
  "in_flight (tracker_run [(1, EvBegin ''m''), (2, EvDone 0)] NewActivityTracker) ''m'' = 0"
proof -
  let ?t = "tracker_run [(1, EvBegin ''m''), (2, EvDone 0)] NewActivityTracker"
  let ?get = "\<lambda>(i::nat) (u::string). ActivityAnswer 200 (Some (tracker_Report ?t))"
  have rep: "gomap_get (tracker_Report ?t) ''m'' =
      Some \<lparr>ma_InFlight = 0, ma_LastRequestAt = 2, ma_LastSuccessAt = 0, ma_FailuresSinceSuccess = 0\<rparr>"
    by (simp add: NewActivityTracker_def tracker_Begin_def tracker_Done_def counters_for_def
        zero_counters_def tracker_Report_def Let_def)
  let ?ord = "\<lambda>as :: string list. as"
  let ?e = "\<lparr>ev_Complete = True, ev_AllIdle = True, ev_AnyData = True, ev_NewestLastRequestAt = 2,
    ev_NewestLastSuccessAt = 0, ev_FailuresSinceSuccess = 0\<rparr>"
  have q: "queryActivity (?get i) a ''m'' = zero_query\<lparr>aq_Address := a, aq_OK := True,
      aq_LastRequestAt := 2\<rparr>" for i a
    using rep by (simp add: queryActivity_def zero_query_def Let_def)
  have e: "gatherActivity True (Some [sample_slice]) ?get ''m'' 5 ?ord = Some ?e"
    unfolding gatherActivity_def q
    by (simp add: sample_slice_addresses Let_def aggregateActivity_def got_queries_def got_at_def
        zero_query_def query_bad_def agg_step_def)
  have "\<forall>a\<in>set (concat (map slice_addresses [sample_slice])).
     \<exists>i. i < length (concat (map slice_addresses [sample_slice])) \<and>
       concat (map slice_addresses [sample_slice]) ! i = a \<and> in_flight ?t ''m'' = 0"
    by (rule gather_idle_sound [where history = "\<lambda>_ _. [(1, EvBegin ''m''), (2, EvDone 0)]", OF e])
      (simp_all add: range_order_def sample_slice_addresses)
  then show ?thesis by (simp add: sample_slice_addresses)
qed

text \<open>
  No evidence without the proxy: an unconfigured proxy Service gives nil evidence, a failed
  EndpointSlice list or a list with no serving address gives incomplete evidence, and so do an
  unreachable replica, a status other than 200 and a body that does not decode. None of these
  can let \<open>sleepDue\<close>, \<open>unhealthyDue\<close>, the drain gate or the readiness evidence succeed.
\<close>

definition unanswered :: "activity_response \<Rightarrow> bool" where
  "unanswered r \<longleftrightarrow> (case r of ActivityUnreachable \<Rightarrow> True | ActivityAnswer c b \<Rightarrow> c \<noteq> 200 \<or> b = None)"

theorem gather_failure_blocks_sleep:
  assumes "ev = gatherActivity configured slices do_get name now order"
    and "\<And>xs. range_order (order xs) xs"
    and "\<not> configured \<or> slices = None \<or>
       (\<exists>items. slices = Some items \<and>
          (concat (map slice_addresses items) = [] \<or>
           (\<exists>a\<in>set (concat (map slice_addresses items)).
              \<forall>i. unanswered (do_get i (''http://'' @ a @ ActivityPath)))))"
  shows "\<not> sleepDue ev durable idle t \<and> \<not> unhealthyDue ev ready wake after n idle t \<and>
         \<not> drainEvidenceClean ev \<and> \<not> freshSuccess ev t window"
proof -
  have inc: "\<not> ev_Complete e" if "ev = Some e" for e
  proof
    assume comp: "ev_Complete e"
    have conf: "configured" using that assms(1) by (simp add: gatherActivity_def split: if_splits)
    have "slices \<noteq> None"
      using that assms(1) comp conf
      by (cases slices) (auto simp: gatherActivity_def aggregateActivity_def no_evidence_def)
    with conf assms(3) obtain items where items: "slices = Some items"
      and bad: "concat (map slice_addresses items) = [] \<or>
           (\<exists>a\<in>set (concat (map slice_addresses items)).
              \<forall>i. unanswered (do_get i (''http://'' @ a @ ActivityPath)))" by blast
    let ?addrs = "concat (map slice_addresses items)"
    let ?qs = "map (\<lambda>(i, a). queryActivity (do_get i) a name) (enumerate 0 ?addrs)"
    have "e = aggregate_ref (set ?addrs) (got_queries ?addrs ?qs) now"
      using that assms(1) conf items
      by (simp add: gatherActivity_def Let_def aggregate_eq_ref [OF assms(2)])
    with comp have ne: "?addrs \<noteq> []" and
      all: "\<forall>a\<in>set ?addrs. \<exists>q. last_query ?qs a = Some q \<and> aq_OK q"
      by (auto simp only: aggregate_ref_complete)
    from ne bad obtain a where a: "a \<in> set ?addrs"
      "\<forall>i. unanswered (do_get i (''http://'' @ a @ ActivityPath))" by blast
    with all obtain q where q: "last_query ?qs a = Some q" "aq_OK q" by blast
    obtain i where "q = queryActivity (do_get i) a name" using last_query_enumerate [OF q(1)] by blast
    with q(2) obtain r where "do_get i (''http://'' @ a @ ActivityPath) = ActivityAnswer 200 (Some r)"
      using queryActivity_ok by metis
    with a(2) show False by (auto simp: unanswered_def dest: spec [of _ i])
  qed
  then show ?thesis
    by (auto simp: due_iffs drainEvidenceClean_def freshSuccess_def split: option.splits)
qed

theorem gather_failure_blocks_sleep_witness:
  "\<not> sleepDue (gatherActivity True (Some [sample_slice]) (\<lambda>_ _. ActivityUnreachable) ''m'' 5 remdups)
       None (5 * Minute) 9"
  by (rule gather_failure_blocks_sleep [OF refl, THEN conjunct1])
    (auto simp: range_order_def sample_slice_addresses unanswered_def)

end
