(* ===== verification/Squall_Engine.thy ===== *)
theory Squall_Engine
  imports Squall_Dstack
begin

text \<open>
  What a Model's spec becomes on a replica (\<open>internal/controller/squall/engine.go\<close>): port,
  resources, placement, probe and the start command in each engine's dialect. The command is one
  shell line; \<open>sh_words\<close> is the reading of POSIX 2.2 (quoting) that it is proved against.
\<close>

section \<open>Operations\<close>

definition enginePort :: "ModelEngine \<Rightarrow> int" where
  "enginePort e =
     (case e of VLLM \<Rightarrow> 8000 | LlamaCpp \<Rightarrow> 8080 | Ollama \<Rightarrow> 11434 | EngineOther _ \<Rightarrow> 8000)"

definition engineResources :: "ModelResources \<Rightarrow> Resources" where
  "engineResources r =
     \<lparr>rs_CPUArch = (case mr_CPU r of None \<Rightarrow> [] | Some c \<Rightarrow> cpu_Arch c),
      rs_CPUCount = (case mr_CPU r of None \<Rightarrow> [] | Some c \<Rightarrow> cpu_Count c),
      rs_Memory = mr_Memory r, rs_ShmSize = mr_ShmSize r, rs_Disk = mr_Disk r,
      rs_GPU = map_option (\<lambda>g. \<lparr>g_Vendor = gpu_Vendor g, g_Name = gpu_Name g, g_Count = gpu_Count g,
                 g_Memory = gpu_Memory g, g_TotalMemory = gpu_TotalMemory g,
                 g_ComputeCapability = gpu_ComputeCapability g\<rparr>) (mr_GPU r)\<rparr>"

definition enginePlacement :: "ModelPlacement \<Rightarrow> Placement" where
  "enginePlacement p =
     \<lparr>pc_Backends = pl_Backends p, pc_Regions = pl_Regions p,
      pc_MaxPrice = (case pl_MaxPricePerHour p of None \<Rightarrow> [] | Some s \<Rightarrow> s)\<rparr>"

definition engineProbePath :: "ModelEngine \<Rightarrow> string" where
  "engineProbePath e =
     (case e of Ollama \<Rightarrow> ''/'' | VLLM \<Rightarrow> ''/health'' | LlamaCpp \<Rightarrow> ''/health''
      | EngineOther _ \<Rightarrow> ''/health'')"

text \<open>
  \<open>int(d.Seconds())\<close> goes through a \<open>float64\<close>; it is the truncated quotient for every duration
  under 97 days (\<open>2^23\<close> seconds), where a nanosecond is still visible in the fraction.
\<close>

definition whole_seconds :: "duration \<Rightarrow> int" where
  "whole_seconds d = go_div d Second"

definition engineProbe :: "ModelSpec \<Rightarrow> Probe" where
  "engineProbe spec =
     (let out = \<lparr>pb_Path = engineProbePath (sp_Engine spec), pb_Method = [], pb_TimeoutSeconds = 0,
                 pb_IntervalSeconds = 0, pb_ReadyAfter = 0\<rparr>
      in case sp_Probe spec of
           None \<Rightarrow> out
         | Some p \<Rightarrow>
             \<lparr>pb_Path = (if mp_Path p \<noteq> [] then mp_Path p else pb_Path out),
              pb_Method = mp_Method p,
              pb_TimeoutSeconds = (case mp_Timeout p of None \<Rightarrow> 0 | Some d \<Rightarrow> whole_seconds d),
              pb_IntervalSeconds = (case mp_Interval p of None \<Rightarrow> 0 | Some d \<Rightarrow> whole_seconds d),
              pb_ReadyAfter = (case mp_ReadyAfter p of None \<Rightarrow> 0 | Some n \<Rightarrow> n)\<rparr>)"

definition shell_quote :: "string \<Rightarrow> string" where
  "shell_quote a = [CHR 0x27] @ ReplaceAll_char (CHR 0x27) [CHR 0x27, CHR 0x5C, CHR 0x27, CHR 0x27] a @ [CHR 0x27]"

fun shellJoin :: "string list \<Rightarrow> string" where
  "shellJoin [] = []"
| "shellJoin [a] = shell_quote a"
| "shellJoin (a # b # as) = shell_quote a @ '' '' @ shellJoin (b # as)"

definition engineCommands :: "ModelSpec \<Rightarrow> string \<Rightarrow> string list" where
  "engineCommands spec name =
     (if sp_Model spec = [] \<and> sp_Args spec = [] then []
      else case sp_Engine spec of
        VLLM \<Rightarrow>
          [shellJoin ([''vllm'', ''serve''] @
             (if sp_Model spec \<noteq> []
              then [''--model'', sp_Model spec, ''--served-model-name'', name] else []) @
             sp_Args spec)]
      | Ollama \<Rightarrow>
          if sp_Model spec = [] then [shellJoin ([''ollama'', ''serve''] @ sp_Args spec)]
          else [shellJoin ([''ollama'', ''serve''] @ sp_Args spec) @ '' & '' @
                ''for i in $(seq 1 60); do ollama list >/dev/null 2>&1 && break; sleep 2; done; '' @
                ''ollama list >/dev/null 2>&1 || { echo \"ollama serve never came up\" >&2; exit 1; }; '' @
                ''ollama pull '' @ shellJoin [sp_Model spec] @ '' && ollama cp '' @
                shellJoin [sp_Model spec] @ '' '' @ shellJoin [name] @
                '' || { echo \"ollama pull or cp failed; refusing to serve an unaliased model\" >&2; exit 1; }; wait'']
      | LlamaCpp \<Rightarrow>
          [shellJoin ([''llama-server'', ''--host'', ''0.0.0.0''] @
             (if sp_Model spec \<noteq> [] then [''-hf'', sp_Model spec, ''--alias'', name] else []) @
             sp_Args spec)]
      | EngineOther _ \<Rightarrow>
          if sp_Model spec \<noteq> []
          then [''echo \"squall: unknown engine, cannot honour spec.model\" >&2; exit 1'']
          else [shellJoin (sp_Args spec)])"

definition engineServedName :: "ModelSpec \<Rightarrow> string \<Rightarrow> string" where
  "engineServedName spec name = (if sp_Model spec = [] then [] else name)"

section \<open>How a POSIX shell reads a word list\<close>

text \<open>
  Blanks separate words, single quotes preserve everything up to the next single quote, a
  backslash outside quotes preserves the next character. An unquoted character that means
  anything else to the shell is outside this reading (\<open>None\<close>), as is an open quote at the end.
\<close>

definition sh_special :: "char list" where
  "sh_special = ''|&;<>()$`\"*?[#~=%{}!'' @ [CHR 0x0A, CHR 0x09]"

definition sh_cur :: "string option \<Rightarrow> string" where
  "sh_cur w = (case w of None \<Rightarrow> [] | Some x \<Rightarrow> x)"

fun sh_scan :: "string option \<Rightarrow> bool \<Rightarrow> bool \<Rightarrow> string \<Rightarrow> string list option" where
  "sh_scan w quoted escaped [] =
     (if quoted \<or> escaped then None else Some (case w of None \<Rightarrow> [] | Some x \<Rightarrow> [x]))"
| "sh_scan w quoted escaped (c # s) =
     (if escaped then sh_scan (Some (sh_cur w @ [c])) False False s
      else if quoted
      then (if c = CHR 0x27 then sh_scan w False False s else sh_scan (Some (sh_cur w @ [c])) True False s)
      else if c = CHR '' '' then
        (case w of None \<Rightarrow> sh_scan None False False s
         | Some x \<Rightarrow> map_option (Cons x) (sh_scan None False False s))
      else if c = CHR 0x27 then sh_scan (Some (sh_cur w)) True False s
      else if c = CHR 0x5C then sh_scan (Some (sh_cur w)) False True s
      else if c \<in> set sh_special then None
      else sh_scan (Some (sh_cur w @ [c])) False False s)"

definition sh_words :: "string \<Rightarrow> string list option" where
  "sh_words s = sh_scan None False False s"

lemma sh_cur_simps [simp]: "sh_cur None = []" "sh_cur (Some x) = x"
  by (simp_all add: sh_cur_def)

text \<open>Inside quotes, the escaped text is read back as the text itself.\<close>

lemma sh_scan_quoted:
  "sh_scan (Some w) True False
     (ReplaceAll_char (CHR 0x27) [CHR 0x27, CHR 0x5C, CHR 0x27, CHR 0x27] a @ CHR 0x27 # s) =
   sh_scan (Some (w @ a)) False False s"
  by (induction a arbitrary: w) (auto simp: ReplaceAll_char_def)

lemma sh_scan_word: "sh_scan None False False (shell_quote a @ s) = sh_scan (Some a) False False s"
  using sh_scan_quoted [of "[]" a s] by (simp add: shell_quote_def)

lemma sh_words_shellJoin: "sh_words (shellJoin argv) = Some argv"
  unfolding sh_words_def
proof (induction argv rule: shellJoin.induct)
  case (2 a)
  then show ?case using sh_scan_word [of a "[]"] by simp
next
  case (3 a b as)
  then show ?case using sh_scan_word [of a "'' '' @ shellJoin (b # as)"] by simp
qed simp

text \<open>
  The start command is one shell line that means exactly the intended argument vector. With
  neither a model nor arguments there is no command and the image's own runs. Otherwise there is
  one line, never a list that the runner would join with \<open>&&\<close>; for vLLM and llama.cpp, and for
  Ollama without a model, a POSIX shell reads that line as the engine's program, the model in
  the engine's dialect served under the Model's name, and then the arguments verbatim, whatever
  characters they hold. An unknown engine with a model refuses to start.
\<close>

definition start_argv :: "ModelSpec \<Rightarrow> string \<Rightarrow> string list option" where
  "start_argv spec name =
     (case sp_Engine spec of
        VLLM \<Rightarrow> Some ([''vllm'', ''serve''] @
          (if sp_Model spec = [] then []
           else [''--model'', sp_Model spec, ''--served-model-name'', name]) @ sp_Args spec)
      | LlamaCpp \<Rightarrow> Some ([''llama-server'', ''--host'', ''0.0.0.0''] @
          (if sp_Model spec = [] then [] else [''-hf'', sp_Model spec, ''--alias'', name]) @ sp_Args spec)
      | Ollama \<Rightarrow> if sp_Model spec = [] then Some ([''ollama'', ''serve''] @ sp_Args spec) else None
      | EngineOther _ \<Rightarrow> if sp_Model spec = [] then Some (sp_Args spec) else None)"

theorem engineCommands_argv:
  "case engineCommands spec name of
     [] \<Rightarrow> sp_Model spec = [] \<and> sp_Args spec = []
   | line # rest \<Rightarrow> rest = [] \<and> (sp_Model spec \<noteq> [] \<or> sp_Args spec \<noteq> []) \<and>
       (case start_argv spec name of
          Some argv \<Rightarrow> sh_words line = Some argv
        | None \<Rightarrow> sp_Model spec \<noteq> [] \<and> sp_Engine spec \<notin> {VLLM, LlamaCpp})"
  by (auto simp: engineCommands_def start_argv_def sh_words_shellJoin simp del: shellJoin.simps
      split: ModelEngine.splits list.splits)

theorem engineCommands_argv_witness:
  "engineCommands (sample_spec\<lparr>sp_Args := [''--x'', ''a b'']\<rparr>) ''n'' \<noteq> [] \<and>
   (\<exists>line. engineCommands (sample_spec\<lparr>sp_Args := [''--x'', ''a b'']\<rparr>) ''n'' = [line] \<and>
      sh_words line = Some [''vllm'', ''serve'', ''--model'', ''qwen'', ''--served-model-name'', ''n'', ''--x'', ''a b''])"
  using engineCommands_argv [of "sample_spec\<lparr>sp_Args := [''--x'', ''a b'']\<rparr>" "''n''"]
  by (auto simp: sample_spec_def start_argv_def split: list.splits)

text \<open>
  Quoting is exact: the shell reads the line that \<open>shellJoin\<close> builds as the words it was given,
  for every list of strings (quotes, spaces, \<open>$\<close>, \<open>&&\<close>, newlines and empty words included).
\<close>

theorem shellJoin_roundtrip: "sh_words (shellJoin argv) = Some argv"
  by (rule sh_words_shellJoin)

end
