(* ===== verification/Squall_Support.thy ===== *)
theory Squall_Support
  imports Squall_Phase "HOL-Library.List_Lexorder" "HOL-Library.Char_ord"
begin

text \<open>
  The helpers the reconciler composes (\<open>internal/controller/squall\<close>): run names (\<open>runname.go\<close>),
  run ownership (\<open>ownership.go\<close>), served-model verification (\<open>served.go\<close>), secret environment
  (\<open>secretenv.go\<close>), preflight (\<open>preflight.go\<close>), cross-field validation (\<open>model_validation.go\<close>) and
  the SSH key Secret (\<open>sshkey.go\<close>). Kubernetes and dstack calls are function arguments.
\<close>

section \<open>Run names (runname.go)\<close>

definition dstackRunName :: "Model \<Rightarrow> string" where
  "dstackRunName m =
     (if md_Namespace m = [] then md_Name m else md_Namespace m @ ''-'' @ md_Name m)"

definition runNameFor :: "Model \<Rightarrow> string" where
  "runNameFor m = (if st_RunName (md_Status m) \<noteq> [] then st_RunName (md_Status m) else dstackRunName m)"

definition runNamesFor :: "Model \<Rightarrow> string list" where
  "runNamesFor m =
     dstackRunName m #
     (if st_RunName (md_Status m) \<noteq> [] \<and> st_RunName (md_Status m) \<noteq> dstackRunName m
      then [st_RunName (md_Status m)] else [])"

section \<open>Ownership (ownership.go)\<close>

definition ModelUIDEnvKey :: string where
  "ModelUIDEnvKey = ''SQUALL_MODEL_UID''"

datatype runOwnership = runOwnedByThisModel | runUnmarked | runFromAnotherIncarnation

text \<open>Reading a missing key of a Go map gives the zero value, the empty string.\<close>

definition env_at :: "string gomap \<Rightarrow> string \<Rightarrow> string" where
  "env_at env k = (case gomap_get env k of None \<Rightarrow> [] | Some v \<Rightarrow> v)"

definition classifyRunOwnership :: "Run option \<Rightarrow> Model \<Rightarrow> runOwnership" where
  "classifyRunOwnership run model =
     (case run of
        None \<Rightarrow> runOwnedByThisModel
      | Some r \<Rightarrow>
          let recorded = env_at (run_Env r) ModelUIDEnvKey
          in if recorded = [] then runUnmarked
             else if recorded = md_UID model then runOwnedByThisModel
             else runFromAnotherIncarnation)"

definition withModelUID :: "string gomap \<Rightarrow> Model \<Rightarrow> string gomap" where
  "withModelUID env model = gomap_put ModelUIDEnvKey (md_UID model) env"

definition reconcileRunOwnership :: "meta_api \<Rightarrow> Model \<Rightarrow> Run option \<Rightarrow> string \<Rightarrow> Model" where
  "reconcileRunOwnership M model run runName =
     (case classifyRunOwnership run model of
        runFromAnotherIncarnation \<Rightarrow>
          (let uid = (case run of None \<Rightarrow> [] | Some r \<Rightarrow> env_at (run_Env r) ModelUIDEnvKey);
               st = md_Status model
           in model\<lparr>md_Status := st\<lparr>st_RunUID := uid,
                st_Conditions := m_Set M (st_Conditions st)
                  (mk_condition ConditionSchedulable CondTrue ReasonRunFromAnotherIncarnation
                     (''run \"'' @ runName @ ''\" carries Model UID '' @ uid @ '', this Model is '' @
                      md_UID model @ ''; adopted, and re-applied on the next replica change''))\<rparr>\<rparr>)
      | _ \<Rightarrow> model\<lparr>md_Status := (md_Status model)\<lparr>st_RunUID := md_UID model\<rparr>\<rparr>)"

section \<open>Served models (served.go)\<close>

text \<open>An HTTP GET of \<open>/v1/models\<close>: no answer, or a status and the decoded ids.\<close>

datatype served_response = ServedUnreachable | ServedAnswer int "string list option"

definition served_url :: "string \<Rightarrow> string \<Rightarrow> string" where
  "served_url baseURL serviceURL' =
     TrimSuffix baseURL ''/'' @ ''/'' @ Trim_char (CHR ''/'') serviceURL' @ ''/v1/models''"

definition ServedModels ::
  "(string \<Rightarrow> served_response) \<Rightarrow> string \<Rightarrow> string \<Rightarrow> string list option" where
  "ServedModels do_get baseURL serviceURL' =
     (if serviceURL' = [] then None
      else case do_get (served_url baseURL serviceURL') of
             ServedUnreachable \<Rightarrow> None
           | ServedAnswer code ids \<Rightarrow> if code \<noteq> 200 then None else ids)"

fun servedModelMatch :: "string list \<Rightarrow> string \<Rightarrow> string option" where
  "servedModelMatch [] want = None"
| "servedModelMatch (s # ss) want =
     (if s = want \<or> s = want @ '':latest'' then Some s else servedModelMatch ss want)"

definition servedModelMatches :: "string list \<Rightarrow> string \<Rightarrow> bool" where
  "servedModelMatches served want \<longleftrightarrow> servedModelMatch served want \<noteq> None"

definition servedModelToForward :: "string list \<Rightarrow> string \<Rightarrow> string" where
  "servedModelToForward served want =
     (if want \<noteq> [] then (case servedModelMatch served want of None \<Rightarrow> [] | Some s \<Rightarrow> s)
      else if length served = 1 then served ! 0 else [])"

section \<open>Secret environment (secretenv.go)\<close>

text \<open>
  \<open>get_secret\<close> reads a Secret of the Model's namespace: \<open>None\<close> is any error of the API call,
  \<open>Some data\<close> the keys it holds. A Secret is read once per pass (\<open>cache\<close>).
\<close>

datatype env_error = EnvClash string | EnvSecretUnreadable string string | EnvKeyMissing string string string

definition ref_of :: "SecretKeyRef gomap \<Rightarrow> string \<Rightarrow> SecretKeyRef" where
  "ref_of refs n = (case gomap_get refs n of Some r \<Rightarrow> r | None \<Rightarrow> \<lparr>ref_Name = [], ref_Key = []\<rparr>)"

fun resolve_names ::
  "(string \<Rightarrow> string gomap option) \<Rightarrow> string gomap \<Rightarrow> SecretKeyRef gomap \<Rightarrow> string list \<Rightarrow>
   string gomap gomap \<Rightarrow> string gomap \<Rightarrow> env_error + string gomap" where
  "resolve_names get_secret env refs [] cache out = Inr out"
| "resolve_names get_secret env refs (n # ns) cache out =
     (if gomap_get env n \<noteq> None then Inl (EnvClash n)
      else
        let ref = ref_of refs n in
        case (case gomap_get cache (ref_Name ref) of Some d \<Rightarrow> Some d | None \<Rightarrow> get_secret (ref_Name ref)) of
          None \<Rightarrow> Inl (EnvSecretUnreadable n (ref_Name ref))
        | Some data \<Rightarrow>
            (case gomap_get data (ref_Key ref) of
               None \<Rightarrow> Inl (EnvKeyMissing n (ref_Name ref) (ref_Key ref))
             | Some v \<Rightarrow> resolve_names get_secret env refs ns
                          (gomap_put (ref_Name ref) data cache) (gomap_put n v out)))"

definition resolveEnv :: "(string \<Rightarrow> string gomap option) \<Rightarrow> Model \<Rightarrow> env_error + string gomap" where
  "resolveEnv get_secret model =
     (let spec = md_Spec model in
      if sp_SecretEnv spec = [] then Inr (sp_Env spec)
      else resolve_names get_secret (sp_Env spec) (sp_SecretEnv spec)
             (sort (map fst (sp_SecretEnv spec))) [] (sp_Env spec))"

section \<open>Preflight (preflight.go)\<close>

text \<open>
  The dstack calls preflight makes, with the server's state threaded through: \<open>Inl\<close> is an error
  (\<open>EnsureFleet\<close> returns whether it failed).
\<close>

record 's preflight_client =
  pf_BackendConfigured :: "string \<Rightarrow> 's \<Rightarrow> (dstack_error + bool) \<times> 's"
  pf_HasFleetFor :: "string \<Rightarrow> 's \<Rightarrow> (dstack_error + bool) \<times> 's"
  pf_EnsureFleet :: "FleetSpec \<Rightarrow> 's \<Rightarrow> dstack_error option \<times> 's"

text \<open>The loop; \<open>None\<close> is the early return on an error of the first two calls.\<close>

fun preflight_loop ::
  "'s preflight_client \<Rightarrow> string list \<Rightarrow> string list \<Rightarrow> string list \<Rightarrow> FleetStatus list \<Rightarrow> 's \<Rightarrow>
   (string list \<times> string list \<times> FleetStatus list) option \<times> 's" where
  "preflight_loop c [] unconf unfl fleets s = (Some (unconf, unfl, fleets), s)"
| "preflight_loop c (b # bs) unconf unfl fleets s =
     (case pf_BackendConfigured c b s of
        (Inl _, s1) \<Rightarrow> (None, s1)
      | (Inr configured, s1) \<Rightarrow>
          if \<not> configured
          then preflight_loop c bs (unconf @ [b]) unfl
                 (fleets @ [\<lparr>fs_Backend = b, fs_Name = [], fs_State = FleetStateUnconfigured\<rparr>]) s1
          else case pf_HasFleetFor c b s1 of
             (Inl _, s2) \<Rightarrow> (None, s2)
           | (Inr True, s2) \<Rightarrow>
               preflight_loop c bs unconf unfl
                 (fleets @ [\<lparr>fs_Backend = b, fs_Name = [], fs_State = FleetStateAdmitting\<rparr>]) s2
           | (Inr False, s2) \<Rightarrow>
               (case pf_EnsureFleet c \<lparr>fl_Name = FleetName b, fl_Backends = [b], fl_IdleDuration = 0\<rparr> s2 of
                  (Some _, s3) \<Rightarrow>
                    preflight_loop c bs unconf (unfl @ [b])
                      (fleets @ [\<lparr>fs_Backend = b, fs_Name = FleetName b, fs_State = FleetStateUnfleeted\<rparr>]) s3
                | (None, s3) \<Rightarrow>
                    preflight_loop c bs unconf unfl
                      (fleets @ [\<lparr>fs_Backend = b, fs_Name = FleetName b, fs_State = FleetStateCreated\<rparr>]) s3))"

text \<open>Reason, message and fleet states; the reason is empty when nothing blocks provisioning.\<close>

definition preflight ::
  "'s preflight_client \<Rightarrow> string list \<Rightarrow> 's \<Rightarrow> (string \<times> string \<times> FleetStatus list) \<times> 's" where
  "preflight c backends s =
     (if backends = [] then (([], [], []), s)
      else case preflight_loop c backends [] [] [] s of
             (None, s') \<Rightarrow> (([], [], []), s')
           | (Some (unconf, unfl, fleets), s') \<Rightarrow>
               if length unconf = length backends
               then ((ReasonBackendUnavailable,
                      ''no backend in spec.placement.backends ['' @ Join backends '' '' @
                      ''] is configured on the dstack server; provisioning would return zero offers with no error'',
                      fleets), s')
               else if length unfl + length unconf = length backends
               then ((ReasonNoFleet,
                      ''no active fleet admits ['' @ Join unfl '' '' @
                      ''] and squall could not create one; dstack needs a fleet per backend and returns zero offers without one'',
                      fleets), s')
               else (([], [], fleets), s'))"

section \<open>Validation (model_validation.go)\<close>

datatype validation_error = NoBackends | UncontrolledNotPositive | UncontrolledTooLong duration
  | HardStopTooShort duration | HardStopBeforeUncontrolled duration duration
  | HoldExceedsProvisioning duration duration | IdleTooShort duration | ProvisioningNotPositive

datatype validation_warning = HoldShorterThanColdStart duration duration | HardStopDisabled

definition ValidateWithWarnings :: "ModelSpec \<Rightarrow> validation_error + validation_warning list" where
  "ValidateWithWarnings spec =
     (if pl_Backends (sp_Placement spec) = [] then Inl NoBackends
      else if (case sp_UncontrolledTimeout spec of Some u \<Rightarrow> u \<le> 0 | None \<Rightarrow> False)
      then Inl UncontrolledNotPositive
      else if (case sp_UncontrolledTimeout spec of
                 Some u \<Rightarrow> MaxExplicitUncontrolledTimeout < u | None \<Rightarrow> False)
      then Inl (UncontrolledTooLong (case sp_UncontrolledTimeout spec of Some u \<Rightarrow> u | None \<Rightarrow> 0))
      else if 0 < sp_HardStop spec \<and> sp_HardStop spec < MinHardStop
      then Inl (HardStopTooShort (sp_HardStop spec))
      else if 0 < sp_HardStop spec \<and> sp_HardStop spec < uncontrolledTimeoutFor spec
      then Inl (HardStopBeforeUncontrolled (sp_HardStop spec) (uncontrolledTimeoutFor spec))
      else if sp_ProvisioningTimeout spec < sp_HoldTimeout spec
      then Inl (HoldExceedsProvisioning (sp_HoldTimeout spec) (sp_ProvisioningTimeout spec))
      else if sp_IdleTimeout spec < MinIdleTimeout then Inl (IdleTooShort (sp_IdleTimeout spec))
      else if sp_ProvisioningTimeout spec \<le> 0 then Inl ProvisioningNotPositive
      else Inr (
        (if 0 < sp_HoldTimeout spec \<and> wrap64 (sp_HoldTimeout spec * 2) < sp_ProvisioningTimeout spec
         then [HoldShorterThanColdStart (sp_HoldTimeout spec) (sp_ProvisioningTimeout spec)] else []) @
        (if sp_HardStop spec = 0 \<and> sp_MinReplicas spec = 0 then [HardStopDisabled] else [])))"

definition Validate :: "ModelSpec \<Rightarrow> validation_error option" where
  "Validate spec = (case ValidateWithWarnings spec of Inl e \<Rightarrow> Some e | Inr _ \<Rightarrow> None)"

section \<open>The SSH key Secret (sshkey.go)\<close>

definition SSHKeySecretName :: string where
  "SSHKeySecretName = ''squall-replica-ssh-key''"

definition sshKeySecretPublicKey :: string where
  "sshKeySecretPublicKey = ''id_ed25519.pub''"

definition sshKeySecretPrivateKey :: string where
  "sshKeySecretPrivateKey = ''id_ed25519''"

datatype api_result = ApiOk | ApiNotFound | ApiAlreadyExists | ApiError

text \<open>
  \<open>sk_get\<close> reads the Secret (result and data), \<open>sk_create\<close> creates it, \<open>sk_generate\<close> mints a pair
  (public, private) or fails; the API server's state is threaded through.
\<close>

record 's ssh_key_env =
  sk_get :: "string \<Rightarrow> string \<Rightarrow> 's \<Rightarrow> (api_result \<times> string gomap) \<times> 's"
  sk_create :: "string \<Rightarrow> string \<Rightarrow> string gomap \<Rightarrow> 's \<Rightarrow> api_result \<times> 's"
  sk_generate :: "'s \<Rightarrow> (string \<times> string) option \<times> 's"

definition EnsureSSHKey :: "'s ssh_key_env \<Rightarrow> string \<Rightarrow> 's \<Rightarrow> string \<times> 's" where
  "EnsureSSHKey E ns s =
     (case sk_get E ns SSHKeySecretName s of
        ((ApiOk, data), s1) \<Rightarrow>
          (case gomap_get data sshKeySecretPublicKey of
             Some pub \<Rightarrow> (pub, s1) | None \<Rightarrow> ([], s1))
      | ((ApiNotFound, _), s1) \<Rightarrow>
          (case sk_generate E s1 of
             (None, s2) \<Rightarrow> ([], s2)
           | (Some (pub, priv), s2) \<Rightarrow>
               (case sk_create E ns SSHKeySecretName
                       [(sshKeySecretPrivateKey, priv), (sshKeySecretPublicKey, pub)] s2 of
                  (ApiOk, s3) \<Rightarrow> (pub, s3)
                | (ApiAlreadyExists, s3) \<Rightarrow>
                    (case sk_get E ns SSHKeySecretName s3 of
                       ((ApiOk, data), s4) \<Rightarrow> (env_at data sshKeySecretPublicKey, s4)
                     | (_, s4) \<Rightarrow> ([], s4))
                | (_, s3) \<Rightarrow> ([], s3)))
      | (_, s1) \<Rightarrow> ([], s1))"

text \<open>
  \<open>generateSSHKeypair\<close> over the calls it makes into the crypto libraries: the authorized_keys line and the
  PEM text of one pair, or the failure of the step that failed.
\<close>

record ('s, 'p, 'b) ssh_crypto =
  cy_GenerateKey :: "'s \<Rightarrow> (string \<times> string) option \<times> 's"
  cy_NewPublicKey :: "string \<Rightarrow> 'p option"
  cy_MarshalPrivateKey :: "string \<Rightarrow> string \<Rightarrow> 'b option"
  cy_MarshalAuthorizedKey :: "'p \<Rightarrow> string"
  cy_EncodeToMemory :: "'b \<Rightarrow> string"

definition generateSSHKeypair :: "('s, 'p, 'b) ssh_crypto \<Rightarrow> 's \<Rightarrow> (string \<times> string) option \<times> 's" where
  "generateSSHKeypair cy s =
     (case cy_GenerateKey cy s of
        (None, s1) \<Rightarrow> (None, s1)
      | (Some (pubKey, privKey), s1) \<Rightarrow>
          (case cy_NewPublicKey cy pubKey of
             None \<Rightarrow> (None, s1)
           | Some sshPub \<Rightarrow>
               (case cy_MarshalPrivateKey cy privKey ''squall'' of
                  None \<Rightarrow> (None, s1)
                | Some pemBlock \<Rightarrow> (Some (cy_MarshalAuthorizedKey cy sshPub, cy_EncodeToMemory cy pemBlock), s1))))"

section \<open>Properties: run names\<close>

text \<open>
  Run names do not identify a Model: although the run name is qualified by the namespace so
  that two Models never drive one run, \<open>namespace-name\<close> is ambiguous, since both parts may
  contain dashes. Here two Models of different namespaces, whose names Kubernetes accepts,
  compute the same dstack run name.
\<close>

definition sample_model :: Model where
  "sample_model =
     \<lparr>md_Name = ''qwen'', md_Namespace = ''a'', md_UID = ''u1'', md_Annotations = [],
      md_DeletionTimestamp = None, md_Finalizers = [], md_Spec = sample_spec,
      md_Status = sample_status\<rparr>"

theorem dstackRunName_collision:
  "\<exists>m1 m2. (md_Namespace m1, md_Name m1) \<noteq> (md_Namespace m2, md_Name m2) \<and>
     md_Namespace m1 = ''prod'' \<and> md_Namespace m2 = ''prod-eu'' \<and>
     dstackRunName m1 = dstackRunName m2 \<and> runNamesFor m1 = runNamesFor m2"
proof -
  let ?m1 = "sample_model\<lparr>md_Namespace := ''prod'', md_Name := ''eu-qwen''\<rparr>"
  let ?m2 = "sample_model\<lparr>md_Namespace := ''prod-eu'', md_Name := ''qwen''\<rparr>"
  have "dstackRunName ?m1 = dstackRunName ?m2" "runNamesFor ?m1 = runNamesFor ?m2"
    by (simp_all add: dstackRunName_def runNamesFor_def sample_model_def sample_status_def)
  moreover have "(md_Namespace ?m1, md_Name ?m1) \<noteq> (md_Namespace ?m2, md_Name ?m2)" by simp
  ultimately show ?thesis by (intro exI [of _ ?m1] exI [of _ ?m2]) simp
qed

text \<open>
  Between Models whose namespaces hold no dash the run name is an identity, and the name a
  Model acts under is always one that the reaper counts as its own.
\<close>

theorem dstackRunName_inj:
  assumes "md_Namespace m1 \<noteq> []" and "md_Namespace m2 \<noteq> []"
    and "CHR ''-'' \<notin> set (md_Namespace m1)" and "CHR ''-'' \<notin> set (md_Namespace m2)"
    and "dstackRunName m1 = dstackRunName m2"
  shows "md_Namespace m1 = md_Namespace m2 \<and> md_Name m1 = md_Name m2 \<and>
    runNameFor m1 \<in> set (runNamesFor m1)"
proof -
  have eq: "md_Namespace m1 @ CHR ''-'' # md_Name m1 = md_Namespace m2 @ CHR ''-'' # md_Name m2"
    using assms by (simp add: dstackRunName_def)
  have "takeWhile (\<lambda>c. c \<noteq> CHR ''-'') (md_Namespace m1 @ CHR ''-'' # md_Name m1) = md_Namespace m1"
    "takeWhile (\<lambda>c. c \<noteq> CHR ''-'') (md_Namespace m2 @ CHR ''-'' # md_Name m2) = md_Namespace m2"
    using assms(3,4) by (auto simp: takeWhile_append2 takeWhile_tail)
  with eq have "md_Namespace m1 = md_Namespace m2" by metis
  with eq show ?thesis by (auto simp: runNameFor_def runNamesFor_def)
qed

theorem dstackRunName_inj_witness: "runNameFor sample_model \<in> set (runNamesFor sample_model)"
  using dstackRunName_inj [of sample_model sample_model] by (simp add: sample_model_def)

section \<open>Properties: secret environment\<close>

definition secret_value :: "(string \<Rightarrow> string gomap option) \<Rightarrow> SecretKeyRef \<Rightarrow> string option" where
  "secret_value get_secret ref =
     (case get_secret (ref_Name ref) of None \<Rightarrow> None | Some data \<Rightarrow> gomap_get data (ref_Key ref))"

definition resolvable :: "(string \<Rightarrow> string gomap option) \<Rightarrow> string gomap \<Rightarrow> SecretKeyRef gomap \<Rightarrow> string \<Rightarrow> bool" where
  "resolvable get_secret env refs n \<longleftrightarrow>
     gomap_get env n = None \<and> secret_value get_secret (ref_of refs n) \<noteq> None"

text \<open>What the cache holds is what the API answered.\<close>

definition cache_ok :: "(string \<Rightarrow> string gomap option) \<Rightarrow> string gomap gomap \<Rightarrow> bool" where
  "cache_ok get_secret cache \<longleftrightarrow> (\<forall>n d. gomap_get cache n = Some d \<longrightarrow> get_secret n = Some d)"

lemma cache_read:
  "cache_ok get_secret cache \<Longrightarrow>
   (case gomap_get cache n of Some d \<Rightarrow> Some d | None \<Rightarrow> get_secret n) = get_secret n"
  by (auto simp: cache_ok_def split: option.splits)

lemma resolve_names_step:
  assumes "cache_ok get_secret cache"
  shows "resolve_names get_secret env refs (n # ns) cache out =
    (if gomap_get env n \<noteq> None then Inl (EnvClash n)
     else case get_secret (ref_Name (ref_of refs n)) of
        None \<Rightarrow> Inl (EnvSecretUnreadable n (ref_Name (ref_of refs n)))
      | Some data \<Rightarrow>
          (case gomap_get data (ref_Key (ref_of refs n)) of
             None \<Rightarrow> Inl (EnvKeyMissing n (ref_Name (ref_of refs n)) (ref_Key (ref_of refs n)))
           | Some v \<Rightarrow> resolve_names get_secret env refs ns
                        (gomap_put (ref_Name (ref_of refs n)) data cache) (gomap_put n v out)))"
  by (simp add: Let_def cache_read [OF assms])

lemma cache_ok_put: "cache_ok g cache \<Longrightarrow> g n = Some d \<Longrightarrow> cache_ok g (gomap_put n d cache)"
  by (simp add: cache_ok_def)

lemma resolve_names_ok:
  assumes "cache_ok get_secret cache"
  shows "(\<exists>r. resolve_names get_secret env refs ns cache out = Inr r) \<longleftrightarrow>
    (\<forall>n\<in>set ns. resolvable get_secret env refs n)"
  using assms
proof (induction ns arbitrary: cache out)
  case (Cons n ns)
  show ?case
    unfolding resolve_names_step [OF Cons.prems]
    using Cons.IH cache_ok_put [OF Cons.prems]
    by (auto simp: resolvable_def secret_value_def split: option.splits)
qed simp

lemma resolve_names_value:
  assumes "cache_ok get_secret cache"
    and "resolve_names get_secret env refs ns cache out = Inr r"
  shows "gomap_get r k =
    (if k \<in> set ns then secret_value get_secret (ref_of refs k) else gomap_get out k)"
  using assms
proof (induction ns arbitrary: cache out)
  case (Cons n ns)
  from Cons.prems obtain d v where d: "get_secret (ref_Name (ref_of refs n)) = Some d"
    and v: "gomap_get d (ref_Key (ref_of refs n)) = Some v"
    and rest: "resolve_names get_secret env refs ns
        (gomap_put (ref_Name (ref_of refs n)) d cache) (gomap_put n v out) = Inr r"
    unfolding resolve_names_step [OF Cons.prems(1)] by (auto split: if_splits option.splits)
  from Cons.IH [OF cache_ok_put [OF Cons.prems(1) d] rest] d v show ?case
    by (auto simp: secret_value_def)
qed simp

text \<open>
  Secrets resolve completely or not at all. With secret references declared, the merge
  succeeds exactly when no referenced name is also a plain variable and every referenced Secret
  and key can be read; the result then has each referenced name at its Secret's value and every
  other variable at its plain value. There is no precedence and no empty default.
\<close>

theorem resolveEnv_spec:
  assumes "sp_SecretEnv (md_Spec model) \<noteq> []"
  shows "((\<exists>out. resolveEnv get_secret model = Inr out) \<longleftrightarrow>
      (\<forall>n\<in>set (map fst (sp_SecretEnv (md_Spec model))).
         gomap_get (sp_Env (md_Spec model)) n = None \<and>
         secret_value get_secret (ref_of (sp_SecretEnv (md_Spec model)) n) \<noteq> None)) \<and>
    (\<forall>out k. resolveEnv get_secret model = Inr out \<longrightarrow>
      gomap_get out k =
        (if k \<in> set (map fst (sp_SecretEnv (md_Spec model)))
         then secret_value get_secret (ref_of (sp_SecretEnv (md_Spec model)) k)
         else gomap_get (sp_Env (md_Spec model)) k))"
proof -
  have c: "cache_ok get_secret []" by (simp add: cache_ok_def)
  have eq: "resolveEnv get_secret model =
      resolve_names get_secret (sp_Env (md_Spec model)) (sp_SecretEnv (md_Spec model))
        (sort (map fst (sp_SecretEnv (md_Spec model)))) [] (sp_Env (md_Spec model))"
    using assms by (simp add: resolveEnv_def Let_def)
  show ?thesis
    unfolding eq resolve_names_ok [OF c]
    using resolve_names_value [OF c] by (auto simp: resolvable_def)
qed

theorem resolveEnv_spec_witness:
  "resolveEnv (\<lambda>n. if n = ''hf'' then Some [(''token'', ''s3'')] else None)
     (sample_model\<lparr>md_Spec := sample_spec\<lparr>sp_SecretEnv := [(''HF'', \<lparr>ref_Name = ''hf'', ref_Key = ''token''\<rparr>)]\<rparr>\<rparr>)
   \<noteq> Inl (EnvClash ''HF'') \<and>
   (\<exists>out. resolveEnv (\<lambda>n. if n = ''hf'' then Some [(''token'', ''s3'')] else None)
     (sample_model\<lparr>md_Spec := sample_spec\<lparr>sp_SecretEnv := [(''HF'', \<lparr>ref_Name = ''hf'', ref_Key = ''token''\<rparr>)]\<rparr>\<rparr>)
   = Inr out)"
  using resolveEnv_spec [of "sample_model\<lparr>md_Spec := sample_spec\<lparr>sp_SecretEnv :=
      [(''HF'', \<lparr>ref_Name = ''hf'', ref_Key = ''token''\<rparr>)]\<rparr>\<rparr>"
      "\<lambda>n. if n = ''hf'' then Some [(''token'', ''s3'')] else None"]
  by (auto simp: sample_model_def sample_spec_def secret_value_def ref_of_def)

section \<open>Properties: validation\<close>

text \<open>
  What an accepted spec guarantees, exactly: a backend allowlist, an explicit uncontrolled
  timeout within 24 hours, a hard stop that is off or at least an hour and not before the
  uncontrolled deadline, a hold within the provisioning timeout, an idle timeout of a minute at
  least, and a positive provisioning timeout, so that the destructive provisioning deadline is
  always armed.
\<close>

theorem Validate_iff:
  "Validate spec = None \<longleftrightarrow>
     pl_Backends (sp_Placement spec) \<noteq> [] \<and>
     (\<forall>u. sp_UncontrolledTimeout spec = Some u \<longrightarrow> 0 < u \<and> u \<le> 24 * Hour) \<and>
     (sp_HardStop spec \<le> 0 \<or> Hour \<le> sp_HardStop spec \<and> uncontrolledTimeoutFor spec \<le> sp_HardStop spec) \<and>
     sp_HoldTimeout spec \<le> sp_ProvisioningTimeout spec \<and> Minute \<le> sp_IdleTimeout spec \<and>
     0 < sp_ProvisioningTimeout spec"
  by (auto simp: Validate_def ValidateWithWarnings_def deadline_consts split: option.splits)

theorem Validate_iff_witness: "Validate sample_spec = None"
  using Validate_iff [of sample_spec] by (simp add: sample_spec_def)

section \<open>Properties: preflight\<close>

definition blocked_state :: "FleetStatus \<Rightarrow> bool" where
  "blocked_state f \<longleftrightarrow> fs_State f \<in> {FleetStateUnconfigured, FleetStateUnfleeted}"

lemma fleet_state_neq [simp]:
  "FleetStateUnconfigured \<noteq> FleetStateUnfleeted" "FleetStateUnfleeted \<noteq> FleetStateUnconfigured"
  "FleetStateAdmitting \<noteq> FleetStateUnfleeted" "FleetStateAdmitting \<noteq> FleetStateUnconfigured"
  "FleetStateCreated \<noteq> FleetStateUnfleeted" "FleetStateCreated \<noteq> FleetStateUnconfigured"
  by (simp_all add: FleetStateUnconfigured_def FleetStateUnfleeted_def FleetStateAdmitting_def
      FleetStateCreated_def)

text \<open>The loop files every backend once, and the two lists are the blocked ones.\<close>

definition preflight_acc :: "string list \<Rightarrow> string list \<Rightarrow> FleetStatus list \<Rightarrow> bool" where
  "preflight_acc unconf unfl fleets \<longleftrightarrow>
     unconf = map fs_Backend (filter (\<lambda>f. fs_State f = FleetStateUnconfigured) fleets) \<and>
     unfl = map fs_Backend (filter (\<lambda>f. fs_State f = FleetStateUnfleeted) fleets)"

lemma preflight_loop_step:
  assumes "preflight_acc unconf unfl fleets"
  shows "(\<exists>s'. preflight_loop c (b # bs) unconf unfl fleets s = (None, s')) \<or>
    (\<exists>unconf1 unfl1 f s1. preflight_loop c (b # bs) unconf unfl fleets s =
         preflight_loop c bs unconf1 unfl1 (fleets @ [f]) s1 \<and>
       preflight_acc unconf1 unfl1 (fleets @ [f]) \<and> fs_Backend f = b)"
proof -
  let ?f = "\<lambda>n st. \<lparr>fs_Backend = b, fs_Name = n, fs_State = st\<rparr>"
  have acc: "preflight_acc (unconf @ [b]) unfl (fleets @ [?f [] FleetStateUnconfigured])"
    "preflight_acc unconf unfl (fleets @ [?f [] FleetStateAdmitting])"
    "preflight_acc unconf (unfl @ [b]) (fleets @ [?f (FleetName b) FleetStateUnfleeted])"
    "preflight_acc unconf unfl (fleets @ [?f (FleetName b) FleetStateCreated])"
    using assms by (simp_all add: preflight_acc_def)
  obtain r1 s1 where r1: "pf_BackendConfigured c b s = (r1, s1)" by fastforce
  obtain r2 s2 where r2: "pf_HasFleetFor c b s1 = (r2, s2)" by fastforce
  obtain r3 s3 where r3: "pf_EnsureFleet c \<lparr>fl_Name = FleetName b, fl_Backends = [b], fl_IdleDuration = 0\<rparr> s2 = (r3, s3)"
    by fastforce
  consider "is_err r1" | "r1 = Inr False" | "r1 = Inr True" "is_err r2" | "r1 = Inr True" "r2 = Inr True"
    | e where "r1 = Inr True" "r2 = Inr False" "r3 = Some e" | "r1 = Inr True" "r2 = Inr False" "r3 = None"
    by (cases r1; cases r2; cases r3) (auto simp: is_err_def)
  moreover have stepped: ?thesis if "preflight_loop c (b # bs) unconf unfl fleets s =
      preflight_loop c bs u v (fleets @ [?f n st]) t" and "preflight_acc u v (fleets @ [?f n st])"
    for u v n st t
    by (rule disjI2, intro exI conjI) (rule that(1), rule that(2), simp)
  ultimately show ?thesis
  proof cases
    case 1
    with r1 show ?thesis by (cases r1) auto
  next
    case 2
    then show ?thesis by (intro stepped [OF _ acc(1)]) (simp add: r1)
  next
    case 3
    with r1 r2 show ?thesis by (cases r2) auto
  next
    case 4
    then show ?thesis by (intro stepped [OF _ acc(2)]) (simp add: r1 r2)
  next
    case 5
    then show ?thesis by (intro stepped [OF _ acc(3)]) (simp add: r1 r2 r3)
  next
    case 6
    then show ?thesis by (intro stepped [OF _ acc(4)]) (simp add: r1 r2 r3)
  qed
qed

lemma preflight_loop_inv:
  assumes "preflight_loop c bs unconf unfl fleets s = (Some (unconf', unfl', fleets'), s')"
    and "preflight_acc unconf unfl fleets"
  shows "preflight_acc unconf' unfl' fleets' \<and> map fs_Backend fleets' = map fs_Backend fleets @ bs"
  using assms
proof (induction bs arbitrary: unconf unfl fleets s)
  case (Cons b bs)
  then obtain unconf1 unfl1 f s1 where
    "preflight_loop c bs unconf1 unfl1 (fleets @ [f]) s1 = (Some (unconf', unfl', fleets'), s')"
    "preflight_acc unconf1 unfl1 (fleets @ [f])" "fs_Backend f = b"
    using preflight_loop_step [OF Cons.prems(2), of c b bs s] by force
  with Cons.IH show ?case by fastforce
qed simp

lemma filter_all_length: "length (filter P xs) = length xs \<longleftrightarrow> (\<forall>x\<in>set xs. P x)"
  by (metis filter_id_conv length_filter_less less_irrefl)

lemma filter_two_length:
  assumes "\<And>x. \<not> (P x \<and> Q x)"
  shows "length (filter P xs) + length (filter Q xs) = length xs \<longleftrightarrow> (\<forall>x\<in>set xs. P x \<or> Q x)"
proof -
  have "length (filter P xs) + length (filter Q xs) = length (filter (\<lambda>x. P x \<or> Q x) xs)"
    using assms by (induction xs) auto
  then show ?thesis by (simp add: filter_all_length)
qed

text \<open>
  Preflight blocks only on evidence, and fails open. It names a reason exactly when every
  backend of the allowlist, each examined once and in order, is known to be unconfigured or to
  have no fleet that could be found or created; with at least one backend usable, with no
  backends listed, or after any error from dstack there is no reason.
\<close>

theorem preflight_blocks_iff:
  assumes "preflight c backends s = ((reason, message, fleets), s')"
  shows "(reason \<noteq> [] \<longleftrightarrow> backends \<noteq> [] \<and> map fs_Backend fleets = backends \<and>
            (\<forall>f\<in>set fleets. blocked_state f)) \<and>
    (reason = ReasonBackendUnavailable \<longrightarrow> (\<forall>f\<in>set fleets. fs_State f = FleetStateUnconfigured)) \<and>
    reason \<in> {[], ReasonBackendUnavailable, ReasonNoFleet}"
proof (cases "preflight_loop c backends [] [] [] s")
  case (Pair res s1)
  have ne: "ReasonBackendUnavailable \<noteq> []" "ReasonNoFleet \<noteq> []" "ReasonNoFleet \<noteq> ReasonBackendUnavailable"
    by (simp_all add: reason_defs)
  show ?thesis
  proof (cases res)
    case None
    with assms Pair ne show ?thesis
      by (auto simp: preflight_def split: if_splits)
  next
    case (Some r)
    obtain unconf unfl fl where r: "r = (unconf, unfl, fl)" by (cases r)
    have inv: "preflight_acc unconf unfl fl" "map fs_Backend fl = backends"
      using preflight_loop_inv [of c backends "[]" "[]" "[]" s unconf unfl fl s1] Pair Some r
      by (simp_all add: preflight_acc_def)
    have len: "length fl = length backends" using arg_cong [OF inv(2), of length] by simp
    have all: "length unconf = length backends \<longleftrightarrow> (\<forall>f\<in>set fl. fs_State f = FleetStateUnconfigured)"
      using inv(1) len filter_all_length [of "\<lambda>f. fs_State f = FleetStateUnconfigured" fl]
      by (simp add: preflight_acc_def)
    have both: "length unfl + length unconf = length backends \<longleftrightarrow> (\<forall>f\<in>set fl. blocked_state f)"
      using inv(1) len filter_two_length [of "\<lambda>f. fs_State f = FleetStateUnfleeted"
          "\<lambda>f. fs_State f = FleetStateUnconfigured" fl]
      by (auto simp: preflight_acc_def blocked_state_def)
    show ?thesis
      using assms Pair Some r ne all both inv(2)
      by (auto simp: preflight_def blocked_state_def split: if_splits)
  qed
qed

definition sample_preflight :: "unit preflight_client" where
  "sample_preflight =
     \<lparr>pf_BackendConfigured = (\<lambda>b s. (Inr (b \<noteq> ''aws''), s)),
      pf_HasFleetFor = (\<lambda>b s. (Inr False, s)),
      pf_EnsureFleet = (\<lambda>f s. (Some (OtherError ''refused''), s))\<rparr>"

theorem preflight_blocks_iff_witness:
  "\<exists>message fleets s'. preflight sample_preflight [''aws'', ''vastai''] () = ((ReasonNoFleet, message, fleets), s') \<and>
     (\<forall>f\<in>set fleets. blocked_state f)"
proof -
  obtain message fleets s' where p: "preflight sample_preflight [''aws'', ''vastai''] () =
      ((ReasonNoFleet, message, fleets), s')"
    by (simp add: preflight_def sample_preflight_def)
  from preflight_blocks_iff [OF p] p show ?thesis by (auto simp: reason_defs)
qed

section \<open>Properties: served models\<close>

lemma servedModelMatch_Some:
  "servedModelMatch served want = Some s \<Longrightarrow> s \<in> set served \<and> (s = want \<or> s = want @ '':latest'')"
  by (induction served) (auto split: if_splits)

lemma servedModelMatch_None:
  "servedModelMatch served want = None \<longleftrightarrow> (\<forall>s\<in>set served. s \<noteq> want \<and> s \<noteq> want @ '':latest'')"
  by (induction served) auto

text \<open>
  The name requests are rewritten to is always one the replica serves: the forwarded name is
  empty or an element of the served list; with an expectation it is that name or its
  \<open>:latest\<close> alias, and it is found whenever the replica serves either; without one it is used
  only when the replica serves exactly one model.
\<close>

theorem servedModelToForward_sound:
  "(servedModelToForward served want = [] \<or> servedModelToForward served want \<in> set served) \<and>
   (want \<noteq> [] \<longrightarrow>
      (servedModelMatches served want \<longleftrightarrow> servedModelToForward served want \<in> {want, want @ '':latest''}) \<and>
      (servedModelMatches served want \<longleftrightarrow> want \<in> set served \<or> want @ '':latest'' \<in> set served)) \<and>
   (want = [] \<longrightarrow> servedModelToForward served want \<noteq> [] \<longrightarrow> served = [servedModelToForward served want])"
proof -
  define L where "L = want @ '':latest''"
  have some: "servedModelMatch served want = Some s \<Longrightarrow> s \<in> set served \<and> (s = want \<or> s = L)" for s
    unfolding L_def by (rule servedModelMatch_Some)
  have none: "servedModelMatch served want = None \<longleftrightarrow> (\<forall>s\<in>set served. s \<noteq> want \<and> s \<noteq> L)"
    unfolding L_def by (rule servedModelMatch_None)
  have ne: "L \<noteq> []" by (simp add: L_def)
  have forward: "want \<noteq> [] \<Longrightarrow> servedModelToForward served want =
      (case servedModelMatch served want of None \<Rightarrow> [] | Some s \<Rightarrow> s)"
    by (simp add: servedModelToForward_def)
  have single: "want = [] \<Longrightarrow> servedModelToForward served want \<noteq> [] \<Longrightarrow> served = [servedModelToForward served want]"
    by (cases served) (auto simp: servedModelToForward_def split: if_splits)
  have member: "servedModelToForward served want = [] \<or> servedModelToForward served want \<in> set served"
  proof (cases "want = []")
    case True
    then show ?thesis using single by (metis list.set_intros(1))
  next
    case False
    then show ?thesis using forward some by (cases "servedModelMatch served want") auto
  qed
  have "want \<noteq> [] \<Longrightarrow> servedModelMatches served want \<longleftrightarrow> servedModelToForward served want \<in> {want, L}"
    using forward some ne by (cases "servedModelMatch served want") (auto simp: servedModelMatches_def)
  moreover have "servedModelMatches served want \<longleftrightarrow> want \<in> set served \<or> L \<in> set served"
    unfolding servedModelMatches_def none by blast
  ultimately show ?thesis using single member unfolding L_def [symmetric] by blast
qed

theorem servedModelToForward_sound_witness:
  "servedModelToForward [''q:latest'', ''w''] ''q'' \<in> {''q'', ''q:latest''}"
  using servedModelToForward_sound [of "[''q:latest'', ''w'']" "''q''"] by auto

end
