(* ===== verification/Squall_Reconcile.thy ===== *)
theory Squall_Reconcile
  imports Squall_Activity Squall_Engine Squall_Support
begin

text \<open>
  The Model reconciler (\<open>internal/controller/squall/model_controller.go\<close>, \<open>finalizer.go\<close>): one pass
  of \<open>Reconcile\<close> and of the drain-first teardown, every call that changes state included. The
  Kubernetes API, dstack and the proxy replicas are one external state \<open>'s\<close>, reached only through
  the functions of \<open>reconcile_env\<close>; each call returns its answer and the next external state.
  Metrics and log lines carry no state that a later pass reads and are left to
  \<open>Squall_Metrics\<close> and out, respectively.
\<close>

section \<open>Demand and activity status\<close>

text \<open>\<open>rfc3339\<close> is \<open>time.Parse(time.RFC3339, _)\<close>.\<close>

definition hasDemand :: "(string \<Rightarrow> gotime option) \<Rightarrow> Model \<Rightarrow> gotime \<Rightarrow> bool" where
  "hasDemand rfc3339 m now =
     (case gomap_get (md_Annotations m) DemandAnnotation of
        None \<Rightarrow> False
      | Some v \<Rightarrow>
          (case rfc3339 v of
             None \<Rightarrow> False
           | Some since \<Rightarrow> time_sub now since < sp_IdleTimeout (md_Spec m)))"

text \<open>The idle anchor after a pass: the newest of the activity reported and the wake.\<close>

definition advanceLastRequestAt :: "ModelStatus \<Rightarrow> Observed \<Rightarrow> gotime option" where
  "advanceLastRequestAt st observed =
     (let l1 = (case ob_Activity observed of
                  Some e \<Rightarrow>
                    if ev_AnyData e \<and> \<not> isZero (ev_NewestLastRequestAt e) \<and>
                       (case st_LastRequestAt st of None \<Rightarrow> True | Some l \<Rightarrow> l < ev_NewestLastRequestAt e)
                    then Some (ev_NewestLastRequestAt e) else st_LastRequestAt st
                | None \<Rightarrow> st_LastRequestAt st)
      in case st_WakeStartedAt st of
           Some w \<Rightarrow> (case l1 of None \<Rightarrow> Some w | Some l \<Rightarrow> if l < w then Some w else l1)
         | None \<Rightarrow> l1)"

definition updateActivityStatus ::
  "Model \<Rightarrow> Observed \<Rightarrow> bool \<Rightarrow> gotime \<Rightarrow> gotime option \<times> Model" where
  "updateActivityStatus model observed demand now =
     (let st = md_Status model;
          prior = st_UncontrolledSince st;
          st1 = st\<lparr>st_LastRequestAt := advanceLastRequestAt st observed\<rparr>;
          complete = (case ob_Activity observed of None \<Rightarrow> False | Some e \<Rightarrow> ev_Complete e);
          idle_run = (case ob_Run observed of None \<Rightarrow> True | Some r \<Rightarrow> run_Replicas r = 0)
      in if idle_run \<or> complete
         then (None, model\<lparr>md_Status := st1\<lparr>st_UncontrolledSince := None\<rparr>\<rparr>)
         else if demand
         then (case prior of None \<Rightarrow> Some now | Some t \<Rightarrow> Some t,
               model\<lparr>md_Status := st1\<lparr>st_UncontrolledSince := None\<rparr>\<rparr>)
         else (let since = (case prior of None \<Rightarrow> Some now | Some t \<Rightarrow> Some t)
               in (since, model\<lparr>md_Status := st1\<lparr>st_UncontrolledSince := since\<rparr>\<rparr>)))"

section \<open>Conditions\<close>

definition set_cond :: "meta_api \<Rightarrow> Condition \<Rightarrow> Model \<Rightarrow> Model" where
  "set_cond M c model =
     model\<lparr>md_Status := (md_Status model)\<lparr>st_Conditions := m_Set M (st_Conditions (md_Status model)) c\<rparr>\<rparr>"

definition remove_cond :: "meta_api \<Rightarrow> string \<Rightarrow> Model \<Rightarrow> Model" where
  "remove_cond M t model =
     model\<lparr>md_Status := (md_Status model)\<lparr>st_Conditions := m_Remove M (st_Conditions (md_Status model)) t\<rparr>\<rparr>"

definition provisioningReason :: "string \<Rightarrow> string" where
  "provisioningReason text =
     (if Contains text ''max_duration'' then ReasonHardStopFired
      else if Contains text ''insufficient_credit'' \<or> Contains text ''insufficient credit''
      then ReasonInsufficientCredit
      else if Contains text ''429'' \<or> Contains text ''too many requests'' \<or> Contains text ''rate limit''
      then ReasonBackendRateLimited
      else if Contains text ''no_capacity'' \<or> Contains text ''no capacity'' then ReasonNoCapacity
      else ReasonProvisioningFailed)"

definition failureDetail :: "ProvisioningFailure \<Rightarrow> string" where
  "failureDetail f =
     (let detail = TrimSpace (pf_Message f) in if detail = [] then pf_Reason f else detail)"

definition failureMessage :: "ProvisioningFailure \<Rightarrow> string" where
  "failureMessage f = ''dstack run '' @ pf_RunID f @ '': '' @ failureDetail f"

definition reportProvisioningCondition ::
  "meta_api \<Rightarrow> Model \<Rightarrow> ProvisioningFailure option \<Rightarrow> ModelPhase \<Rightarrow> gotime \<Rightarrow> Model" where
  "reportProvisioningCondition M model failure phase now =
     (case failure of
        None \<Rightarrow>
          if phase = Ready
          then set_cond M (mk_condition ConditionProvisioning CondTrue ReasonProvisioned []) model
          else model
      | Some f \<Rightarrow>
          let text = ToLower (pf_Reason f @ '' '' @ failureDetail f);
              message = failureMessage f;
              model1 = (case m_Find M (st_Conditions (md_Status model)) ConditionProvisioning of
                          Some e \<Rightarrow>
                            if cond_Status e = CondFalse \<and> cond_Message e \<noteq> message
                            then remove_cond M ConditionProvisioning model else model
                        | None \<Rightarrow> model)
          in set_cond M
               ((mk_condition ConditionProvisioning CondFalse (provisioningReason text) message)
                  \<lparr>cond_LastTransitionTime := now\<rparr>) model1)"

definition reportProvisioningTimeout :: "meta_api \<Rightarrow> Action \<Rightarrow> Model \<Rightarrow> Model" where
  "reportProvisioningTimeout M action model =
     (if \<not> ac_ProvisioningTimedOut action then model
      else set_cond M (mk_condition ConditionHealthy CondFalse ReasonProvisioningTimeout
             ''provisioning deadline exceeded before the replica became Ready'') model)"

section \<open>The environment of a pass\<close>

text \<open>
  The fields ending in \<open>Get\<close>, \<open>Apply\<close> and so on are the calls of \<open>client.Client\<close> and
  \<open>dstack.Client\<close>; \<open>rc_slices\<close>, \<open>rc_fetch\<close> and \<open>rc_served\<close> are what listing EndpointSlices, the
  activity GETs and the served-models GET answer in the current state. The remaining fields are
  the reconciler's configuration and library functions (clock-free): condition helpers, number
  and time parsing, rendering of durations and errors in messages.
\<close>

record 's reconcile_env =
  rc_UpdateModel :: "Model \<Rightarrow> 's \<Rightarrow> bool \<times> 's"
  rc_PatchStatus :: "Model \<Rightarrow> Model \<Rightarrow> 's \<Rightarrow> bool \<times> 's"
  rc_DGet :: "string \<Rightarrow> 's \<Rightarrow> (dstack_error + Run) \<times> 's"
  rc_DApply :: "ApplyRequest \<Rightarrow> 's \<Rightarrow> (dstack_error + Run) \<times> 's"
  rc_DStop :: "string \<Rightarrow> 's \<Rightarrow> dstack_error option \<times> 's"
  rc_DDelete :: "string \<Rightarrow> 's \<Rightarrow> dstack_error option \<times> 's"
  rc_preflight :: "'s preflight_client"
  rc_ssh :: "'s ssh_key_env"
  rc_secret :: "'s \<Rightarrow> string \<Rightarrow> string \<Rightarrow> string gomap option"
  rc_slices :: "'s \<Rightarrow> EndpointSlice list option"
  rc_fetch :: "'s \<Rightarrow> nat \<Rightarrow> string \<Rightarrow> activity_response"
  rc_served :: "'s \<Rightarrow> string \<Rightarrow> string + string list"
  rc_order :: "string list \<Rightarrow> string list"
  rc_meta :: meta_api
  rc_ParseFloat :: "string \<Rightarrow> float64 option"
  rc_rfc3339 :: "string \<Rightarrow> gotime option"
  rc_showDuration :: "duration \<Rightarrow> string"
  rc_showPriceError :: "price_error \<Rightarrow> string"
  rc_showValidation :: "validation_error \<Rightarrow> string"
  rc_ProxyNamespace :: string
  rc_ProxyName :: string
  rc_SSHKeyNamespace :: string
  rc_HasServedModels :: bool
  rc_IdleRequeueInterval :: duration

definition idleRequeueInterval :: "'s reconcile_env \<Rightarrow> duration" where
  "idleRequeueInterval E =
     (if rc_IdleRequeueInterval E \<le> 0 then 15 * Second else rc_IdleRequeueInterval E)"

definition operatorNamespace :: "'s reconcile_env \<Rightarrow> string" where
  "operatorNamespace E =
     (if rc_SSHKeyNamespace E \<noteq> [] then rc_SSHKeyNamespace E else rc_ProxyNamespace E)"

definition env_gather :: "'s reconcile_env \<Rightarrow> string \<Rightarrow> gotime \<Rightarrow> 's \<Rightarrow> ActivityEvidence option" where
  "env_gather E name now s =
     gatherActivity (\<not> (rc_ProxyNamespace E = [] \<and> rc_ProxyName E = [])) (rc_slices E s)
       (rc_fetch E s) name now (rc_order E)"

datatype reconcile_result = Finished | RequeueAfter duration | ReconcileError string

section \<open>Observation\<close>

text \<open>\<open>int32(x)\<close> of a port.\<close>

definition wrap32 :: "int \<Rightarrow> int" where
  "wrap32 x = (x + 2 ^ 31) mod 2 ^ 32 - 2 ^ 31"

definition replicaStatus :: "ReplicaEndpoint option \<Rightarrow> ReplicaEndpoint option" where
  "replicaStatus e =
     map_option (\<lambda>e. \<lparr>re_Host = re_Host e, re_SSHPort = wrap32 (re_SSHPort e), re_User = re_User e,
                     re_ServicePort = wrap32 (re_ServicePort e)\<rparr>) e"

definition no_observation :: Observed where
  "no_observation =
     \<lparr>ob_Run = None, ob_ProvisioningFailure = None, ob_Ready = False, ob_Activity = None\<rparr>"

definition observe ::
  "'s reconcile_env \<Rightarrow> string \<Rightarrow> string \<Rightarrow> ModelSpec \<Rightarrow> gotime \<Rightarrow> 's \<Rightarrow> (dstack_error + Observed) \<times> 's" where
  "observe E runName activityKey spec now s =
     (case rc_DGet E runName s of
        (Inl e, s1) \<Rightarrow> if err_is e ErrNotFound then (Inr no_observation, s1) else (Inl e, s1)
      | (Inr run, s1) \<Rightarrow>
          if IsTerminal run
          then (Inr (no_observation\<lparr>ob_ProvisioningFailure :=
                  Some (case run_ProvisioningFailure run of
                          Some f \<Rightarrow> f
                        | None \<Rightarrow> \<lparr>pf_RunID = run_RunID run, pf_Reason = run_Status run, pf_Message = []\<rparr>)\<rparr>), s1)
          else if 0 < run_Replicas run
          then (let act = env_gather E activityKey now s1
                in (Inr (no_observation\<lparr>ob_Run := Some run, ob_Activity := act,
                      ob_Ready := (run_ProbesReady run \<or> freshSuccess act now (sp_IdleTimeout spec))\<rparr>), s1))
          else (Inr (no_observation\<lparr>ob_Run := Some run\<rparr>), s1))"

definition recordObservedRun :: "Observed \<Rightarrow> Model \<Rightarrow> Model" where
  "recordObservedRun observed model =
     (case ob_Run observed of
        None \<Rightarrow> model
      | Some r \<Rightarrow> model\<lparr>md_Status := (md_Status model)\<lparr>st_RunID := run_RunID r,
          st_DeploymentNum := run_DeploymentNum r, st_ServiceURL := run_ServiceURL r,
          st_Replica := replicaStatus (run_Replica r)\<rparr>\<rparr>)"

section \<open>Actuation\<close>

definition applyEnvFor ::
  "'s reconcile_env \<Rightarrow> Model \<Rightarrow> Action \<Rightarrow> 's \<Rightarrow> (env_error + string gomap \<times> string) \<times> 's" where
  "applyEnvFor E model action s =
     (if 0 < ac_Replicas action
      then (case resolveEnv (rc_secret E s (md_Namespace model)) model of
              Inl e \<Rightarrow> (Inl e, s)
            | Inr env \<Rightarrow>
                let (key, s1) = EnsureSSHKey (rc_ssh E) (operatorNamespace E) s;
                    key' = (case ac_Current action of
                              Some r \<Rightarrow> if key = [] then run_SSHKeyPub r else key
                            | None \<Rightarrow> key)
                in (Inr (withModelUID env model, key'), s1))
      else (case ac_Current action of
              Some r \<Rightarrow> (Inr (run_Env r, run_SSHKeyPub r), s)
            | None \<Rightarrow> (Inr (withModelUID [] model, []), s)))"

definition applyDurationsFor :: "Model \<Rightarrow> Action \<Rightarrow> duration option \<times> duration" where
  "applyDurationsFor model action =
     (case ac_Current action of
        Some r \<Rightarrow>
          if ac_Replicas action = 0 then (run_IdleDuration r, run_MaxDuration r)
          else (Some 0, if sp_MinReplicas (md_Spec model) = 0 then sp_HardStop (md_Spec model) else 0)
      | None \<Rightarrow>
          (Some 0, if sp_MinReplicas (md_Spec model) = 0 then sp_HardStop (md_Spec model) else 0))"

text \<open>The model, the action and the phase, as the Go function mutates them in place.\<close>

definition checkSchedulable ::
  "'s reconcile_env \<Rightarrow> Model \<Rightarrow> Action \<Rightarrow> ModelPhase \<Rightarrow> 's \<Rightarrow> (Model \<times> Action \<times> ModelPhase) \<times> 's" where
  "checkSchedulable E model action newPhase s =
     (let M = rc_meta E;
          veto = (\<lambda>reason msg.
            ((set_cond M (mk_condition ConditionSchedulable CondFalse reason msg) model,
              action\<lparr>ac_Apply := False\<rparr>, st_Phase (md_Status model)), s));
          price = (case pl_MaxPricePerHour (sp_Placement (md_Spec model)) of
                     None \<Rightarrow> Inr () | Some p \<Rightarrow> Price_Validate (rc_ParseFloat E) p)
      in case price of
           Inl e \<Rightarrow> veto ReasonInvalidPrice (rc_showPriceError E e)
         | Inr _ \<Rightarrow>
             (case ValidateWithWarnings (md_Spec model) of
                Inl e \<Rightarrow> veto ReasonInvalidSpec (rc_showValidation E e)
              | Inr _ \<Rightarrow>
                  let ((reason, msg, fleets), s1) =
                        preflight (rc_preflight E)
                          (pc_Backends (enginePlacement (sp_Placement (md_Spec model)))) s;
                      model1 = (if fleets \<noteq> []
                                then model\<lparr>md_Status := (md_Status model)\<lparr>st_Fleet := fleets\<rparr>\<rparr> else model)
                  in ((if reason \<noteq> []
                       then set_cond M (mk_condition ConditionSchedulable CondFalse reason msg) model1
                       else set_cond M (mk_condition ConditionSchedulable CondTrue ReasonSchedulable []) model1,
                       action, newPhase), s1)))"

definition applyRequestFor ::
  "Model \<Rightarrow> Action \<Rightarrow> string \<Rightarrow> string gomap \<Rightarrow> string \<Rightarrow> ApplyRequest" where
  "applyRequestFor model action runName env key =
     (let spec = md_Spec model; (idle, hard) = applyDurationsFor model action
      in \<lparr>req_Name = runName, req_Replicas = ac_Replicas action, req_SSHKeyPub = key,
          req_Image = sp_Image spec, req_Port = enginePort (sp_Engine spec), req_Env = env,
          req_Args = engineCommands spec (md_Name model),
          req_Resources = Some (engineResources (sp_Resources spec)),
          req_Probe = Some (engineProbe spec), req_Placement = enginePlacement (sp_Placement spec),
          req_IdleDuration = idle, req_MaxDuration = hard, req_Current = ac_Current action\<rparr>)"

definition recoverFromOverrideRefusal ::
  "'s reconcile_env \<Rightarrow> Model \<Rightarrow> Model \<Rightarrow> Action \<Rightarrow> string \<Rightarrow> dstack_error \<Rightarrow> 's \<Rightarrow> 's" where
  "recoverFromOverrideRefusal E model original action runName err s =
     (if \<not> err_is err ErrCannotOverride then s
      else
        let stop = (0 < ac_Replicas action \<and>
              (case ac_Current action of None \<Rightarrow> False | Some r \<Rightarrow> run_Replicas r = 0));
            s1 = (if stop then snd (rc_DStop E runName s) else s);
            model1 = set_cond (rc_meta E) (mk_condition ConditionSchedulable CondFalse ReasonCannotOverride
              ''dstack refuses to flip this run in place because the spec differs beyond the replica count; the run must be recreated before it can wake again'')
              model
        in snd (rc_PatchStatus E model1 original s1))"

text \<open>The status written from a successful Apply.\<close>

definition recordApplied :: "meta_api \<Rightarrow> Action \<Rightarrow> Run \<Rightarrow> gotime \<Rightarrow> Model \<Rightarrow> Model" where
  "recordApplied M action run now model =
     (let m1 = model\<lparr>md_Status := (md_Status model)\<lparr>st_RunID := run_RunID run,
                 st_DeploymentNum := run_DeploymentNum run, st_ServiceURL := run_ServiceURL run\<rparr>\<rparr>;
          m2 = (if ac_Current action = None
                then set_cond M (mk_condition ConditionHealthy CondTrue ReasonHealthy [])
                       (remove_cond M ConditionServedModelVerified
                         (m1\<lparr>md_Status := (md_Status m1)\<lparr>st_ServedModel := [], st_ForwardModel := []\<rparr>\<rparr>))
                else m1);
          m3 = (if 0 < ac_Replicas action \<and> st_WakeStartedAt (md_Status m2) = None
                then m2\<lparr>md_Status := (md_Status m2)\<lparr>st_WakeStartedAt := Some now\<rparr>\<rparr> else m2)
      in if ac_Replicas action = 0
         then m3\<lparr>md_Status := (md_Status m3)\<lparr>st_WakeStartedAt := None, st_UncontrolledSince := None\<rparr>\<rparr>
         else m3)"

definition actuate ::
  "'s reconcile_env \<Rightarrow> Model \<Rightarrow> Model \<Rightarrow> Action \<Rightarrow> string \<Rightarrow> gotime \<Rightarrow> 's \<Rightarrow> (string + Model) \<times> 's" where
  "actuate E original model action runName now s =
     (if \<not> ac_Apply action then (Inr model, s)
      else case applyEnvFor E model action s of
             (Inl e, s1) \<Rightarrow> (Inl ''resolve env'', s1)
           | (Inr (env, key), s1) \<Rightarrow>
               (case rc_DApply E (applyRequestFor model action runName env key) s1 of
                  (Inl err, s2) \<Rightarrow>
                    (Inl ''apply dstack run'',
                     recoverFromOverrideRefusal E model original action runName err s2)
                | (Inr run, s2) \<Rightarrow> (Inr (recordApplied (rc_meta E) action run now model), s2)))"

section \<open>Verification of the served model\<close>

definition verifyServed :: "'s reconcile_env \<Rightarrow> ModelPhase \<Rightarrow> Model \<Rightarrow> 's \<Rightarrow> Model" where
  "verifyServed E newPhase model s =
     (let M = rc_meta E; st = md_Status model in
      if newPhase = Ready \<and> rc_HasServedModels E \<and>
         \<not> m_IsTrue M (st_Conditions st) ConditionServedModelVerified
      then
        (let want = engineServedName (md_Spec model) (md_Name model) in
         case rc_served E s (st_ServiceURL st) of
           Inl err \<Rightarrow> set_cond M (mk_condition ConditionServedModelVerified CondUnknown ReasonUnverified err) model
         | Inr served \<Rightarrow>
             let m1 = model\<lparr>md_Status := st\<lparr>st_ServedModel := Join served '','',
                        st_ForwardModel := servedModelToForward served want\<rparr>\<rparr>
             in if want \<noteq> [] \<and> \<not> servedModelMatches served want
                then set_cond M (mk_condition ConditionServedModelVerified CondFalse ReasonServedModelMismatch
                       (''replica serves ['' @ Join served '' '' @ ''], expected \"'' @ want @ ''\"'')) m1
                else set_cond M (mk_condition ConditionServedModelVerified CondTrue ReasonVerified
                       (''replica serves ['' @ Join served '' '' @ '']'')) m1)
      else model)"

section \<open>Reconcile\<close>

definition ModelFinalizer :: string where
  "ModelFinalizer = ''squall.ackstorm.ai/model-cleanup''"

text \<open>Everything between reading dstack and deciding: the status Decide is handed.\<close>

definition statusForDecide ::
  "'s reconcile_env \<Rightarrow> Model \<Rightarrow> string \<Rightarrow> Observed \<Rightarrow> bool \<Rightarrow> gotime \<Rightarrow> Model" where
  "statusForDecide E model runName observed demand now =
     (let m0 = model\<lparr>md_Status := (md_Status model)\<lparr>st_RunName := runName\<rparr>\<rparr>;
          m1 = recordObservedRun observed m0;
          m2 = snd (updateActivityStatus m1 observed demand now);
          m3 = reconcileRunOwnership (rc_meta E) m2 (ob_Run observed) runName
      in if ob_ProvisioningFailure observed \<noteq> None
         then reportProvisioningCondition (rc_meta E) m3 (ob_ProvisioningFailure observed) (PhaseOther []) now
         else m3)"

text \<open>The condition reports after actuation, the served-model check and the phase.\<close>

definition finishStatus ::
  "'s reconcile_env \<Rightarrow> Observed \<Rightarrow> Action \<Rightarrow> ModelPhase \<Rightarrow> gotime \<Rightarrow> Model \<Rightarrow> 's \<Rightarrow> Model" where
  "finishStatus E observed action newPhase now model s =
     (let M = rc_meta E;
          m1 = reportProvisioningCondition M model (ob_ProvisioningFailure observed) newPhase now;
          m2 = (if ac_Unhealthy action
                then set_cond M (mk_condition ConditionHealthy CondFalse ReasonNoSuccessfulResponses
                       (''no replica delivered a 2xx for '' @
                        rc_showDuration E (mh_UnhealthyAfter (sp_Health (md_Spec model))) @
                        '' while requests were arriving'')) m1
                else m1);
          m3 = verifyServed E newPhase (reportProvisioningTimeout M action m2) s
      in m3\<lparr>md_Status := (md_Status m3)\<lparr>st_Phase := newPhase\<rparr>\<rparr>)"

definition requeueFor :: "'s reconcile_env \<Rightarrow> Observed \<Rightarrow> ModelSpec \<Rightarrow> ModelPhase \<Rightarrow> reconcile_result" where
  "requeueFor E observed spec newPhase =
     (let awakeOnDemand = ((case ob_Run observed of None \<Rightarrow> False | Some r \<Rightarrow> 0 < run_Replicas r) \<and>
                           sp_MinReplicas spec = 0)
      in if awakeOnDemand \<or> newPhase = Waking \<or> newPhase = Recreating
         then RequeueAfter (idleRequeueInterval E) else Finished)"

text \<open>The part of \<open>Reconcile\<close> from the observation on.\<close>

definition reconcileObserved ::
  "'s reconcile_env \<Rightarrow> Model \<Rightarrow> string \<Rightarrow> Observed \<Rightarrow> gotime \<Rightarrow> 's \<Rightarrow> reconcile_result \<times> 's" where
  "reconcileObserved E original runName observed now s =
     (let demand = hasDemand (rc_rfc3339 E) original now;
          model = statusForDecide E original runName observed demand now;
          (phase0, action0) = Decide (rc_meta E) observed (md_Status model) (md_Spec model) demand now;
          ((model1, action, phase), s1) =
            (if ac_Apply action0 \<and> 0 < ac_Replicas action0
             then checkSchedulable E model action0 phase0 s else ((model, action0, phase0), s))
      in case actuate E original model1 action runName now s1 of
           (Inl msg, s2) \<Rightarrow> (ReconcileError msg, s2)
         | (Inr model2, s2) \<Rightarrow>
             let model3 = finishStatus E observed action phase now model2 s2;
                 (ok, s3) = rc_PatchStatus E model3 original s2
             in if \<not> ok then (ReconcileError ''update status'', s3)
                else (requeueFor E observed (md_Spec model3) phase, s3))"

section \<open>Teardown (finalizer.go)\<close>

definition defaultDrainTimeout :: duration where
  "defaultDrainTimeout = 120 * Second"

definition drainTimeoutOrDefault :: "ModelSpec \<Rightarrow> duration" where
  "drainTimeoutOrDefault spec =
     (if sp_DrainTimeout spec \<le> 0 then defaultDrainTimeout else sp_DrainTimeout spec)"

text \<open>Delete, then remove the finalizer: the end of a teardown.\<close>

definition finishDelete :: "'s reconcile_env \<Rightarrow> Model \<Rightarrow> string \<Rightarrow> 's \<Rightarrow> reconcile_result \<times> 's" where
  "finishDelete E model runName s =
     (case rc_DDelete E runName s of
        (err, s1) \<Rightarrow>
          if (case err of Some e \<Rightarrow> \<not> err_is e ErrNotFound | None \<Rightarrow> False)
          then (ReconcileError ''delete dstack run'', s1)
          else
            let (ok, s2) = rc_UpdateModel E
                  (model\<lparr>md_Finalizers := filter (\<lambda>f. f \<noteq> ModelFinalizer) (md_Finalizers model)\<rparr>) s1
            in if ok then (Finished, s2) else (ReconcileError ''remove finalizer'', s2))"

definition stopFirst :: "'s reconcile_env \<Rightarrow> string \<Rightarrow> 's \<Rightarrow> reconcile_result \<times> 's" where
  "stopFirst E runName s =
     (case rc_DStop E runName s of
        (err, s1) \<Rightarrow>
          if (case err of Some e \<Rightarrow> \<not> err_is e ErrNotFound | None \<Rightarrow> False)
          then (ReconcileError ''stop dstack run'', s1) else (RequeueAfter Second, s1))"

definition reconcileDelete ::
  "'s reconcile_env \<Rightarrow> Model \<Rightarrow> string \<Rightarrow> gotime \<Rightarrow> 's \<Rightarrow> reconcile_result \<times> 's" where
  "reconcileDelete E model runName now s =
     (if ModelFinalizer \<notin> set (md_Finalizers model) then (Finished, s)
      else
        let drained = model\<lparr>md_Status := (md_Status model)\<lparr>st_Phase := Draining\<rparr>\<rparr>;
            (ok, s1) = (if st_Phase (md_Status model) \<noteq> Draining
                        then rc_PatchStatus E drained model s else (True, s))
        in if \<not> ok then (ReconcileError ''write Draining status'', s1)
           else case rc_DGet E runName s1 of
                  (Inl e, s2) \<Rightarrow>
                    if err_is e ErrNotFound then finishDelete E drained runName s2
                    else (ReconcileError ''observe dstack state'', s2)
                | (Inr run, s2) \<Rightarrow>
                    let since = (case md_DeletionTimestamp model of None \<Rightarrow> 0 | Some t \<Rightarrow> t);
                        pastDeadline = (drainTimeoutOrDefault (md_Spec model) < time_sub now since)
                    in if 0 < run_Replicas run \<and> \<not> pastDeadline \<and>
                          \<not> drainEvidenceClean (env_gather E (md_Name model) now s2)
                       then (RequeueAfter Second, s2)
                       else if \<not> IsTerminal run then stopFirst E runName s2
                       else finishDelete E drained runName s2)"

text \<open>
  One pass. \<open>fetched\<close> is the answer of the initial Get of the Model: not found ends the pass, any
  other error is returned.
\<close>

definition Reconcile ::
  "'s reconcile_env \<Rightarrow> api_result \<times> Model \<Rightarrow> gotime \<Rightarrow> 's \<Rightarrow> reconcile_result \<times> 's" where
  "Reconcile E fetched now s =
     (case fetched of
        (ApiOk, model) \<Rightarrow>
          let runName = runNameFor model in
          if \<not> isZeroPtr (md_DeletionTimestamp model) then reconcileDelete E model runName now s
          else if ModelFinalizer \<notin> set (md_Finalizers model)
          then (let (ok, s1) = rc_UpdateModel E
                      (model\<lparr>md_Finalizers := md_Finalizers model @ [ModelFinalizer]\<rparr>) s
                in if ok then (Finished, s1) else (ReconcileError ''add finalizer'', s1))
          else (case observe E runName (md_Name model) (md_Spec model) now s of
                  (Inl e, s1) \<Rightarrow> (ReconcileError ''observe dstack state'', s1)
                | (Inr observed, s1) \<Rightarrow> reconcileObserved E model runName observed now s1)
      | (ApiNotFound, _) \<Rightarrow> (Finished, s)
      | (_, _) \<Rightarrow> (ReconcileError ''get model'', s))"

section \<open>Frame lemmas\<close>

lemma set_cond_simps [simp]:
  "md_Spec (set_cond M c m) = md_Spec m" "md_Name (set_cond M c m) = md_Name m"
  "md_Namespace (set_cond M c m) = md_Namespace m" "md_UID (set_cond M c m) = md_UID m"
  "st_WakeStartedAt (md_Status (set_cond M c m)) = st_WakeStartedAt (md_Status m)"
  "st_RunID (md_Status (set_cond M c m)) = st_RunID (md_Status m)"
  "st_Phase (md_Status (set_cond M c m)) = st_Phase (md_Status m)"
  "st_LastRequestAt (md_Status (set_cond M c m)) = st_LastRequestAt (md_Status m)"
  "st_Conditions (md_Status (set_cond M c m)) = m_Set M (st_Conditions (md_Status m)) c"
  by (simp_all add: set_cond_def)

lemma remove_cond_simps [simp]:
  "md_Spec (remove_cond M t m) = md_Spec m" "md_Name (remove_cond M t m) = md_Name m"
  "st_WakeStartedAt (md_Status (remove_cond M t m)) = st_WakeStartedAt (md_Status m)"
  "st_RunID (md_Status (remove_cond M t m)) = st_RunID (md_Status m)"
  "st_Phase (md_Status (remove_cond M t m)) = st_Phase (md_Status m)"
  "st_Conditions (md_Status (remove_cond M t m)) = m_Remove M (st_Conditions (md_Status m)) t"
  by (simp_all add: remove_cond_def)

section \<open>Pacing of failed provisioning\<close>

definition provisioning_cond :: "meta_api \<Rightarrow> Model \<Rightarrow> Condition option" where
  "provisioning_cond M m = m_Find M (st_Conditions (md_Status m)) ConditionProvisioning"

definition failure_reason :: "ProvisioningFailure \<Rightarrow> string" where
  "failure_reason f = provisioningReason (ToLower (pf_Reason f @ '' '' @ failureDetail f))"

text \<open>A failure the condition does not record yet: none, a success, or another run's message.\<close>

definition new_failure :: "meta_api \<Rightarrow> Model \<Rightarrow> ProvisioningFailure \<Rightarrow> bool" where
  "new_failure M m f \<longleftrightarrow>
     (case provisioning_cond M m of
        None \<Rightarrow> True | Some c \<Rightarrow> cond_Status c \<noteq> CondFalse \<or> cond_Message c \<noteq> failureMessage f)"

lemma report_new_failure:
  assumes "meta_ok M" and "new_failure M m f" and "now \<noteq> 0"
  shows "\<exists>c. provisioning_cond M (reportProvisioningCondition M m (Some f) ph now) = Some c \<and>
     cond_Status c = CondFalse \<and> cond_Reason c = failure_reason f \<and>
     cond_Message c = failureMessage f \<and> cond_LastTransitionTime c = now"
proof -
  let ?c = "(mk_condition ConditionProvisioning CondFalse (failure_reason f) (failureMessage f))
      \<lparr>cond_LastTransitionTime := now\<rparr>"
  let ?m1 = "case m_Find M (st_Conditions (md_Status m)) ConditionProvisioning of
      Some e \<Rightarrow> if cond_Status e = CondFalse \<and> cond_Message e \<noteq> failureMessage f
                then remove_cond M ConditionProvisioning m else m
    | None \<Rightarrow> m"
  have eq: "reportProvisioningCondition M m (Some f) ph now = set_cond M ?c ?m1"
    by (simp add: reportProvisioningCondition_def failure_reason_def Let_def)
  have ty: "cond_Type ?c = ConditionProvisioning" "cond_Status ?c = CondFalse"
    "cond_LastTransitionTime ?c = now" "cond_Reason ?c = failure_reason f"
    "cond_Message ?c = failureMessage f"
    by (simp_all add: mk_condition_def)
  have fresh: "cond_Status old \<noteq> cond_Status ?c"
    if "m_Find M (st_Conditions (md_Status ?m1)) (cond_Type ?c) = Some old" for old
    using that assms(2) meta_find_remove [OF assms(1)]
    by (auto simp: ty new_failure_def provisioning_cond_def split: option.splits if_splits)
  have "\<not> isZero (cond_LastTransitionTime ?c)" using assms(3) by (simp add: ty isZero_def)
  from meta_find_set_fresh_time [OF assms(1) this, of "st_Conditions (md_Status ?m1)"] fresh
  obtain d where "m_Find M (m_Set M (st_Conditions (md_Status ?m1)) ?c) (cond_Type ?c) = Some d"
      "cond_Status d = cond_Status ?c" "cond_Reason d = cond_Reason ?c"
      "cond_Message d = cond_Message ?c" "cond_LastTransitionTime d = cond_LastTransitionTime ?c"
    by blast
  then show ?thesis unfolding eq provisioning_cond_def by (auto simp: ty)
qed

text \<open>
  A refusal by the backend is paced, and only paced. When a run that failed for lack of
  capacity, of credit or by rate limiting is first recorded at time \<open>t\<close>, a wanted Model with no
  run mints no new run at any moment before \<open>t\<close> plus one minute, and does at every moment from
  then on, as long as no other failure is recorded.
\<close>

theorem failed_provisioning_paced:
  assumes "meta_ok M" and "new_failure M m f" and "t \<noteq> 0"
    and "failure_reason f \<in> set backoffReasons"
    and "ob_Run ob = None" and "sp_MinReplicas spec = 1 \<or> demand"
  shows "ac_Apply (snd (Decide M ob (md_Status (reportProvisioningCondition M m (Some f) ph t)) spec demand now))
    \<longleftrightarrow> t + Minute \<le> now"
proof -
  obtain c where "provisioning_cond M (reportProvisioningCondition M m (Some f) ph t) = Some c"
      "cond_Status c = CondFalse" "cond_Reason c = failure_reason f" "cond_LastTransitionTime c = t"
    using report_new_failure [OF assms(1-3)] by blast
  then have "snd (provisioningBackoff M (md_Status (reportProvisioningCondition M m (Some f) ph t)) now)
      \<longleftrightarrow> now < t + Minute"
    using assms(3,4) by (auto simp: provisioningBackoff_iff provisioning_cond_def ProvisioningRetryBackoff_def)
  with assms(5,6) show ?thesis by (auto simp: Decide_no_run)
qed

definition sample_failure :: ProvisioningFailure where
  "sample_failure = \<lparr>pf_RunID = ''r1'', pf_Reason = ''no_capacity'', pf_Message = []\<rparr>"

lemma sample_failure_reason: "failure_reason sample_failure = ReasonNoCapacity"
  by (simp add: failure_reason_def sample_failure_def failureDetail_def TrimSpace_def
      provisioningReason_def ToLower_def lower_char_def Let_def)

theorem failed_provisioning_paced_witness:
  "\<not> ac_Apply (snd (Decide (ref_meta 0) no_observation
      (md_Status (reportProvisioningCondition (ref_meta 0) sample_model (Some sample_failure) Waking Hour))
      sample_spec True (Hour + 59 * Second)))"
proof -
  have "new_failure (ref_meta 0) sample_model sample_failure"
    by (simp add: new_failure_def provisioning_cond_def sample_model_def sample_status_def
        ref_meta_def ref_find_def)
  from failed_provisioning_paced [OF ref_meta_ok this, of Hour no_observation sample_spec True Waking
      "Hour + 59 * Second"]
  show ?thesis by (simp add: sample_failure_reason backoffReasons_def no_observation_def)
qed

section \<open>The activity anchors\<close>

text \<open>
  C28. The journalled anchors move in the safe direction. A pass never moves \<open>lastRequestAt\<close> back,
  takes it at least to the wake and to the newest request any replica reported, and starts the
  uncontrolled clock exactly when a replica is up, the evidence is incomplete and nobody demands
  the Model; an uncontrolled clock already running keeps its start.
\<close>

definition opt_le :: "gotime option \<Rightarrow> gotime option \<Rightarrow> bool" where
  "opt_le a b \<longleftrightarrow> (case a of None \<Rightarrow> True | Some x \<Rightarrow> (case b of None \<Rightarrow> False | Some y \<Rightarrow> x \<le> y))"

theorem activity_anchors_safe:
  assumes "updateActivityStatus model observed demand now = (since, model')"
  shows "opt_le (st_LastRequestAt (md_Status model)) (st_LastRequestAt (md_Status model')) \<and>
    opt_le (st_WakeStartedAt (md_Status model)) (st_LastRequestAt (md_Status model')) \<and>
    (\<forall>e. ob_Activity observed = Some e \<and> ev_AnyData e \<and> ev_NewestLastRequestAt e \<noteq> 0 \<longrightarrow>
       opt_le (Some (ev_NewestLastRequestAt e)) (st_LastRequestAt (md_Status model'))) \<and>
    (st_UncontrolledSince (md_Status model') \<noteq> None \<longleftrightarrow>
       \<not> demand \<and> (\<exists>r. ob_Run observed = Some r \<and> run_Replicas r \<noteq> 0) \<and>
       \<not> (\<exists>e. ob_Activity observed = Some e \<and> ev_Complete e)) \<and>
    (\<forall>t. st_UncontrolledSince (md_Status model') = Some t \<longrightarrow>
       t = (case st_UncontrolledSince (md_Status model) of Some u \<Rightarrow> u | None \<Rightarrow> now)) \<and>
    st_WakeStartedAt (md_Status model') = st_WakeStartedAt (md_Status model)"
proof -
  have last: "st_LastRequestAt (md_Status model') = advanceLastRequestAt (md_Status model) observed"
    and unc: "st_UncontrolledSince (md_Status model') =
      (if (case ob_Run observed of None \<Rightarrow> True | Some r \<Rightarrow> run_Replicas r = 0) \<or>
          (case ob_Activity observed of None \<Rightarrow> False | Some e \<Rightarrow> ev_Complete e) \<or> demand then None
       else case st_UncontrolledSince (md_Status model) of None \<Rightarrow> Some now | Some t \<Rightarrow> Some t)"
    and wake: "st_WakeStartedAt (md_Status model') = st_WakeStartedAt (md_Status model)"
    using assms by (auto simp: updateActivityStatus_def Let_def split: if_splits)
  have "opt_le (st_LastRequestAt (md_Status model)) (st_LastRequestAt (md_Status model'))"
    "opt_le (st_WakeStartedAt (md_Status model)) (st_LastRequestAt (md_Status model'))"
    "\<forall>e. ob_Activity observed = Some e \<and> ev_AnyData e \<and> ev_NewestLastRequestAt e \<noteq> 0 \<longrightarrow>
       opt_le (Some (ev_NewestLastRequestAt e)) (st_LastRequestAt (md_Status model'))"
    unfolding last
    by (auto simp: opt_le_def advanceLastRequestAt_def isZero_def Let_def split: option.splits if_splits)
  moreover have "st_UncontrolledSince (md_Status model') \<noteq> None \<longleftrightarrow>
       \<not> demand \<and> (\<exists>r. ob_Run observed = Some r \<and> run_Replicas r \<noteq> 0) \<and>
       \<not> (\<exists>e. ob_Activity observed = Some e \<and> ev_Complete e)"
    "\<forall>t. st_UncontrolledSince (md_Status model') = Some t \<longrightarrow>
       t = (case st_UncontrolledSince (md_Status model) of Some u \<Rightarrow> u | None \<Rightarrow> now)"
    unfolding unc by (auto split: option.splits)
  ultimately show ?thesis using wake by blast
qed

theorem activity_anchors_safe_witness:
  "st_UncontrolledSince (md_Status (snd (updateActivityStatus sample_model
      (no_observation\<lparr>ob_Run := Some sample_run\<rparr>) False 7))) \<noteq> None"
proof -
  let ?ob = "no_observation\<lparr>ob_Run := Some sample_run\<rparr>"
  have "updateActivityStatus sample_model ?ob False 7 =
      (fst (updateActivityStatus sample_model ?ob False 7), snd (updateActivityStatus sample_model ?ob False 7))"
    by simp
  from activity_anchors_safe [OF this] show ?thesis
    by (simp add: no_observation_def sample_run_def)
qed

end
