(* ===== verification/Squall_Trace.thy ===== *)
theory Squall_Trace
  imports Squall_Reconcile
begin

text \<open>
  What a reconcile pass does to the outside world, in order. \<open>traced E\<close> is the environment \<open>E\<close>
  with every call that writes to Kubernetes or talks to dstack about a run recorded, together
  with its answer; tracing changes nothing else (\<open>Reconcile_traced\<close>). The properties state the
  order and the arguments of those calls for every environment, whatever it answers.
\<close>

section \<open>Traced environments\<close>

datatype ext_call =
    CallUpdate Model bool
  | CallPatch Model bool
  | CallGet string "dstack_error + Run"
  | CallApply ApplyRequest "dstack_error + Run"
  | CallStop string "dstack_error option"
  | CallDelete string "dstack_error option"

type_synonym 's traced = "'s \<times> ext_call list"

definition noted :: "('r \<Rightarrow> ext_call) \<Rightarrow> ('s \<Rightarrow> 'r \<times> 's) \<Rightarrow> 's traced \<Rightarrow> 'r \<times> 's traced" where
  "noted c f st = (case f (fst st) of (r, s') \<Rightarrow> (r, (s', snd st @ [c r])))"

definition silent :: "('s \<Rightarrow> 'r \<times> 's) \<Rightarrow> 's traced \<Rightarrow> 'r \<times> 's traced" where
  "silent f st = (case f (fst st) of (r, s') \<Rightarrow> (r, (s', snd st)))"

definition silent_preflight :: "'s preflight_client \<Rightarrow> 's traced preflight_client" where
  "silent_preflight c =
     \<lparr>pf_BackendConfigured = \<lambda>b. silent (pf_BackendConfigured c b),
      pf_HasFleetFor = \<lambda>b. silent (pf_HasFleetFor c b),
      pf_EnsureFleet = \<lambda>f. silent (pf_EnsureFleet c f)\<rparr>"

definition silent_ssh :: "'s ssh_key_env \<Rightarrow> 's traced ssh_key_env" where
  "silent_ssh k =
     \<lparr>sk_get = \<lambda>ns n. silent (sk_get k ns n), sk_create = \<lambda>ns n d. silent (sk_create k ns n d),
      sk_generate = silent (sk_generate k)\<rparr>"

definition traced :: "'s reconcile_env \<Rightarrow> 's traced reconcile_env" where
  "traced E =
     \<lparr>rc_UpdateModel = \<lambda>m. noted (CallUpdate m) (rc_UpdateModel E m),
      rc_PatchStatus = \<lambda>m old. noted (CallPatch m) (rc_PatchStatus E m old),
      rc_DGet = \<lambda>n. noted (CallGet n) (rc_DGet E n),
      rc_DApply = \<lambda>q. noted (CallApply q) (rc_DApply E q),
      rc_DStop = \<lambda>n. noted (CallStop n) (rc_DStop E n),
      rc_DDelete = \<lambda>n. noted (CallDelete n) (rc_DDelete E n),
      rc_preflight = silent_preflight (rc_preflight E),
      rc_ssh = silent_ssh (rc_ssh E),
      rc_secret = \<lambda>st. rc_secret E (fst st), rc_slices = \<lambda>st. rc_slices E (fst st),
      rc_fetch = \<lambda>st. rc_fetch E (fst st), rc_served = \<lambda>st. rc_served E (fst st),
      rc_order = rc_order E, rc_meta = rc_meta E, rc_ParseFloat = rc_ParseFloat E,
      rc_rfc3339 = rc_rfc3339 E, rc_showDuration = rc_showDuration E,
      rc_showPriceError = rc_showPriceError E, rc_showValidation = rc_showValidation E,
      rc_ProxyNamespace = rc_ProxyNamespace E, rc_ProxyName = rc_ProxyName E,
      rc_SSHKeyNamespace = rc_SSHKeyNamespace E, rc_HasServedModels = rc_HasServedModels E,
      rc_IdleRequeueInterval = rc_IdleRequeueInterval E\<rparr>"

lemma traced_simps [simp]:
  "rc_UpdateModel (traced E) m = noted (CallUpdate m) (rc_UpdateModel E m)"
  "rc_PatchStatus (traced E) m old = noted (CallPatch m) (rc_PatchStatus E m old)"
  "rc_DGet (traced E) n = noted (CallGet n) (rc_DGet E n)"
  "rc_DApply (traced E) q = noted (CallApply q) (rc_DApply E q)"
  "rc_DStop (traced E) n = noted (CallStop n) (rc_DStop E n)"
  "rc_DDelete (traced E) n = noted (CallDelete n) (rc_DDelete E n)"
  "rc_preflight (traced E) = silent_preflight (rc_preflight E)"
  "rc_ssh (traced E) = silent_ssh (rc_ssh E)"
  "rc_secret (traced E) (s, l) = rc_secret E s" "rc_slices (traced E) (s, l) = rc_slices E s"
  "rc_fetch (traced E) (s, l) = rc_fetch E s" "rc_served (traced E) (s, l) = rc_served E s"
  "rc_order (traced E) = rc_order E" "rc_meta (traced E) = rc_meta E"
  "rc_ParseFloat (traced E) = rc_ParseFloat E" "rc_rfc3339 (traced E) = rc_rfc3339 E"
  "rc_showDuration (traced E) = rc_showDuration E"
  "rc_showPriceError (traced E) = rc_showPriceError E"
  "rc_showValidation (traced E) = rc_showValidation E"
  "rc_ProxyNamespace (traced E) = rc_ProxyNamespace E" "rc_ProxyName (traced E) = rc_ProxyName E"
  "rc_SSHKeyNamespace (traced E) = rc_SSHKeyNamespace E"
  "rc_HasServedModels (traced E) = rc_HasServedModels E"
  "rc_IdleRequeueInterval (traced E) = rc_IdleRequeueInterval E"
  by (simp_all add: traced_def)

lemma noted_pair [simp]: "noted c f (s, l) = (fst (f s), (snd (f s), l @ [c (fst (f s))]))"
  by (simp add: noted_def split: prod.split)

lemma silent_pair [simp]: "silent f (s, l) = (fst (f s), (snd (f s), l))"
  by (simp add: silent_def split: prod.split)

definition with_log :: "ext_call list \<Rightarrow> 'r \<times> 's \<Rightarrow> 'r \<times> 's traced" where
  "with_log l p = (fst p, (snd p, l))"

lemma with_log_pair [simp]: "with_log l (r, s) = (r, (s, l))" by (simp add: with_log_def)

section \<open>Calls that leave no trace\<close>

lemma preflight_loop_silent:
  "preflight_loop (silent_preflight c) bs a b f (s, l) = with_log l (preflight_loop c bs a b f s)"
proof (induction c bs a b f s rule: preflight_loop.induct)
  case (2 c b bs unconf unfl fleets s)
  obtain r1 s1 where 1: "pf_BackendConfigured c b s = (r1, s1)" by fastforce
  obtain r2 s2 where r2: "pf_HasFleetFor c b s1 = (r2, s2)" by fastforce
  obtain r3 s3 where r3: "pf_EnsureFleet c \<lparr>fl_Name = FleetName b, fl_Backends = [b], fl_IdleDuration = 0\<rparr> s2 = (r3, s3)"
    by fastforce
  show ?case
    using 2 1 r2 r3
    by (cases r1; cases r2; cases r3) (auto simp: silent_preflight_def split: bool.split)
qed simp

lemma preflight_silent:
  "preflight (silent_preflight c) bs (s, l) = with_log l (preflight c bs s)"
  by (auto simp: preflight_def preflight_loop_silent with_log_def split: prod.split option.split)

lemma EnsureSSHKey_silent:
  "EnsureSSHKey (silent_ssh k) ns (s, l) = with_log l (EnsureSSHKey k ns s)"
  by (auto simp: EnsureSSHKey_def silent_ssh_def with_log_def split: prod.split api_result.split option.split)

lemma env_gather_traced [simp]: "env_gather (traced E) name now (s, l) = env_gather E name now s"
  by (simp add: env_gather_def)

lemma operatorNamespace_traced [simp]: "operatorNamespace (traced E) = operatorNamespace E"
  by (simp add: operatorNamespace_def)

lemma applyEnvFor_traced:
  "applyEnvFor (traced E) m a (s, l) = with_log l (applyEnvFor E m a s)"
  by (auto simp: applyEnvFor_def EnsureSSHKey_silent with_log_def Let_def split: prod.split sum.split option.split)

lemma checkSchedulable_traced:
  "checkSchedulable (traced E) m a ph (s, l) = with_log l (checkSchedulable E m a ph s)"
  unfolding checkSchedulable_def traced_simps preflight_silent with_log_def Let_def
  by (simp split: prod.split sum.split)

lemma verifyServed_traced [simp]: "verifyServed (traced E) ph m (s, l) = verifyServed E ph m s"
  unfolding verifyServed_def traced_simps by (rule refl)

lemma finishStatus_traced [simp]: "finishStatus (traced E) ob a ph now m (s, l) = finishStatus E ob a ph now m s"
  unfolding finishStatus_def traced_simps verifyServed_traced by (rule refl)

lemma statusForDecide_traced [simp]: "statusForDecide (traced E) m n ob d now = statusForDecide E m n ob d now"
  unfolding statusForDecide_def traced_simps by (rule refl)

lemma requeueFor_traced [simp]: "requeueFor (traced E) ob spec ph = requeueFor E ob spec ph"
  by (simp add: requeueFor_def idleRequeueInterval_def)

section \<open>Calls of a pass, in order\<close>

lemma observe_traced:
  "observe (traced E) n k spec now (s, l) =
     with_log (l @ [CallGet n (fst (rc_DGet E n s))]) (observe E n k spec now s)"
  by (auto simp: observe_def with_log_def Let_def split: prod.split sum.split)

definition recovery_calls ::
  "'s reconcile_env \<Rightarrow> Model \<Rightarrow> Model \<Rightarrow> Action \<Rightarrow> string \<Rightarrow> dstack_error \<Rightarrow> 's \<Rightarrow> ext_call list" where
  "recovery_calls E model original action runName err s =
     snd (recoverFromOverrideRefusal (traced E) model original action runName err (s, []))"

lemma recovery_traced:
  "recoverFromOverrideRefusal (traced E) m orig a n err (s, l) =
     (recoverFromOverrideRefusal E m orig a n err s, l @ recovery_calls E m orig a n err s)"
  by (auto simp: recovery_calls_def recoverFromOverrideRefusal_def Let_def)

definition actuate_calls ::
  "'s reconcile_env \<Rightarrow> Model \<Rightarrow> Model \<Rightarrow> Action \<Rightarrow> string \<Rightarrow> gotime \<Rightarrow> 's \<Rightarrow> ext_call list" where
  "actuate_calls E original model action runName now s =
     snd (snd (actuate (traced E) original model action runName now (s, [])))"

lemma actuate_traced:
  "actuate (traced E) orig m a n now (s, l) =
     with_log (l @ actuate_calls E orig m a n now s) (actuate E orig m a n now s)"
  by (auto simp: actuate_calls_def actuate_def applyEnvFor_traced with_log_def recovery_traced
      split: prod.split sum.split)

definition observed_calls ::
  "'s reconcile_env \<Rightarrow> Model \<Rightarrow> string \<Rightarrow> Observed \<Rightarrow> gotime \<Rightarrow> 's \<Rightarrow> ext_call list" where
  "observed_calls E original runName observed now s =
     snd (snd (reconcileObserved (traced E) original runName observed now (s, [])))"

lemma reconcileObserved_traced:
  "reconcileObserved (traced E) orig n ob now (s, l) =
     with_log (l @ observed_calls E orig n ob now s) (reconcileObserved E orig n ob now s)"
  by (auto simp: observed_calls_def reconcileObserved_def checkSchedulable_traced actuate_traced
      with_log_def Let_def split: prod.split sum.split)

definition delete_calls :: "'s reconcile_env \<Rightarrow> Model \<Rightarrow> string \<Rightarrow> gotime \<Rightarrow> 's \<Rightarrow> ext_call list" where
  "delete_calls E model runName now s =
     snd (snd (reconcileDelete (traced E) model runName now (s, [])))"

lemma reconcileDelete_traced:
  "reconcileDelete (traced E) m n now (s, l) =
     with_log (l @ delete_calls E m n now s) (reconcileDelete E m n now s)"
  by (auto simp: delete_calls_def reconcileDelete_def finishDelete_def stopFirst_def with_log_def Let_def
      split: prod.split sum.split option.split)

text \<open>The calls of one pass; tracing leaves its result and its effect on the world as they are.\<close>

definition pass_calls :: "'s reconcile_env \<Rightarrow> api_result \<times> Model \<Rightarrow> gotime \<Rightarrow> 's \<Rightarrow> ext_call list" where
  "pass_calls E fetched now s = snd (snd (Reconcile (traced E) fetched now (s, [])))"

lemma Reconcile_traced:
  "Reconcile (traced E) fetched now (s, l) =
     with_log (l @ pass_calls E fetched now s) (Reconcile E fetched now s)"
  by (auto simp: pass_calls_def Reconcile_def reconcileDelete_traced observe_traced
      reconcileObserved_traced with_log_def Let_def split: prod.split sum.split api_result.split)

section \<open>The plan of a live pass\<close>

text \<open>The Model, action and phase a pass acts on: \<open>Decide\<close>, then the schedulability gate.\<close>

definition planned ::
  "'s reconcile_env \<Rightarrow> Model \<Rightarrow> string \<Rightarrow> Observed \<Rightarrow> gotime \<Rightarrow> 's \<Rightarrow> (Model \<times> Action \<times> ModelPhase) \<times> 's" where
  "planned E original runName observed now s =
     (let demand = hasDemand (rc_rfc3339 E) original now;
          model = statusForDecide E original runName observed demand now;
          (phase0, action0) = Decide (rc_meta E) observed (md_Status model) (md_Spec model) demand now
      in if ac_Apply action0 \<and> 0 < ac_Replicas action0
         then checkSchedulable E model action0 phase0 s else ((model, action0, phase0), s))"

lemma observed_calls_cases:
  assumes "planned E orig n ob now s = ((model, action, phase), s1)"
  obtains (idle) m' ok where "\<not> ac_Apply action" "observed_calls E orig n ob now s = [CallPatch m' ok]"
  | (env_failed) e s2 where "ac_Apply action" "applyEnvFor E model action s1 = (Inl e, s2)"
      "observed_calls E orig n ob now s = []"
  | (refused) env key s2 q err s3 where "ac_Apply action"
      "applyEnvFor E model action s1 = (Inr (env, key), s2)" "q = applyRequestFor model action n env key"
      "rc_DApply E q s2 = (Inl err, s3)"
      "observed_calls E orig n ob now s =
         CallApply q (Inl err) # recovery_calls E model orig action n err s3"
  | (applied) env key s2 q run s3 m' ok where "ac_Apply action"
      "applyEnvFor E model action s1 = (Inr (env, key), s2)" "q = applyRequestFor model action n env key"
      "rc_DApply E q s2 = (Inr run, s3)"
      "observed_calls E orig n ob now s = [CallApply q (Inr run), CallPatch m' ok]"
proof -
  have calls: "observed_calls E orig n ob now s =
      actuate_calls E orig model action n now s1 @
      (case actuate E orig model action n now s1 of
         (Inl _, _) \<Rightarrow> []
       | (Inr m2, s2) \<Rightarrow> let m3 = finishStatus E ob action phase now m2 s2
           in [CallPatch m3 (fst (rc_PatchStatus E m3 orig s2))])"
    using assms
    by (auto simp: observed_calls_def planned_def reconcileObserved_def checkSchedulable_traced
        actuate_traced with_log_def Let_def split: prod.splits sum.splits if_splits)
  show ?thesis
  proof (cases "ac_Apply action")
    case False
    then show ?thesis using calls idle by (simp add: actuate_calls_def actuate_def Let_def)
  next
    case True
    obtain r s2 where env: "applyEnvFor E model action s1 = (r, s2)" by fastforce
    show ?thesis
    proof (cases r)
      case (Inl e)
      with True env calls show ?thesis
        by (intro env_failed) (auto simp: actuate_calls_def actuate_def applyEnvFor_traced)
    next
      case (Inr p)
      obtain e k where p: "p = (e, k)" by fastforce
      define q where "q = applyRequestFor model action n e k"
      obtain a s3 where ap: "rc_DApply E q s2 = (a, s3)" by fastforce
      show ?thesis
      proof (cases a)
        case (Inl err)
        with True env Inr p ap calls show ?thesis
          by (intro refused [OF True _ q_def]) (auto simp: actuate_calls_def actuate_def
              applyEnvFor_traced q_def recovery_traced)
      next
        case (Inr run)
        with True env \<open>r = Inr p\<close> p ap calls show ?thesis
          by (intro applied [OF True _ q_def]) (auto simp: actuate_calls_def actuate_def
              applyEnvFor_traced q_def Let_def)
      qed
    qed
  qed
qed

lemma reportProvisioningCondition_frame [simp]:
  "md_Spec (reportProvisioningCondition M m f ph t) = md_Spec m"
  "md_UID (reportProvisioningCondition M m f ph t) = md_UID m"
  "md_Name (reportProvisioningCondition M m f ph t) = md_Name m"
  by (auto simp: reportProvisioningCondition_def set_cond_def remove_cond_def Let_def split: option.split)

lemma reconcileRunOwnership_frame [simp]:
  "md_Spec (reconcileRunOwnership M m r n) = md_Spec m" "md_UID (reconcileRunOwnership M m r n) = md_UID m"
  "md_Name (reconcileRunOwnership M m r n) = md_Name m"
  by (auto simp: reconcileRunOwnership_def Let_def split: runOwnership.split)

lemma updateActivityStatus_frame [simp]:
  "md_Spec (snd (updateActivityStatus m ob d now)) = md_Spec m"
  "md_UID (snd (updateActivityStatus m ob d now)) = md_UID m"
  "md_Name (snd (updateActivityStatus m ob d now)) = md_Name m"
  by (auto simp: updateActivityStatus_def Let_def)

lemma recordObservedRun_frame [simp]:
  "md_Spec (recordObservedRun ob m) = md_Spec m" "md_UID (recordObservedRun ob m) = md_UID m"
  "md_Name (recordObservedRun ob m) = md_Name m"
  by (auto simp: recordObservedRun_def split: option.split)

lemma statusForDecide_frame [simp]:
  "md_Spec (statusForDecide E m n ob d now) = md_Spec m"
  "md_UID (statusForDecide E m n ob d now) = md_UID m"
  "md_Name (statusForDecide E m n ob d now) = md_Name m"
  by (simp_all add: statusForDecide_def Let_def)

text \<open>The price ceiling of the spec, as the gate reads it.\<close>

definition price_ok :: "'s reconcile_env \<Rightarrow> ModelSpec \<Rightarrow> bool" where
  "price_ok E spec \<longleftrightarrow>
     (case pl_MaxPricePerHour (sp_Placement spec) of
        None \<Rightarrow> True | Some p \<Rightarrow> Price_Validate (rc_ParseFloat E) p = Inr ())"

lemma checkSchedulable_frame:
  assumes "checkSchedulable E m a ph s = ((m', a', ph'), s')"
  shows "md_Spec m' = md_Spec m" and "md_UID m' = md_UID m" and "ac_Current a' = ac_Current a"
    and "ac_Replicas a' = ac_Replicas a" and "ac_Apply a' \<Longrightarrow> ac_Apply a"
    and "ac_Apply a' \<Longrightarrow> price_ok E (md_Spec m) \<and> Validate (md_Spec m) = None"
    and "md_Name m' = md_Name m"
  using assms
  by (auto simp: checkSchedulable_def price_ok_def Validate_def Let_def
      split: prod.splits sum.splits if_splits option.splits)

lemma planned_spec:
  assumes "planned E orig n ob now s = ((model, action, phase), s1)" and "ac_Apply action"
  shows "md_Spec model = md_Spec orig" and "md_UID model = md_UID orig"
    and "ac_Current action = ob_Run ob" and "ac_Replicas action \<in> {0, 1}"
    and "ac_Replicas action = 1 \<Longrightarrow> price_ok E (md_Spec orig) \<and> Validate (md_Spec orig) = None"
    and "ac_Replicas action = 0 \<Longrightarrow> ob_Run ob \<noteq> None" and "md_Name model = md_Name orig"
proof -
  let ?d = "hasDemand (rc_rfc3339 E) orig now"
  let ?m = "statusForDecide E orig n ob ?d now"
  obtain ph0 a0 where dec: "Decide (rc_meta E) ob (md_Status ?m) (md_Spec orig) ?d now = (ph0, a0)"
    by fastforce
  have a0: "ac_Apply a0 \<Longrightarrow> ac_Current a0 = ob_Run ob" "ac_Replicas a0 \<in> {0, 1}"
    "ac_Apply a0 \<Longrightarrow> ac_Replicas a0 = 0 \<Longrightarrow> ob_Run ob \<noteq> None"
    using Decide_Apply_shape [of "rc_meta E" ob "md_Status ?m" "md_Spec orig" ?d now] dec by auto
  from assms dec a0 show "md_Spec model = md_Spec orig" "md_UID model = md_UID orig"
    "ac_Current action = ob_Run ob" "ac_Replicas action \<in> {0, 1}"
    "ac_Replicas action = 1 \<Longrightarrow> price_ok E (md_Spec orig) \<and> Validate (md_Spec orig) = None"
    "ac_Replicas action = 0 \<Longrightarrow> ob_Run ob \<noteq> None" "md_Name model = md_Name orig"
    by (auto simp: planned_def Let_def split: if_splits dest: checkSchedulable_frame)
qed

section \<open>Which passes apply\<close>

text \<open>The run an answer of \<open>Get\<close> shows to be alive.\<close>

definition live_run :: "dstack_error + Run \<Rightarrow> Run option" where
  "live_run g = (case g of Inl _ \<Rightarrow> None | Inr run \<Rightarrow> if IsTerminal run then None else Some run)"

lemma observe_live_run:
  assumes "observe E n k spec now s = (Inr ob, s1)"
  shows "ob_Run ob = live_run (fst (rc_DGet E n s))"
    and "fst (rc_DGet E n s) = Inl e \<Longrightarrow> err_is e ErrNotFound"
  using assms
  by (auto simp: observe_def live_run_def no_observation_def Let_def split: prod.splits sum.splits if_splits)

lemma delete_calls_no_apply: "CallApply q r \<notin> set (delete_calls E m n now s)"
  by (auto simp: delete_calls_def reconcileDelete_def finishDelete_def stopFirst_def Let_def
      split: prod.splits sum.splits option.splits if_splits)

lemma recovery_calls_kinds:
  "c \<in> set (recovery_calls E m orig a n err s) \<Longrightarrow>
     err_is err ErrCannotOverride \<and> ((\<exists>e. c = CallStop n e) \<or> (\<exists>m' ok. c = CallPatch m' ok))"
  by (auto simp: recovery_calls_def recoverFromOverrideRefusal_def Let_def split: if_splits)

text \<open>A pass over a Model that is not being deleted and carries the finalizer.\<close>

definition live_model :: "Model \<Rightarrow> bool" where
  "live_model m \<longleftrightarrow> isZeroPtr (md_DeletionTimestamp m) \<and> ModelFinalizer \<in> set (md_Finalizers m)"

lemma pass_calls_live:
  assumes "live_model m"
  shows "pass_calls E (ApiOk, m) now s =
     CallGet (runNameFor m) (fst (rc_DGet E (runNameFor m) s)) #
     (case observe E (runNameFor m) (md_Name m) (md_Spec m) now s of
        (Inl _, _) \<Rightarrow> []
      | (Inr ob, s1) \<Rightarrow> observed_calls E m (runNameFor m) ob now s1)"
  using assms
  by (auto simp: pass_calls_def Reconcile_def live_model_def observe_traced reconcileObserved_traced
      with_log_def Let_def split: prod.split sum.split)

lemma pass_calls_not_live:
  assumes "\<not> live_model m"
  shows "CallApply q r \<notin> set (pass_calls E (ApiOk, m) now s)"
  using assms delete_calls_no_apply [of q r E m "runNameFor m" now s]
  by (auto simp: pass_calls_def Reconcile_def live_model_def reconcileDelete_traced with_log_def Let_def)

lemma pass_Apply_cases:
  assumes "CallApply q r \<in> set (pass_calls E (ApiOk, m) now s)"
  obtains ob model action phase s1 s2 env key s3 s4 rest where
    "live_model m" "ob_Run ob = live_run (fst (rc_DGet E (runNameFor m) s))"
    "observe E (runNameFor m) (md_Name m) (md_Spec m) now s = (Inr ob, s1)"
    "planned E m (runNameFor m) ob now s1 = ((model, action, phase), s2)" "ac_Apply action"
    "applyEnvFor E model action s2 = (Inr (env, key), s3)"
    "q = applyRequestFor model action (runNameFor m) env key" "rc_DApply E q s3 = (r, s4)"
    "pass_calls E (ApiOk, m) now s =
       CallGet (runNameFor m) (fst (rc_DGet E (runNameFor m) s)) # CallApply q r # rest"
    "rest = (case r of Inl err \<Rightarrow> recovery_calls E model m action (runNameFor m) err s4
                     | Inr _ \<Rightarrow> rest)"
    "\<And>c. c \<in> set rest \<Longrightarrow> (\<exists>e. c = CallStop (runNameFor m) e) \<or> (\<exists>m' ok. c = CallPatch m' ok)"
proof -
  let ?n = "runNameFor m"
  have live: "live_model m"
    by (rule ccontr) (use assms pass_calls_not_live [of m q r E now s] in simp)
  obtain o' s1 where obs: "observe E ?n (md_Name m) (md_Spec m) now s = (o', s1)" by fastforce
  note calls = pass_calls_live [OF live, of E now s]
  from assms obs calls obtain ob where ob: "o' = Inr ob" by (cases o') auto
  obtain model action phase s2 where pl: "planned E m ?n ob now s1 = ((model, action, phase), s2)"
    by (metis prod_cases3 surj_pair)
  have run: "ob_Run ob = live_run (fst (rc_DGet E ?n s))" by (rule observe_live_run(1) [OF obs [unfolded ob]])
  have calls': "pass_calls E (ApiOk, m) now s = CallGet ?n (fst (rc_DGet E ?n s)) # observed_calls E m ?n ob now s1"
    using calls obs ob by simp
  from pl show ?thesis
  proof (cases rule: observed_calls_cases)
    case (refused env key s2' q' err s3)
    from assms calls' refused(5) recovery_calls_kinds have "q' = q" "r = Inl err" by fastforce+
    with refused calls' show ?thesis
      by (intro that [OF live run obs [unfolded ob] pl]) (auto dest: recovery_calls_kinds)
  next
    case (applied env key s2' q' run' s3 m' ok)
    from assms calls' applied(5) have "q' = q" "r = Inr run'" by auto
    with applied calls' show ?thesis
      by (intro that [OF live run obs [unfolded ob] pl, of env key s2' s3 "[CallPatch m' ok]"]) auto
  qed (use assms calls' in auto)
qed

end
