(* ===== verification/Squall_Passes.thy ===== *)
theory Squall_Passes
  imports Squall_Trace
begin

text \<open>
  The safety properties of whole reconcile passes, over every environment: what a pass may ask
  dstack for, under which evidence, in which order, and what it must never do when it cannot see.
\<close>

section \<open>A sample environment\<close>

text \<open>
  One dstack run slot as the external state; every Kubernetes write succeeds, nothing is proxied.
  It instantiates the parameters in the witnesses.
\<close>

definition sample_Apply :: "ApplyRequest \<Rightarrow> Run option \<Rightarrow> (dstack_error + Run) \<times> Run option" where
  "sample_Apply q slot =
     (let r = sample_run\<lparr>run_Name := req_Name q, run_Replicas := req_Replicas q, run_Env := req_Env q\<rparr>
      in (Inr r, Some r))"

definition sample_Delete :: "string \<Rightarrow> Run option \<Rightarrow> dstack_error option \<times> Run option" where
  "sample_Delete n slot =
     (case slot of None \<Rightarrow> (Some (HTTPError 400 ErrNotFound []), None)
      | Some r \<Rightarrow> if IsTerminal r then (None, None) else (Some (HTTPError 400 ErrPlain []), slot))"

definition sample_env :: "Run option reconcile_env" where
  "sample_env =
     \<lparr>rc_UpdateModel = \<lambda>m s. (True, s), rc_PatchStatus = \<lambda>m old s. (True, s),
      rc_DGet = \<lambda>n s. (case s of None \<Rightarrow> Inl (HTTPError 400 ErrNotFound []) | Some r \<Rightarrow> Inr r, s),
      rc_DApply = sample_Apply,
      rc_DStop = \<lambda>n s. (None, map_option (\<lambda>r. r\<lparr>run_Status := ''terminated''\<rparr>) s),
      rc_DDelete = sample_Delete,
      rc_preflight = \<lparr>pf_BackendConfigured = \<lambda>b s. (Inr True, s), pf_HasFleetFor = \<lambda>b s. (Inr True, s),
                      pf_EnsureFleet = \<lambda>f s. (None, s)\<rparr>,
      rc_ssh = \<lparr>sk_get = \<lambda>ns n s. ((ApiError, []), s), sk_create = \<lambda>ns n d s. (ApiError, s),
                sk_generate = \<lambda>s. (None, s)\<rparr>,
      rc_secret = \<lambda>s ns n. None, rc_slices = \<lambda>s. None, rc_fetch = \<lambda>s i n. ActivityUnreachable,
      rc_served = \<lambda>s u. Inl [], rc_order = id, rc_meta = ref_meta 0, rc_ParseFloat = \<lambda>p. None,
      rc_rfc3339 = \<lambda>v. None, rc_showDuration = \<lambda>d. [], rc_showPriceError = \<lambda>e. [],
      rc_showValidation = \<lambda>e. [], rc_ProxyNamespace = [], rc_ProxyName = [],
      rc_SSHKeyNamespace = [], rc_HasServedModels = False, rc_IdleRequeueInterval = 0\<rparr>"

text \<open>A pinned Model that carries the finalizer and has no run yet, and one being deleted.\<close>

definition pinned_model :: Model where
  "pinned_model = sample_model\<lparr>md_Finalizers := [ModelFinalizer], md_Spec := sample_spec\<lparr>sp_MinReplicas := 1\<rparr>\<rparr>"

definition dying_model :: Model where
  "dying_model = sample_model\<lparr>md_Finalizers := [ModelFinalizer], md_DeletionTimestamp := Some Hour\<rparr>"

definition applies :: "int \<Rightarrow> ext_call list \<Rightarrow> bool" where
  "applies n cs = list_ex (\<lambda>c. case c of CallApply q r \<Rightarrow> req_Replicas q = n | _ \<Rightarrow> False) cs"

lemma appliesE:
  assumes "applies n cs"
  obtains q r where "CallApply q r \<in> set cs" "req_Replicas q = n"
proof -
  from assms obtain c where c: "c \<in> set cs" "case c of CallApply q r \<Rightarrow> req_Replicas q = n | _ \<Rightarrow> False"
    by (auto simp: applies_def list_ex_iff)
  show ?thesis by (rule ext_call.exhaust [of c]) (use c that in auto)
qed

text \<open>A replica that never became ready, seen long after its wake.\<close>

definition stuck_model :: Model where
  "stuck_model = pinned_model\<lparr>md_Status := sample_status\<lparr>st_WakeStartedAt := Some Minute\<rparr>\<rparr>"

lemma sample_passes:
  "applies 1 (pass_calls sample_env (ApiOk, pinned_model) Hour None)"
  "applies 0 (pass_calls sample_env (ApiOk, stuck_model) (100 * Hour) (Some (sample_run\<lparr>run_ProbesReady := False\<rparr>)))"
  by code_simp+

section \<open>Properties: actuation\<close>

lemma applyRequestFor_simps [simp]:
  "req_Name (applyRequestFor m a n env key) = n" "req_Current (applyRequestFor m a n env key) = ac_Current a"
  "req_Replicas (applyRequestFor m a n env key) = ac_Replicas a" "req_Env (applyRequestFor m a n env key) = env"
  "req_SSHKeyPub (applyRequestFor m a n env key) = key"
  "req_IdleDuration (applyRequestFor m a n env key) = fst (applyDurationsFor m a)"
  "req_MaxDuration (applyRequestFor m a n env key) = snd (applyDurationsFor m a)"
  by (simp_all add: applyRequestFor_def Let_def split: prod.split)

text \<open>
  C10. The compare-and-swap discipline of a whole pass, against any dstack. A pass applies at most
  once, only for a Model that is not being deleted and carries the finalizer, right after reading
  the run by the name it applies under; the anchor it sends is exactly the run that read showed
  alive (none when it was absent or terminal), and the replica count is 0 or 1. If dstack answers
  with an error other than an override refusal, a lost race included, the pass makes no further
  call: no retry and no status write.
\<close>

theorem pass_apply_discipline:
  assumes "CallApply q r \<in> set (pass_calls E (ApiOk, m) now s)"
  shows "live_model m \<and> req_Name q = runNameFor m \<and> req_Replicas q \<in> {0, 1} \<and>
    (\<exists>g rest. pass_calls E (ApiOk, m) now s = CallGet (runNameFor m) g # CallApply q r # rest \<and>
       req_Current q = live_run g \<and>
       (\<forall>c\<in>set rest. (\<exists>e. c = CallStop (runNameFor m) e) \<or> (\<exists>m' ok. c = CallPatch m' ok)) \<and>
       (\<forall>e. r = Inl e \<and> \<not> err_is e ErrCannotOverride \<longrightarrow> rest = []))"
  using assms
proof (cases rule: pass_Apply_cases)
  case (1 ob model action phase s1 s2 env key s3 s4 rest)
  have quiet: "rest = []" if "r = Inl e" "\<not> err_is e ErrCannotOverride" for e
    using that 1(10) recovery_calls_kinds [of _ E model m action "runNameFor m" e s4]
    by (metis (lifting) last_in_set old.sum.simps(5))
  show ?thesis using 1 quiet planned_spec(3,4) [OF 1(4,5)] by auto
qed

theorem pass_apply_discipline_witness:
  "\<exists>q r. CallApply q r \<in> set (pass_calls sample_env (ApiOk, pinned_model) Hour None) \<and>
     req_Name q = runNameFor pinned_model"
proof -
  from sample_passes(1) obtain q r
    where "CallApply q r \<in> set (pass_calls sample_env (ApiOk, pinned_model) Hour None)" by (rule appliesE)
  with pass_apply_discipline [OF this] show ?thesis by blast
qed

text \<open>
  C20. The request that puts a replica to sleep, field by field, against any dstack. An Apply that asks
  for replicas 0 is anchored on the live run the pass just read; its environment, SSH key, idle and
  maximal duration are that run's own, so no Secret is read to stop spending; its image, port, command,
  resources, probe and placement are computed from the Model's current spec, not from the run.
\<close>

theorem sleep_apply_request:
  assumes "CallApply q r \<in> set (pass_calls E (ApiOk, m) now s)" and "req_Replicas q = 0"
  shows "\<exists>run. live_run (fst (rc_DGet E (runNameFor m) s)) = Some run \<and>
    q = \<lparr>req_Name = runNameFor m, req_Replicas = 0, req_SSHKeyPub = run_SSHKeyPub run,
          req_Image = sp_Image (md_Spec m), req_Port = enginePort (sp_Engine (md_Spec m)), req_Env = run_Env run,
          req_Args = engineCommands (md_Spec m) (md_Name m),
          req_Resources = Some (engineResources (sp_Resources (md_Spec m))),
          req_Probe = Some (engineProbe (md_Spec m)), req_Placement = enginePlacement (sp_Placement (md_Spec m)),
          req_IdleDuration = run_IdleDuration run, req_MaxDuration = run_MaxDuration run, req_Current = Some run\<rparr>"
  using assms(1)
proof (cases rule: pass_Apply_cases)
  case (1 ob model action phase s1 s2 env key s3 s4 rest)
  note spec = planned_spec(1,3,6,7) [OF 1(4,5)]
  have zero: "ac_Replicas action = 0"
    using 1(7) assms(2) by simp
  with spec obtain run where run: "ob_Run ob = Some run" "ac_Current action = Some run"
    by auto
  then have "env = run_Env run" "key = run_SSHKeyPub run"
    using 1(6) zero by (auto simp: applyEnvFor_def)
  with run zero spec 1(2,7) show ?thesis
    by (intro exI [of _ run]) (simp add: applyRequestFor_def applyDurationsFor_def Let_def)
qed

theorem sleep_apply_request_witness:
  "\<exists>q r. CallApply q r \<in> set (pass_calls sample_env (ApiOk, stuck_model) (100 * Hour)
       (Some (sample_run\<lparr>run_ProbesReady := False\<rparr>))) \<and> req_Env q = run_Env sample_run \<and> req_Image q = sp_Image (md_Spec stuck_model)"
proof -
  from sample_passes(2) obtain q r
    where "CallApply q r \<in> set (pass_calls sample_env (ApiOk, stuck_model) (100 * Hour)
        (Some (sample_run\<lparr>run_ProbesReady := False\<rparr>)))" "req_Replicas q = 0" by (rule appliesE)
  with sleep_apply_request [OF this] show ?thesis
    by (intro exI [of _ q] exI [of _ r]) (auto simp: sample_env_def live_run_def split: if_splits)
qed

text \<open>Awake or asleep, the image of a request is the one of the current spec.\<close>

lemma apply_request_image:
  assumes "CallApply q r \<in> set (pass_calls E (ApiOk, m) now s)"
  shows "req_Image q = sp_Image (md_Spec m)"
  using assms
proof (cases rule: pass_Apply_cases)
  case (1 ob model action phase s1 s2 env key s3 s4 rest)
  with planned_spec(1) [OF 1(4,5)] show ?thesis
    by (simp add: applyRequestFor_def Let_def split: prod.split)
qed

text \<open>The anchors \<open>Decide\<close> reads, and what a sleep request of a pass comes from.\<close>

lemma statusForDecide_anchors:
  assumes "ob_ProvisioningFailure ob = None"
  shows "st_WakeStartedAt (md_Status (statusForDecide E m n ob d now)) = st_WakeStartedAt (md_Status m)"
    and "ob_Activity ob = Some e \<Longrightarrow> ev_Complete e \<Longrightarrow>
      st_UncontrolledSince (md_Status (statusForDecide E m n ob d now)) = None"
    and "st_UncontrolledSince (md_Status (statusForDecide E m n ob d now)) = Some t \<Longrightarrow>
      t = now \<or> st_UncontrolledSince (md_Status m) = Some t"
  using assms
  by (auto simp: statusForDecide_def recordObservedRun_def updateActivityStatus_def reconcileRunOwnership_def set_cond_def
      remove_cond_def Let_def split: runOwnership.splits option.splits if_splits)

lemma sleep_Apply_due:
  assumes "CallApply q r \<in> set (pass_calls E (ApiOk, m) now s)" and "req_Replicas q = 0"
  obtains ob s1 run where "observe E (runNameFor m) (md_Name m) (md_Spec m) now s = (Inr ob, s1)"
    "ob_Run ob = Some run" "req_Current q = Some run" "run_Replicas run \<noteq> 0"
    "scale_down_due ob (md_Status (statusForDecide E m (runNameFor m) ob (hasDemand (rc_rfc3339 E) m now) now))
       (md_Spec m) (hasDemand (rc_rfc3339 E) m now) now"
  using assms(1)
proof (cases rule: pass_Apply_cases)
  case (1 ob model action phase s1 s2 env key s3 s4 rest)
  let ?d = "hasDemand (rc_rfc3339 E) m now" let ?m = "statusForDecide E m (runNameFor m) ob ?d now"
  obtain ph a where dec: "Decide (rc_meta E) ob (md_Status ?m) (md_Spec m) ?d now = (ph, a)"
    by fastforce
  have z: "ac_Replicas action = 0" using 1(7) assms(2) by simp
  have a: "ac_Apply a" "ac_Replicas a = 0"
    using 1(4,5) z dec by (auto simp: planned_def Let_def split: if_splits dest: checkSchedulable_frame(4,5))
  obtain run where run: "ob_Run ob = Some run" using planned_spec(6) [OF 1(4,5) z] by auto
  have cur: "req_Current q = Some run" using planned_spec(3) [OF 1(4,5)] 1(7) run by simp
  have nz: "run_Replicas run \<noteq> 0"
    using Decide_asleep [OF run, of "rc_meta E" "md_Status ?m" "md_Spec m" ?d now] a dec by (auto split: if_splits)
  have due: "scale_down_due ob (md_Status ?m) (md_Spec m) ?d now"
    by (rule ccontr) (use Decide_up_kept [OF run nz, of "md_Status ?m"] a(1) dec in auto)
  show ?thesis by (rule that [OF 1(3) run cur nz due])
qed

lemma wake_apply_stamp:
  assumes "CallApply q r \<in> set (pass_calls E (ApiOk, m) now s)" and "req_Replicas q = 1"
  shows "gomap_get (req_Env q) ModelUIDEnvKey = Some (md_UID m)"
  using assms(1)
proof (cases rule: pass_Apply_cases)
  case (1 ob model action phase s1 s2 env key s3 s4 rest)
  have "gomap_get env ModelUIDEnvKey = Some (md_UID model)"
    using 1(6,7) assms(2)
    by (auto simp: applyEnvFor_def withModelUID_def Let_def split: sum.splits prod.splits)
  then show ?thesis using 1(7) planned_spec(2) [OF 1(4,5)] by simp
qed

text \<open>
  C19. No spending on a Model squall cannot vouch for. An Apply that asks for a replica goes out
  only for a spec that passes validation and whose price ceiling, if any, is valid; it is stamped
  with the Model's UID, the mark the reaper and the ownership check read; and it bounds the run by
  \<open>hardStop\<close> when the Model is on demand.
\<close>

theorem wake_apply_vetted:
  assumes "CallApply q r \<in> set (pass_calls E (ApiOk, m) now s)" and "req_Replicas q = 1"
  shows "Validate (md_Spec m) = None \<and> price_ok E (md_Spec m) \<and>
    gomap_get (req_Env q) ModelUIDEnvKey = Some (md_UID m) \<and>
    req_MaxDuration q = (if sp_MinReplicas (md_Spec m) = 0 then sp_HardStop (md_Spec m) else 0)"
  using assms(1)
proof (cases rule: pass_Apply_cases)
  case (1 ob model action phase s1 s2 env key s3 s4 rest)
  have "snd (applyDurationsFor model action) =
      (if sp_MinReplicas (md_Spec model) = 0 then sp_HardStop (md_Spec model) else 0)"
    using 1(7) assms(2) by (auto simp: applyDurationsFor_def split: option.split)
  then show ?thesis using 1(7) assms(2) planned_spec(1,2,5) [OF 1(4,5)] wake_apply_stamp [OF assms] by auto
qed

theorem wake_apply_vetted_witness: "Validate (md_Spec pinned_model) = None"
proof -
  from sample_passes(1) obtain q r
    where "CallApply q r \<in> set (pass_calls sample_env (ApiOk, pinned_model) Hour None)" "req_Replicas q = 1"
    by (rule appliesE)
  from wake_apply_vetted [OF this] show ?thesis by blast
qed

section \<open>Properties: teardown\<close>

text \<open>The state in which a teardown pass reads dstack: after the Draining write, when it is due.\<close>

definition draining :: "Model \<Rightarrow> Model" where
  "draining m = m\<lparr>md_Status := (md_Status m)\<lparr>st_Phase := Draining\<rparr>\<rparr>"

definition drain_entry :: "'s reconcile_env \<Rightarrow> Model \<Rightarrow> 's \<Rightarrow> bool \<times> 's" where
  "drain_entry E m s =
     (if st_Phase (md_Status m) \<noteq> Draining then rc_PatchStatus E (draining m) m s else (True, s))"

definition drain_prefix :: "'s reconcile_env \<Rightarrow> Model \<Rightarrow> 's \<Rightarrow> ext_call list" where
  "drain_prefix E m s =
     (if st_Phase (md_Status m) \<noteq> Draining then [CallPatch (draining m) (fst (drain_entry E m s))] else [])"

text \<open>Nothing more is owed to the replica: none runs, the drain deadline passed, or every proxy is idle.\<close>

definition drained :: "'s reconcile_env \<Rightarrow> Model \<Rightarrow> Run \<Rightarrow> gotime \<Rightarrow> 's \<Rightarrow> bool" where
  "drained E m run now s \<longleftrightarrow>
     run_Replicas run \<le> 0 \<or>
     (\<exists>t. md_DeletionTimestamp m = Some t \<and> drainTimeoutOrDefault (md_Spec m) < now - t) \<or>
     drainEvidenceClean (env_gather E (md_Name m) now s)"

definition tolerated :: "dstack_error option \<Rightarrow> bool" where
  "tolerated e \<longleftrightarrow> (case e of None \<Rightarrow> True | Some e \<Rightarrow> err_is e ErrNotFound)"

definition without_finalizer :: "Model \<Rightarrow> Model" where
  "without_finalizer m = m\<lparr>md_Finalizers := filter (\<lambda>f. f \<noteq> ModelFinalizer) (md_Finalizers m)\<rparr>"

text \<open>The calls that end a teardown, from the state in which \<open>Delete\<close> is issued.\<close>

definition final_calls :: "'s reconcile_env \<Rightarrow> Model \<Rightarrow> string \<Rightarrow> 's \<Rightarrow> ext_call list" where
  "final_calls E m n s =
     (case rc_DDelete E n s of
        (e, s1) \<Rightarrow> CallDelete n e #
          (if tolerated e
           then [CallUpdate (without_finalizer (draining m)) (fst (rc_UpdateModel E (without_finalizer (draining m)) s1))]
           else []))"

lemma finishDelete_traced:
  "snd (snd (finishDelete (traced E) (draining m) n (s, l))) = l @ final_calls E m n s"
  by (auto simp: finishDelete_def final_calls_def tolerated_def without_finalizer_def Let_def
      split: prod.splits option.splits)

lemma delete_calls_eq:
  assumes "ModelFinalizer \<in> set (md_Finalizers m)"
  shows "delete_calls E m n now s = drain_prefix E m s @
     (if \<not> fst (drain_entry E m s) then []
      else case rc_DGet E n (snd (drain_entry E m s)) of
        (g, s2) \<Rightarrow> CallGet n g #
          (case g of
             Inl e \<Rightarrow> if err_is e ErrNotFound then final_calls E m n s2 else []
           | Inr run \<Rightarrow>
               if 0 < run_Replicas run \<and>
                  \<not> drainTimeoutOrDefault (md_Spec m) < time_sub now (case md_DeletionTimestamp m of None \<Rightarrow> 0 | Some t \<Rightarrow> t) \<and>
                  \<not> drainEvidenceClean (env_gather E (md_Name m) now s2) then []
               else if \<not> IsTerminal run then [CallStop n (fst (rc_DStop E n s2))] else final_calls E m n s2))"
  using assms
  by (auto simp: delete_calls_def reconcileDelete_def drain_prefix_def drain_entry_def stopFirst_def
      finishDelete_traced Let_def simp flip: draining_def split: prod.split sum.split option.split)

lemma drained_intro:
  assumes "md_DeletionTimestamp m \<noteq> None"
    and "\<not> (0 < run_Replicas run \<and>
           \<not> drainTimeoutOrDefault (md_Spec m) < time_sub now (case md_DeletionTimestamp m of None \<Rightarrow> 0 | Some t \<Rightarrow> t) \<and>
           \<not> drainEvidenceClean (env_gather E (md_Name m) now s))"
  shows "drained E m run now s"
proof -
  have "minDuration \<le> drainTimeoutOrDefault (md_Spec m)"
    by (simp add: drainTimeoutOrDefault_def defaultDrainTimeout_def minDuration_def)
  with assms show ?thesis by (auto simp: drained_def dest: time_sub_gt_imp)
qed

text \<open>
  C11. Teardown order, against any dstack and any proxies. No teardown pass applies. A pass stops
  the run only after it wrote the Draining phase and read the run alive, and only when no replica
  runs, the drain deadline has passed in real time, or every proxy replica reported itself idle. It
  deletes only a run that this pass read as absent or terminal. It gives up the finalizer, its only
  handle on the machine, only as its last call, directly after a Delete that succeeded or found
  nothing; and every pass touches no run but the Model's own.
\<close>

theorem teardown_order:
  assumes "md_DeletionTimestamp m \<noteq> None"
  shows "(\<forall>q r. CallApply q r \<notin> set (delete_calls E m n now s)) \<and>
    (\<forall>x e. CallStop x e \<in> set (delete_calls E m n now s) \<longrightarrow>
       x = n \<and> fst (drain_entry E m s) \<and>
       (\<exists>run s2. rc_DGet E n (snd (drain_entry E m s)) = (Inr run, s2) \<and> \<not> IsTerminal run \<and>
          drained E m run now s2)) \<and>
    (\<forall>x e. CallDelete x e \<in> set (delete_calls E m n now s) \<longrightarrow>
       x = n \<and> fst (drain_entry E m s) \<and>
       (\<exists>g s2. rc_DGet E n (snd (drain_entry E m s)) = (g, s2) \<and> live_run g = None \<and>
          (\<forall>err. g = Inl err \<longrightarrow> err_is err ErrNotFound))) \<and>
    (\<forall>m' ok. CallUpdate m' ok \<in> set (delete_calls E m n now s) \<longrightarrow>
       ModelFinalizer \<notin> set (md_Finalizers m') \<and>
       (\<exists>pre e. delete_calls E m n now s = pre @ [CallDelete n e, CallUpdate m' ok] \<and> tolerated e))"
proof (cases "ModelFinalizer \<in> set (md_Finalizers m)")
  case False
  then have "delete_calls E m n now s = []" by (simp add: delete_calls_def reconcileDelete_def)
  then show ?thesis by simp
next
  case True
  obtain g s2 where g: "rc_DGet E n (snd (drain_entry E m s)) = (g, s2)" by fastforce
  show ?thesis
    unfolding delete_calls_eq [OF True] g prod.case
    using drained_intro [OF assms, of _ now E s2] g
    by (cases g) (auto simp: drain_prefix_def final_calls_def without_finalizer_def live_run_def
        split: prod.splits if_splits)
qed

theorem teardown_order_witness:
  "\<exists>run. drained sample_env dying_model run (Hour + 10 * Minute) (Some sample_run) \<and> \<not> IsTerminal run"
proof -
  let ?calls = "delete_calls sample_env dying_model ''q'' (Hour + 10 * Minute) (Some sample_run)"
  have "list_ex (\<lambda>c. c = CallStop ''q'' None) ?calls" by code_simp
  then have "CallStop ''q'' None \<in> set ?calls" by (auto simp: list_ex_iff)
  moreover have "md_DeletionTimestamp dying_model \<noteq> None" by (simp add: dying_model_def)
  note teardown_order [OF this, of sample_env "''q''" "Hour + 10 * Minute" "Some sample_run"]
  ultimately obtain run s2 where
      "rc_DGet sample_env ''q'' (snd (drain_entry sample_env dying_model (Some sample_run))) = (Inr run, s2)"
      "\<not> IsTerminal run" "drained sample_env dying_model run (Hour + 10 * Minute) s2"
    by blast
  moreover have "drain_entry sample_env dying_model (Some sample_run) = (True, Some sample_run)"
    by (simp add: drain_entry_def sample_env_def)
  moreover have "rc_DGet sample_env ''q'' (Some sample_run) = (Inr sample_run, Some sample_run)"
    by (simp add: sample_env_def)
  ultimately show ?thesis by auto
qed

section \<open>Properties: what cannot be seen is not acted on\<close>

lemma observed_calls_no_get: "CallGet x g \<notin> set (observed_calls E m n ob now s)"
proof -
  obtain model action phase s1 where "planned E m n ob now s = ((model, action, phase), s1)"
    by (metis prod_cases3 surj_pair)
  then show ?thesis
    by (cases rule: observed_calls_cases) (auto dest: recovery_calls_kinds)
qed

lemma pass_calls_deleting:
  assumes "\<not> isZeroPtr (md_DeletionTimestamp m)"
  shows "pass_calls E (ApiOk, m) now s = delete_calls E m (runNameFor m) now s"
    and "Reconcile E (ApiOk, m) now s = reconcileDelete E m (runNameFor m) now s"
  using assms by (simp_all add: pass_calls_def Reconcile_def reconcileDelete_traced with_log_def Let_def)

lemma reconcileDelete_unreadable:
  assumes "ModelFinalizer \<in> set (md_Finalizers m)" and "fst (drain_entry E m s)"
    and "fst (rc_DGet E n (snd (drain_entry E m s))) = Inl e" and "\<not> err_is e ErrNotFound"
  shows "fst (reconcileDelete E m n now s) = ReconcileError ''observe dstack state''"
  using assms
  by (cases "st_Phase (md_Status m) = Draining")
    (auto simp: reconcileDelete_def drain_entry_def Let_def draining_def split: prod.splits)

lemma final_calls_no_get: "CallGet x g \<notin> set (final_calls E m n s)"
  by (auto simp: final_calls_def split: prod.splits)

text \<open>
  C12. An unreadable dstack produces no action. When the read of the run answers anything but
  not-found (a refused connection, a 500, an expired token), it is the pass's last call, the only
  call before it can be the Draining mark of a Model being deleted, and the pass returns an error,
  so that it is retried: nothing is applied, stopped or deleted, no status is written and no
  finalizer removed on a guess.
\<close>

theorem unreadable_dstack_no_action:
  assumes "CallGet x (Inl e) \<in> set (pass_calls E (ApiOk, m) now s)" and "\<not> err_is e ErrNotFound"
  shows "\<exists>pre. pass_calls E (ApiOk, m) now s = pre @ [CallGet x (Inl e)] \<and>
     (\<forall>c\<in>set pre. c = CallPatch (draining m) True \<and> \<not> isZeroPtr (md_DeletionTimestamp m)) \<and>
     fst (Reconcile E (ApiOk, m) now s) = ReconcileError ''observe dstack state''"
proof -
  consider "live_model m"
    | "\<not> isZeroPtr (md_DeletionTimestamp m)" "ModelFinalizer \<in> set (md_Finalizers m)"
    | "\<not> isZeroPtr (md_DeletionTimestamp m)" "ModelFinalizer \<notin> set (md_Finalizers m)"
    | "isZeroPtr (md_DeletionTimestamp m)" "ModelFinalizer \<notin> set (md_Finalizers m)"
    by (auto simp: live_model_def)
  then show ?thesis
  proof cases
    case 1
    obtain o' s1 where obs: "observe E (runNameFor m) (md_Name m) (md_Spec m) now s = (o', s1)" by fastforce
    note calls = pass_calls_live [OF 1, of E now s, unfolded obs prod.case]
    from assms(1) have g: "x = runNameFor m" "fst (rc_DGet E (runNameFor m) s) = Inl e"
      unfolding calls by (auto simp: observed_calls_no_get split: sum.splits)
    then have "o' = Inl e" using obs assms(2) by (auto simp: observe_def split: prod.splits)
    with g calls obs 1 show ?thesis by (simp add: Reconcile_def live_model_def Let_def)
  next
    case 2
    let ?n = "runNameFor m"
    obtain g s2 where g: "rc_DGet E ?n (snd (drain_entry E m s)) = (g, s2)" by fastforce
    note calls = delete_calls_eq [OF 2(2), of E ?n now s, unfolded g prod.case]
    from assms(1) have "fst (drain_entry E m s) \<and> x = ?n \<and> g = Inl e"
      unfolding pass_calls_deleting(1) [OF 2(1)] calls
      by (auto simp: final_calls_no_get drain_prefix_def split: sum.splits if_splits)
    with calls g assms(2) 2 reconcileDelete_unreadable [OF 2(2), of E s ?n e now] show ?thesis
      by (auto simp: pass_calls_deleting drain_prefix_def)
  next
    case 3
    with assms(1) show ?thesis by (simp add: pass_calls_deleting delete_calls_def reconcileDelete_def)
  next
    case 4
    with assms(1) show ?thesis by (auto simp: pass_calls_def Reconcile_def Let_def split: if_splits)
  qed
qed

definition blind_env :: "Run option reconcile_env" where
  "blind_env = sample_env\<lparr>rc_DGet := \<lambda>n s. (Inl (OtherError ''connection refused''), s)\<rparr>"

theorem unreadable_dstack_no_action_witness:
  "fst (Reconcile blind_env (ApiOk, pinned_model) Hour None) = ReconcileError ''observe dstack state''"
proof -
  let ?e = "OtherError ''connection refused''"
  have "live_model pinned_model"
    by (simp add: live_model_def pinned_model_def sample_model_def isZeroPtr_def)
  then have "CallGet (runNameFor pinned_model) (Inl ?e) \<in> set (pass_calls blind_env (ApiOk, pinned_model) Hour None)"
    by (simp add: pass_calls_live blind_env_def)
  from unreadable_dstack_no_action [OF this] show ?thesis by auto
qed

section \<open>Properties: the wake anchor\<close>

text \<open>
  C39. A recreated run inherits the dead run's deadline. When a run dies uncommanded and a new one
  is minted, \<open>WakeStartedAt\<close> is kept if it is set, and nothing but a scale to zero clears it. So if
  the first wake is longer ago than \<open>provisioningTimeout\<close>, the status written by the recreate makes
  every later pass that finds the new replica not ready yet give it up at once as timed out,
  however young the new run is.
\<close>

theorem recreate_inherits_wake_anchor:
  assumes "ac_Current action = None" and "ac_Replicas action = 1"
    and "st_WakeStartedAt (md_Status model) = Some w" and "w \<noteq> 0"
    and "ob_Run ob = Some run'" and "run_Replicas run' \<noteq> 0" and "\<not> ob_Ready ob"
    and "0 < sp_ProvisioningTimeout spec" and "sp_ProvisioningTimeout spec < maxDuration"
    and "w + sp_ProvisioningTimeout spec < now'"
  shows "st_WakeStartedAt (md_Status (recordApplied M action run now model)) = Some w \<and>
    fst (Decide M ob (md_Status (recordApplied M action run now model)) spec demand now') = Dead \<and>
    ac_Replicas (snd (Decide M ob (md_Status (recordApplied M action run now model)) spec demand now')) = 0 \<and>
    ac_ProvisioningTimedOut (snd (Decide M ob (md_Status (recordApplied M action run now model)) spec demand now'))"
proof -
  have w: "st_WakeStartedAt (md_Status (recordApplied M action run now model)) = Some w"
    using assms(1-3) by (simp add: recordApplied_def Let_def)
  have "sp_ProvisioningTimeout spec < time_sub now' w"
    using assms(8-10) by (subst time_sub_gt_iff) (auto simp: minDuration_def)
  with w assms(4,7,8) have "provisioningDue
      (st_WakeStartedAt (md_Status (recordApplied M action run now model))) (ob_Ready ob)
      (sp_ProvisioningTimeout spec) now'"
    by (auto simp: provisioningDue_iff)
  with w assms(5,6) show ?thesis by (simp add: Decide_def Let_def)
qed

theorem recreate_inherits_wake_anchor_witness:
  "fst (Decide (ref_meta 0) (no_observation\<lparr>ob_Run := Some sample_run\<rparr>)
      (md_Status (recordApplied (ref_meta 0) ((action_at (100 * Hour))\<lparr>ac_Apply := True, ac_Replicas := 1\<rparr>)
        sample_run (100 * Hour) stuck_model)) sample_spec True (100 * Hour + 15 * Second)) = Dead"
  using recreate_inherits_wake_anchor [of "(action_at (100 * Hour))\<lparr>ac_Apply := True, ac_Replicas := 1\<rparr>"
      stuck_model Minute "no_observation\<lparr>ob_Run := Some sample_run\<rparr>" sample_run sample_spec
      "100 * Hour + 15 * Second" "ref_meta 0" sample_run "100 * Hour" True]
  by (simp add: stuck_model_def pinned_model_def sample_defs no_observation_def maxDuration_def)

end
