(* ===== verification/Proxy_Decision.thy ===== *)
theory Proxy_Decision
  imports Squall_Dstack "HOL-Library.Char_ord" "HOL-Library.List_Lexorder"
begin

text \<open>
  The pure parts of squall-proxy's data path: the decision table (\<open>internal/proxy/decision.go\<close>),
  the demand-refresh cadence and the wait contract (\<open>handler.go\<close>), and the classification,
  rewriting and header hygiene of one forward (\<open>attempt.go\<close>).
\<close>

section \<open>The decision table (decision.go)\<close>

datatype WaitState = WaitNone | WaitAsleep | WaitWaking | WaitRecreating

record proxyAction =
  pa_Forward :: bool
  pa_Block :: bool
  pa_DemandPatch :: bool
  pa_ImmediateStatus :: int
  pa_DeadlineStatus :: int
  pa_DeadlineState :: WaitState
  pa_Alarm :: bool

definition no_action :: proxyAction where
  "no_action =
     \<lparr>pa_Forward = False, pa_Block = False, pa_DemandPatch = False, pa_ImmediateStatus = 0,
      pa_DeadlineStatus = 0, pa_DeadlineState = WaitNone, pa_Alarm = False\<rparr>"

definition hold_action :: "WaitState \<Rightarrow> proxyAction" where
  "hold_action w =
     no_action\<lparr>pa_DemandPatch := True, pa_Block := True, pa_DeadlineStatus := 503, pa_DeadlineState := w\<rparr>"

definition proxy_Decide :: "ModelPhase \<Rightarrow> bool \<Rightarrow> int \<Rightarrow> proxyAction" where
  "proxy_Decide phase hasCR gatewayCode =
     (if \<not> hasCR then no_action\<lparr>pa_ImmediateStatus := 404\<rparr>
      else case phase of
        Ready \<Rightarrow>
          if gatewayCode = 403 then no_action\<lparr>pa_Alarm := True, pa_ImmediateStatus := 502\<rparr>
          else no_action\<lparr>pa_Forward := True\<rparr>
      | Asleep \<Rightarrow> hold_action WaitAsleep
      | Waking \<Rightarrow> hold_action WaitWaking
      | Recreating \<Rightarrow> hold_action WaitRecreating
      | Dead \<Rightarrow> hold_action WaitRecreating
      | Draining \<Rightarrow> no_action\<lparr>pa_ImmediateStatus := 404\<rparr>
      | PhaseOther _ \<Rightarrow> no_action\<lparr>pa_ImmediateStatus := 404\<rparr>)"

section \<open>Refresh cadence (handler.go)\<close>

definition refreshIntervalFor :: "duration \<Rightarrow> duration \<Rightarrow> duration" where
  "refreshIntervalFor idleTimeout ceiling =
     (if idleTimeout \<le> 0 then ceiling
      else
        let interval = go_div idleTimeout 10;
            interval1 = (if interval < 500 * Millisecond then 500 * Millisecond else interval)
        in if 0 < ceiling \<and> ceiling < interval1 then ceiling else interval1)"

section \<open>One attempt (attempt.go)\<close>

definition maxReplayableBody :: nat where
  "maxReplayableBody = 4194304"

datatype attemptResult = attemptRetry | attemptCommit

text \<open>
  A response as the transport delivers it: status, headers and body. \<open>unmarshal\<close> stands for
  \<open>encoding/json\<close> reading a document; a body that is none gives \<open>None\<close>.
\<close>

record upstream_response =
  up_StatusCode :: int
  up_Header :: "string list gomap"
  up_Body :: string

definition isDstackServiceNotFound :: "(string \<Rightarrow> json option) \<Rightarrow> string \<Rightarrow> bool" where
  "isDstackServiceNotFound unmarshal body =
     (case unmarshal body of
        None \<Rightarrow> False
      | Some j \<Rightarrow>
          (case json_fields (Some j) of
             None \<Rightarrow> False
           | Some kvs \<Rightarrow>
               (case json_string (json_field kvs ''detail'') of
                  None \<Rightarrow> False
                | Some d \<Rightarrow> HasPrefix d ''Service '' \<and> HasSuffix d '' not found'')))"

text \<open>A transport error is \<open>None\<close>.\<close>

definition classifyAttempt ::
  "(string \<Rightarrow> json option) \<Rightarrow> upstream_response option \<Rightarrow> ModelPhase \<Rightarrow> string \<Rightarrow> attemptResult" where
  "classifyAttempt unmarshal resp phase body404 =
     (case resp of
        None \<Rightarrow> attemptRetry
      | Some r \<Rightarrow>
          if up_StatusCode r = 502 \<or> up_StatusCode r = 503 then attemptRetry
          else if up_StatusCode r = 404
          then (if isDstackServiceNotFound unmarshal body404 then attemptRetry
                else if phase \<in> {Asleep, Waking, Recreating, Dead} then attemptRetry
                else attemptCommit)
          else attemptCommit)"

definition notFoundPeekLimit :: nat where
  "notFoundPeekLimit = 4096"

text \<open>What the peek shows; the body itself is spliced back together unchanged.\<close>

definition peekAndRestore :: "upstream_response \<Rightarrow> nat \<Rightarrow> string \<times> upstream_response" where
  "peekAndRestore r limit =
     (let peeked = take limit (up_Body r) in (peeked, r\<lparr>up_Body := peeked @ drop limit (up_Body r)\<rparr>))"

section \<open>Rewriting the model field (attempt.go)\<close>

text \<open>
  The document of a request body: unmarshalling into a map keeps the last value of a repeated key,
  marshalling writes the keys sorted.
\<close>

definition object_map :: "(string \<times> json) list \<Rightarrow> json gomap" where
  "object_map kvs = fold (\<lambda>(k, v) m. gomap_put k v m) kvs []"

definition rewriteModelField :: "json option \<Rightarrow> string \<Rightarrow> json option" where
  "rewriteModelField body served =
     (case body of
        Some (JObj kvs) \<Rightarrow> Some (JObj (sort_key fst (gomap_put ''model'' (JStr served) (object_map kvs))))
      | _ \<Rightarrow> None)"

section \<open>Hop-by-hop headers (attempt.go)\<close>

text \<open>
  \<open>http.Header\<close> keeps canonical keys: \<open>CanonicalMIMEHeaderKey\<close> upper-cases the first letter and
  each letter after a dash and lower-cases the others, and leaves a key alone that has a byte no
  header name may have.
\<close>

definition upper_char :: "char \<Rightarrow> char" where
  "upper_char c =
     (let n = of_char c :: nat in if 97 \<le> n \<and> n \<le> 122 then char_of (n - 32) else c)"

definition header_byte :: "char \<Rightarrow> bool" where
  "header_byte c =
     (let n = of_char c :: nat
      in 48 \<le> n \<and> n \<le> 57 \<or> 65 \<le> n \<and> n \<le> 90 \<or> 97 \<le> n \<and> n \<le> 122 \<or> c \<in> set ''!#$%&*+-.^_`|~'' \<or> n = 39)"

fun canonical_from :: "bool \<Rightarrow> string \<Rightarrow> string" where
  "canonical_from up [] = []"
| "canonical_from up (c # cs) =
     (if up then upper_char c else lower_char c) # canonical_from (c = CHR ''-'') cs"

definition canonicalKey :: "string \<Rightarrow> string" where
  "canonicalKey k = (if list_all header_byte k then canonical_from True k else k)"

definition header_Get :: "string list gomap \<Rightarrow> string \<Rightarrow> string" where
  "header_Get h k = (case gomap_get h (canonicalKey k) of Some (v # _) \<Rightarrow> v | _ \<Rightarrow> [])"

definition header_Del :: "string \<Rightarrow> string list gomap \<Rightarrow> string list gomap" where
  "header_Del k h = gomap_del (canonicalKey k) h"

definition header_Set :: "string \<Rightarrow> string \<Rightarrow> string list gomap \<Rightarrow> string list gomap" where
  "header_Set k v h = gomap_put (canonicalKey k) [v] h"

definition hopByHopHeaders :: "string list" where
  "hopByHopHeaders =
     [''Connection'', ''Keep-Alive'', ''Proxy-Authenticate'', ''Proxy-Authorization'',
      ''Proxy-Connection'', ''TE'', ''Trailer'', ''Transfer-Encoding'', ''Upgrade'']"

definition connection_tokens :: "string list gomap \<Rightarrow> string list" where
  "connection_tokens h =
     filter (\<lambda>f. f \<noteq> []) (map TrimSpace (Split_char CHR '','' (header_Get h ''Connection'')))"

definition stripHopByHop :: "string list gomap \<Rightarrow> string list gomap" where
  "stripHopByHop h = fold header_Del hopByHopHeaders (fold header_Del (connection_tokens h) h)"

section \<open>Lemmas\<close>

lemma no_action_simps [simp]:
  "\<not> pa_Forward no_action" "\<not> pa_Block no_action" "\<not> pa_DemandPatch no_action"
  "pa_ImmediateStatus no_action = 0" "pa_DeadlineStatus no_action = 0"
  "pa_DeadlineState no_action = WaitNone" "\<not> pa_Alarm no_action"
  by (simp_all add: no_action_def)

lemma hold_action_simps [simp]:
  "\<not> pa_Forward (hold_action w)" "pa_Block (hold_action w)" "pa_DemandPatch (hold_action w)"
  "pa_ImmediateStatus (hold_action w) = 0" "pa_DeadlineStatus (hold_action w) = 503"
  "pa_DeadlineState (hold_action w) = w" "\<not> pa_Alarm (hold_action w)"
  by (simp_all add: hold_action_def)

lemma proxy_Decide_Block:
  "pa_Block (proxy_Decide ph cr g) \<longleftrightarrow> cr \<and> ph \<in> {Asleep, Waking, Recreating, Dead}"
  by (auto simp: proxy_Decide_def split: ModelPhase.splits)

lemma peek_restores: "snd (peekAndRestore r n) = r"
  by (simp add: peekAndRestore_def Let_def)

lemma fold_Del_get:
  "gomap_get (fold header_Del ks h) k = (if k \<in> canonicalKey ` set ks then None else gomap_get h k)"
  by (induction ks arbitrary: h) (auto simp: header_Del_def)

lemma stripHopByHop_get:
  "gomap_get (stripHopByHop h) k =
     (if k \<in> canonicalKey ` (set (connection_tokens h) \<union> set hopByHopHeaders) then None else gomap_get h k)"
  by (auto simp: stripHopByHop_def fold_Del_get)

lemma fold_put_last:
  "gomap_get (fold (\<lambda>(k, v) m. gomap_put k v m) kvs m) k =
     (case map_of (rev kvs) k of Some v \<Rightarrow> Some v | None \<Rightarrow> gomap_get m k)"
  by (induction kvs arbitrary: m) (auto simp: map_add_def split: option.split)

lemma gomap_wf_fold_put: "gomap_wf m \<Longrightarrow> gomap_wf (fold (\<lambda>(k, v) m. gomap_put k v m) kvs m)"
  by (induction kvs arbitrary: m) auto

lemma map_of_sort_key:
  fixes m :: "'v gomap"
  assumes "gomap_wf m"
  shows "map_of (sort_key fst m) k = map_of m k"
proof -
  have "mset (map fst (sort_key fst m)) = mset (map fst m)" by (simp only: mset_map mset_sort)
  then have wf: "gomap_wf (sort_key fst m)" using assms by (metis mset_eq_imp_distinct_iff)
  show ?thesis
  proof (cases "map_of m k")
    case None
    then have "map_of (sort_key fst m) k = None" by (simp add: map_of_eq_None_iff)
    with None show ?thesis by simp
  next
    case (Some v)
    then have "(k, v) \<in> set (sort_key fst m)" using assms by (simp add: gomap_get_iff)
    with wf Some show ?thesis by (simp add: gomap_get_iff)
  qed
qed

section \<open>Properties\<close>

text \<open>
  The decision table is total and unambiguous, and retrying is in lockstep with holding. For
  every phase, Model presence and gateway status exactly one of forward, hold and immediate answer
  is prescribed; a demand patch is sent exactly when the request is held, which is exactly in the
  phases asleep, waking, recreating and dead of a known Model; the alarm is raised only for a
  gateway 403, which is answered 502 and never wakes anything. And a plain upstream 404 is retried
  in exactly the phases in which a request is held, so that an attempt can neither end a hold the
  table opened nor hide the engine's own 404 from the caller.
\<close>

theorem proxy_decision_table:
  "(length (filter id [pa_Forward (proxy_Decide ph cr g), pa_Block (proxy_Decide ph cr g),
      pa_ImmediateStatus (proxy_Decide ph cr g) \<noteq> 0]) = 1) \<and>
   (pa_DemandPatch (proxy_Decide ph cr g) \<longleftrightarrow> pa_Block (proxy_Decide ph cr g)) \<and>
   (pa_Block (proxy_Decide ph cr g) \<longleftrightarrow> cr \<and> ph \<in> {Asleep, Waking, Recreating, Dead}) \<and>
   (pa_Forward (proxy_Decide ph cr g) \<longleftrightarrow> cr \<and> ph = Ready \<and> g \<noteq> 403) \<and>
   (pa_Alarm (proxy_Decide ph cr g) \<longleftrightarrow> pa_ImmediateStatus (proxy_Decide ph cr g) = 502) \<and>
   (pa_Alarm (proxy_Decide ph cr g) \<longleftrightarrow> cr \<and> ph = Ready \<and> g = 403) \<and>
   (up_StatusCode r = 404 \<and> \<not> isDstackServiceNotFound u b \<longrightarrow>
     (classifyAttempt u (Some r) ph b = attemptRetry \<longleftrightarrow> pa_Block (proxy_Decide ph True g)))"
proof -
  have "classifyAttempt u (Some r) ph b = attemptRetry \<longleftrightarrow> pa_Block (proxy_Decide ph True g)"
    if "up_StatusCode r = 404" "\<not> isDstackServiceNotFound u b"
    using that by (simp add: classifyAttempt_def proxy_Decide_Block)
  then show ?thesis
    by (cases ph) (auto simp: proxy_Decide_def)
qed

theorem proxy_decision_table_witness:
  "classifyAttempt (\<lambda>b. None) (Some \<lparr>up_StatusCode = 404, up_Header = [], up_Body = []\<rparr>) Dead [] = attemptRetry"
  using proxy_decision_table [of Dead True 0 "\<lparr>up_StatusCode = 404, up_Header = [], up_Body = []\<rparr>" "\<lambda>b. None" "[]"]
  by (simp add: isDstackServiceNotFound_def)

text \<open>
  No hop-by-hop header crosses the proxy. After stripping, none of the nine connection-scoped
  headers and none of the fields the Connection header names is left, under any spelling of their
  letters' case; every other header keeps its values.
\<close>

theorem stripHopByHop_exact:
  "gomap_get (stripHopByHop h) (canonicalKey f) =
     (if canonicalKey f \<in> canonicalKey ` set hopByHopHeaders \<or>
         canonicalKey f \<in> canonicalKey ` set (connection_tokens h)
      then None else gomap_get h (canonicalKey f)) \<and>
   header_Get (stripHopByHop h) ''te'' = [] \<and> header_Get (stripHopByHop h) ''connection'' = []"
proof -
  have te: "canonicalKey ''te'' = canonicalKey ''TE''" "canonicalKey ''connection'' = canonicalKey ''Connection''"
    by code_simp+
  show ?thesis
    unfolding header_Get_def stripHopByHop_get te by (auto simp: hopByHopHeaders_def)
qed

text \<open>
  Rewriting the model name changes that field and nothing else: the rewritten document is an
  object in which \<open>model\<close> is the served name and every other key has the value the caller's last
  occurrence of it had; a body that is not an object is refused, so that it is forwarded as it is.
\<close>

theorem rewriteModelField_spec:
  "(case rewriteModelField (Some j) served of
      None \<Rightarrow> \<not> (\<exists>kvs. j = JObj kvs)
    | Some j' \<Rightarrow> \<exists>kvs kvs'. j = JObj kvs \<and> j' = JObj kvs' \<and>
        map_of kvs' ''model'' = Some (JStr served) \<and>
        (\<forall>k. k = ''model'' \<or> map_of kvs' k = map_of (rev kvs) k))"
  by (cases j) (auto simp: rewriteModelField_def object_map_def map_of_sort_key gomap_wf_fold_put
      fold_put_last split: option.split)

end
