(* ===== verification/Proxy_Cache.thy ===== *)
theory Proxy_Cache
  imports Proxy_Decision
begin

text \<open>
  squall-proxy's view of the cluster: the Model cache and its notifications, the informer handlers
  that fill it (\<open>internal/proxy/cache.go\<close>), the discovery listing (\<open>models.go\<close>) and the backends
  resolved from it (\<open>backend.go\<close>). An informer object is the JSON tree of the Model.
\<close>

section \<open>Snapshots and the cache (cache.go)\<close>

record ModelSnapshot =
  sn_Phase :: ModelPhase
  sn_Namespace :: string
  sn_Replica :: "ReplicaEndpoint option"
  sn_HoldTimeout :: duration
  sn_IdleTimeout :: duration
  sn_Created :: gotime
  sn_Features :: "string list option"
  sn_Owner :: string
  sn_ServiceURL :: string
  sn_ServedModel :: string
  sn_ForwardModel :: string
  sn_Schedulable :: bool

definition zero_snapshot :: ModelSnapshot where
  "zero_snapshot =
     \<lparr>sn_Phase = PhaseOther [], sn_Namespace = [], sn_Replica = None, sn_HoldTimeout = 0,
      sn_IdleTimeout = 0, sn_Created = 0, sn_Features = None, sn_Owner = [], sn_ServiceURL = [],
      sn_ServedModel = [], sn_ForwardModel = [], sn_Schedulable = False\<rparr>"

text \<open>
  A subscriber is a channel of capacity one: its number and whether a notification is pending.
  \<open>mc_nextSub\<close> numbers the channels.
\<close>

record ModelCache =
  mc_byName :: "ModelSnapshot gomap"
  mc_subs :: "((nat \<times> bool) list) gomap"
  mc_nextSub :: nat
  mc_synced :: bool

definition NewCache :: ModelCache where
  "NewCache = \<lparr>mc_byName = [], mc_subs = [], mc_nextSub = 0, mc_synced = False\<rparr>"

definition cache_SetSynced :: "ModelCache \<Rightarrow> ModelCache" where
  "cache_SetSynced c = c\<lparr>mc_synced := True\<rparr>"

definition cache_Synced :: "ModelCache \<Rightarrow> bool" where
  "cache_Synced c = mc_synced c"

definition cache_Get :: "ModelCache \<Rightarrow> string \<Rightarrow> ModelSnapshot \<times> bool" where
  "cache_Get c name =
     (case gomap_get (mc_byName c) name of Some s \<Rightarrow> (s, True) | None \<Rightarrow> (zero_snapshot, False))"

text \<open>Go ranges over a map in any order; the callers sort.\<close>

definition cache_List :: "ModelCache \<Rightarrow> string list" where
  "cache_List c = map fst (mc_byName c)"

definition subs_of :: "ModelCache \<Rightarrow> string \<Rightarrow> (nat \<times> bool) list" where
  "subs_of c name = (case gomap_get (mc_subs c) name of Some l \<Rightarrow> l | None \<Rightarrow> [])"

definition cache_broadcast :: "string \<Rightarrow> ModelCache \<Rightarrow> ModelCache" where
  "cache_broadcast name c =
     (case gomap_get (mc_subs c) name of
        None \<Rightarrow> c
      | Some l \<Rightarrow> c\<lparr>mc_subs := gomap_put name (map (\<lambda>(ch, _). (ch, True)) l) (mc_subs c)\<rparr>)"

text \<open>
  \<open>Set\<close> and \<open>Delete\<close> are two critical sections each: the map is written under \<open>mu\<close>, and the broadcast
  follows under \<open>subMu\<close>. Between the two other goroutines may run.
\<close>

definition cache_store :: "string \<Rightarrow> ModelSnapshot \<Rightarrow> ModelCache \<Rightarrow> ModelCache" where
  "cache_store name snap c = c\<lparr>mc_byName := gomap_put name snap (mc_byName c)\<rparr>"

definition cache_remove :: "string \<Rightarrow> ModelCache \<Rightarrow> ModelCache" where
  "cache_remove name c = c\<lparr>mc_byName := gomap_del name (mc_byName c)\<rparr>"

definition cache_Set :: "string \<Rightarrow> ModelSnapshot \<Rightarrow> ModelCache \<Rightarrow> ModelCache" where
  "cache_Set name snap c = cache_broadcast name (cache_store name snap c)"

definition cache_Delete :: "string \<Rightarrow> ModelCache \<Rightarrow> ModelCache" where
  "cache_Delete name c = cache_broadcast name (cache_remove name c)"

definition cache_Subscribe :: "string \<Rightarrow> ModelCache \<Rightarrow> nat \<times> ModelCache" where
  "cache_Subscribe name c =
     (mc_nextSub c,
      c\<lparr>mc_subs := gomap_put name (subs_of c name @ [(mc_nextSub c, False)]) (mc_subs c),
        mc_nextSub := Suc (mc_nextSub c)\<rparr>)"

definition cache_Unsubscribe :: "string \<Rightarrow> nat \<Rightarrow> ModelCache \<Rightarrow> ModelCache" where
  "cache_Unsubscribe name ch c =
     (let l = filter (\<lambda>e. fst e \<noteq> ch) (subs_of c name)
      in c\<lparr>mc_subs := (if l = [] then gomap_del name (mc_subs c) else gomap_put name l (mc_subs c))\<rparr>)"

text \<open>A subscriber's receive: whether a notification was pending, and the channel emptied.\<close>

definition cache_Receive :: "string \<Rightarrow> nat \<Rightarrow> ModelCache \<Rightarrow> bool \<times> ModelCache" where
  "cache_Receive name ch c =
     ((ch, True) \<in> set (subs_of c name),
      c\<lparr>mc_subs := (if subs_of c name = [] then mc_subs c else
          gomap_put name (map (\<lambda>e. if fst e = ch then (ch, False) else e) (subs_of c name)) (mc_subs c))\<rparr>)"

section \<open>Informer handlers (cache.go)\<close>

text \<open>
  \<open>unstructured.NestedString\<close> and its kin walk exact keys and give the zero value for a missing key
  and for a value of another type.
\<close>

fun nested :: "json \<Rightarrow> string list \<Rightarrow> json option" where
  "nested j [] = Some j"
| "nested (JObj kvs) (k # ks) =
     (case map_of (rev kvs) k of None \<Rightarrow> None | Some j \<Rightarrow> nested j ks)"
| "nested j (k # ks) = None"

definition NestedString :: "json \<Rightarrow> string list \<Rightarrow> string" where
  "NestedString j ks = (case nested j ks of Some (JStr s) \<Rightarrow> s | _ \<Rightarrow> [])"

definition NestedInt64 :: "json \<Rightarrow> string list \<Rightarrow> int" where
  "NestedInt64 j ks = (case nested j ks of Some (JNum n) \<Rightarrow> n | _ \<Rightarrow> 0)"

definition NestedStringSlice :: "json \<Rightarrow> string list \<Rightarrow> string list option" where
  "NestedStringSlice j ks =
     (case nested j ks of
        Some (JArr js) \<Rightarrow> decode_all (\<lambda>v. case v of JStr s \<Rightarrow> Some s | _ \<Rightarrow> None) js
      | _ \<Rightarrow> None)"

definition NestedSlice :: "json \<Rightarrow> string list \<Rightarrow> json list" where
  "NestedSlice j ks = (case nested j ks of Some (JArr js) \<Rightarrow> js | _ \<Rightarrow> [])"

definition replicaFromStatus :: "json \<Rightarrow> ReplicaEndpoint option" where
  "replicaFromStatus u =
     (case nested u [''status'', ''replica''] of
        Some (JObj kvs) \<Rightarrow>
          let m = JObj kvs;
              host = NestedString m [''host'']; user = NestedString m [''user''];
              sshPort = NestedInt64 m [''sshPort'']; servicePort = NestedInt64 m [''servicePort'']
          in if host = [] \<or> user = [] \<or> sshPort \<le> 0 \<or> servicePort \<le> 0 then None
             else Some \<lparr>re_Host = host, re_SSHPort = sshPort, re_User = user, re_ServicePort = servicePort\<rparr>
      | _ \<Rightarrow> None)"

definition phase_of_string :: "string \<Rightarrow> ModelPhase" where
  "phase_of_string p =
     (if p = ''Asleep'' then Asleep else if p = ''Waking'' then Waking else if p = ''Ready'' then Ready
      else if p = ''Draining'' then Draining else if p = ''Recreating'' then Recreating
      else if p = ''Dead'' then Dead else PhaseOther p)"

definition unschedulable_cond :: "json \<Rightarrow> bool" where
  "unschedulable_cond c \<longleftrightarrow> nested c [''type''] = Some (JStr ''Schedulable'') \<and> nested c [''status''] = Some (JStr ''False'')"

text \<open>\<open>parseDuration\<close> is \<open>time.ParseDuration\<close>; \<open>creationTimestamp\<close> is parsed by the object itself.\<close>

definition snapshot_of :: "(string \<Rightarrow> duration option) \<Rightarrow> gotime \<Rightarrow> json \<Rightarrow> ModelSnapshot" where
  "snapshot_of parseDuration created u =
     (let dur = (\<lambda>s. case parseDuration s of Some d \<Rightarrow> d | None \<Rightarrow> 0)
      in \<lparr>sn_Phase = phase_of_string (NestedString u [''status'', ''phase'']),
          sn_Namespace = NestedString u [''metadata'', ''namespace''],
          sn_Replica = replicaFromStatus u,
          sn_HoldTimeout = dur (NestedString u [''spec'', ''holdTimeout'']),
          sn_IdleTimeout = dur (NestedString u [''spec'', ''idleTimeout'']),
          sn_Created = created,
          sn_Features = NestedStringSlice u [''spec'', ''features''],
          sn_Owner = NestedString u [''spec'', ''owner''],
          sn_ServiceURL = NestedString u [''status'', ''serviceURL''],
          sn_ServedModel = NestedString u [''status'', ''servedModel''],
          sn_ForwardModel = NestedString u [''status'', ''forwardModel''],
          sn_Schedulable = \<not> list_ex unschedulable_cond (NestedSlice u [''status'', ''conditions''])\<rparr>)"

definition object_name :: "json \<Rightarrow> string" where
  "object_name u = NestedString u [''metadata'', ''name'']"

definition informer_upsert :: "(string \<Rightarrow> duration option) \<Rightarrow> gotime \<Rightarrow> json \<Rightarrow> ModelCache \<Rightarrow> ModelCache" where
  "informer_upsert parseDuration created u c =
     cache_Set (object_name u) (snapshot_of parseDuration created u) c"

definition informer_remove :: "json \<Rightarrow> ModelCache \<Rightarrow> ModelCache" where
  "informer_remove u c = cache_Delete (object_name u) c"

section \<open>Discovery (models.go)\<close>

record modelListEntry =
  le_ID :: string
  le_Created :: int
  le_OwnedBy :: string
  le_Features :: "string list"

definition ModelsHandler :: "(gotime \<Rightarrow> int) \<Rightarrow> ModelCache \<Rightarrow> modelListEntry list" where
  "ModelsHandler unix c =
     concat (map (\<lambda>name.
       case cache_Get c name of
         (snap, ok) \<Rightarrow>
           if \<not> ok then []
           else [\<lparr>le_ID = name, le_Created = unix (sn_Created snap), le_OwnedBy = sn_Owner snap,
                  le_Features = (case sn_Features snap of None \<Rightarrow> [] | Some fs \<Rightarrow> fs)\<rparr>])
       (sort (cache_List c)))"

section \<open>Backends (backend.go)\<close>

text \<open>
  \<open>parseURL\<close> is \<open>url.Parse\<close> and \<open>String\<close> together: the URL written back, or a parse error. A
  template is the text before and after its single verb \<open>%s\<close>; \<open>None\<close> is the empty template.
\<close>

definition TemplateBackend_URL ::
  "(string \<Rightarrow> string option) \<Rightarrow> (string \<times> string) option \<Rightarrow> string \<Rightarrow> string option" where
  "TemplateBackend_URL parseURL template model =
     (case template of
        None \<Rightarrow> None
      | Some (before, after) \<Rightarrow> parseURL (before @ model @ after))"

definition StatusBackend_URL :: "(string \<Rightarrow> string option) \<Rightarrow> string \<Rightarrow> ModelCache \<Rightarrow> string \<Rightarrow> string option" where
  "StatusBackend_URL parseURL dstackBaseURL c model =
     (if dstackBaseURL = [] then None
      else case cache_Get c model of
        (snap, ok) \<Rightarrow>
          if \<not> ok \<or> sn_ServiceURL snap = [] then None
          else parseURL (TrimSuffix dstackBaseURL ''/'' @ ''/'' @ Trim_char CHR ''/'' (sn_ServiceURL snap)))"

section \<open>Notification\<close>

text \<open>
  A publisher with numbered subscriptions: \<open>member\<close> says that a channel is subscribed, \<open>pending\<close>
  that a notification waits in it or is on its way. \<open>own\<close> are the operations of the subscriber itself, \<open>touches\<close>
  those that publish. The provider promises that a publication arms every subscribed channel, that
  nothing else arms one, and that only the subscriber's own operations empty or remove it.
\<close>

locale publisher =
  fixes step :: "'op \<Rightarrow> 'c \<Rightarrow> 'c"
    and member :: "'c \<Rightarrow> bool" and pending :: "'c \<Rightarrow> bool"
    and touches :: "'op \<Rightarrow> bool" and own :: "'op \<Rightarrow> bool"
  assumes publish: "member c \<Longrightarrow> touches op \<Longrightarrow> pending (step op c)"
    and keep_member: "member c \<Longrightarrow> \<not> own op \<Longrightarrow> member (step op c)"
    and quiet: "member c \<Longrightarrow> \<not> own op \<Longrightarrow> \<not> touches op \<Longrightarrow> pending (step op c) \<longleftrightarrow> pending c"
    and own_not_touching: "own op \<Longrightarrow> \<not> touches op"
begin

lemma pending_iff_touched:
  assumes "member c" and "\<forall>op\<in>set ops. \<not> own op"
  shows "member (fold step ops c) \<and>
    (pending (fold step ops c) \<longleftrightarrow> pending c \<or> (\<exists>op\<in>set ops. touches op))"
  using assms
proof (induction ops arbitrary: c)
  case (Cons op ops)
  then have mem: "member (step op c)" by (simp add: keep_member)
  with Cons.IH [OF mem] Cons.prems show ?case
    using publish [OF Cons.prems(1), of op] quiet [OF Cons.prems(1), of op]
    by (cases "touches op") auto
qed simp

end

text \<open>
  The atomic steps of any number of goroutines on one cache. The list holds the names whose \<open>Set\<close> or
  \<open>Delete\<close> has written the map and has its broadcast still to do.
\<close>

datatype cache_op = OpStore string ModelSnapshot | OpRemove string | OpBroadcast string | OpSubscribe string
  | OpUnsubscribe string nat | OpReceive string nat

fun cache_step :: "cache_op \<Rightarrow> ModelCache \<times> string list \<Rightarrow> ModelCache \<times> string list" where
  "cache_step (OpStore n snap) (c, due) = (cache_store n snap c, n # due)"
| "cache_step (OpRemove n) (c, due) = (cache_remove n c, n # due)"
| "cache_step (OpBroadcast n) (c, due) = (if n \<in> set due then (cache_broadcast n c, remove1 n due) else (c, due))"
| "cache_step (OpSubscribe n) (c, due) = (snd (cache_Subscribe n c), due)"
| "cache_step (OpUnsubscribe n ch) (c, due) = (cache_Unsubscribe n ch c, due)"
| "cache_step (OpReceive n ch) (c, due) = (snd (cache_Receive n ch c), due)"

fun op_writes :: "string \<Rightarrow> cache_op \<Rightarrow> bool" where
  "op_writes n (OpStore n' _) \<longleftrightarrow> n' = n"
| "op_writes n (OpRemove n') \<longleftrightarrow> n' = n"
| "op_writes n _ \<longleftrightarrow> False"

fun op_of_channel :: "nat \<Rightarrow> cache_op \<Rightarrow> bool" where
  "op_of_channel ch (OpUnsubscribe _ ch') \<longleftrightarrow> ch' = ch"
| "op_of_channel ch (OpReceive _ ch') \<longleftrightarrow> ch' = ch"
| "op_of_channel ch _ \<longleftrightarrow> False"

text \<open>Channel \<open>ch\<close> is subscribed to \<open>n\<close>, and channel numbers are not reused.\<close>

definition fresh_numbers :: "string \<Rightarrow> ModelCache \<Rightarrow> bool" where
  "fresh_numbers n c \<longleftrightarrow> distinct (map fst (subs_of c n)) \<and> (\<forall>k\<in>set (map fst (subs_of c n)). k < mc_nextSub c)"

definition channel_member :: "string \<Rightarrow> nat \<Rightarrow> ModelCache \<times> string list \<Rightarrow> bool" where
  "channel_member n ch w \<longleftrightarrow> ch \<in> set (map fst (subs_of (fst w) n)) \<and> fresh_numbers n (fst w)"

text \<open>A notification waits in the channel, or a write of the Model has its broadcast still to do.\<close>

definition channel_owed :: "string \<Rightarrow> nat \<Rightarrow> ModelCache \<times> string list \<Rightarrow> bool" where
  "channel_owed n ch w \<longleftrightarrow> (ch, True) \<in> set (subs_of (fst w) n) \<or> n \<in> set (snd w)"

lemma subs_of_write [simp]: "subs_of (cache_store n' s c) n = subs_of c n" "subs_of (cache_remove n' c) n = subs_of c n"
  by (simp_all add: cache_store_def cache_remove_def subs_of_def)

lemma subs_of_step:
  "subs_of (cache_broadcast n' c) n = (if n' = n then map (\<lambda>(ch, _). (ch, True)) (subs_of c n) else subs_of c n)"
  "subs_of (snd (cache_Subscribe n' c)) n = (if n' = n then subs_of c n @ [(mc_nextSub c, False)] else subs_of c n)"
  "subs_of (cache_Unsubscribe n' ch c) n = (if n' = n then filter (\<lambda>e. fst e \<noteq> ch) (subs_of c n) else subs_of c n)"
  "subs_of (snd (cache_Receive n' ch c)) n =
     (if n' = n then map (\<lambda>e. if fst e = ch then (ch, False) else e) (subs_of c n) else subs_of c n)"
  by (auto simp: cache_broadcast_def cache_Subscribe_def cache_Unsubscribe_def cache_Receive_def Let_def)
    (auto simp: subs_of_def split: option.splits)

lemma nextSub_step [simp]:
  "mc_nextSub (cache_store n s c) = mc_nextSub c" "mc_nextSub (cache_remove n c) = mc_nextSub c"
  "mc_nextSub (cache_broadcast n c) = mc_nextSub c" "mc_nextSub (snd (cache_Subscribe n c)) = Suc (mc_nextSub c)"
  "mc_nextSub (cache_Unsubscribe n ch c) = mc_nextSub c" "mc_nextSub (snd (cache_Receive n ch c)) = mc_nextSub c"
  by (simp_all add: cache_store_def cache_remove_def cache_broadcast_def cache_Subscribe_def
      cache_Unsubscribe_def cache_Receive_def Let_def split: option.split)

lemma cache_Get_step [simp]:
  "cache_Get (cache_store n' s c) n = (if n' = n then (s, True) else cache_Get c n)"
  "cache_Get (cache_remove n' c) n = (if n' = n then (zero_snapshot, False) else cache_Get c n)"
  "cache_Get (cache_broadcast n' c) n = cache_Get c n" "cache_Get (snd (cache_Subscribe n' c)) n = cache_Get c n"
  "cache_Get (cache_Unsubscribe n' ch c) n = cache_Get c n" "cache_Get (snd (cache_Receive n' ch c)) n = cache_Get c n"
  by (auto simp: cache_Get_def cache_store_def cache_remove_def cache_broadcast_def cache_Subscribe_def
      cache_Unsubscribe_def cache_Receive_def Let_def split: option.split)

lemma map_fst_armed: "map fst (map (\<lambda>(ch, _). (ch, True)) l) = map fst l"
  by (induction l) auto

lemma map_fst_emptied: "map fst (map (\<lambda>e. if fst e = ch then (ch, False) else e) l) = map fst l"
  by (induction l) auto

lemma map_fst_cancelled: "map fst (filter (\<lambda>e. fst e \<noteq> ch) l) = filter (\<lambda>k. k \<noteq> ch) (map fst l)"
  by (simp add: filter_map comp_def)

lemmas channel_numbers = subs_of_step map_fst_armed map_fst_emptied map_fst_cancelled

lemma fresh_numbers_step: "fresh_numbers n (fst w) \<Longrightarrow> fresh_numbers n (fst (cache_step op w))"
  by (cases w; cases op) (auto simp: fresh_numbers_def channel_numbers less_Suc_eq simp del: map_map set_map)

lemma fresh_numbers_new: "fresh_numbers n NewCache"
  by (simp add: fresh_numbers_def NewCache_def subs_of_def)

lemma fresh_numbers_steps: "fresh_numbers n (fst (fold cache_step ops (NewCache, [])))"
  by (induction ops rule: rev_induct) (auto intro: fresh_numbers_step fresh_numbers_new)

lemma channel_member_step:
  assumes "channel_member n ch w" and "\<not> op_of_channel ch op"
  shows "channel_member n ch (cache_step op w)"
  using assms fresh_numbers_step [of n w op]
  by (cases w; cases op) (auto simp: channel_member_def channel_numbers simp del: map_map set_map)

interpretation cache_channel: publisher cache_step "channel_member n ch" "channel_owed n ch"
  "op_writes n" "op_of_channel ch" for n ch
proof
  fix w op
  assume mem: "channel_member n ch w"
  obtain c due where w: "w = (c, due)"
    by fastforce
  show "channel_owed n ch (cache_step op w)" if "op_writes n op"
    using that by (cases op) (auto simp: w channel_owed_def)
  show "channel_member n ch (cache_step op w)" if "\<not> op_of_channel ch op"
    using mem that by (rule channel_member_step)
  show "channel_owed n ch (cache_step op w) = channel_owed n ch w" if "\<not> op_of_channel ch op" "\<not> op_writes n op"
  proof (cases op)
    case (OpBroadcast n')
    with mem show ?thesis
      by (cases "n' = n") (force simp: w channel_owed_def channel_member_def subs_of_step in_set_remove1)+
  qed (use mem that in \<open>auto simp: w channel_owed_def channel_member_def fresh_numbers_def subs_of_step split: if_splits\<close>)
qed (auto elim: op_of_channel.elims)

section \<open>Properties\<close>

lemma cache_Get_kept: "\<forall>op\<in>set ops. \<not> op_writes n op \<Longrightarrow> cache_Get (fst (fold cache_step ops w)) n = cache_Get (fst w) n"
proof (induction ops arbitrary: w)
  case (Cons op ops)
  have "cache_Get (fst (cache_step op w)) n = cache_Get (fst w) n"
    using Cons.prems by (cases w; cases op) auto
  with Cons show ?case
    by simp
qed simp

text \<open>
  C29. No change of a Model is lost on a subscriber, in every interleaving of goroutines that write the
  cache, broadcast, subscribe, cancel and receive, where a write and its broadcast are two steps. As long
  as the owner of a subscribed channel has neither received nor cancelled, a notification waits in it
  or is about to be broadcast exactly when the Model was written since the subscription or a
  broadcast for an earlier write was outstanding then; so a subscriber that has nothing waiting or on
  its way would still read the very snapshot it could read when it subscribed. Bursts coalesce into one
  notification.
\<close>

theorem cache_no_lost_wakeup:
  assumes "fold cache_step before (NewCache, []) = (c, due)" and "cache_Subscribe n c = (ch, c1)"
    and "\<forall>op\<in>set after. \<not> op_of_channel ch op" and "fold cache_step after (c1, due) = (c', due')"
  shows "(fst (cache_Receive n ch c') \<or> n \<in> set due' \<longleftrightarrow> (\<exists>op\<in>set after. op_writes n op) \<or> n \<in> set due) \<and>
    (\<not> fst (cache_Receive n ch c') \<and> n \<notin> set due' \<longrightarrow> cache_Get c' n = cache_Get c1 n)"
proof -
  have c1: "c1 = snd (cache_Subscribe n c)" "ch = mc_nextSub c"
    using assms(2) by (auto simp: cache_Subscribe_def)
  have fresh: "fresh_numbers n c"
    using fresh_numbers_steps [of n before] assms(1) by simp
  then have "channel_member n ch (c1, due)" and start: "channel_owed n ch (c1, due) \<longleftrightarrow> n \<in> set due"
    by (auto simp: c1 channel_member_def channel_owed_def fresh_numbers_def subs_of_step less_Suc_eq)
  from cache_channel.pending_iff_touched [OF this(1) assms(3)] start
  have "channel_owed n ch (c', due') \<longleftrightarrow> n \<in> set due \<or> (\<exists>op\<in>set after. op_writes n op)"
    by (simp add: assms(4))
  with cache_Get_kept [of after n "(c1, due)"] show ?thesis
    by (auto simp: assms(4) channel_owed_def cache_Receive_def)
qed

text \<open>
  A reader that subscribes between a write and its broadcast: the notification it gets is for the
  earlier write, of the snapshot it already sees.
\<close>

theorem cache_no_lost_wakeup_witness:
  "fst (cache_Receive ''q'' 0 (fst (fold cache_step [OpBroadcast ''q'']
     (snd (cache_Subscribe ''q'' (cache_store ''q'' zero_snapshot NewCache)), [''q'']))))"
proof -
  let ?c = "cache_store ''q'' zero_snapshot NewCache"
  let ?w = "fold cache_step [OpBroadcast ''q''] (snd (cache_Subscribe ''q'' ?c), [''q''])"
  have sub: "cache_Subscribe ''q'' ?c = (0, snd (cache_Subscribe ''q'' ?c))"
    by (simp add: cache_Subscribe_def) (simp add: NewCache_def)
  have "snd ?w = []"
    by simp
  with cache_no_lost_wakeup [OF _ sub, of "[OpStore ''q'' zero_snapshot]" "[''q'']" "[OpBroadcast ''q'']" "fst ?w" "snd ?w"]
  show ?thesis
    by simp
qed

text \<open>
  The window before the subscription is not covered. The hold reads the snapshot and subscribes
  afterwards, so an update that lands between the two leaves the channel empty although the Model
  is ready already: a hold without a periodic tick sleeps until its deadline, and one with a tick
  until the next tick.
\<close>

theorem await_subscribe_gap:
  assumes "cache_Subscribe n (cache_Set n snap c) = (ch, c1)" and "c = fst (fold cache_step before (NewCache, []))"
    and "sn_Phase snap = Ready"
  shows "\<not> pa_Block (proxy_Decide (sn_Phase (fst (cache_Get c1 n))) (snd (cache_Get c1 n)) 0) \<and>
    \<not> fst (cache_Receive n ch c1)"
proof -
  have c1: "c1 = snd (cache_Subscribe n (cache_Set n snap c))" "ch = mc_nextSub (cache_Set n snap c)"
    using assms(1) by (auto simp: cache_Subscribe_def)
  have "\<not> fst (cache_Receive n ch c1)"
    using fresh_numbers_steps [of n before]
    by (auto simp: assms(2) c1 cache_Receive_def subs_of_step fresh_numbers_def cache_Set_def)
  then show ?thesis
    by (simp add: c1(1) cache_Set_def assms(3) proxy_Decide_def)
qed

theorem await_subscribe_gap_witness:
  "\<not> fst (cache_Receive ''q'' 0 (snd (cache_Subscribe ''q''
      (cache_Set ''q'' (zero_snapshot\<lparr>sn_Phase := Ready\<rparr>) NewCache))))"
proof -
  let ?s = "zero_snapshot\<lparr>sn_Phase := Ready\<rparr>"
  have "cache_Subscribe ''q'' (cache_Set ''q'' ?s NewCache) = (0, snd (cache_Subscribe ''q'' (cache_Set ''q'' ?s NewCache)))"
    by (simp add: cache_Subscribe_def cache_Set_def) (simp add: NewCache_def)
  from await_subscribe_gap [OF this, of "[]"] show ?thesis by simp
qed

text \<open>
  The cache does not tell namespaces apart. It is keyed by the bare Model name, so with a
  cluster-wide informer the Model seen last under a name replaces the other namespace's Model, and
  deleting either makes the proxy answer 404 for both.
\<close>

theorem cache_namespace_collision:
  assumes "object_name u = object_name v"
  shows "cache_Get (informer_upsert pd t v (informer_upsert pd t' u c)) (object_name u) = (snapshot_of pd t v, True) \<and>
    cache_Get (informer_remove v (informer_upsert pd t' u c)) (object_name u) = (zero_snapshot, False)"
  using assms
  by (simp add: informer_upsert_def informer_remove_def cache_Set_def cache_Delete_def)

definition sample_object :: "string \<Rightarrow> json" where
  "sample_object ns = JObj [(''metadata'', JObj [(''name'', JStr ''qwen''), (''namespace'', JStr ns)])]"

theorem cache_namespace_collision_witness:
  "cache_Get (informer_remove (sample_object ''b'') (informer_upsert (\<lambda>d. None) 0 (sample_object ''a'') NewCache)) ''qwen''
     = (zero_snapshot, False)"
  using cache_namespace_collision [of "sample_object ''a''" "sample_object ''b''" "\<lambda>d. None" 0 0 NewCache]
  by (simp add: sample_object_def object_name_def NestedString_def)

end
