(* ===== verification/Proxy_Demand.thy ===== *)
theory Proxy_Demand
  imports Proxy_Cache Squall_Reconcile
begin

text \<open>
  Demand signalling: the coalescer (\<open>internal/proxy/demand.go\<close>) and the annotation patch it issues
  (\<open>patcher.go\<close>), up to the controller's reading of the annotation (\<open>hasDemand\<close>). The Kubernetes
  PATCH and the two directions of the RFC 3339 text form are parameters.
\<close>

section \<open>The coalescer (demand.go)\<close>

record demandState =
  dm_lastSuccess :: gotime
  dm_everPatched :: bool

record DemandCoalescer =
  dc_cooldown :: duration
  dc_state :: "demandState gomap"

definition NewDemandCoalescer :: "duration \<Rightarrow> DemandCoalescer" where
  "NewDemandCoalescer cooldown = \<lparr>dc_cooldown = cooldown, dc_state = []\<rparr>"

definition stateFor :: "DemandCoalescer \<Rightarrow> string \<Rightarrow> demandState" where
  "stateFor c model =
     (case gomap_get (dc_state c) model of
        Some st \<Rightarrow> st | None \<Rightarrow> \<lparr>dm_lastSuccess = 0, dm_everPatched = False\<rparr>)"

text \<open>
  \<open>patch model at\<close> is \<open>Patcher.PatchDemand\<close>: whether it succeeded, and the next external state. The
  per-model lock is held from the cooldown check to the update, so that concurrent signals are a
  sequence of these steps. (A nil coalescer or patcher, which no binary builds, signals nothing.)
\<close>

definition Signal ::
  "(string \<Rightarrow> gotime \<Rightarrow> 's \<Rightarrow> bool \<times> 's) \<Rightarrow> gotime \<Rightarrow> string \<Rightarrow> DemandCoalescer \<times> 's \<Rightarrow> DemandCoalescer \<times> 's" where
  "Signal patch now model cs =
     (case cs of
        (c, s) \<Rightarrow>
          let st = stateFor c model;
              c1 = c\<lparr>dc_state := gomap_put model st (dc_state c)\<rparr>
          in if dm_everPatched st \<and> time_sub now (dm_lastSuccess st) < dc_cooldown c then (c1, s)
             else case patch model now s of
                    (False, s1) \<Rightarrow> (c1, s1)
                  | (True, s1) \<Rightarrow>
                      (c\<lparr>dc_state := gomap_put model \<lparr>dm_lastSuccess = now, dm_everPatched = True\<rparr> (dc_state c)\<rparr>, s1))"

section \<open>The patch (patcher.go)\<close>

text \<open>\<open>k8s_patch ns name value\<close> merge-patches the demand annotation of one Model.\<close>

definition PatchDemand ::
  "(string \<Rightarrow> string \<Rightarrow> string \<Rightarrow> 's \<Rightarrow> bool \<times> 's) \<Rightarrow> (gotime \<Rightarrow> string) \<Rightarrow> string \<Rightarrow> ModelCache option \<Rightarrow>
   string \<Rightarrow> gotime \<Rightarrow> 's \<Rightarrow> bool \<times> 's" where
  "PatchDemand k8s_patch fmt namespace cache model at s =
     (if namespace \<noteq> [] then k8s_patch namespace model (fmt at) s
      else
        let (snap, ok) = (case cache of Some c \<Rightarrow> cache_Get c model | None \<Rightarrow> (zero_snapshot, False))
        in if \<not> ok \<or> sn_Namespace snap = [] then (False, s)
           else k8s_patch (sn_Namespace snap) model (fmt at) s)"

section \<open>Sequences of signals\<close>

text \<open>The instants at which patches were issued and whether they succeeded, as external state.\<close>

definition log_patch :: "(gotime \<Rightarrow> bool) \<Rightarrow> string \<Rightarrow> gotime \<Rightarrow> (gotime \<times> bool) list \<Rightarrow> bool \<times> (gotime \<times> bool) list" where
  "log_patch works model at l = (works at, l @ [(at, works at)])"

definition successes :: "(gotime \<times> bool) list \<Rightarrow> gotime list" where
  "successes l = map fst (filter snd l)"

lemma stateFor_simps [simp]:
  "stateFor (c\<lparr>dc_state := gomap_put m st (dc_state c)\<rparr>) m' = (if m' = m then st else stateFor c m')"
  by (simp add: stateFor_def)

lemma Signal_cooldown [simp]: "dc_cooldown (fst (Signal p now m cs)) = dc_cooldown (fst cs)"
  by (auto simp: Signal_def Let_def split: prod.splits bool.splits)

text \<open>What the coalescer knows of a model is the last success in the log.\<close>

definition demand_inv :: "string \<Rightarrow> DemandCoalescer \<times> (gotime \<times> bool) list \<Rightarrow> bool" where
  "demand_inv m cs \<longleftrightarrow>
     (dm_everPatched (stateFor (fst cs) m) \<longleftrightarrow> successes (snd cs) \<noteq> []) \<and>
     (successes (snd cs) \<noteq> [] \<longrightarrow> dm_lastSuccess (stateFor (fst cs) m) = last (successes (snd cs)))"

lemma demand_inv_Signal:
  assumes "demand_inv m (c, l)"
  shows "demand_inv m (Signal (log_patch works) now m (c, l))"
  using assms
  by (auto simp: demand_inv_def Signal_def log_patch_def successes_def Let_def split: bool.splits)

text \<open>Successive elements are at least \<open>d\<close> apart.\<close>

fun spaced :: "duration \<Rightarrow> gotime list \<Rightarrow> bool" where
  "spaced d (a # b # ts) \<longleftrightarrow> d \<le> time_sub b a \<and> spaced d (b # ts)"
| "spaced d ts \<longleftrightarrow> True"

lemma spaced_snoc: "spaced d (ts @ [t]) \<longleftrightarrow> spaced d ts \<and> (ts = [] \<or> d \<le> time_sub t (last ts))"
  by (induction d ts rule: spaced.induct) auto

lemma signals_spaced:
  assumes "demand_inv m (c, l)" and "spaced (dc_cooldown c) (successes l)"
  shows "spaced (dc_cooldown c) (successes (snd (fold (\<lambda>now. Signal (log_patch works) now m) ts (c, l))))"
  using assms
proof (induction ts arbitrary: c l)
  case (Cons t ts)
  obtain c' l' where sg: "Signal (log_patch works) t m (c, l) = (c', l')" by fastforce
  have cd: "dc_cooldown c' = dc_cooldown c" using sg Signal_cooldown [of "log_patch works" t m "(c, l)"] by simp
  have "spaced (dc_cooldown c) (successes l')"
    using sg Cons.prems
    by (auto simp: Signal_def log_patch_def successes_def demand_inv_def spaced_snoc Let_def
        split: if_splits bool.splits)
  moreover have "demand_inv m (c', l')" using demand_inv_Signal [OF Cons.prems(1), of works t] sg by simp
  ultimately show ?case using Cons.IH [of c' l'] sg cd by simp
qed simp

section \<open>Properties\<close>

text \<open>
  Demand is coalesced, and only success coalesces. However many requests signal a Model, in
  whatever order, two successful patches are at least the cooldown apart; a signal issues a patch
  exactly when none succeeded before or the last success is at least the cooldown ago, so that a
  failed patch never silences the next signal.
\<close>

theorem demand_coalesced:
  assumes "fold (\<lambda>now. Signal (log_patch works) now m) ts (NewDemandCoalescer cooldown, []) = (c, l)"
  shows "spaced cooldown (successes l) \<and>
    (snd (Signal (log_patch works) now m (c, l)) = l @ [(now, works now)] \<longleftrightarrow>
       successes l = [] \<or> cooldown \<le> time_sub now (last (successes l)))"
proof -
  let ?c0 = "NewDemandCoalescer cooldown"
  have inv0: "demand_inv m (?c0, [])"
    by (simp add: demand_inv_def NewDemandCoalescer_def stateFor_def successes_def)
  have sp: "spaced cooldown (successes l)"
    using signals_spaced [OF inv0, where works = works and ts = ts] assms
    by (simp add: NewDemandCoalescer_def successes_def)
  have "demand_inv m (fold (\<lambda>now. Signal (log_patch works) now m) ts cs) \<and>
      dc_cooldown (fst (fold (\<lambda>now. Signal (log_patch works) now m) ts cs)) = dc_cooldown (fst cs)"
    if "demand_inv m cs" for cs
    using that
  proof (induction ts arbitrary: cs)
    case (Cons t ts)
    then show ?case using demand_inv_Signal [of m "fst cs" "snd cs" works t] by simp
  qed simp
  from this [OF inv0] assms have "demand_inv m (c, l)" "dc_cooldown c = cooldown"
    by (simp_all add: NewDemandCoalescer_def)
  then have "snd (Signal (log_patch works) now m (c, l)) = l @ [(now, works now)] \<longleftrightarrow>
       successes l = [] \<or> cooldown \<le> time_sub now (last (successes l))"
    by (auto simp: demand_inv_def Signal_def log_patch_def Let_def split: bool.splits)
  with sp show ?thesis by blast
qed

theorem demand_coalesced_witness:
  "spaced (5 * Second) (successes (snd (fold (\<lambda>now. Signal (log_patch (\<lambda>t. True)) now ''q'') [Second, 2 * Second, 8 * Second]
      (NewDemandCoalescer (5 * Second), []))))"
  using demand_coalesced [of "\<lambda>t. True" "''q''" "[Second, 2 * Second, 8 * Second]" "5 * Second"
      "fst (fold (\<lambda>now. Signal (log_patch (\<lambda>t. True)) now ''q'') [Second, 2 * Second, 8 * Second] (NewDemandCoalescer (5 * Second), []))"
      "snd (fold (\<lambda>now. Signal (log_patch (\<lambda>t. True)) now ''q'') [Second, 2 * Second, 8 * Second] (NewDemandCoalescer (5 * Second), []))"]
  by (simp only: prod.collapse)

text \<open>The annotations of one Model as the external state, and a patch that reaches the API server.\<close>

definition annotate :: "string \<Rightarrow> string \<Rightarrow> string \<Rightarrow> string gomap \<Rightarrow> bool \<times> string gomap" where
  "annotate ns name v anns = (True, gomap_put DemandAnnotation v anns)"

lemma refreshIntervalFor_bound:
  assumes "MinIdleTimeout \<le> idle"
  shows "refreshIntervalFor idle ceiling \<le> idle div 10"
  using assms by (auto simp: refreshIntervalFor_def MinIdleTimeout_def go_div_nonneg Let_def)

definition synced :: "(gotime \<Rightarrow> string) \<Rightarrow> string \<Rightarrow> DemandCoalescer \<times> string gomap \<Rightarrow> bool" where
  "synced fmt m cs \<longleftrightarrow>
     (dm_everPatched (stateFor (fst cs) m) \<longrightarrow>
        gomap_get (snd cs) DemandAnnotation = Some (fmt (dm_lastSuccess (stateFor (fst cs) m))))"

lemma synced_Signal:
  assumes "synced fmt m cs" and "namespace \<noteq> []"
  shows "synced fmt m (Signal (PatchDemand annotate fmt namespace cache) now m cs)"
  using assms by (cases cs) (auto simp: synced_def Signal_def PatchDemand_def annotate_def Let_def)

lemma Signal_fresh:
  assumes "namespace \<noteq> []" and "Signal (PatchDemand annotate fmt namespace cache) now m cs = (c, anns)"
  shows "dm_everPatched (stateFor c m) \<and>
    (dm_lastSuccess (stateFor c m) = now \<or> time_sub now (dm_lastSuccess (stateFor c m)) < dc_cooldown (fst cs))"
  using assms by (cases cs) (auto simp: Signal_def PatchDemand_def annotate_def Let_def split: if_splits)

lemma held_demand_read:
  assumes "\<And>t. rfc3339 (fmt t) = Some (Second * (t div Second))" and "namespace \<noteq> []"
    and "MinIdleTimeout \<le> sp_IdleTimeout (md_Spec model)" and "sp_IdleTimeout (md_Spec model) \<le> maxDuration"
    and "0 \<le> cooldown" and "cooldown \<le> 53 * Second"
    and "fold (\<lambda>t. Signal (PatchDemand annotate fmt namespace cache) t name) (ticks @ [t])
           (NewDemandCoalescer cooldown, md_Annotations model) = (c, anns)"
    and "t \<le> now" and "now \<le> t + refreshIntervalFor (sp_IdleTimeout (md_Spec model)) ceiling"
  shows "hasDemand rfc3339 (model\<lparr>md_Annotations := anns\<rparr>) now"
proof -
  let ?P = "PatchDemand annotate fmt namespace cache"
  let ?idle = "sp_IdleTimeout (md_Spec model)"
  let ?cs = "fold (\<lambda>t. Signal ?P t name) ticks (NewDemandCoalescer cooldown, md_Annotations model)"
  have sync: "synced fmt name (fold (\<lambda>t. Signal ?P t name) ts cs)" if "synced fmt name cs" for ts cs
    using that assms(2) by (induction ts arbitrary: cs) (simp_all add: synced_Signal)
  have cd: "dc_cooldown (fst (fold (\<lambda>t. Signal ?P t name) ts cs)) = dc_cooldown (fst cs)" for ts cs
    by (induction ts arbitrary: cs) simp_all
  have last: "Signal ?P t name ?cs = (c, anns)" using assms(7) by simp
  define p where "p = dm_lastSuccess (stateFor c name)"
  from Signal_fresh [OF assms(2) last] cd [of ticks "(NewDemandCoalescer cooldown, md_Annotations model)"]
  have ever: "dm_everPatched (stateFor c name)" and near: "p = t \<or> time_sub t p < cooldown"
    by (auto simp: p_def NewDemandCoalescer_def)
  have "synced fmt name (NewDemandCoalescer cooldown, md_Annotations model)"
    by (simp add: synced_def NewDemandCoalescer_def stateFor_def)
  from sync [OF this, of "ticks @ [t]"] ever assms(7)
  have ann: "gomap_get anns DemandAnnotation = Some (fmt p)" by (simp add: synced_def p_def)
  have "t - p \<le> cooldown"
    using near assms(5,6) by (auto simp: time_sub_lt_iff minDuration_def maxDuration_def)
  moreover have "p < Second * (p div Second) + Second" by (simp add: mult_div_mod_eq [symmetric])
  moreover have "refreshIntervalFor ?idle ceiling \<le> ?idle div 10" using assms(3) by (rule refreshIntervalFor_bound)
  ultimately have "now - Second * (p div Second) < ?idle"
    using assms(3,6,8,9) unfolding MinIdleTimeout_def by linarith
  then have "time_sub now (Second * (p div Second)) < ?idle"
    using assms(3,4) by (subst time_sub_lt_iff) (auto simp: MinIdleTimeout_def minDuration_def)
  with ann assms(1) show ?thesis by (simp add: hasDemand_def)
qed

text \<open>
  Demand cannot expire under a held request. A hold signals at once and then again at least
  every refresh interval of its Model. If the patches reach the API server, and the annotation's
  text form keeps whole seconds, then for every idle timeout that validation accepts and every
  cooldown of up to 53 seconds (the default is 5), the controller reads demand at every moment
  from one signal to the latest instant of the next, whatever the other requests of the proxy
  signalled before: a wake is not abandoned while its caller waits.
\<close>

theorem held_request_keeps_demand:
  assumes "\<And>t. rfc3339 (fmt t) = Some (Second * (t div Second))" and "namespace \<noteq> []"
    and "MinIdleTimeout \<le> sp_IdleTimeout (md_Spec model)" and "sp_IdleTimeout (md_Spec model) \<le> maxDuration"
    and "0 \<le> cooldown" and "cooldown \<le> 53 * Second"
    and "fold (\<lambda>t. Signal (PatchDemand annotate fmt namespace cache) t name) (ticks @ [t])
           (NewDemandCoalescer cooldown, md_Annotations model) = (c, anns)"
    and "t \<le> now" and "now \<le> t + refreshIntervalFor (sp_IdleTimeout (md_Spec model)) ceiling"
  shows "hasDemand rfc3339 (model\<lparr>md_Annotations := anns\<rparr>) now"
  using assms by (rule held_demand_read)

text \<open>A text form of instants in unary, by whole seconds, and its reading.\<close>

definition unary_format :: "gotime \<Rightarrow> string" where
  "unary_format t =
     (if t < 0 then CHR ''-'' # replicate (nat (- (t div Second))) CHR ''x''
      else replicate (nat (t div Second)) CHR ''x'')"

definition unary_parse :: "string \<Rightarrow> gotime option" where
  "unary_parse v =
     (case v of c # cs \<Rightarrow> if c = CHR ''-'' then Some (- Second * int (length cs)) else Some (Second * int (length v))
      | [] \<Rightarrow> Some 0)"

lemma unary_roundtrip: "unary_parse (unary_format t) = Some (Second * (t div Second))"
proof (cases "t < 0")
  case True
  then have "t div Second < 0" by (simp add: neg_imp_zdiv_neg_iff)
  with True show ?thesis by (simp add: unary_parse_def unary_format_def)
next
  case False
  then have "0 \<le> t div Second" by (simp add: pos_imp_zdiv_nonneg_iff)
  with False show ?thesis
    by (cases "nat (t div Second)") (auto simp: unary_parse_def unary_format_def)
qed

theorem held_request_keeps_demand_witness:
  "hasDemand unary_parse (sample_model\<lparr>md_Annotations := snd (Signal (PatchDemand annotate unary_format ''a'' None)
        (10 * Second) ''qwen'' (NewDemandCoalescer (5 * Second), md_Annotations sample_model))\<rparr>) (15 * Second)"
proof -
  let ?r = "Signal (PatchDemand annotate unary_format ''a'' None) (10 * Second) ''qwen''
      (NewDemandCoalescer (5 * Second), md_Annotations sample_model)"
  have idle: "sp_IdleTimeout (md_Spec sample_model) = 5 * Minute"
    by (simp add: sample_model_def sample_spec_def)
  have "refreshIntervalFor (5 * Minute) (30 * Second) = 30 * Second"
    by (simp add: refreshIntervalFor_def go_div_def)
  with held_request_keeps_demand [of unary_parse unary_format "''a''" sample_model "5 * Second" None "''qwen''"
      "[]" "10 * Second" "fst ?r" "snd ?r" "15 * Second" "30 * Second"]
  show ?thesis by (simp add: unary_roundtrip idle MinIdleTimeout_def maxDuration_def)
qed

text \<open>
  Beyond that bound it can. The proxy takes any cooldown from its environment: with one of two minutes and
  the shortest idle timeout a Model may have, a request that is held and signals at its refresh interval
  of six seconds is without demand at its twelfth signal, and the controller may put the replica it waits
  for back to sleep.
\<close>

definition signalled :: "duration \<Rightarrow> gotime list \<Rightarrow> string gomap" where
  "signalled cooldown ts =
     snd (fold (\<lambda>t. Signal (PatchDemand annotate unary_format ''a'' None) t ''qwen'') ts
       (NewDemandCoalescer cooldown, md_Annotations sample_model))"

theorem long_cooldown_loses_demand:
  "refreshIntervalFor MinIdleTimeout (30 * Second) = 6 * Second \<and>
   \<not> hasDemand unary_parse
       (sample_model\<lparr>md_Spec := sample_spec\<lparr>sp_IdleTimeout := MinIdleTimeout\<rparr>,
          md_Annotations := signalled (2 * Minute) (map (\<lambda>k. (1 + 6 * int k) * Second) [0..<12])\<rparr>)
       (67 * Second)"
  by code_simp

end
