(* ===== verification/Squall_Wake.thy ===== *)
theory Squall_Wake
  imports Squall_Passes Proxy_Demand
begin

text \<open>
  The wake path across the two binaries: a request held by the proxy keeps the demand annotation
  fresh (\<open>demand.go\<close>, \<open>patcher.go\<close>), and a reconcile pass that reads it asks dstack for a replica
  (\<open>model_controller.go\<close>, \<open>phase.go\<close>).
\<close>

section \<open>Frame lemmas\<close>

lemma namespace_frames [simp]:
  "md_Namespace (reportProvisioningCondition M m f ph t) = md_Namespace m"
  "md_Namespace (reconcileRunOwnership M m r n) = md_Namespace m"
  "md_Namespace (snd (updateActivityStatus m ob d now)) = md_Namespace m"
  "md_Namespace (recordObservedRun ob m) = md_Namespace m"
  by (auto simp: reportProvisioningCondition_def set_cond_def remove_cond_def reconcileRunOwnership_def updateActivityStatus_def
      recordObservedRun_def Let_def split: option.split runOwnership.split)

lemma statusForDecide_namespace [simp]: "md_Namespace (statusForDecide E m n ob d now) = md_Namespace m"
  by (simp add: statusForDecide_def Let_def)

text \<open>Without a run and without a failure the conditions are those of the Model.\<close>

lemma statusForDecide_no_run:
  "st_Conditions (md_Status (statusForDecide E m n no_observation d now)) = st_Conditions (md_Status m)"
  by (simp add: statusForDecide_def no_observation_def recordObservedRun_def updateActivityStatus_def
      reconcileRunOwnership_def classifyRunOwnership_def Let_def)

lemma checkSchedulable_ok:
  assumes "price_ok E (md_Spec m)" and "Validate (md_Spec m) = None"
    and "preflight (rc_preflight E) (pc_Backends (enginePlacement (sp_Placement (md_Spec m)))) s = ((reason, msg, fleets), s')"
  shows "\<exists>c. checkSchedulable E m a ph s =
    ((set_cond (rc_meta E) c (if fleets \<noteq> [] then m\<lparr>md_Status := (md_Status m)\<lparr>st_Fleet := fleets\<rparr>\<rparr> else m), a, ph), s')"
proof -
  have price: "(case pl_MaxPricePerHour (sp_Placement (md_Spec m)) of
      None \<Rightarrow> Inr () | Some p \<Rightarrow> Price_Validate (rc_ParseFloat E) p) = Inr ()"
    using assms(1) by (simp add: price_ok_def split: option.splits)
  obtain w where "ValidateWithWarnings (md_Spec m) = Inr w"
    using assms(2) by (auto simp: Validate_def split: sum.splits)
  then show ?thesis
    unfolding checkSchedulable_def Let_def price assms(3)
    by (cases "reason = []") (simp_all only: sum.case prod.case simp_thms if_True if_False, blast+)
qed

lemma checkSchedulable_passes:
  assumes "price_ok E (md_Spec m)" and "Validate (md_Spec m) = None"
  obtains m' s' where "checkSchedulable E m a ph s = ((m', a, ph), s')" and "md_Spec m' = md_Spec m" and "md_Namespace m' = md_Namespace m"
proof -
  obtain reason msg fleets s' where
    "preflight (rc_preflight E) (pc_Backends (enginePlacement (sp_Placement (md_Spec m)))) s = ((reason, msg, fleets), s')"
    by (metis prod.exhaust)
  from checkSchedulable_ok [OF assms this] obtain c where
    "checkSchedulable E m a ph s =
      ((set_cond (rc_meta E) c (if fleets \<noteq> [] then m\<lparr>md_Status := (md_Status m)\<lparr>st_Fleet := fleets\<rparr>\<rparr> else m), a, ph), s')"
    by blast
  then show thesis
    by (rule that) simp_all
qed

section \<open>A demanded pass\<close>

text \<open>What dstack shows of a Model that is not awake: nothing, or a live run without replicas.\<close>

definition shows_asleep :: "dstack_error + Run \<Rightarrow> bool" where
  "shows_asleep g \<longleftrightarrow>
     (case g of Inl e \<Rightarrow> err_is e ErrNotFound | Inr run \<Rightarrow> \<not> IsTerminal run \<and> run_Replicas run = 0)"

text \<open>Nothing on the controller's side forbids a wake: the spec and its price are valid, its Secrets
  resolve, and no refusal of the last minute is being paced.\<close>

definition may_wake :: "'s reconcile_env \<Rightarrow> Model \<Rightarrow> gotime \<Rightarrow> bool" where
  "may_wake E m now \<longleftrightarrow>
     live_model m \<and> price_ok E (md_Spec m) \<and> Validate (md_Spec m) = None \<and>
     (\<forall>s. \<not> is_err (resolveEnv (rc_secret E s (md_Namespace m)) m)) \<and>
     \<not> snd (provisioningBackoff (rc_meta E) (md_Status m) now)"

lemma observe_asleep:
  assumes "shows_asleep (fst (rc_DGet E n s))"
  obtains ob s1 where "observe E n k spec now s = (Inr ob, s1)" and "ob_Run ob = live_run (fst (rc_DGet E n s))"
    and "ob_Run ob = None \<longrightarrow> ob = no_observation" and "\<forall>r. ob_Run ob = Some r \<longrightarrow> run_Replicas r = 0"
  using assms by (cases "rc_DGet E n s"; cases "fst (rc_DGet E n s)")
    (auto simp: observe_def shows_asleep_def live_run_def no_observation_def)

lemma backoff_conditions:
  "st_Conditions p = st_Conditions q \<Longrightarrow> snd (provisioningBackoff M p now) = snd (provisioningBackoff M q now)"
  by (simp add: provisioningBackoff_iff)

lemma demanded_plan:
  assumes "sp_MinReplicas (md_Spec m) = 1 \<or> hasDemand (rc_rfc3339 E) m now" and "may_wake E m now" and "shows_asleep (fst (rc_DGet E (runNameFor m) s))"
  obtains ob s1 m' a ph s2 env key s3 where
    "observe E (runNameFor m) (md_Name m) (md_Spec m) now s = (Inr ob, s1)"
    "ob_Run ob = live_run (fst (rc_DGet E (runNameFor m) s))"
    "planned E m (runNameFor m) ob now s1 = ((m', a, ph), s2)" "md_Spec m' = md_Spec m"
    "ac_Apply a" "ac_Replicas a = 1" "ac_Current a = ob_Run ob"
    "applyEnvFor E m' a s2 = (Inr (env, key), s3)"
proof -
  let ?n = "runNameFor m" let ?g = "fst (rc_DGet E ?n s)"
  obtain ob s1 where ob: "observe E ?n (md_Name m) (md_Spec m) now s = (Inr ob, s1)" "ob_Run ob = live_run ?g"
    "ob_Run ob = None \<longrightarrow> ob = no_observation" "\<forall>r. ob_Run ob = Some r \<longrightarrow> run_Replicas r = 0"
    using observe_asleep [OF assms(3)] by blast
  let ?d = "hasDemand (rc_rfc3339 E) m now" let ?m = "statusForDecide E m ?n ob ?d now"
  obtain ph a where dec: "Decide (rc_meta E) ob (md_Status ?m) (md_Spec m) ?d now = (ph, a)"
    and a: "ac_Apply a" "ac_Replicas a = 1" "ac_Current a = ob_Run ob"
  proof (cases "ob_Run ob")
    case None
    then have "\<not> snd (provisioningBackoff (rc_meta E) (md_Status ?m) now)"
      using assms(2) ob(3) backoff_conditions [OF statusForDecide_no_run] unfolding may_wake_def by metis
    with None assms(1) show thesis
      using that by (simp add: Decide_no_run action_at_def)
  next
    case (Some r)
    with ob(4) assms(1) show thesis
      using that by (simp add: Decide_asleep)
  qed
  obtain m' s2 where gate: "checkSchedulable E ?m a ph s1 = ((m', a, ph), s2)" "md_Spec m' = md_Spec m" "md_Namespace m' = md_Namespace m"
    using assms(2) checkSchedulable_passes [of E ?m a ph s1] unfolding may_wake_def by auto
  have plan: "planned E m ?n ob now s1 = ((m', a, ph), s2)"
    using dec a gate(1) by (simp add: planned_def Let_def)
  have "resolveEnv f m' = resolveEnv f m" for f
    by (simp add: resolveEnv_def gate(2))
  then have "\<not> is_err (resolveEnv (rc_secret E s2 (md_Namespace m')) m')"
    using assms(2) gate(3) unfolding may_wake_def by simp
  then obtain env key s3 where env: "applyEnvFor E m' a s2 = (Inr (env, key), s3)"
    using a(2) by (cases "resolveEnv (rc_secret E s2 (md_Namespace m')) m'"; cases "EnsureSSHKey (rc_ssh E) (operatorNamespace E) s2")
      (auto simp: applyEnvFor_def is_err_def)
  show thesis
    by (rule that [OF ob(1,2) plan gate(2) a env])
qed

lemma demanded_pass_applies:
  assumes "sp_MinReplicas (md_Spec m) = 1 \<or> hasDemand (rc_rfc3339 E) m now" and "may_wake E m now" and "shows_asleep (fst (rc_DGet E (runNameFor m) s))"
  shows "\<exists>q r rest. pass_calls E (ApiOk, m) now s = CallGet (runNameFor m) (fst (rc_DGet E (runNameFor m) s)) # CallApply q r # rest \<and>
     req_Replicas q = 1 \<and> req_Name q = runNameFor m \<and> req_Current q = live_run (fst (rc_DGet E (runNameFor m) s))"
  using assms
proof (cases rule: demanded_plan)
  case (1 ob s1 m' a ph s2 env key s3)
  have calls: "pass_calls E (ApiOk, m) now s =
      CallGet (runNameFor m) (fst (rc_DGet E (runNameFor m) s)) # observed_calls E m (runNameFor m) ob now s1"
    using assms(2) 1(1) unfolding may_wake_def by (simp add: pass_calls_live)
  from 1(3) show ?thesis
    by (cases rule: observed_calls_cases) (use 1 calls in auto)
qed

end
