(* ===== verification/Dstack_Mock.thy ===== *)
theory Dstack_Mock
  imports Squall_Prelude
begin

text \<open>
  The repository's in-memory dstack server and gateway (\<open>internal/dstack/mock/mock.go\<close>), the
  executable statement of the server behaviour squall relies on: in-place flips, whole-object
  compare-and-swap, fresh runs after a death, idle release of instances and the gateway's three
  answers. Every method takes the clock's reading as an argument; the mutex makes each method
  one transition. \<open>ms_seq\<close> is the package's run counter.
\<close>

section \<open>State\<close>

datatype mock_error = MErrResourceChanged | MErrForceForbidden | MErrNotFound
  | MErrDeleteActiveRun | MErrCannotOverride

record mockRun =
  kr_Name :: string
  kr_RunID :: string
  kr_DeploymentNum :: int
  kr_Replicas :: int
  kr_ProbesReady :: bool
  kr_Status :: string
  kr_ServiceURL :: string
  kr_SubmittedAt :: gotime
  kr_IdleDuration :: "int option"

record mockApplyRequest =
  ka_Name :: string
  ka_Replicas :: int
  ka_Current :: "mockRun option"
  ka_Force :: bool
  ka_FleetIdleDuration :: duration
  ka_IdleDuration :: "int option"

record mockService =
  sv_runID :: string
  sv_deploymentNum :: int
  sv_replicas :: int
  sv_submittedAt :: gotime
  sv_replicasUpAt :: gotime
  sv_terminal :: bool
  sv_instanceUp :: bool
  sv_idleSince :: gotime
  sv_fleetIdleDuration :: duration
  sv_applyCount :: int
  sv_idleDuration :: "int option"

record mockServer =
  ms_services :: "mockService gomap"
  ms_fleets :: "string list gomap"
  ms_probeDelay :: duration
  ms_seq :: nat

definition mock_New :: mockServer where
  "mock_New = \<lparr>ms_services = [], ms_fleets = [], ms_probeDelay = 0, ms_seq = 0\<rparr>"

definition ValidToken :: string where
  "ValidToken = ''test-gateway-token''"

definition newRunID :: "string \<Rightarrow> nat \<Rightarrow> string" where
  "newRunID name n = ''run-'' @ name @ ''-'' @ show_nat n"

definition sameSeconds :: "int option \<Rightarrow> int option \<Rightarrow> bool" where
  "sameSeconds a b =
     (case (a, b) of (Some x, Some y) \<Rightarrow> x = y | (None, None) \<Rightarrow> True | _ \<Rightarrow> False)"

section \<open>Operations\<close>

definition mock_EnsureFleet :: "string \<Rightarrow> string list \<Rightarrow> mockServer \<Rightarrow> mockServer" where
  "mock_EnsureFleet name backends s =
     (case gomap_get (ms_fleets s) name of
        Some _ \<Rightarrow> s | None \<Rightarrow> s\<lparr>ms_fleets := gomap_put name backends (ms_fleets s)\<rparr>)"

definition mock_HasFleet :: "string \<Rightarrow> mockServer \<Rightarrow> bool" where
  "mock_HasFleet name s \<longleftrightarrow> gomap_get (ms_fleets s) name \<noteq> None"

definition mock_SetProbeDelay :: "duration \<Rightarrow> mockServer \<Rightarrow> mockServer" where
  "mock_SetProbeDelay d s = s\<lparr>ms_probeDelay := d\<rparr>"

definition mock_probesReady :: "gotime \<Rightarrow> mockServer \<Rightarrow> mockService \<Rightarrow> bool" where
  "mock_probesReady now s svc =
     (if sv_replicas svc = 0 \<or> isZero (sv_replicasUpAt svc) then False
      else sv_replicasUpAt svc + ms_probeDelay s \<le> now)"

definition statusFor :: "mockService \<Rightarrow> string" where
  "statusFor svc =
     (if sv_terminal svc then ''terminated''
      else if sv_replicas svc = 0 then ''pending'' else ''running'')"

definition runFor :: "gotime \<Rightarrow> mockServer \<Rightarrow> string \<Rightarrow> mockService \<Rightarrow> mockRun" where
  "runFor now s name svc =
     \<lparr>kr_Name = name, kr_RunID = sv_runID svc, kr_DeploymentNum = sv_deploymentNum svc,
      kr_Replicas = sv_replicas svc, kr_ProbesReady = mock_probesReady now s svc,
      kr_Status = statusFor svc, kr_ServiceURL = ''/proxy/services/main/'' @ name @ ''/'',
      kr_SubmittedAt = sv_submittedAt svc, kr_IdleDuration = sv_idleDuration svc\<rparr>"

definition fresh_service :: "string \<Rightarrow> gotime \<Rightarrow> mockService" where
  "fresh_service ident now =
     \<lparr>sv_runID = ident, sv_deploymentNum = 0, sv_replicas = 0, sv_submittedAt = now,
      sv_replicasUpAt = 0, sv_terminal = False, sv_instanceUp = False, sv_idleSince = 0,
      sv_fleetIdleDuration = 0, sv_applyCount = 0, sv_idleDuration = None\<rparr>"

text \<open>The part of \<open>Apply\<close> after its guards: the service it applies to, updated in place.\<close>

definition apply_service :: "gotime \<Rightarrow> mockApplyRequest \<Rightarrow> mockService \<Rightarrow> mockService" where
  "apply_service now req svc =
     (let wasAwake = (0 < sv_replicas svc);
          svc1 = svc\<lparr>sv_deploymentNum := sv_deploymentNum svc + 1, sv_replicas := ka_Replicas req,
                     sv_applyCount := sv_applyCount svc + 1, sv_instanceUp := True,
                     sv_idleDuration := ka_IdleDuration req,
                     sv_fleetIdleDuration := (if 0 < ka_FleetIdleDuration req
                       then ka_FleetIdleDuration req else sv_fleetIdleDuration svc)\<rparr>
      in if ka_Replicas req = 0
         then (let svc2 = svc1\<lparr>sv_replicasUpAt := 0\<rparr>
               in if wasAwake then svc2\<lparr>sv_idleSince := now\<rparr> else svc2)
         else if 0 < ka_Replicas req
         then (let svc2 = svc1\<lparr>sv_idleSince := 0\<rparr>
               in if \<not> wasAwake then svc2\<lparr>sv_replicasUpAt := now\<rparr> else svc2)
         else svc1)"

definition mock_Apply ::
  "gotime \<Rightarrow> mockApplyRequest \<Rightarrow> mockServer \<Rightarrow> (mock_error + mockRun) \<times> mockServer" where
  "mock_Apply now req s =
     (if ka_Force req then (Inl MErrForceForbidden, s)
      else
        let name = ka_Name req;
            finish = (\<lambda>svc st.
              let svc' = apply_service now req svc;
                  st' = st\<lparr>ms_services := gomap_put name svc' (ms_services st)\<rparr>
              in (Inr (runFor now st' name svc'), st'));
            mint = finish (fresh_service (newRunID name (Suc (ms_seq s))) now)
                     (s\<lparr>ms_seq := Suc (ms_seq s)\<rparr>)
        in case gomap_get (ms_services s) name of
             None \<Rightarrow> mint
           | Some svc \<Rightarrow>
               if sv_terminal svc then mint
               else if (case ka_Current req of
                          None \<Rightarrow> True
                        | Some c \<Rightarrow> kr_RunID c \<noteq> sv_runID svc \<or>
                                   kr_DeploymentNum c \<noteq> sv_deploymentNum svc)
               then (Inl MErrResourceChanged, s)
               else if 0 < sv_replicas svc \<and>
                       \<not> sameSeconds (sv_idleDuration svc) (ka_IdleDuration req)
               then (Inl MErrCannotOverride, s)
               else finish svc s)"

definition tick_service :: "gotime \<Rightarrow> mockService \<Rightarrow> mockService" where
  "tick_service now svc =
     (if sv_instanceUp svc \<and> sv_replicas svc = 0 \<and> \<not> isZero (sv_idleSince svc) \<and>
         0 < sv_fleetIdleDuration svc \<and>
         sv_fleetIdleDuration svc \<le> time_sub now (sv_idleSince svc)
      then svc\<lparr>sv_instanceUp := False\<rparr> else svc)"

definition mock_Tick :: "gotime \<Rightarrow> mockServer \<Rightarrow> mockServer" where
  "mock_Tick now s = s\<lparr>ms_services := map (\<lambda>(n, svc). (n, tick_service now svc)) (ms_services s)\<rparr>"

definition mock_InstanceCount :: "string \<Rightarrow> mockServer \<Rightarrow> int" where
  "mock_InstanceCount name s =
     (case gomap_get (ms_services s) name of
        None \<Rightarrow> 0 | Some svc \<Rightarrow> if \<not> sv_instanceUp svc then 0 else 1)"

definition mock_ApplyCount :: "string \<Rightarrow> mockServer \<Rightarrow> int" where
  "mock_ApplyCount name s =
     (case gomap_get (ms_services s) name of None \<Rightarrow> 0 | Some svc \<Rightarrow> sv_applyCount svc)"

definition GatewayGet :: "string \<Rightarrow> string \<Rightarrow> mockServer \<Rightarrow> int" where
  "GatewayGet name token s =
     (if token \<noteq> ValidToken then 403
      else case gomap_get (ms_services s) name of
             None \<Rightarrow> 404
           | Some svc \<Rightarrow>
               if sv_terminal svc then 404 else if sv_replicas svc = 0 then 503 else 200)"

definition mock_Get :: "gotime \<Rightarrow> string \<Rightarrow> mockServer \<Rightarrow> mock_error + mockRun" where
  "mock_Get now name s =
     (case gomap_get (ms_services s) name of
        None \<Rightarrow> Inl MErrNotFound | Some svc \<Rightarrow> Inr (runFor now s name svc))"

definition mock_ListRuns :: "gotime \<Rightarrow> mockServer \<Rightarrow> mockRun list" where
  "mock_ListRuns now s = map (\<lambda>(name, svc). runFor now s name svc) (ms_services s)"

definition mock_Delete :: "string \<Rightarrow> mockServer \<Rightarrow> (mock_error + unit) \<times> mockServer" where
  "mock_Delete name s =
     (case gomap_get (ms_services s) name of
        None \<Rightarrow> (Inl MErrNotFound, s)
      | Some svc \<Rightarrow>
          if \<not> sv_terminal svc then (Inl MErrDeleteActiveRun, s)
          else (Inr (), s\<lparr>ms_services := gomap_del name (ms_services s)\<rparr>))"

definition mock_Stop :: "string \<Rightarrow> mockServer \<Rightarrow> (mock_error + unit) \<times> mockServer" where
  "mock_Stop name s =
     (case gomap_get (ms_services s) name of
        None \<Rightarrow> (Inl MErrNotFound, s)
      | Some svc \<Rightarrow>
          (Inr (), s\<lparr>ms_services := gomap_put name
             (svc\<lparr>sv_terminal := True, sv_instanceUp := False, sv_replicas := 0\<rparr>) (ms_services s)\<rparr>))"

definition mock_Terminate :: "string \<Rightarrow> mockServer \<Rightarrow> mockServer" where
  "mock_Terminate name s =
     (case gomap_get (ms_services s) name of
        None \<Rightarrow> s
      | Some svc \<Rightarrow> s\<lparr>ms_services := gomap_put name
          (svc\<lparr>sv_terminal := True, sv_instanceUp := False\<rparr>) (ms_services s)\<rparr>)"

section \<open>Steps and reachable states\<close>

inductive mock_step :: "mockServer \<Rightarrow> mockServer \<Rightarrow> bool" where
  step_apply: "0 \<le> ka_Replicas req \<Longrightarrow> mock_step s (snd (mock_Apply now req s))"
| step_tick: "mock_step s (mock_Tick now s)"
| step_stop: "mock_step s (snd (mock_Stop name s))"
| step_delete: "mock_step s (snd (mock_Delete name s))"
| step_terminate: "mock_step s (mock_Terminate name s)"
| step_fleet: "mock_step s (mock_EnsureFleet name bs s)"
| step_delay: "mock_step s (mock_SetProbeDelay d s)"

inductive mock_reachable :: "mockServer \<Rightarrow> bool" where
  reach_init: "mock_reachable mock_New"
| reach_step: "mock_reachable s \<Longrightarrow> mock_step s s' \<Longrightarrow> mock_reachable s'"

text \<open>
  The invariant: every service is named once; every run id was minted for its name by a
  counter value already used, no two names share a counter value; a terminal service has no
  instance and a live one with a replica has one; and a service counts an idle instant only
  while it has no replica.
\<close>

definition service_inv :: "mockService \<Rightarrow> bool" where
  "service_inv svc \<longleftrightarrow>
     0 \<le> sv_replicas svc \<and> 1 \<le> sv_deploymentNum svc \<and> 1 \<le> sv_applyCount svc \<and>
     sv_applyCount svc = sv_deploymentNum svc \<and>
     (sv_terminal svc \<longrightarrow> \<not> sv_instanceUp svc) \<and>
     (\<not> sv_terminal svc \<and> 0 < sv_replicas svc \<longrightarrow> sv_instanceUp svc \<and> sv_idleSince svc = 0)"

definition run_seq_ok :: "mockServer \<Rightarrow> bool" where
  "run_seq_ok s \<longleftrightarrow>
     (\<forall>name svc. gomap_get (ms_services s) name = Some svc \<longrightarrow>
        (\<exists>n. 1 \<le> n \<and> n \<le> ms_seq s \<and> sv_runID svc = newRunID name n))"

definition mock_inv :: "mockServer \<Rightarrow> bool" where
  "mock_inv s \<longleftrightarrow>
     gomap_wf (ms_services s) \<and> run_seq_ok s \<and>
     (\<forall>name svc. gomap_get (ms_services s) name = Some svc \<longrightarrow> service_inv svc)"

section \<open>Preservation\<close>

lemma newRunID_inj:
  assumes "newRunID name m = newRunID name' n" shows "name = name' \<and> m = n"
proof -
  have "(''run-'' @ name) @ CHR ''-'' # show_nat m = (''run-'' @ name') @ CHR ''-'' # show_nat n"
    using assms by (simp add: newRunID_def)
  from append_sep_eq [OF this show_nat_no_dash show_nat_no_dash] show ?thesis
    by (auto dest: show_nat_inj)
qed

lemma newRunID_eq [simp]: "newRunID name m = newRunID name' n \<longleftrightarrow> name = name' \<and> m = n"
  by (auto dest: newRunID_inj)

lemma service_inv_apply:
  assumes "service_inv svc \<or> (\<exists>i t. svc = fresh_service i t)" and "\<not> sv_terminal svc"
    and "0 \<le> ka_Replicas req"
  shows "service_inv (apply_service now req svc)"
  using assms by (auto simp: service_inv_def apply_service_def fresh_service_def Let_def)

lemma apply_service_id [simp]:
  "sv_runID (apply_service now req svc) = sv_runID svc"
  "sv_deploymentNum (apply_service now req svc) = sv_deploymentNum svc + 1"
  "sv_replicas (apply_service now req svc) = ka_Replicas req"
  "sv_terminal (apply_service now req svc) = sv_terminal svc"
  "sv_instanceUp (apply_service now req svc) = True"
  "sv_applyCount (apply_service now req svc) = sv_applyCount svc + 1"
  "sv_submittedAt (apply_service now req svc) = sv_submittedAt svc"
  by (auto simp: apply_service_def Let_def)

lemma fresh_service_simps [simp]:
  "sv_runID (fresh_service i t) = i" "sv_deploymentNum (fresh_service i t) = 0"
  "sv_terminal (fresh_service i t) = False" "sv_replicas (fresh_service i t) = 0"
  by (simp_all add: fresh_service_def)

text \<open>The three outcomes of Apply: refused unchanged, minted, or updated in place.\<close>

definition live_service :: "mockServer \<Rightarrow> string \<Rightarrow> mockService option" where
  "live_service s name =
     (case gomap_get (ms_services s) name of
        None \<Rightarrow> None | Some svc \<Rightarrow> if sv_terminal svc then None else Some svc)"

definition anchored :: "mockApplyRequest \<Rightarrow> mockService \<Rightarrow> bool" where
  "anchored req svc \<longleftrightarrow>
     (\<exists>c. ka_Current req = Some c \<and> kr_RunID c = sv_runID svc \<and>
          kr_DeploymentNum c = sv_deploymentNum svc)"

definition put_service :: "string \<Rightarrow> mockService \<Rightarrow> mockServer \<Rightarrow> mockServer" where
  "put_service name svc s = s\<lparr>ms_services := gomap_put name svc (ms_services s)\<rparr>"

lemma put_service_simps [simp]:
  "gomap_get (ms_services (put_service name svc s)) n =
     (if n = name then Some svc else gomap_get (ms_services s) n)"
  "ms_seq (put_service name svc s) = ms_seq s"
  "gomap_wf (ms_services s) \<Longrightarrow> gomap_wf (ms_services (put_service name svc s))"
  by (simp_all add: put_service_def)

definition minted :: "gotime \<Rightarrow> mockApplyRequest \<Rightarrow> mockServer \<Rightarrow> mockService" where
  "minted now req s =
     apply_service now req (fresh_service (newRunID (ka_Name req) (Suc (ms_seq s))) now)"

lemma mock_Apply_eq:
  "mock_Apply now req s =
     (if ka_Force req then (Inl MErrForceForbidden, s)
      else case live_service s (ka_Name req) of
             None \<Rightarrow>
               (let s' = put_service (ka_Name req) (minted now req s) (s\<lparr>ms_seq := Suc (ms_seq s)\<rparr>)
                in (Inr (runFor now s' (ka_Name req) (minted now req s)), s'))
           | Some svc \<Rightarrow>
               if \<not> anchored req svc then (Inl MErrResourceChanged, s)
               else if 0 < sv_replicas svc \<and> \<not> sameSeconds (sv_idleDuration svc) (ka_IdleDuration req)
               then (Inl MErrCannotOverride, s)
               else (let s' = put_service (ka_Name req) (apply_service now req svc) s
                     in (Inr (runFor now s' (ka_Name req) (apply_service now req svc)), s')))"
  by (auto simp: mock_Apply_def live_service_def anchored_def minted_def put_service_def Let_def
      split: option.splits)

lemma live_serviceD:
  "live_service s name = Some svc \<Longrightarrow> gomap_get (ms_services s) name = Some svc \<and> \<not> sv_terminal svc"
  by (auto simp: live_service_def split: option.splits if_splits)

lemma run_seq_ok_put:
  assumes "run_seq_ok s" and "\<exists>n. 1 \<le> n \<and> n \<le> ms_seq s \<and> sv_runID svc = newRunID name n"
  shows "run_seq_ok (put_service name svc s)"
  using assms by (auto simp: run_seq_ok_def)

lemma mock_inv_put [squall_inv]:
  assumes "mock_inv s" and "service_inv svc"
    and "\<exists>n. 1 \<le> n \<and> n \<le> ms_seq s \<and> sv_runID svc = newRunID name n"
  shows "mock_inv (put_service name svc s)"
  using assms run_seq_ok_put [of s svc name] unfolding mock_inv_def by simp

lemma mock_inv_seq: "mock_inv s \<Longrightarrow> mock_inv (s\<lparr>ms_seq := Suc (ms_seq s)\<rparr>)"
  by (auto simp: mock_inv_def run_seq_ok_def) (metis le_SucI)

lemma mock_invD:
  assumes "mock_inv s" and "gomap_get (ms_services s) name = Some svc"
  shows "service_inv svc" and "\<exists>n. 1 \<le> n \<and> n \<le> ms_seq s \<and> sv_runID svc = newRunID name n"
  using assms by (auto simp: mock_inv_def run_seq_ok_def)

lemma mock_inv_Apply [squall_inv]:
  assumes "mock_inv s" and "0 \<le> ka_Replicas req"
  shows "mock_inv (snd (mock_Apply now req s))"
proof (cases "live_service s (ka_Name req)")
  case None
  have "mock_inv (put_service (ka_Name req) (minted now req s) (s\<lparr>ms_seq := Suc (ms_seq s)\<rparr>))"
    by (rule mock_inv_put [OF mock_inv_seq [OF assms(1)]])
      (auto simp: minted_def assms(2) intro!: service_inv_apply)
  with None assms(1) show ?thesis by (simp add: mock_Apply_eq Let_def)
next
  case (Some svc)
  note svc = live_serviceD [OF Some]
  have "mock_inv (put_service (ka_Name req) (apply_service now req svc) s)"
    using svc mock_invD [OF assms(1)] assms(2)
    by (intro mock_inv_put [OF assms(1)]) (auto intro: service_inv_apply)
  with Some assms(1) show ?thesis by (simp add: mock_Apply_eq Let_def)
qed

lemma mock_inv_Stop [squall_inv]: "mock_inv s \<Longrightarrow> mock_inv (snd (mock_Stop name s))"
proof -
  assume inv: "mock_inv s"
  show ?thesis
  proof (cases "gomap_get (ms_services s) name")
    case (Some svc)
    have "mock_inv (put_service name (svc\<lparr>sv_terminal := True, sv_instanceUp := False, sv_replicas := 0\<rparr>) s)"
      using mock_invD [OF inv Some] by (intro mock_inv_put [OF inv]) (auto simp: service_inv_def)
    with Some show ?thesis by (simp add: mock_Stop_def put_service_def)
  qed (use inv in \<open>simp add: mock_Stop_def\<close>)
qed

lemma mock_inv_Terminate [squall_inv]: "mock_inv s \<Longrightarrow> mock_inv (mock_Terminate name s)"
proof -
  assume inv: "mock_inv s"
  show ?thesis
  proof (cases "gomap_get (ms_services s) name")
    case (Some svc)
    have "mock_inv (put_service name (svc\<lparr>sv_terminal := True, sv_instanceUp := False\<rparr>) s)"
      using mock_invD [OF inv Some] by (intro mock_inv_put [OF inv]) (auto simp: service_inv_def)
    with Some show ?thesis by (simp add: mock_Terminate_def put_service_def)
  qed (use inv in \<open>simp add: mock_Terminate_def\<close>)
qed

lemma mock_inv_Delete [squall_inv]: "mock_inv s \<Longrightarrow> mock_inv (snd (mock_Delete name s))"
  by (auto simp: mock_inv_def run_seq_ok_def mock_Delete_def set_gomap_del split: option.splits)

lemma service_inv_tick: "service_inv svc \<Longrightarrow> service_inv (tick_service now svc)"
  by (auto simp: service_inv_def tick_service_def)

lemma tick_service_id [simp]:
  "sv_runID (tick_service now svc) = sv_runID svc"
  "sv_deploymentNum (tick_service now svc) = sv_deploymentNum svc"
  "sv_terminal (tick_service now svc) = sv_terminal svc"
  "sv_replicas (tick_service now svc) = sv_replicas svc"
  by (simp_all add: tick_service_def)

lemma mock_Tick_get:
  "gomap_get (ms_services (mock_Tick now s)) name =
     map_option (tick_service now) (gomap_get (ms_services s) name)"
  by (simp add: mock_Tick_def map_of_map)

lemma mock_inv_Tick [squall_inv]: "mock_inv s \<Longrightarrow> mock_inv (mock_Tick now s)"
proof -
  assume inv: "mock_inv s"
  have "gomap_wf (ms_services (mock_Tick now s))"
    using inv by (simp add: mock_inv_def mock_Tick_def comp_def case_prod_unfold)
  moreover have "ms_seq (mock_Tick now s) = ms_seq s" by (simp add: mock_Tick_def)
  ultimately show ?thesis
    using inv by (auto simp: mock_inv_def run_seq_ok_def mock_Tick_get service_inv_tick)
qed

lemma mock_inv_EnsureFleet [squall_inv]: "mock_inv s \<Longrightarrow> mock_inv (mock_EnsureFleet name bs s)"
  by (simp add: mock_inv_def run_seq_ok_def mock_EnsureFleet_def split: option.split)

lemma mock_inv_SetProbeDelay [squall_inv]: "mock_inv s \<Longrightarrow> mock_inv (mock_SetProbeDelay d s)"
  by (simp add: mock_inv_def run_seq_ok_def mock_SetProbeDelay_def)

lemma mock_inv_step [squall_inv]: "mock_step s s' \<Longrightarrow> mock_inv s \<Longrightarrow> mock_inv s'"
  by (cases rule: mock_step.cases) (auto intro: squall_inv)

lemma mock_inv_init: "mock_inv mock_New"
  by (simp add: mock_inv_def mock_New_def run_seq_ok_def)

lemma mock_reachable_inv: "mock_reachable s \<Longrightarrow> mock_inv s"
  by (induction rule: mock_reachable.induct) (auto intro: squall_inv mock_inv_init)

section \<open>The interface squall relies on\<close>

text \<open>
  What the controller needs of a run server: \<open>ident\<close> is the identity (run id and deployment
  number) of the live run under a name, \<open>known\<close> whether the server has a record of the name.
\<close>

locale run_service =
  fixes ident :: "'s \<Rightarrow> string \<Rightarrow> (string \<times> int) option"
    and known :: "'s \<Rightarrow> string \<Rightarrow> bool"
    and apply_run :: "'q \<Rightarrow> 's \<Rightarrow> ('e + 'r) \<times> 's"
    and name_of :: "'q \<Rightarrow> string"
    and anchor_of :: "'q \<Rightarrow> (string \<times> int) option"
    and stop_run :: "string \<Rightarrow> 's \<Rightarrow> ('e + unit) \<times> 's"
    and delete_run :: "string \<Rightarrow> 's \<Rightarrow> ('e + unit) \<times> 's"
  assumes apply_refused: "fst (apply_run q s) = Inl e \<Longrightarrow> snd (apply_run q s) = s"
    and apply_cas: "ident s (name_of q) = Some i \<Longrightarrow> anchor_of q \<noteq> Some i \<Longrightarrow>
      is_err (fst (apply_run q s))"
    and apply_advances: "fst (apply_run q s) = Inr r \<Longrightarrow>
      ident (snd (apply_run q s)) (name_of q) \<noteq> None \<and>
      ident (snd (apply_run q s)) (name_of q) \<noteq> ident s (name_of q)"
    and stop_ends: "known s n \<Longrightarrow> fst (stop_run n s) = Inr () \<and>
      ident (snd (stop_run n s)) n = None \<and> known (snd (stop_run n s)) n"
    and delete_live: "ident s n \<noteq> None \<Longrightarrow> is_err (fst (delete_run n s)) \<and> snd (delete_run n s) = s"
    and delete_ended: "known s n \<Longrightarrow> ident s n = None \<Longrightarrow>
      fst (delete_run n s) = Inr () \<and> \<not> known (snd (delete_run n s)) n"
begin

text \<open>Of two requests planned against the same observation, at most one is carried out.\<close>

lemma race_one_winner:
  assumes "ident s n = Some i" and "name_of q1 = n" and "name_of q2 = n"
    and "anchor_of q1 = anchor_of q2" and "fst (apply_run q1 s) = Inr r"
  shows "is_err (fst (apply_run q2 (snd (apply_run q1 s))))"
proof -
  have a: "anchor_of q1 = Some i"
    using apply_cas [of s q1 i] assms(1,2,5) by (cases "anchor_of q1 = Some i") auto
  obtain j where "ident (snd (apply_run q1 s)) n = Some j" and "j \<noteq> i"
    using apply_advances [OF assms(5)] assms(1,2) by auto
  with a assms(3,4) show ?thesis using apply_cas [of "snd (apply_run q1 s)" q2 j] by simp
qed

text \<open>Stop then Delete removes a known run, whatever its state; Delete alone never kills one.\<close>

lemma teardown:
  assumes "known s n"
  shows "fst (stop_run n s) = Inr () \<and> fst (delete_run n (snd (stop_run n s))) = Inr () \<and>
    \<not> known (snd (delete_run n (snd (stop_run n s)))) n"
  using stop_ends [OF assms] delete_ended by blast

end

definition mock_ident :: "mockServer \<Rightarrow> string \<Rightarrow> (string \<times> int) option" where
  "mock_ident s name = map_option (\<lambda>svc. (sv_runID svc, sv_deploymentNum svc)) (live_service s name)"

definition mock_known :: "mockServer \<Rightarrow> string \<Rightarrow> bool" where
  "mock_known s name \<longleftrightarrow> gomap_get (ms_services s) name \<noteq> None"

definition request_anchor :: "mockApplyRequest \<Rightarrow> (string \<times> int) option" where
  "request_anchor req = map_option (\<lambda>c. (kr_RunID c, kr_DeploymentNum c)) (ka_Current req)"

lemma anchored_iff: "anchored req svc \<longleftrightarrow> request_anchor req = Some (sv_runID svc, sv_deploymentNum svc)"
  by (auto simp: anchored_def request_anchor_def)

lemma mock_Apply_ident:
  assumes "fst (mock_Apply now req s) = Inr r"
  shows "mock_ident (snd (mock_Apply now req s)) (ka_Name req) =
    (case mock_ident s (ka_Name req) of
       None \<Rightarrow> Some (newRunID (ka_Name req) (Suc (ms_seq s)), 1)
     | Some (i, n) \<Rightarrow> Some (i, n + 1))"
  using assms
  by (auto simp: mock_Apply_eq mock_ident_def Let_def minted_def split: option.splits if_splits
      dest!: live_serviceD simp: live_service_def)

interpretation mock_runs: run_service mock_ident mock_known
  "\<lambda>(now, req). mock_Apply now req" "\<lambda>(now, req). ka_Name req" "\<lambda>(now, req). request_anchor req"
  mock_Stop mock_Delete
proof unfold_locales
  fix q :: "gotime \<times> mockApplyRequest" and s e
  assume "fst ((case q of (now, req) \<Rightarrow> mock_Apply now req) s) = Inl e"
  then show "snd ((case q of (now, req) \<Rightarrow> mock_Apply now req) s) = s"
    by (auto simp: mock_Apply_eq Let_def split: prod.splits option.splits if_splits)
next
  fix s :: mockServer and q :: "gotime \<times> mockApplyRequest" and i
  assume "mock_ident s (case q of (now, req) \<Rightarrow> ka_Name req) = Some i"
    and "(case q of (now, req) \<Rightarrow> request_anchor req) \<noteq> Some i"
  then show "is_err (fst ((case q of (now, req) \<Rightarrow> mock_Apply now req) s))"
    by (auto simp: mock_Apply_eq mock_ident_def anchored_iff split: prod.splits)
next
  fix q :: "gotime \<times> mockApplyRequest" and s r
  assume "fst ((case q of (now, req) \<Rightarrow> mock_Apply now req) s) = Inr r"
  then show "mock_ident (snd ((case q of (now, req) \<Rightarrow> mock_Apply now req) s))
      (case q of (now, req) \<Rightarrow> ka_Name req) \<noteq> None \<and>
    mock_ident (snd ((case q of (now, req) \<Rightarrow> mock_Apply now req) s))
      (case q of (now, req) \<Rightarrow> ka_Name req) \<noteq> mock_ident s (case q of (now, req) \<Rightarrow> ka_Name req)"
    by (auto simp: mock_Apply_ident split: prod.splits option.splits)
next
  fix s n
  assume "mock_known s n"
  then show "fst (mock_Stop n s) = Inr () \<and> mock_ident (snd (mock_Stop n s)) n = None \<and>
      mock_known (snd (mock_Stop n s)) n"
    by (auto simp: mock_known_def mock_Stop_def mock_ident_def live_service_def)
next
  fix s n
  assume "mock_ident s n \<noteq> None"
  then show "is_err (fst (mock_Delete n s)) \<and> snd (mock_Delete n s) = s"
    by (auto simp: mock_ident_def live_service_def mock_Delete_def split: option.splits if_splits)
next
  fix s n
  assume "mock_known s n" and "mock_ident s n = None"
  then show "fst (mock_Delete n s) = Inr () \<and> \<not> mock_known (snd (mock_Delete n s)) n"
    by (auto simp: mock_known_def mock_ident_def live_service_def mock_Delete_def
        split: option.splits if_splits)
qed

section \<open>Properties\<close>

text \<open>
  A superseded identity: counter value \<open>k\<close>, deployment number \<open>n\<close>. The record under the name, if
  any, is a later run, a later deployment of the same run, or that run ended.
\<close>

definition superseded :: "string \<Rightarrow> nat \<Rightarrow> int \<Rightarrow> mockServer \<Rightarrow> bool" where
  "superseded name k n s \<longleftrightarrow> k \<le> ms_seq s \<and>
     (case gomap_get (ms_services s) name of
        None \<Rightarrow> True
      | Some svc \<Rightarrow> \<exists>k'. sv_runID svc = newRunID name k' \<and>
          (k < k' \<or> k' = k \<and> (n < sv_deploymentNum svc \<or> sv_terminal svc)))"

lemma superseded_ident: "superseded name k n s \<Longrightarrow> mock_ident s name \<noteq> Some (newRunID name k, n)"
  by (auto simp: superseded_def mock_ident_def live_service_def dest: newRunID_inj
      split: option.splits if_splits)

lemma superseded_Apply:
  assumes "superseded name k n s" shows "superseded name k n (snd (mock_Apply now req s))"
proof (cases "live_service s (ka_Name req)")
  case None
  with assms show ?thesis
    by (auto simp: mock_Apply_eq Let_def superseded_def minted_def split: option.splits)
next
  case (Some svc)
  with live_serviceD [OF Some] assms show ?thesis
    by (auto simp: mock_Apply_eq Let_def superseded_def)
qed

lemma superseded_step: "mock_step s s' \<Longrightarrow> superseded name k n s \<Longrightarrow> superseded name k n s'"
proof (induction rule: mock_step.induct)
  case (step_apply req s now)
  then show ?case by (simp add: superseded_Apply)
next
  case (step_tick s now)
  then show ?case
    by (auto simp: superseded_def mock_Tick_get split: option.splits) (simp_all add: mock_Tick_def)
next
  case (step_stop s nm)
  then show ?case by (auto simp: superseded_def mock_Stop_def split: option.splits)
next
  case (step_delete s nm)
  then show ?case by (auto simp: superseded_def mock_Delete_def split: option.splits)
next
  case (step_terminate s nm)
  then show ?case by (auto simp: superseded_def mock_Terminate_def split: option.splits)
next
  case (step_fleet s nm bs)
  then show ?case by (simp add: superseded_def mock_EnsureFleet_def split: option.splits)
next
  case (step_delay s d)
  then show ?case by (simp add: superseded_def mock_SetProbeDelay_def)
qed

lemma superseded_steps: "mock_step\<^sup>*\<^sup>* s s' \<Longrightarrow> superseded name k n s \<Longrightarrow> superseded name k n s'"
  by (induction rule: rtranclp_induct) (auto intro: superseded_step)

lemma Apply_supersedes:
  assumes "mock_inv s" and "mock_ident s (ka_Name req) = Some (newRunID (ka_Name req) k, n)"
    and "fst (mock_Apply now req s) = Inr r"
  shows "superseded (ka_Name req) k n (snd (mock_Apply now req s))"
proof -
  obtain svc where svc: "live_service s (ka_Name req) = Some svc"
    and i: "sv_runID svc = newRunID (ka_Name req) k" "sv_deploymentNum svc = n"
    using assms(2) by (auto simp: mock_ident_def)
  have "k \<le> ms_seq s"
    using mock_invD(2) [OF assms(1) conjunct1 [OF live_serviceD [OF svc]]] i(1) by auto
  with svc i assms(3) show ?thesis
    by (auto simp: mock_Apply_eq Let_def superseded_def split: if_splits)
qed

text \<open>
  C18. A stale anchor stays stale. Once an Apply anchored on a run's identity has succeeded, no
  later history of the server (applies, stops, deletes, deaths, ticks) makes that identity
  current again: an Apply that repeats the old anchor against a live run is refused as changed
  and leaves the server untouched.
\<close>

theorem mock_no_aba:
  assumes "mock_reachable s" and "mock_ident s (ka_Name req) = Some (run_id, n)"
    and "fst (mock_Apply now req s) = Inr r"
    and "mock_step\<^sup>*\<^sup>* (snd (mock_Apply now req s)) s'"
    and "ka_Name req' = ka_Name req" and "request_anchor req' = Some (run_id, n)"
    and "\<not> ka_Force req'" and "mock_ident s' (ka_Name req) \<noteq> None"
  shows "mock_Apply now' req' s' = (Inl MErrResourceChanged, s')"
proof -
  have inv: "mock_inv s" by (rule mock_reachable_inv [OF assms(1)])
  obtain svc where svc: "live_service s (ka_Name req) = Some svc" "sv_runID svc = run_id"
    using assms(2) by (auto simp: mock_ident_def)
  obtain k where k: "run_id = newRunID (ka_Name req) k"
    using mock_invD(2) [OF inv] live_serviceD [OF svc(1)] svc(2) by blast
  have "superseded (ka_Name req) k n s'"
    using Apply_supersedes [OF inv _ assms(3)] assms(2,4) k superseded_steps by blast
  then have "mock_ident s' (ka_Name req) \<noteq> Some (run_id, n)" using superseded_ident k by simp
  with assms(5-8) show ?thesis
    by (auto simp: mock_Apply_eq mock_ident_def anchored_iff split: option.splits)
qed

definition sample_apply :: "int \<Rightarrow> mockRun option \<Rightarrow> mockApplyRequest" where
  "sample_apply n cur =
     \<lparr>ka_Name = ''m'', ka_Replicas = n, ka_Current = cur, ka_Force = False,
      ka_FleetIdleDuration = 0, ka_IdleDuration = None\<rparr>"

definition sample_server :: mockServer where
  "sample_server = snd (mock_Apply 1 (sample_apply 1 None) mock_New)"

definition sample_anchor :: mockRun where
  "sample_anchor =
     \<lparr>kr_Name = ''m'', kr_RunID = newRunID ''m'' 1, kr_DeploymentNum = 1, kr_Replicas = 1,
      kr_ProbesReady = True, kr_Status = ''running'', kr_ServiceURL = [], kr_SubmittedAt = 1,
      kr_IdleDuration = None\<rparr>"

lemmas sample_mock_defs = sample_apply_def sample_server_def sample_anchor_def mock_New_def

lemma sample_server_ident: "mock_ident sample_server ''m'' = Some (newRunID ''m'' 1, 1)"
  by (simp add: sample_mock_defs mock_Apply_def mock_ident_def live_service_def Let_def
      apply_service_def fresh_service_def)

theorem mock_no_aba_witness:
  "fst (mock_Apply 3 (sample_apply 0 (Some sample_anchor))
      (snd (mock_Apply 2 (sample_apply 0 (Some sample_anchor)) sample_server))) = Inl MErrResourceChanged"
proof -
  let ?req = "sample_apply 0 (Some sample_anchor)"
  let ?s' = "snd (mock_Apply 2 ?req sample_server)"
  have r: "mock_reachable sample_server"
    unfolding sample_server_def
    by (rule reach_step [OF reach_init step_apply]) (simp add: sample_apply_def)
  obtain r where ok: "fst (mock_Apply 2 ?req sample_server) = Inr r"
    and live: "mock_ident ?s' ''m'' \<noteq> None"
    by (simp add: sample_mock_defs mock_Apply_def mock_ident_def live_service_def Let_def
        apply_service_def fresh_service_def sameSeconds_def)
  have "mock_Apply 3 ?req ?s' = (Inl MErrResourceChanged, ?s')"
    by (rule mock_no_aba [OF r _ ok]) (use sample_server_ident live in
        \<open>simp_all add: sample_apply_def request_anchor_def sample_anchor_def\<close>)
  then show ?thesis by simp
qed

text \<open>
  Of two applies planned against the same observed run, the second is refused: whatever the
  replica counts and times, after one has been carried out the other, with the same anchor,
  fails.
\<close>

theorem mock_race_one_winner:
  assumes "mock_ident s (ka_Name req1) = Some i" and "ka_Name req2 = ka_Name req1"
    and "request_anchor req1 = request_anchor req2" and "fst (mock_Apply t1 req1 s) = Inr r"
  shows "is_err (fst (mock_Apply t2 req2 (snd (mock_Apply t1 req1 s))))"
  using mock_runs.race_one_winner [of s "ka_Name req1" i "(t1, req1)" "(t2, req2)" r] assms by simp

theorem mock_race_one_winner_witness:
  "is_err (fst (mock_Apply 3 (sample_apply 1 (Some sample_anchor))
      (snd (mock_Apply 2 (sample_apply 0 (Some sample_anchor)) sample_server))))"
proof -
  obtain r where "fst (mock_Apply 2 (sample_apply 0 (Some sample_anchor)) sample_server) = Inr r"
    by (simp add: sample_mock_defs mock_Apply_def Let_def apply_service_def fresh_service_def
        sameSeconds_def)
  with sample_server_ident show ?thesis
    by (intro mock_race_one_winner) (simp_all add: sample_apply_def request_anchor_def)
qed

text \<open>
  Teardown works in the order Stop, Delete and in no other: for every name the server knows,
  Stop succeeds and Delete then removes the record; while a live run holds the name, Delete is
  refused and changes nothing, although the comment on \<open>Delete\<close> promises removal of a live run.
\<close>

theorem mock_teardown:
  assumes "mock_known s n"
  shows "fst (mock_Stop n s) = Inr () \<and> fst (mock_Delete n (snd (mock_Stop n s))) = Inr () \<and>
    \<not> mock_known (snd (mock_Delete n (snd (mock_Stop n s)))) n \<and>
    (mock_ident s n \<noteq> None \<longrightarrow> mock_Delete n s = (Inl MErrDeleteActiveRun, s))"
  using mock_runs.teardown [OF assms]
  by (auto simp: mock_ident_def live_service_def mock_Delete_def split: option.splits if_splits)

theorem mock_teardown_witness: "mock_Delete ''m'' sample_server = (Inl MErrDeleteActiveRun, sample_server)"
  using mock_teardown [of sample_server "''m''"] sample_server_ident
  by (auto simp: mock_known_def mock_ident_def live_service_def split: option.splits)

text \<open>
  The server's books balance in every reachable state: run ids are unique over all names,
  a dead run holds no instance, a live replica always has one, the deployment number counts the
  successful applies of the run, and what Get reports agrees with the gateway: running is 200,
  pending is 503, terminated and unknown are 404.
\<close>

theorem mock_books_balance:
  assumes "mock_reachable s"
  shows "(\<forall>n1 n2 v1 v2. gomap_get (ms_services s) n1 = Some v1 \<longrightarrow> gomap_get (ms_services s) n2 = Some v2 \<longrightarrow>
            sv_runID v1 = sv_runID v2 \<longrightarrow> n1 = n2) \<and>
    (\<forall>n. mock_InstanceCount n s = (case gomap_get (ms_services s) n of
        Some svc \<Rightarrow> if sv_terminal svc then 0 else if 0 < sv_replicas svc then 1 else mock_InstanceCount n s
      | None \<Rightarrow> 0)) \<and>
    (\<forall>n now run. mock_Get now n s = Inr run \<longrightarrow> kr_DeploymentNum run = mock_ApplyCount n s \<and>
        1 \<le> kr_DeploymentNum run) \<and>
    (\<forall>n now. GatewayGet n ValidToken s = (case mock_Get now n s of
        Inl _ \<Rightarrow> 404
      | Inr run \<Rightarrow> if kr_Status run = ''running'' then 200
                   else if kr_Status run = ''pending'' then 503 else 404))"
proof (intro conjI allI impI)
  have inv: "mock_inv s" by (rule mock_reachable_inv [OF assms])
  fix n1 n2 v1 v2
  assume "gomap_get (ms_services s) n1 = Some v1" "gomap_get (ms_services s) n2 = Some v2"
    "sv_runID v1 = sv_runID v2"
  then show "n1 = n2" using mock_invD(2) [OF inv] by (metis newRunID_eq)
next
  fix n
  show "mock_InstanceCount n s = (case gomap_get (ms_services s) n of
        Some svc \<Rightarrow> if sv_terminal svc then 0 else if 0 < sv_replicas svc then 1 else mock_InstanceCount n s
      | None \<Rightarrow> 0)"
    using mock_invD(1) [OF mock_reachable_inv [OF assms], of n]
    by (auto simp: mock_InstanceCount_def service_inv_def split: option.splits)
next
  fix n now run
  assume "mock_Get now n s = Inr run"
  then show "kr_DeploymentNum run = mock_ApplyCount n s" "1 \<le> kr_DeploymentNum run"
    using mock_invD(1) [OF mock_reachable_inv [OF assms], of n]
    by (auto simp: mock_Get_def mock_ApplyCount_def runFor_def service_inv_def split: option.splits)
next
  fix n now
  show "GatewayGet n ValidToken s = (case mock_Get now n s of
        Inl _ \<Rightarrow> 404
      | Inr run \<Rightarrow> if kr_Status run = ''running'' then 200
                   else if kr_Status run = ''pending'' then 503 else 404)"
    by (auto simp: GatewayGet_def mock_Get_def runFor_def statusFor_def split: option.splits)
qed

theorem mock_books_balance_witness: "GatewayGet ''m'' ValidToken sample_server = 200"
proof -
  have r: "mock_reachable sample_server"
    unfolding sample_server_def
    by (rule reach_step [OF reach_init step_apply]) (simp add: sample_apply_def)
  obtain run where run: "mock_Get 1 ''m'' sample_server = Inr run" "kr_Status run = ''running''"
    by (simp add: sample_mock_defs mock_Apply_def mock_Get_def Let_def apply_service_def
        fresh_service_def runFor_def statusFor_def)
  have "GatewayGet ''m'' ValidToken sample_server = (case mock_Get 1 ''m'' sample_server of
        Inl _ \<Rightarrow> 404
      | Inr run \<Rightarrow> if kr_Status run = ''running'' then 200
                   else if kr_Status run = ''pending'' then 503 else 404)"
    using mock_books_balance [OF r] by blast
  with run show ?thesis by simp
qed

end
