(* ===== verification/Dstack_Wire.thy ===== *)
theory Dstack_Wire
  imports Squall_Dstack Dstack_Mock
begin

text \<open>
  The messages between the dstack client and the in-memory server, as the structs of
  \<open>internal/dstack/wire.go\<close> on the client's side and of \<open>internal/dstack/mock/http.go\<close> on the server's,
  with the JSON trees they are encoded to and decoded from. The two sides declare their own structs; the
  locale \<open>wire_message\<close> states that what one encodes the other decodes as the part it declares, and its
  interpretations show it of every message.
\<close>

section \<open>The run spec (wire.go)\<close>

text \<open>\<open>omitempty\<close>: the member is left out when the value is empty.\<close>

definition omit_if :: "bool \<Rightarrow> string \<Rightarrow> json \<Rightarrow> (string \<times> json) list" where
  "omit_if b k v = (if b then [] else [(k, v)])"

definition enc_strs :: "string list \<Rightarrow> json" where
  "enc_strs ss = JArr (map JStr ss)"

record cpuWire =
  cw_Arch :: string
  cw_Count :: string

record gpuWire =
  gw_Vendor :: string
  gw_Name :: "string list"
  gw_Count :: string
  gw_Memory :: string
  gw_TotalMemory :: string
  gw_ComputeCapability :: string

record diskWire =
  dw_Size :: string

record resourcesWire =
  rsw_CPU :: "cpuWire option"
  rsw_Memory :: string
  rsw_ShmSize :: string
  rsw_GPU :: "gpuWire option"
  rsw_Disk :: "diskWire option"

record configurationWire =
  cf_Type :: string
  cf_Name :: string
  cf_Image :: string
  cf_Port :: int
  cf_Replicas :: int
  cf_Probes :: "probeConfigWire list"
  cf_Env :: "string gomap"
  cf_Commands :: "string list"
  cf_Resources :: "resourcesWire option"
  cf_Backends :: "string list"
  cf_Regions :: "string list"
  cf_MaxPrice :: string
  cf_IdleDuration :: "int option"
  cf_MaxDuration :: string

record runSpecWire =
  rsp_RunName :: string
  rsp_Configuration :: configurationWire
  rsp_SSHKeyPub :: string

definition enc_probe :: "probeConfigWire \<Rightarrow> json" where
  "enc_probe p = JObj ([(''type'', JStr (pw_Type p)), (''url'', JStr (pw_URL p))] @
     omit_if (pw_Method p = []) ''method'' (JStr (pw_Method p)) @
     omit_if (pw_Timeout p = 0) ''timeout'' (JNum (pw_Timeout p)) @
     [(''interval'', JNum (pw_Interval p)), (''ready_after'', JNum (pw_ReadyAfter p))])"

definition enc_cpu :: "cpuWire \<Rightarrow> json" where
  "enc_cpu c = JObj (omit_if (cw_Arch c = []) ''arch'' (JStr (cw_Arch c)) @
     omit_if (cw_Count c = []) ''count'' (JStr (cw_Count c)))"

definition enc_gpu :: "gpuWire \<Rightarrow> json" where
  "enc_gpu g = JObj (omit_if (gw_Vendor g = []) ''vendor'' (JStr (gw_Vendor g)) @
     omit_if (gw_Name g = []) ''name'' (enc_strs (gw_Name g)) @
     omit_if (gw_Count g = []) ''count'' (JStr (gw_Count g)) @
     omit_if (gw_Memory g = []) ''memory'' (JStr (gw_Memory g)) @
     omit_if (gw_TotalMemory g = []) ''total_memory'' (JStr (gw_TotalMemory g)) @
     omit_if (gw_ComputeCapability g = []) ''compute_capability'' (JStr (gw_ComputeCapability g)))"

definition opt_member :: "string \<Rightarrow> ('a \<Rightarrow> json) \<Rightarrow> 'a option \<Rightarrow> (string \<times> json) list" where
  "opt_member k enc v = (case v of None \<Rightarrow> [] | Some x \<Rightarrow> [(k, enc x)])"

definition enc_resources :: "resourcesWire \<Rightarrow> json" where
  "enc_resources r = JObj (opt_member ''cpu'' enc_cpu (rsw_CPU r) @
     omit_if (rsw_Memory r = []) ''memory'' (JStr (rsw_Memory r)) @
     omit_if (rsw_ShmSize r = []) ''shm_size'' (JStr (rsw_ShmSize r)) @
     opt_member ''gpu'' enc_gpu (rsw_GPU r) @
     opt_member ''disk'' (\<lambda>d. JObj [(''size'', JStr (dw_Size d))]) (rsw_Disk r))"

definition enc_configuration :: "configurationWire \<Rightarrow> json" where
  "enc_configuration c = JObj (
     [(''type'', JStr (cf_Type c)), (''name'', JStr (cf_Name c)), (''image'', JStr (cf_Image c)),
      (''port'', JNum (cf_Port c)), (''replicas'', JNum (cf_Replicas c))] @
     omit_if (cf_Probes c = []) ''probes'' (JArr (map enc_probe (cf_Probes c))) @
     omit_if (cf_Env c = []) ''env'' (JObj (map (\<lambda>(k, v). (k, JStr v)) (cf_Env c))) @
     omit_if (cf_Commands c = []) ''commands'' (enc_strs (cf_Commands c)) @
     opt_member ''resources'' enc_resources (cf_Resources c) @
     omit_if (cf_Backends c = []) ''backends'' (enc_strs (cf_Backends c)) @
     omit_if (cf_Regions c = []) ''regions'' (enc_strs (cf_Regions c)) @
     omit_if (cf_MaxPrice c = []) ''max_price'' (JStr (cf_MaxPrice c)) @
     opt_member ''idle_duration'' JNum (cf_IdleDuration c) @
     omit_if (cf_MaxDuration c = []) ''max_duration'' (JStr (cf_MaxDuration c)))"

definition enc_runSpec :: "runSpecWire \<Rightarrow> json" where
  "enc_runSpec r = JObj ([(''run_name'', JStr (rsp_RunName r)),
     (''configuration'', enc_configuration (rsp_Configuration r))] @
     omit_if (rsp_SSHKeyPub r = []) ''ssh_key_pub'' (JStr (rsp_SSHKeyPub r)))"

section \<open>Messages of the client (wire.go)\<close>

text \<open>A raw message is a JSON tree, or absent; an empty one marshals as null.\<close>

type_synonym raw = "json option"

definition enc_raw :: "raw \<Rightarrow> json" where
  "enc_raw r = (case r of None \<Rightarrow> JNull | Some j \<Rightarrow> j)"

record getPlanRequest =
  gpr_RunSpec :: runSpecWire

definition enc_getPlanRequest :: "getPlanRequest \<Rightarrow> json" where
  "enc_getPlanRequest m = JObj [(''run_spec'', enc_runSpec (gpr_RunSpec m))]"

record runPlanWire =
  rpw_RunSpec :: raw
  rpw_CurrentResource :: raw
  rpw_Action :: string

definition decode_runPlanWire :: "json option \<Rightarrow> runPlanWire option" where
  "decode_runPlanWire body = do {
     j \<leftarrow> body;
     o1 \<leftarrow> json_fields (Some j);
     act \<leftarrow> json_string (json_field o1 ''action'');
     Some \<lparr>rpw_RunSpec = json_field o1 ''run_spec'', rpw_CurrentResource = json_field o1 ''current_resource'', rpw_Action = act\<rparr> }"

record applyPlanInput =
  api_RunSpec :: raw
  api_CurrentResource :: raw

record applyRequest =
  arq_Plan :: applyPlanInput
  arq_Force :: bool

definition enc_applyRequest :: "applyRequest \<Rightarrow> json" where
  "enc_applyRequest m =
     JObj [(''plan'', JObj ((''run_spec'', enc_raw (api_RunSpec (arq_Plan m))) #
              opt_member ''current_resource'' id (api_CurrentResource (arq_Plan m)))),
           (''force'', JBool (arq_Force m))]"

text \<open>\<open>force\<close> is the literal false.\<close>

definition newApplyRequest :: "applyPlanInput \<Rightarrow> applyRequest" where
  "newApplyRequest plan = \<lparr>arq_Plan = plan, arq_Force = False\<rparr>"

record getRunRequest =
  grq_RunName :: string

definition enc_getRunRequest :: "getRunRequest \<Rightarrow> json" where
  "enc_getRunRequest m = JObj [(''run_name'', JStr (grq_RunName m))]"

definition fleetFloorResources :: resourcesWire where
  "fleetFloorResources =
     \<lparr>rsw_CPU = Some \<lparr>cw_Arch = [], cw_Count = ''1..''\<rparr>, rsw_Memory = ''512MB..'', rsw_ShmSize = [],
      rsw_GPU = None, rsw_Disk = Some \<lparr>dw_Size = ''10GB..''\<rparr>\<rparr>"

record fleetConfigurationWire =
  fcw_Type :: string
  fcw_Name :: string
  fcw_Nodes :: string
  fcw_Resources :: resourcesWire
  fcw_Backends :: "string list"
  fcw_IdleDuration :: "int option"

text \<open>The profile is the empty struct.\<close>

record fleetSpecWire =
  fsw_Configuration :: fleetConfigurationWire

definition enc_fleetSpec :: "fleetSpecWire \<Rightarrow> json" where
  "enc_fleetSpec f =
     (let c = fsw_Configuration f
      in JObj [(''configuration'', JObj (
           [(''type'', JStr (fcw_Type c)), (''name'', JStr (fcw_Name c)), (''nodes'', JStr (fcw_Nodes c)),
            (''resources'', enc_resources (fcw_Resources c))] @
           omit_if (fcw_Backends c = []) ''backends'' (enc_strs (fcw_Backends c)) @
           opt_member ''idle_duration'' JNum (fcw_IdleDuration c))),
         (''profile'', JObj [])])"

record getFleetPlanRequest =
  gfq_Spec :: fleetSpecWire

definition enc_getFleetPlanRequest :: "getFleetPlanRequest \<Rightarrow> json" where
  "enc_getFleetPlanRequest m = JObj [(''spec'', enc_fleetSpec (gfq_Spec m))]"

record fleetPlanWire =
  fpw_Spec :: raw
  fpw_EffectiveSpec :: raw

definition decode_fleetPlanWire :: "json option \<Rightarrow> fleetPlanWire option" where
  "decode_fleetPlanWire body = do {
     j \<leftarrow> body;
     o1 \<leftarrow> json_fields (Some j);
     Some \<lparr>fpw_Spec = json_field o1 ''spec'', fpw_EffectiveSpec = json_field o1 ''effective_spec''\<rparr> }"

record applyFleetPlanInput =
  afi_Spec :: raw
  afi_CurrentResource :: raw

record applyFleetPlanRequest =
  afq_Plan :: applyFleetPlanInput
  afq_Force :: bool

definition enc_applyFleetPlanRequest :: "applyFleetPlanRequest \<Rightarrow> json" where
  "enc_applyFleetPlanRequest m =
     JObj [(''plan'', JObj ((''spec'', enc_raw (afi_Spec (afq_Plan m))) #
              opt_member ''current_resource'' id (afi_CurrentResource (afq_Plan m)))),
           (''force'', JBool (afq_Force m))]"

definition newApplyFleetPlanRequest :: "applyFleetPlanInput \<Rightarrow> applyFleetPlanRequest" where
  "newApplyFleetPlanRequest plan = \<lparr>afq_Plan = plan, afq_Force = False\<rparr>"

record getFleetRequest =
  gfr_Name :: string

definition enc_getFleetRequest :: "getFleetRequest \<Rightarrow> json" where
  "enc_getFleetRequest m = JObj [(''name'', JStr (gfr_Name m))]"

record deleteRunsRequest =
  drq_RunsNames :: "string list"

definition enc_deleteRunsRequest :: "deleteRunsRequest \<Rightarrow> json" where
  "enc_deleteRunsRequest m = JObj [(''runs_names'', enc_strs (drq_RunsNames m))]"

record stopRunsRequest =
  srq_RunsNames :: "string list"
  srq_Abort :: bool

definition enc_stopRunsRequest :: "stopRunsRequest \<Rightarrow> json" where
  "enc_stopRunsRequest m = JObj [(''runs_names'', enc_strs (srq_RunsNames m)), (''abort'', JBool (srq_Abort m))]"

section \<open>Messages of the server (mock/http.go)\<close>

record replicasWire =
  rpl_Min :: int
  rpl_Max :: int

definition enc_replicas :: "replicasWire \<Rightarrow> json" where
  "enc_replicas r = JObj [(''min'', JNum (rpl_Min r)), (''max'', JNum (rpl_Max r))]"

definition decode_replicas :: "json option \<Rightarrow> replicasWire option" where
  "decode_replicas j = do {
     o1 \<leftarrow> json_fields j;
     n \<leftarrow> json_int (json_field o1 ''min'');
     m \<leftarrow> json_int (json_field o1 ''max'');
     Some \<lparr>rpl_Min = n, rpl_Max = m\<rparr> }"

record runSpecInWire =
  rin_RunName :: string
  rin_Replicas :: int
  rin_IdleDuration :: "int option"

record getPlanRequestWire =
  gpw_RunSpec :: runSpecInWire

definition decode_getPlanRequestWire :: "json \<Rightarrow> getPlanRequestWire option" where
  "decode_getPlanRequestWire j = do {
     o1 \<leftarrow> json_fields (Some j);
     spec \<leftarrow> json_fields (json_field o1 ''run_spec'');
     name \<leftarrow> json_string (json_field spec ''run_name'');
     cfg \<leftarrow> json_fields (json_field spec ''configuration'');
     n \<leftarrow> json_int (json_field cfg ''replicas'');
     idle \<leftarrow> json_ptr json_int (json_field cfg ''idle_duration'');
     Some \<lparr>gpw_RunSpec = \<lparr>rin_RunName = name, rin_Replicas = n, rin_IdleDuration = idle\<rparr>\<rparr> }"

record normalizedRunSpecWire =
  nrs_RunName :: string
  nrs_Replicas :: replicasWire
  nrs_IdleDuration :: "int option"

definition enc_normalized :: "normalizedRunSpecWire \<Rightarrow> json" where
  "enc_normalized r =
     JObj [(''run_name'', JStr (nrs_RunName r)),
       (''configuration'', JObj ((''replicas'', enc_replicas (nrs_Replicas r)) #
          opt_member ''idle_duration'' JNum (nrs_IdleDuration r)))]"

text \<open>\<open>json.Unmarshal\<close> of an absent raw message is an error.\<close>

definition decode_normalized :: "raw \<Rightarrow> normalizedRunSpecWire option" where
  "decode_normalized r = do {
     j \<leftarrow> r;
     o1 \<leftarrow> json_fields (Some j);
     name \<leftarrow> json_string (json_field o1 ''run_name'');
     cfg \<leftarrow> json_fields (json_field o1 ''configuration'');
     reps \<leftarrow> decode_replicas (json_field cfg ''replicas'');
     idle \<leftarrow> json_ptr json_int (json_field cfg ''idle_duration'');
     Some \<lparr>nrs_RunName = name, nrs_Replicas = reps, nrs_IdleDuration = idle\<rparr> }"

record runPlanResponseWire =
  rpr_RunSpec :: raw
  rpr_CurrentResource :: raw
  rpr_Action :: string

definition enc_runPlanResponse :: "runPlanResponseWire \<Rightarrow> json" where
  "enc_runPlanResponse m = JObj [(''run_spec'', enc_raw (rpr_RunSpec m)),
     (''current_resource'', enc_raw (rpr_CurrentResource m)), (''action'', JStr (rpr_Action m))]"

record applyRequestWire =
  arw_RunSpec :: raw
  arw_CurrentResource :: raw
  arw_Force :: bool

definition decode_applyRequestWire :: "json \<Rightarrow> applyRequestWire option" where
  "decode_applyRequestWire j = do {
     o1 \<leftarrow> json_fields (Some j);
     plan \<leftarrow> json_fields (json_field o1 ''plan'');
     force \<leftarrow> json_bool (json_field o1 ''force'');
     Some \<lparr>arw_RunSpec = json_field plan ''run_spec'', arw_CurrentResource = json_field plan ''current_resource'', arw_Force = force\<rparr> }"

record currentResourceWire =
  crw_ID :: string
  crw_DeploymentNum :: int

text \<open>The anchor: absent and null are no anchor.\<close>

definition decode_anchor :: "raw \<Rightarrow> currentResourceWire option option" where
  "decode_anchor r = json_ptr (\<lambda>v. do {
     o1 \<leftarrow> json_fields v;
     ident \<leftarrow> json_string (json_field o1 ''id'');
     n \<leftarrow> json_int (json_field o1 ''deployment_num'');
     Some \<lparr>crw_ID = ident, crw_DeploymentNum = n\<rparr> }) r"

record getRunRequestWire =
  grw_RunName :: string

definition decode_getRunRequestWire :: "json \<Rightarrow> getRunRequestWire option" where
  "decode_getRunRequestWire j = do {
     o1 \<leftarrow> json_fields (Some j);
     name \<leftarrow> json_string (json_field o1 ''run_name'');
     Some \<lparr>grw_RunName = name\<rparr> }"

record deleteRunsRequestWire =
  drw_RunsNames :: "string list"

definition decode_deleteRunsRequestWire :: "json \<Rightarrow> deleteRunsRequestWire option" where
  "decode_deleteRunsRequestWire j = do {
     o1 \<leftarrow> json_fields (Some j);
     ns \<leftarrow> json_list (\<lambda>x. json_string (Some x)) (json_field o1 ''runs_names'');
     Some \<lparr>drw_RunsNames = ns\<rparr> }"

record stopRunsRequestWire =
  srw_RunsNames :: "string list"
  srw_Abort :: bool

definition decode_stopRunsRequestWire :: "json \<Rightarrow> stopRunsRequestWire option" where
  "decode_stopRunsRequestWire j = do {
     o1 \<leftarrow> json_fields (Some j);
     ns \<leftarrow> json_list (\<lambda>x. json_string (Some x)) (json_field o1 ''runs_names'');
     ab \<leftarrow> json_bool (json_field o1 ''abort'');
     Some \<lparr>srw_RunsNames = ns, srw_Abort = ab\<rparr> }"

record mockProbeWire =
  mpw_SuccessStreak :: int

record mockJobSubmissionWire =
  mjs_DeploymentNum :: int
  mjs_Status :: string
  mjs_Probes :: "mockProbeWire list"

record mockJobWire =
  mjw_JobSubmissions :: "mockJobSubmissionWire list"

record serviceWire =
  svw_URL :: string

record runOutWire =
  ro_ID :: string
  ro_SubmittedAt :: gotime
  ro_Status :: string
  ro_DeploymentNum :: int
  ro_Jobs :: "mockJobWire list"
  ro_Service :: "serviceWire option"
  ro_RunName :: string
  ro_Replicas :: replicasWire
  ro_IdleDuration :: "int option"

text \<open>A nil slice of jobs and a nil service marshal as null.\<close>

definition enc_runOut :: "runOutWire \<Rightarrow> json" where
  "enc_runOut r = JObj
     [(''id'', JStr (ro_ID r)), (''submitted_at'', JTime (ro_SubmittedAt r)),
      (''status'', JStr (ro_Status r)), (''deployment_num'', JNum (ro_DeploymentNum r)),
      (''jobs'', if ro_Jobs r = [] then JNull
         else JArr (map (\<lambda>jb. JObj [(''job_submissions'', JArr (map (\<lambda>sub. JObj
           [(''deployment_num'', JNum (mjs_DeploymentNum sub)), (''status'', JStr (mjs_Status sub)),
            (''probes'', JArr (map (\<lambda>p. JObj [(''success_streak'', JNum (mpw_SuccessStreak p))]) (mjs_Probes sub)))])
           (mjw_JobSubmissions jb)))]) (ro_Jobs r))),
      (''service'', case ro_Service r of None \<Rightarrow> JNull | Some sv \<Rightarrow> JObj [(''url'', JStr (svw_URL sv))]),
      (''run_spec'', JObj [(''run_name'', JStr (ro_RunName r)),
         (''configuration'', JObj ((''replicas'', enc_replicas (ro_Replicas r)) #
             opt_member ''idle_duration'' JNum (ro_IdleDuration r)))])]"

record getFleetRequestWire =
  gfw_Name :: string

definition decode_getFleetRequestWire :: "json \<Rightarrow> getFleetRequestWire option" where
  "decode_getFleetRequestWire j = do {
     o1 \<leftarrow> json_fields (Some j);
     name \<leftarrow> json_string (json_field o1 ''name'');
     Some \<lparr>gfw_Name = name\<rparr> }"

record mockFleetConfigurationWire =
  mfc_Name :: string
  mfc_Backends :: "string list"

record mockFleetSpecWire =
  mfs_Configuration :: mockFleetConfigurationWire

definition enc_mockFleetSpec :: "mockFleetSpecWire \<Rightarrow> json" where
  "enc_mockFleetSpec f = JObj [(''configuration'', JObj [(''name'', JStr (mfc_Name (mfs_Configuration f))),
     (''backends'', enc_strs (mfc_Backends (mfs_Configuration f)))])]"

definition decode_mockFleetSpec :: "json option \<Rightarrow> mockFleetSpecWire option" where
  "decode_mockFleetSpec j = do {
     o1 \<leftarrow> json_fields j;
     cfg \<leftarrow> json_fields (json_field o1 ''configuration'');
     name \<leftarrow> json_string (json_field cfg ''name'');
     bs \<leftarrow> json_list (\<lambda>x. json_string (Some x)) (json_field cfg ''backends'');
     Some \<lparr>mfs_Configuration = \<lparr>mfc_Name = name, mfc_Backends = bs\<rparr>\<rparr> }"

record getFleetPlanRequestWire =
  gfp_Spec :: mockFleetSpecWire

definition decode_getFleetPlanRequestWire :: "json \<Rightarrow> getFleetPlanRequestWire option" where
  "decode_getFleetPlanRequestWire j = do {
     o1 \<leftarrow> json_fields (Some j);
     spec \<leftarrow> decode_mockFleetSpec (json_field o1 ''spec'');
     Some \<lparr>gfp_Spec = spec\<rparr> }"

record fleetPlanResponseWire =
  fpr_Spec :: raw

definition enc_fleetPlanResponse :: "fleetPlanResponseWire \<Rightarrow> json" where
  "enc_fleetPlanResponse m = JObj [(''spec'', enc_raw (fpr_Spec m))]"

record applyFleetPlanRequestWire =
  afw_Spec :: raw
  afw_Force :: bool

definition decode_applyFleetPlanRequestWire :: "json \<Rightarrow> applyFleetPlanRequestWire option" where
  "decode_applyFleetPlanRequestWire j = do {
     o1 \<leftarrow> json_fields (Some j);
     plan \<leftarrow> json_fields (json_field o1 ''plan'');
     force \<leftarrow> json_bool (json_field o1 ''force'');
     Some \<lparr>afw_Spec = json_field plan ''spec'', afw_Force = force\<rparr> }"

section \<open>Reading members of a document\<close>

lemma json_field_simps:
  "json_field [] f = None"
  "json_field ((k, v) # kvs) f =
     (case json_field kvs f of Some x \<Rightarrow> Some x | None \<Rightarrow> if ToLower k = f then Some v else None)"
  "json_field (xs @ ys) f = (case json_field ys f of Some x \<Rightarrow> Some x | None \<Rightarrow> json_field xs f)"
  "json_field (omit_if b k v) f = (if b \<or> ToLower k \<noteq> f then None else Some v)"
  "json_field (opt_member k enc w) f = (if ToLower k = f then map_option enc w else None)"
  by (auto simp: json_field_def omit_if_def opt_member_def split: option.splits)

lemma lower_keys:
  "ToLower ''type'' = ''type''" "ToLower ''url'' = ''url''" "ToLower ''method'' = ''method''"
  "ToLower ''timeout'' = ''timeout''" "ToLower ''interval'' = ''interval''" "ToLower ''ready_after'' = ''ready_after''"
  "ToLower ''name'' = ''name''" "ToLower ''image'' = ''image''" "ToLower ''port'' = ''port''"
  "ToLower ''replicas'' = ''replicas''" "ToLower ''probes'' = ''probes''" "ToLower ''env'' = ''env''"
  "ToLower ''commands'' = ''commands''" "ToLower ''resources'' = ''resources''" "ToLower ''backends'' = ''backends''"
  "ToLower ''regions'' = ''regions''" "ToLower ''max_price'' = ''max_price''" "ToLower ''idle_duration'' = ''idle_duration''"
  "ToLower ''max_duration'' = ''max_duration''" "ToLower ''run_name'' = ''run_name''" "ToLower ''configuration'' = ''configuration''"
  "ToLower ''ssh_key_pub'' = ''ssh_key_pub''" "ToLower ''run_spec'' = ''run_spec''" "ToLower ''plan'' = ''plan''"
  "ToLower ''current_resource'' = ''current_resource''" "ToLower ''force'' = ''force''" "ToLower ''id'' = ''id''"
  "ToLower ''submitted_at'' = ''submitted_at''" "ToLower ''status'' = ''status''" "ToLower ''deployment_num'' = ''deployment_num''"
  "ToLower ''jobs'' = ''jobs''" "ToLower ''service'' = ''service''" "ToLower ''min'' = ''min''"
  "ToLower ''max'' = ''max''" "ToLower ''job_submissions'' = ''job_submissions''" "ToLower ''success_streak'' = ''success_streak''"
  "ToLower ''action'' = ''action''" "ToLower ''runs_names'' = ''runs_names''" "ToLower ''abort'' = ''abort''"
  "ToLower ''msg'' = ''msg''" "ToLower ''code'' = ''code''" "ToLower ''detail'' = ''detail''"
  "ToLower ''spec'' = ''spec''" "ToLower ''effective_spec'' = ''effective_spec''" "ToLower ''nodes'' = ''nodes''"
  "ToLower ''profile'' = ''profile''"
  by (simp_all add: ToLower_def lower_char_def Let_def)

lemmas json_read = json_field_simps lower_keys json_fields_def json_string_def json_int_def
  json_bool_def json_ptr_def json_list_def json_time_def

lemmas wire_encodings = enc_raw_def enc_getPlanRequest_def enc_applyRequest_def enc_getRunRequest_def enc_fleetSpec_def
  enc_getFleetPlanRequest_def enc_applyFleetPlanRequest_def enc_getFleetRequest_def enc_deleteRunsRequest_def
  enc_stopRunsRequest_def enc_replicas_def enc_normalized_def enc_runPlanResponse_def enc_mockFleetSpec_def
  enc_fleetPlanResponse_def enc_strs_def

lemmas wire_decodings = decode_runPlanWire_def decode_fleetPlanWire_def decode_replicas_def decode_getPlanRequestWire_def
  decode_normalized_def decode_applyRequestWire_def decode_getRunRequestWire_def decode_deleteRunsRequestWire_def
  decode_stopRunsRequestWire_def decode_getFleetRequestWire_def decode_mockFleetSpec_def decode_getFleetPlanRequestWire_def
  decode_applyFleetPlanRequestWire_def

lemma configuration_fields:
  assumes "enc_configuration c = JObj kvs"
  shows "json_field kvs ''replicas'' = Some (JNum (cf_Replicas c))"
    and "json_field kvs ''idle_duration'' = map_option JNum (cf_IdleDuration c)"
proof -
  note kvs = assms [unfolded enc_configuration_def json.inject, symmetric]
  show "json_field kvs ''replicas'' = Some (JNum (cf_Replicas c))"
    unfolding kvs by (simp add: json_field_simps lower_keys)
  show "json_field kvs ''idle_duration'' = map_option JNum (cf_IdleDuration c)"
    unfolding kvs by (cases "cf_IdleDuration c") (simp_all add: json_field_simps lower_keys)
qed

lemma read_string: "json_string (Some (JStr s)) = Some s"
  by (simp add: json_string_def)

lemma read_no_strings: "json_list (\<lambda>x. json_string (Some x)) None = Some []"
  by (simp add: json_list_def)

lemma read_strings: "json_list (\<lambda>x. json_string (Some x)) (Some (JArr (map JStr ss))) = Some ss"
  by (induction ss) (simp_all add: json_list_def json_string_def)

lemma read_idle:
  assumes "\<And>d. idle = Some d \<Longrightarrow> is_duration d"
  shows "json_ptr json_int (map_option JNum idle) = Some idle"
  using assms by (cases idle) (auto simp: json_ptr_def json_int_def)

section \<open>Both sides agree\<close>

text \<open>\<open>view m\<close> is the part of \<open>m\<close> the receiver declares; \<open>ok\<close> says its numbers fit an int.\<close>

locale wire_message =
  fixes enc :: "'c \<Rightarrow> json" and dec :: "json \<Rightarrow> 's option" and view :: "'c \<Rightarrow> 's" and ok :: "'c \<Rightarrow> bool"
  assumes agrees: "ok m \<Longrightarrow> dec (enc m) = Some (view m)"
begin

text \<open>A handler that decodes first works on the view; it never sees two messages as one that the views tell apart.\<close>

lemma handled: "ok m \<Longrightarrow> (case dec (enc m) of None \<Rightarrow> e | Some w \<Rightarrow> f w) = f (view m)"
  by (simp add: agrees)

lemma told_apart: "ok m \<Longrightarrow> ok m' \<Longrightarrow> view m \<noteq> view m' \<Longrightarrow> enc m \<noteq> enc m'"
  using agrees by (metis option.inject)

end

definition plan_view :: "getPlanRequest \<Rightarrow> getPlanRequestWire" where
  "plan_view m = \<lparr>gpw_RunSpec = \<lparr>rin_RunName = rsp_RunName (gpr_RunSpec m),
     rin_Replicas = cf_Replicas (rsp_Configuration (gpr_RunSpec m)),
     rin_IdleDuration = cf_IdleDuration (rsp_Configuration (gpr_RunSpec m))\<rparr>\<rparr>"

definition plan_fits :: "getPlanRequest \<Rightarrow> bool" where
  "plan_fits m \<longleftrightarrow> is_duration (cf_Replicas (rsp_Configuration (gpr_RunSpec m))) \<and>
     (case cf_IdleDuration (rsp_Configuration (gpr_RunSpec m)) of None \<Rightarrow> True | Some d \<Rightarrow> is_duration d)"

interpretation get_plan_msg: wire_message enc_getPlanRequest decode_getPlanRequestWire plan_view plan_fits
proof
  fix m assume fits: "plan_fits m"
  let ?c = "rsp_Configuration (gpr_RunSpec m)"
  obtain kvs where kvs: "enc_configuration ?c = JObj kvs"
    by (simp add: enc_configuration_def)
  have idle: "json_ptr json_int (map_option JNum (cf_IdleDuration ?c)) = Some (cf_IdleDuration ?c)"
    using fits by (intro read_idle) (simp add: plan_fits_def)
  show "decode_getPlanRequestWire (enc_getPlanRequest m) = Some (plan_view m)"
    using fits by (simp add: wire_encodings wire_decodings enc_runSpec_def kvs json_field_simps lower_keys json_fields_def
        json_string_def configuration_fields [OF kvs] json_int_def [of "Some (JNum _)"] idle plan_fits_def plan_view_def)
qed

definition apply_view :: "applyRequest \<Rightarrow> applyRequestWire" where
  "apply_view m = \<lparr>arw_RunSpec = Some (enc_raw (api_RunSpec (arq_Plan m))),
     arw_CurrentResource = api_CurrentResource (arq_Plan m), arw_Force = arq_Force m\<rparr>"

interpretation apply_msg: wire_message enc_applyRequest decode_applyRequestWire apply_view "\<lambda>_. True"
  by unfold_locales
    (simp add: enc_applyRequest_def decode_applyRequestWire_def apply_view_def json_read option.map_id option.case_eq_if)

interpretation get_run_msg: wire_message enc_getRunRequest decode_getRunRequestWire "\<lambda>m. \<lparr>grw_RunName = grq_RunName m\<rparr>" "\<lambda>_. True"
  by unfold_locales (simp add: wire_encodings wire_decodings json_read)

interpretation delete_msg: wire_message enc_deleteRunsRequest decode_deleteRunsRequestWire
  "\<lambda>m. \<lparr>drw_RunsNames = drq_RunsNames m\<rparr>" "\<lambda>_. True"
  by unfold_locales
    (simp add: wire_encodings wire_decodings json_field_simps lower_keys json_fields_def read_strings)

interpretation stop_msg: wire_message enc_stopRunsRequest decode_stopRunsRequestWire
  "\<lambda>m. \<lparr>srw_RunsNames = srq_RunsNames m, srw_Abort = srq_Abort m\<rparr>" "\<lambda>_. True"
  by unfold_locales
    (simp add: wire_encodings wire_decodings json_field_simps lower_keys json_fields_def json_bool_def read_strings)

interpretation get_fleet_msg: wire_message enc_getFleetRequest decode_getFleetRequestWire "\<lambda>m. \<lparr>gfw_Name = gfr_Name m\<rparr>" "\<lambda>_. True"
  by unfold_locales (simp add: wire_encodings wire_decodings json_read)

definition fleet_view :: "fleetSpecWire \<Rightarrow> mockFleetSpecWire" where
  "fleet_view f = \<lparr>mfs_Configuration = \<lparr>mfc_Name = fcw_Name (fsw_Configuration f), mfc_Backends = fcw_Backends (fsw_Configuration f)\<rparr>\<rparr>"

interpretation fleet_spec_msg: wire_message enc_fleetSpec "\<lambda>j. decode_mockFleetSpec (Some j)" fleet_view "\<lambda>_. True"
proof
  fix f :: fleetSpecWire
  show "decode_mockFleetSpec (Some (enc_fleetSpec f)) = Some (fleet_view f)"
    by (cases "fcw_Backends (fsw_Configuration f) = []")
      (simp_all add: enc_fleetSpec_def decode_mockFleetSpec_def fleet_view_def Let_def json_field_simps lower_keys
        json_fields_def read_string enc_strs_def read_strings read_no_strings option.case_eq_if)
qed

interpretation get_fleet_plan_msg: wire_message enc_getFleetPlanRequest decode_getFleetPlanRequestWire
  "\<lambda>m. \<lparr>gfp_Spec = fleet_view (gfq_Spec m)\<rparr>" "\<lambda>_. True"
  using fleet_spec_msg.agrees [OF TrueI]
  by unfold_locales (simp add: enc_getFleetPlanRequest_def decode_getFleetPlanRequestWire_def json_field_simps lower_keys json_fields_def)

interpretation apply_fleet_msg: wire_message enc_applyFleetPlanRequest decode_applyFleetPlanRequestWire
  "\<lambda>m. \<lparr>afw_Spec = Some (enc_raw (afi_Spec (afq_Plan m))), afw_Force = afq_Force m\<rparr>" "\<lambda>_. True"
  by unfold_locales
    (simp add: enc_applyFleetPlanRequest_def decode_applyFleetPlanRequestWire_def json_read option.case_eq_if)

interpretation run_plan_msg: wire_message enc_runPlanResponse "\<lambda>j. decode_runPlanWire (Some j)"
  "\<lambda>m. \<lparr>rpw_RunSpec = Some (enc_raw (rpr_RunSpec m)), rpw_CurrentResource = Some (enc_raw (rpr_CurrentResource m)), rpw_Action = rpr_Action m\<rparr>"
  "\<lambda>_. True"
  by unfold_locales (simp add: enc_runPlanResponse_def decode_runPlanWire_def json_read)

interpretation fleet_plan_msg: wire_message enc_fleetPlanResponse "\<lambda>j. decode_fleetPlanWire (Some j)"
  "\<lambda>m. \<lparr>fpw_Spec = Some (enc_raw (fpr_Spec m)), fpw_EffectiveSpec = None\<rparr>" "\<lambda>_. True"
  by unfold_locales (simp add: enc_fleetPlanResponse_def decode_fleetPlanWire_def json_read)

text \<open>The spec a plan carries back is read again by the server that wrote it.\<close>

definition spec_fits :: "normalizedRunSpecWire \<Rightarrow> bool" where
  "spec_fits r \<longleftrightarrow> is_duration (rpl_Min (nrs_Replicas r)) \<and> is_duration (rpl_Max (nrs_Replicas r)) \<and>
     (case nrs_IdleDuration r of None \<Rightarrow> True | Some d \<Rightarrow> is_duration d)"

interpretation normalized_msg: wire_message enc_normalized "\<lambda>j. decode_normalized (Some j)" id spec_fits
proof
  fix r assume "spec_fits r"
  then show "decode_normalized (Some (enc_normalized r)) = Some (id r)"
    by (cases "nrs_IdleDuration r")
      (simp_all add: wire_encodings wire_decodings spec_fits_def json_field_simps lower_keys json_fields_def json_string_def
        json_int_def json_ptr_def)
qed

interpretation mock_fleet_msg: wire_message enc_mockFleetSpec "\<lambda>j. decode_mockFleetSpec (Some j)" id "\<lambda>_. True"
  by unfold_locales
    (simp add: enc_mockFleetSpec_def decode_mockFleetSpec_def enc_strs_def json_field_simps lower_keys json_fields_def
      read_strings read_string)

end
