(* ===== verification/Dstack_Client.thy ===== *)
theory Dstack_Client
  imports Dstack_Wire
begin

text \<open>
  The HTTP client of \<open>internal/dstack/http.go\<close> with the request encodings of \<open>wire.go\<close>, and the
  HTTP surface of the in-memory server (\<open>internal/dstack/mock/http.go\<close>). The network between them
  is a transport: path, Authorization header and request document to a response, with the
  server's state threaded through. The last section connects the two: every client operation
  against the in-memory server is the corresponding method of that server.
\<close>

section \<open>Transport\<close>

text \<open>A failed exchange, or a status with the body's text and its JSON tree (if it is JSON).\<close>

datatype http_outcome = HTTPFailed string | HTTPResponse int string "json option"

type_synonym 's transport = "string \<Rightarrow> string \<Rightarrow> json \<Rightarrow> 's \<Rightarrow> http_outcome \<times> 's"

record HTTPClient =
  hc_project :: string
  hc_token :: string

definition post ::
  "'s transport \<Rightarrow> HTTPClient \<Rightarrow> string \<Rightarrow> json \<Rightarrow> 's \<Rightarrow> (dstack_error + json option) \<times> 's" where
  "post tr c path payload s =
     (case tr path (''Bearer '' @ hc_token c) payload s of
        (HTTPFailed msg, s') \<Rightarrow> (Inl (OtherError msg), s')
      | (HTTPResponse status raw body, s') \<Rightarrow>
          (case classifyError status raw body of
             Some e \<Rightarrow> (Inl e, s') | None \<Rightarrow> (Inr body, s')))"

definition projectPath :: "HTTPClient \<Rightarrow> string \<Rightarrow> string" where
  "projectPath c sfx = ''/api/project/'' @ hc_project c @ ''/'' @ sfx"

definition runsPath :: "HTTPClient \<Rightarrow> string \<Rightarrow> string" where
  "runsPath c op = projectPath c (''runs/'' @ op)"

section \<open>Request bodies (http.go)\<close>

text \<open>\<open>probe\<close> and \<open>resources\<close> of http.go.\<close>

definition probe_wire :: "Probe option \<Rightarrow> probeConfigWire" where
  "probe_wire p =
     (let w = \<lparr>pw_Type = ''http'', pw_URL = defaultProbePath, pw_Method = [], pw_Timeout = 0,
               pw_Interval = probeIntervalSeconds, pw_ReadyAfter = defaultReadyAfter\<rparr>
      in case p of
           None \<Rightarrow> w
         | Some q \<Rightarrow>
             \<lparr>pw_Type = ''http'',
              pw_URL = (if pb_Path q \<noteq> [] then pb_Path q else pw_URL w),
              pw_Method = pb_Method q, pw_Timeout = pb_TimeoutSeconds q,
              pw_Interval = (if 0 < pb_IntervalSeconds q then pb_IntervalSeconds q else pw_Interval w),
              pw_ReadyAfter = (if 0 < pb_ReadyAfter q then pb_ReadyAfter q else pw_ReadyAfter w)\<rparr>)"

definition resources_wire :: "Resources option \<Rightarrow> resourcesWire option" where
  "resources_wire r =
     map_option (\<lambda>r. \<lparr>
       rsw_CPU = (if rs_CPUArch r \<noteq> [] \<or> rs_CPUCount r \<noteq> []
                  then Some \<lparr>cw_Arch = rs_CPUArch r, cw_Count = rs_CPUCount r\<rparr> else None),
       rsw_Memory = rs_Memory r, rsw_ShmSize = rs_ShmSize r,
       rsw_GPU = map_option (\<lambda>g. \<lparr>gw_Vendor = g_Vendor g, gw_Name = g_Name g, gw_Count = g_Count g,
                   gw_Memory = g_Memory g, gw_TotalMemory = g_TotalMemory g,
                   gw_ComputeCapability = g_ComputeCapability g\<rparr>) (rs_GPU r),
       rsw_Disk = (if rs_Disk r \<noteq> [] then Some \<lparr>dw_Size = rs_Disk r\<rparr> else None)\<rparr>) r"

definition runSpec :: "ApplyRequest \<Rightarrow> runSpecWire" where
  "runSpec req =
     \<lparr>rsp_RunName = req_Name req,
      rsp_Configuration =
        \<lparr>cf_Type = ''service'', cf_Name = req_Name req, cf_Image = req_Image req,
         cf_Port = req_Port req, cf_Replicas = req_Replicas req,
         cf_Probes = [probe_wire (req_Probe req)], cf_Env = req_Env req,
         cf_Commands = req_Args req, cf_Resources = resources_wire (req_Resources req),
         cf_Backends = pc_Backends (req_Placement req), cf_Regions = pc_Regions (req_Placement req),
         cf_MaxPrice = pc_MaxPrice (req_Placement req),
         cf_IdleDuration = dstackSecondsPtr (req_IdleDuration req),
         cf_MaxDuration = dstackDuration (req_MaxDuration req)\<rparr>,
      rsp_SSHKeyPub = req_SSHKeyPub req\<rparr>"

section \<open>Client operations\<close>

text \<open>The plan is echoed back as the server sent it; the anchor is the run the caller observed.\<close>

definition client_Apply ::
  "'s transport \<Rightarrow> HTTPClient \<Rightarrow> ApplyRequest \<Rightarrow> 's \<Rightarrow> (dstack_error + Run) \<times> 's" where
  "client_Apply tr c req s =
     (case post tr c (runsPath c ''get_plan'') (enc_getPlanRequest \<lparr>gpr_RunSpec = runSpec req\<rparr>) s of
        (Inl e, s1) \<Rightarrow> (Inl e, s1)
      | (Inr plan, s1) \<Rightarrow>
          (case decode_runPlanWire plan of
             None \<Rightarrow> (Inl (OtherError ''dstack: decode run plan''), s1)
           | Some planned \<Rightarrow>
               let input = \<lparr>api_RunSpec = rpw_RunSpec planned, api_CurrentResource = map_option run_raw (req_Current req)\<rparr>
               in (case post tr c (runsPath c ''apply'') (enc_applyRequest (newApplyRequest input)) s1 of
                     (Inl e, s2) \<Rightarrow> (Inl e, s2)
                   | (Inr body, s2) \<Rightarrow> (decodeRun body, s2))))"

definition client_Get ::
  "'s transport \<Rightarrow> HTTPClient \<Rightarrow> string \<Rightarrow> 's \<Rightarrow> (dstack_error + Run) \<times> 's" where
  "client_Get tr c name s =
     (case post tr c (runsPath c ''get'') (enc_getRunRequest \<lparr>grq_RunName = name\<rparr>) s of
        (Inl e, s') \<Rightarrow> (Inl e, s')
      | (Inr body, s') \<Rightarrow> (decodeRun body, s'))"

definition client_Stop ::
  "'s transport \<Rightarrow> HTTPClient \<Rightarrow> string \<Rightarrow> 's \<Rightarrow> dstack_error option \<times> 's" where
  "client_Stop tr c name s =
     (case post tr c (runsPath c ''stop'') (enc_stopRunsRequest \<lparr>srq_RunsNames = [name], srq_Abort = True\<rparr>) s of
        (Inl e, s') \<Rightarrow> (Some e, s') | (Inr _, s') \<Rightarrow> (None, s'))"

definition client_Delete ::
  "'s transport \<Rightarrow> HTTPClient \<Rightarrow> string \<Rightarrow> 's \<Rightarrow> dstack_error option \<times> 's" where
  "client_Delete tr c name s =
     (case post tr c (runsPath c ''delete'') (enc_deleteRunsRequest \<lparr>drq_RunsNames = [name]\<rparr>) s of
        (Inl e, s') \<Rightarrow> (Some e, s') | (Inr _, s') \<Rightarrow> (None, s'))"

fun decode_runs :: "json list \<Rightarrow> dstack_error + Run list" where
  "decode_runs [] = Inr []"
| "decode_runs (j # js) =
     (case decodeRun (Some j) of
        Inl e \<Rightarrow> Inl e
      | Inr r \<Rightarrow> (case decode_runs js of Inl e \<Rightarrow> Inl e | Inr rs \<Rightarrow> Inr (r # rs)))"

definition client_ListRuns ::
  "'s transport \<Rightarrow> HTTPClient \<Rightarrow> 's \<Rightarrow> (dstack_error + Run list) \<times> 's" where
  "client_ListRuns tr c s =
     (case post tr c ''/api/runs/list'' (JObj []) s of
        (Inl e, s') \<Rightarrow> (Inl e, s')
      | (Inr body, s') \<Rightarrow>
          (case Option.bind body (\<lambda>j. json_list Some (Some j)) of
             None \<Rightarrow> (Inl (OtherError ''dstack: decode run list''), s')
           | Some wires \<Rightarrow> (decode_runs wires, s')))"

definition client_BackendConfigured ::
  "'s transport \<Rightarrow> HTTPClient \<Rightarrow> string \<Rightarrow> 's \<Rightarrow> (dstack_error + bool) \<times> 's" where
  "client_BackendConfigured tr c backend s =
     (case post tr c (projectPath c (''backends/'' @ backend @ ''/config_info'')) (JObj []) s of
        (Inr _, s') \<Rightarrow> (Inr True, s')
      | (Inl (HTTPError code k m), s') \<Rightarrow>
          (if code = 400 then (Inr False, s') else (Inl (HTTPError code k m), s'))
      | (Inl e, s') \<Rightarrow> (Inl e, s'))"

text \<open>A decoded fleet: its status and the backends it admits (none listed admits all).\<close>

definition decode_fleet :: "json \<Rightarrow> (string \<times> string list) option" where
  "decode_fleet j = do {
     o1 \<leftarrow> json_fields (Some j);
     st \<leftarrow> json_string (json_field o1 ''status'');
     spec \<leftarrow> json_fields (json_field o1 ''spec'');
     cfg \<leftarrow> json_fields (json_field spec ''configuration'');
     bs \<leftarrow> json_list (\<lambda>x. json_string (Some x)) (json_field cfg ''backends'');
     Some (st, bs) }"

fun fleet_admits :: "string \<Rightarrow> (string \<times> string list) list \<Rightarrow> bool" where
  "fleet_admits backend [] = False"
| "fleet_admits backend ((st, bs) # fs) =
     (if st \<noteq> ''active'' then fleet_admits backend fs
      else if bs = [] then True
      else if backend \<in> set bs then True else fleet_admits backend fs)"

definition client_HasFleetFor ::
  "'s transport \<Rightarrow> HTTPClient \<Rightarrow> string \<Rightarrow> 's \<Rightarrow> (dstack_error + bool) \<times> 's" where
  "client_HasFleetFor tr c backend s =
     (case post tr c (projectPath c ''fleets/list'') (JObj []) s of
        (Inl e, s') \<Rightarrow> (Inl e, s')
      | (Inr body, s') \<Rightarrow>
          (case Option.bind body (\<lambda>j. json_list decode_fleet (Some j)) of
             None \<Rightarrow> (Inl (OtherError ''dstack: decode fleets''), s')
           | Some fs \<Rightarrow> (Inr (fleet_admits backend fs), s')))"

definition fleet_spec :: "FleetSpec \<Rightarrow> fleetSpecWire" where
  "fleet_spec f =
     \<lparr>fsw_Configuration = \<lparr>fcw_Type = ''fleet'', fcw_Name = fl_Name f, fcw_Nodes = ''0..'', fcw_Resources = fleetFloorResources,
        fcw_Backends = fl_Backends f, fcw_IdleDuration = Some (dstackSeconds (fl_IdleDuration f))\<rparr>\<rparr>"

definition createFleet ::
  "'s transport \<Rightarrow> HTTPClient \<Rightarrow> FleetSpec \<Rightarrow> 's \<Rightarrow> dstack_error option \<times> 's" where
  "createFleet tr c f s =
     (case post tr c (projectPath c ''fleets/get_plan'') (enc_getFleetPlanRequest \<lparr>gfq_Spec = fleet_spec f\<rparr>) s of
        (Inl e, s1) \<Rightarrow> (Some e, s1)
      | (Inr plan, s1) \<Rightarrow>
          (case decode_fleetPlanWire plan of
             None \<Rightarrow> (Some (OtherError ''dstack: decode fleet plan''), s1)
           | Some planned \<Rightarrow>
               let effective = (case fpw_EffectiveSpec planned of
                                  None \<Rightarrow> fpw_Spec planned
                                | Some JNull \<Rightarrow> fpw_Spec planned
                                | Some j \<Rightarrow> Some j);
                   input = \<lparr>afi_Spec = effective, afi_CurrentResource = None\<rparr>
               in (case post tr c (projectPath c ''fleets/apply'') (enc_applyFleetPlanRequest (newApplyFleetPlanRequest input)) s1 of
                     (Inl e, s2) \<Rightarrow> (Some e, s2) | (Inr _, s2) \<Rightarrow> (None, s2))))"

definition client_EnsureFleet ::
  "'s transport \<Rightarrow> HTTPClient \<Rightarrow> FleetSpec \<Rightarrow> 's \<Rightarrow> dstack_error option \<times> 's" where
  "client_EnsureFleet tr c f s =
     (case post tr c (projectPath c ''fleets/get'') (enc_getFleetRequest \<lparr>gfr_Name = fl_Name f\<rparr>) s of
        (Inr _, s') \<Rightarrow> (None, s')
      | (Inl e, s') \<Rightarrow> if \<not> err_is e ErrNotFound then (Some e, s') else createFleet tr c f s')"

section \<open>The in-memory server over HTTP (mock/http.go)\<close>

definition wireDefaultReadyAfter :: int where
  "wireDefaultReadyAfter = 2"

definition runToWire :: "mockRun \<Rightarrow> runOutWire" where
  "runToWire run =
     \<lparr>ro_ID = kr_RunID run, ro_SubmittedAt = kr_SubmittedAt run, ro_Status = kr_Status run,
      ro_DeploymentNum = kr_DeploymentNum run,
      ro_Jobs = (if 0 < kr_Replicas run
        then [\<lparr>mjw_JobSubmissions = [\<lparr>mjs_DeploymentNum = kr_DeploymentNum run, mjs_Status = ''running'',
                 mjs_Probes = [\<lparr>mpw_SuccessStreak = if kr_ProbesReady run then wireDefaultReadyAfter else 0\<rparr>]\<rparr>]\<rparr>]
        else []),
      ro_Service = (if kr_ServiceURL run \<noteq> [] then Some \<lparr>svw_URL = kr_ServiceURL run\<rparr> else None),
      ro_RunName = kr_Name run, ro_Replicas = \<lparr>rpl_Min = kr_Replicas run, rpl_Max = kr_Replicas run\<rparr>,
      ro_IdleDuration = kr_IdleDuration run\<rparr>"

abbreviation run_json :: "mockRun \<Rightarrow> json" where
  "run_json run \<equiv> enc_runOut (runToWire run)"

definition writeJSON :: "(json \<Rightarrow> string) \<Rightarrow> json \<Rightarrow> http_outcome" where
  "writeJSON render v = HTTPResponse 200 (render v) (Some v)"

definition writeError :: "(json \<Rightarrow> string) \<Rightarrow> int \<Rightarrow> string \<Rightarrow> string \<Rightarrow> http_outcome" where
  "writeError render status msg code =
     (let v = JObj [(''detail'', JArr [JObj [(''msg'', JStr msg), (''code'', JStr code)]])]
      in HTTPResponse status (render v) (Some v))"

definition bearerToken :: "string \<Rightarrow> string" where
  "bearerToken auth = TrimPrefix auth ''Bearer ''"

definition decodeFailed :: string where
  "decodeFailed = ''json: cannot unmarshal''"

text \<open>\<open>get_plan\<close> turns the plain replica count into a range and reports no current resource.\<close>

definition normalize :: "runSpecInWire \<Rightarrow> normalizedRunSpecWire" where
  "normalize r = \<lparr>nrs_RunName = rin_RunName r, nrs_Replicas = \<lparr>rpl_Min = rin_Replicas r, rpl_Max = rin_Replicas r\<rparr>,
     nrs_IdleDuration = rin_IdleDuration r\<rparr>"

definition handleGetPlan :: "(json \<Rightarrow> string) \<Rightarrow> json \<Rightarrow> http_outcome" where
  "handleGetPlan render j =
     (case decode_getPlanRequestWire j of
        None \<Rightarrow> writeError render 400 decodeFailed ''error''
      | Some req \<Rightarrow>
          writeJSON render (enc_runPlanResponse
            \<lparr>rpr_RunSpec = Some (enc_normalized (normalize (gpw_RunSpec req))), rpr_CurrentResource = None, rpr_Action = ''create''\<rparr>))"

definition anchor_run :: "currentResourceWire \<Rightarrow> mockRun" where
  "anchor_run c =
     \<lparr>kr_Name = [], kr_RunID = crw_ID c, kr_DeploymentNum = crw_DeploymentNum c, kr_Replicas = 0,
      kr_ProbesReady = False, kr_Status = [], kr_ServiceURL = [], kr_SubmittedAt = 0,
      kr_IdleDuration = None\<rparr>"

definition handleApply ::
  "(json \<Rightarrow> string) \<Rightarrow> gotime \<Rightarrow> json \<Rightarrow> mockServer \<Rightarrow> http_outcome \<times> mockServer" where
  "handleApply render now j s =
     (case decode_applyRequestWire j of
        None \<Rightarrow> (writeError render 400 decodeFailed ''error'', s)
      | Some req \<Rightarrow>
          (case decode_normalized (arw_RunSpec req) of
             None \<Rightarrow> (writeError render 400 (''invalid run_spec: '' @ decodeFailed) ''error'', s)
           | Some spec \<Rightarrow>
               (case decode_anchor (arw_CurrentResource req) of
                  None \<Rightarrow> (writeError render 400 (''invalid current_resource: '' @ decodeFailed) ''error'', s)
                | Some cur \<Rightarrow>
                    (case mock_Apply now
                            \<lparr>ka_Name = nrs_RunName spec, ka_Replicas = rpl_Min (nrs_Replicas spec),
                             ka_Current = map_option anchor_run cur, ka_Force = arw_Force req,
                             ka_FleetIdleDuration = 0, ka_IdleDuration = nrs_IdleDuration spec\<rparr> s of
                       (Inr run, s') \<Rightarrow> (writeJSON render (run_json run), s')
                     | (Inl MErrCannotOverride, s') \<Rightarrow>
                         (writeError render 400 ''Cannot override active run. Stop the run first.'' ''error'', s')
                     | (Inl MErrForceForbidden, s') \<Rightarrow>
                         (writeError render 400 ''dstack mock: force apply is forbidden by construction; squall must never send force'' ''error'', s')
                     | (Inl MErrResourceChanged, s') \<Rightarrow>
                         (writeError render 400 ''Resource has been changed. Try again or use force apply'' ''error'', s')
                     | (Inl MErrNotFound, s') \<Rightarrow> (writeError render 500 ''dstack mock: run not found'' ''error'', s')
                     | (Inl MErrDeleteActiveRun, s') \<Rightarrow>
                         (writeError render 500 ''dstack mock: Cannot delete active runs'' ''error'', s')))))"

definition handleGetRun :: "(json \<Rightarrow> string) \<Rightarrow> gotime \<Rightarrow> json \<Rightarrow> mockServer \<Rightarrow> http_outcome" where
  "handleGetRun render now j s =
     (case decode_getRunRequestWire j of
        None \<Rightarrow> writeError render 400 decodeFailed ''error''
      | Some req \<Rightarrow>
          (case mock_Get now (grw_RunName req) s of
             Inl _ \<Rightarrow> writeError render 400 ''Run not found'' ''resource_not_exists''
           | Inr run \<Rightarrow> writeJSON render (run_json run)))"

definition handleDeleteRun ::
  "(json \<Rightarrow> string) \<Rightarrow> json \<Rightarrow> mockServer \<Rightarrow> http_outcome \<times> mockServer" where
  "handleDeleteRun render j s =
     (case map_option drw_RunsNames (decode_deleteRunsRequestWire j) of
        None \<Rightarrow> (writeError render 400 decodeFailed ''error'', s)
      | Some [name] \<Rightarrow>
          (case mock_Delete name s of
             (Inl MErrNotFound, s') \<Rightarrow> (writeError render 400 ''Run not found'' ''resource_not_exists'', s')
           | (Inl MErrDeleteActiveRun, s') \<Rightarrow>
               (writeError render 400 (''Cannot delete active runs: ['' @ name @ '']'') ''error'', s')
           | (_, s') \<Rightarrow> (writeJSON render (JObj []), s'))
      | Some _ \<Rightarrow> (writeError render 400 ''runs_names must carry exactly one name'' ''error'', s))"

definition handleStopRun ::
  "(json \<Rightarrow> string) \<Rightarrow> json \<Rightarrow> mockServer \<Rightarrow> http_outcome \<times> mockServer" where
  "handleStopRun render j s =
     (case map_option srw_RunsNames (decode_stopRunsRequestWire j) of
        None \<Rightarrow> (writeError render 400 decodeFailed ''error'', s)
      | Some [name] \<Rightarrow>
          (case mock_Stop name s of
             (Inl MErrNotFound, s') \<Rightarrow> (writeError render 400 ''Run not found'' ''resource_not_exists'', s')
           | (_, s') \<Rightarrow> (writeJSON render (JObj []), s'))
      | Some _ \<Rightarrow> (writeError render 400 ''runs_names must carry exactly one name'' ''error'', s))"

definition handleListRuns :: "(json \<Rightarrow> string) \<Rightarrow> gotime \<Rightarrow> mockServer \<Rightarrow> http_outcome" where
  "handleListRuns render now s = writeJSON render (JArr (map run_json (mock_ListRuns now s)))"

definition handleGetFleet :: "(json \<Rightarrow> string) \<Rightarrow> json \<Rightarrow> mockServer \<Rightarrow> http_outcome" where
  "handleGetFleet render j s =
     (case decode_getFleetRequestWire j of
        None \<Rightarrow> writeError render 400 decodeFailed ''error''
      | Some req \<Rightarrow>
          if \<not> mock_HasFleet (gfw_Name req) s then writeError render 400 ''Resource not found'' ''resource_not_exists''
          else writeJSON render (JObj [(''name'', JStr (gfw_Name req)), (''status'', JStr ''active'')]))"

definition handleGetFleetPlan :: "(json \<Rightarrow> string) \<Rightarrow> json \<Rightarrow> http_outcome" where
  "handleGetFleetPlan render j =
     (case decode_getFleetPlanRequestWire j of
        None \<Rightarrow> writeError render 400 decodeFailed ''error''
      | Some req \<Rightarrow> writeJSON render (enc_fleetPlanResponse \<lparr>fpr_Spec = Some (enc_mockFleetSpec (gfp_Spec req))\<rparr>))"

definition handleApplyFleet ::
  "(json \<Rightarrow> string) \<Rightarrow> json \<Rightarrow> mockServer \<Rightarrow> http_outcome \<times> mockServer" where
  "handleApplyFleet render j s =
     (case decode_applyFleetPlanRequestWire j of
        None \<Rightarrow> (writeError render 400 decodeFailed ''error'', s)
      | Some req \<Rightarrow>
          (case Option.bind (afw_Spec req) (\<lambda>v. decode_mockFleetSpec (Some v)) of
             None \<Rightarrow> (writeError render 400 (''invalid spec: '' @ decodeFailed) ''error'', s)
           | Some spec \<Rightarrow>
               let cfg = mfs_Configuration spec
               in (writeJSON render (JObj [(''name'', JStr (mfc_Name cfg)), (''status'', JStr ''active'')]),
                   mock_EnsureFleet (mfc_Name cfg) (mfc_Backends cfg) s)))"

text \<open>
  \<open>NewHTTPServer\<close>: the routes of the mux after the token check. Requests outside the mounted
  patterns get the mux's plain 404.
\<close>

definition mock_project_route ::
  "(json \<Rightarrow> string) \<Rightarrow> gotime \<Rightarrow> string list \<Rightarrow> json \<Rightarrow> mockServer \<Rightarrow> (http_outcome \<times> mockServer) option" where
  "mock_project_route render now op j s =
     (if op = [''runs'', ''get_plan''] then Some (handleGetPlan render j, s)
      else if op = [''runs'', ''apply''] then Some (handleApply render now j s)
      else if op = [''runs'', ''get''] then Some (handleGetRun render now j s, s)
      else if op = [''runs'', ''delete''] then Some (handleDeleteRun render j s)
      else if op = [''runs'', ''stop''] then Some (handleStopRun render j s)
      else if length op = 3 \<and> op ! 0 = ''backends'' \<and> op ! 2 = ''config_info'' \<and> op ! 1 \<noteq> []
      then Some (writeJSON render (JObj []), s)
      else if op = [''fleets'', ''list'']
      then Some (writeJSON render (JArr [JObj [(''status'', JStr ''active''),
             (''spec'', JObj [(''configuration'', JObj [(''backends'', JArr [])])])]]), s)
      else if op = [''fleets'', ''get''] then Some (handleGetFleet render j s, s)
      else if op = [''fleets'', ''get_plan''] then Some (handleGetFleetPlan render j, s)
      else if op = [''fleets'', ''apply''] then Some (handleApplyFleet render j s)
      else None)"

definition NewHTTPServer :: "(json \<Rightarrow> string) \<Rightarrow> string \<Rightarrow> gotime \<Rightarrow> mockServer transport" where
  "NewHTTPServer render token now path auth j s =
     (let authed = (\<lambda>r. if bearerToken auth \<noteq> token
                        then (writeError render 403 ''Invalid token'' [], s) else r);
          notFound = (HTTPResponse 404 ''404 page not found'' None, s)
      in case Split_char (CHR ''/'') path of
           e0 # a # p # project # op \<Rightarrow>
             if e0 = [] \<and> a = ''api'' \<and> p = ''project'' \<and> project \<noteq> []
             then (case mock_project_route render now op j s of
                     Some r \<Rightarrow> authed r | None \<Rightarrow> notFound)
             else if e0 = [] \<and> a = ''api'' \<and> p = ''runs'' \<and> project = ''list'' \<and> op = []
             then authed (handleListRuns render now s, s)
             else notFound
         | _ \<Rightarrow> notFound)"

section \<open>Client against server\<close>

definition run_in_range :: "mockRun \<Rightarrow> bool" where
  "run_in_range run \<longleftrightarrow> is_duration (kr_DeploymentNum run) \<and> is_duration (kr_Replicas run) \<and>
     (\<forall>d. kr_IdleDuration run = Some d \<longrightarrow> is_duration d)"

text \<open>How a run of the server looks to the client.\<close>

definition client_run :: "mockRun \<Rightarrow> Run" where
  "client_run run =
     \<lparr>run_Name = kr_Name run, run_RunID = kr_RunID run, run_DeploymentNum = kr_DeploymentNum run,
      run_Replicas = kr_Replicas run, run_Replica = None, run_ServiceURL = kr_ServiceURL run,
      run_PricePerHour = F_Fin 0 0, run_ProbesReady = (0 < kr_Replicas run \<and> kr_ProbesReady run),
      run_Env = [], run_IdleDuration = wireSecondsPtr (kr_IdleDuration run), run_MaxDuration = 0,
      run_SSHKeyPub = [], run_Status = kr_Status run, run_SubmittedAt = kr_SubmittedAt run,
      run_ProvisioningFailure = None, run_raw = run_json run\<rparr>"

lemma is_duration_small [simp]: "is_duration 0" "is_duration 2"
  by (simp_all add: is_duration_def minDuration_def maxDuration_def)

lemma decode_jobs_mock:
  assumes "is_duration n" and "is_duration k"
  shows "decode_job (JObj [(''job_submissions'', JArr [JObj
           [(''deployment_num'', JNum n), (''status'', JStr ''running''),
            (''probes'', JArr [JObj [(''success_streak'', JNum k)]])]])]) =
    Some \<lparr>jw_JobSubmissions = [\<lparr>js_SubmittedAt = 0, js_DeploymentNum = n, js_Status = ''running'',
            js_StatusMessage = [], js_TerminationReason = [], js_TerminationReasonMessage = [],
            js_Error = [], js_Probes = [k], js_JobProvisioningData = None\<rparr>], jw_ServicePort = None\<rparr>"
  using assms by (simp add: decode_job_def decode_submission_def decode_streak_def json_read)

definition mock_jobs :: "mockRun \<Rightarrow> jobWire list" where
  "mock_jobs run =
     (if 0 < kr_Replicas run
      then [\<lparr>jw_JobSubmissions = [\<lparr>js_SubmittedAt = 0, js_DeploymentNum = kr_DeploymentNum run,
               js_Status = ''running'', js_StatusMessage = [], js_TerminationReason = [],
               js_TerminationReasonMessage = [], js_Error = [],
               js_Probes = [if kr_ProbesReady run then 2 else 0], js_JobProvisioningData = None\<rparr>],
             jw_ServicePort = None\<rparr>]
      else [])"

lemma run_json_eq:
  "run_json run = JObj
     [(''id'', JStr (kr_RunID run)), (''submitted_at'', JTime (kr_SubmittedAt run)),
      (''status'', JStr (kr_Status run)), (''deployment_num'', JNum (kr_DeploymentNum run)),
      (''jobs'', if 0 < kr_Replicas run
         then JArr [JObj [(''job_submissions'', JArr [JObj
           [(''deployment_num'', JNum (kr_DeploymentNum run)), (''status'', JStr ''running''),
            (''probes'', JArr [JObj [(''success_streak'',
               JNum (if kr_ProbesReady run then wireDefaultReadyAfter else 0))]])]])]]
         else JNull),
      (''service'', if kr_ServiceURL run \<noteq> [] then JObj [(''url'', JStr (kr_ServiceURL run))] else JNull),
      (''run_spec'', JObj [(''run_name'', JStr (kr_Name run)),
         (''configuration'', JObj ((''replicas'',
             JObj [(''min'', JNum (kr_Replicas run)), (''max'', JNum (kr_Replicas run))]) #
             opt_member ''idle_duration'' JNum (kr_IdleDuration run)))])]"
  by (simp add: enc_runOut_def runToWire_def enc_replicas_def)

lemma decode_runWire_mock:
  assumes "run_in_range run"
  shows "decode_runWire (run_json run) =
    Some \<lparr>rw_ID = kr_RunID run, rw_SubmittedAt = kr_SubmittedAt run, rw_Status = kr_Status run,
      rw_StatusMessage = [], rw_TerminationReason = [], rw_Error = [],
      rw_DeploymentNum = kr_DeploymentNum run, rw_Jobs = mock_jobs run,
      rw_LatestJobSubmission = None,
      rw_Service = (if kr_ServiceURL run = [] then None else Some (kr_ServiceURL run)),
      rw_RunName = kr_Name run, rw_ReplicasMin = kr_Replicas run, rw_ReplicasMax = kr_Replicas run,
      rw_IdleDuration = kr_IdleDuration run, rw_MaxDuration = None, rw_Probes = [], rw_Env = [],
      rw_SSHKeyPub = []\<rparr>"
proof -
  have range: "is_duration (kr_DeploymentNum run)" "is_duration (kr_Replicas run)"
    "\<And>d. kr_IdleDuration run = Some d \<Longrightarrow> is_duration d"
    using assms by (simp_all add: run_in_range_def)
  have jobs: "json_list decode_job (Some (if 0 < kr_Replicas run
         then JArr [JObj [(''job_submissions'', JArr [JObj
           [(''deployment_num'', JNum (kr_DeploymentNum run)), (''status'', JStr ''running''),
            (''probes'', JArr [JObj [(''success_streak'',
               JNum (if kr_ProbesReady run then wireDefaultReadyAfter else 0))]])]])]]
         else JNull)) = Some (mock_jobs run)"
    using range(1) by (simp add: json_list_def decode_jobs_mock mock_jobs_def wireDefaultReadyAfter_def)
  have svc: "json_ptr decode_service_url (Some (if kr_ServiceURL run \<noteq> []
         then JObj [(''url'', JStr (kr_ServiceURL run))] else JNull)) =
      Some (if kr_ServiceURL run = [] then None else Some (kr_ServiceURL run))"
    by (simp add: json_read decode_service_url_def)
  have idle: "json_ptr json_int (map_option JNum (kr_IdleDuration run)) = Some (kr_IdleDuration run)"
    using range(3) by (cases "kr_IdleDuration run") (auto simp: json_read)
  have ptr0: "json_ptr d None = Some None" for d :: "json option \<Rightarrow> 'a option"
    by (simp add: json_ptr_def)
  show ?thesis
    unfolding decode_runWire_def run_json_eq
    using range(1,2)
    by (simp add: json_field_simps lower_keys json_fields_def json_string_def json_time_def
        json_int_def [of "Some (JNum _)"] json_list_def [of _ None] json_string_map_def
        jobs [simplified] svc [simplified] idle ptr0 option.case_eq_if)
qed

lemma decodeRun_mock:
  assumes "run_in_range run"
  shows "decodeRun (Some (run_json run)) = Inr (client_run run)"
  by (simp add: decodeRun_def decode_runWire_mock [OF assms] run_of_wire_def client_run_def
      probesReady_iff mock_jobs_def live_subs_def sub_skipped_def finishedJobStatuses_def
      sub_probes_pass_def echoedReadyAfter_def defaultReadyAfter_def wireSeconds_def serviceURL_def
      decodeProvisioningFailure_def Let_def)

definition good_client :: "HTTPClient \<Rightarrow> string \<Rightarrow> bool" where
  "good_client c token \<longleftrightarrow> hc_token c = token \<and> hc_project c \<noteq> [] \<and> CHR ''/'' \<notin> set (hc_project c)"

lemma split_project_path:
  assumes "good_client c token"
  shows "Split_char (CHR ''/'') (projectPath c op) =
    [] # ''api'' # ''project'' # hc_project c # Split_char (CHR ''/'') op"
proof -
  have "Split_char (CHR ''/'') (hc_project c @ CHR ''/'' # op) =
      hc_project c # Split_char (CHR ''/'') op"
    using assms by (intro Split_char_append) (simp add: good_client_def)
  then show ?thesis by (simp add: projectPath_def)
qed

lemma bearer_ok: "good_client c token \<Longrightarrow> bearerToken (''Bearer '' @ hc_token c) = token"
  by (simp add: bearerToken_def TrimPrefix_def good_client_def)

lemma server_route:
  assumes "good_client c token"
    and "mock_project_route render now (Split_char (CHR ''/'') op) j s = Some r"
  shows "NewHTTPServer render token now (projectPath c op) (''Bearer '' @ hc_token c) j s = r"
proof -
  have "hc_project c \<noteq> []" using assms(1) by (simp add: good_client_def)
  then show ?thesis
    using assms(2) bearer_ok [OF assms(1)]
    by (simp add: NewHTTPServer_def split_project_path [OF assms(1)])
qed

lemma post_json:
  "tr path (''Bearer '' @ hc_token c) j s = (writeJSON render v, s') \<Longrightarrow>
   post tr c path j s = (Inr (Some v), s')"
  by (simp add: post_def writeJSON_def classifyError_def)

lemma writeError_details:
  "classifyError 400 raw (Some (JObj [(''detail'', JArr [JObj [(''msg'', JStr msg), (''code'', JStr code)]])])) =
     Some (case classify_details [\<lparr>ed_Msg = msg, ed_Code = code\<rparr>] of
             Some (k, m) \<Rightarrow> HTTPError 400 k m
           | None \<Rightarrow> HTTPError 400 ErrPlain (if msg = [] then take 256 raw else msg))"
  by (auto simp: classifyError_def classifyErrorBody_def parseDetails_def json_read
      decode_errorDetail_def summarise_def Let_def split: option.splits)

lemma post_error:
  "tr path (''Bearer '' @ hc_token c) j s = (writeError render 400 msg code, s') \<Longrightarrow> msg \<noteq> [] \<Longrightarrow>
   post tr c path j s =
     (Inl (case classify_details [\<lparr>ed_Msg = msg, ed_Code = code\<rparr>] of
             Some (k, m) \<Rightarrow> HTTPError 400 k m | None \<Rightarrow> HTTPError 400 ErrPlain msg), s')"
  by (simp add: post_def writeError_def writeError_details Let_def)

lemma server_json:
  assumes "good_client c token"
    and "mock_project_route render now (Split_char (CHR ''/'') op) j s = Some (writeJSON render v, s')"
  shows "post (NewHTTPServer render token now) c (projectPath c op) j s = (Inr (Some v), s')"
  by (rule post_json [where render = render]) (rule server_route [OF assms])

lemma server_error:
  assumes "good_client c token" and "msg \<noteq> []"
    and "mock_project_route render now (Split_char (CHR ''/'') op) j s =
      Some (writeError render 400 msg code, s')"
  shows "post (NewHTTPServer render token now) c (projectPath c op) j s =
     (Inl (case classify_details [\<lparr>ed_Msg = msg, ed_Code = code\<rparr>] of
             Some (k, m) \<Rightarrow> HTTPError 400 k m | None \<Rightarrow> HTTPError 400 ErrPlain msg), s')"
  by (rule post_error [where render = render]) (rule server_route [OF assms(1,3)], rule assms(2))

lemma error_classes:
  "classify_details [\<lparr>ed_Msg = ''Run not found'', ed_Code = ''resource_not_exists''\<rparr>] =
     Some (ErrNotFound, ''Run not found'')"
  "classify_details [\<lparr>ed_Msg = ''Resource has been changed. Try again or use force apply'', ed_Code = ''error''\<rparr>] =
     Some (ErrResourceChanged, ''Resource has been changed. Try again or use force apply'')"
  "classify_details [\<lparr>ed_Msg = ''Cannot override active run. Stop the run first.'', ed_Code = ''error''\<rparr>] =
     Some (ErrCannotOverride, ''Cannot override active run. Stop the run first.'')"
  by (simp_all add: resourceNotExistsCode_def resourceChangedMarker_def cannotOverrideMarker_def
      ToLower_def lower_char_def Let_def char_of_def bit_0)

lemma client_Get_eq:
  assumes "good_client c token" and "\<And>run. mock_Get now name s = Inr run \<Longrightarrow> run_in_range run"
  shows "client_Get (NewHTTPServer render token now) c name s =
    (case mock_Get now name s of
       Inl _ \<Rightarrow> (Inl (HTTPError 400 ErrNotFound ''Run not found''), s)
     | Inr run \<Rightarrow> (Inr (client_run run), s))"
proof -
  let ?j = "enc_getRunRequest \<lparr>grq_RunName = name\<rparr>"
  have split: "Split_char (CHR ''/'') ''runs/get'' = [''runs'', ''get'']" by simp
  have h: "mock_project_route render now [''runs'', ''get''] ?j s =
      Some (case mock_Get now name s of
         Inl _ \<Rightarrow> writeError render 400 ''Run not found'' ''resource_not_exists''
       | Inr run \<Rightarrow> writeJSON render (run_json run), s)"
    by (simp add: mock_project_route_def handleGetRun_def get_run_msg.agrees)
  show ?thesis
  proof (cases "mock_Get now name s")
    case (Inl e)
    have "post (NewHTTPServer render token now) c (projectPath c ''runs/get'') ?j s =
        (Inl (HTTPError 400 ErrNotFound ''Run not found''), s)"
      using server_error [OF assms(1), of "''Run not found''" render now "''runs/get''" ?j s
          "''resource_not_exists''" s, unfolded split h error_classes] Inl by simp
    with Inl show ?thesis by (simp add: client_Get_def runsPath_def)
  next
    case (Inr run)
    have "post (NewHTTPServer render token now) c (projectPath c ''runs/get'') ?j s =
        (Inr (Some (run_json run)), s)"
      by (rule server_json [OF assms(1)]) (simp add: split h Inr)
    with Inr assms(2) show ?thesis by (simp add: client_Get_def runsPath_def decodeRun_mock)
  qed
qed

text \<open>
  C22. Get over HTTP is Get: with a matching token the client's Get against the in-memory server
  returns not-found exactly for the names the server does not know, and otherwise the run as the
  server has it: identity, replicas, status, probe verdict and idle duration.
\<close>

theorem client_Get_refines:
  assumes "good_client c token" and "\<And>run. mock_Get now name s = Inr run \<Longrightarrow> run_in_range run"
  shows "client_Get (NewHTTPServer render token now) c name s =
    (case mock_Get now name s of
       Inl _ \<Rightarrow> (Inl (HTTPError 400 ErrNotFound ''Run not found''), s)
     | Inr run \<Rightarrow> (Inr (client_run run), s))"
  by (rule client_Get_eq [OF assms])

definition sample_client :: HTTPClient where
  "sample_client = \<lparr>hc_project = ''main'', hc_token = ''t''\<rparr>"

lemma sample_client_good: "good_client sample_client ''t''"
  by (simp add: good_client_def sample_client_def)

theorem client_Get_refines_witness:
  "client_Get (NewHTTPServer (\<lambda>_. []) ''t'' 5) sample_client ''m'' mock_New =
     (Inl (HTTPError 400 ErrNotFound ''Run not found''), mock_New)"
  using client_Get_refines [OF sample_client_good, of 5 "''m''" mock_New "\<lambda>_. []"]
  by (simp add: mock_Get_def mock_New_def)

text \<open>The identity and generation of a run, as the server reads them back.\<close>

definition run_anchor :: "Run \<Rightarrow> currentResourceWire" where
  "run_anchor r = \<lparr>crw_ID = run_RunID r, crw_DeploymentNum = run_DeploymentNum r\<rparr>"

text \<open>The request as the server decodes it: never forced, anchored on the observed identity.\<close>

definition mock_request :: "ApplyRequest \<Rightarrow> mockApplyRequest" where
  "mock_request req =
     \<lparr>ka_Name = req_Name req, ka_Replicas = req_Replicas req,
      ka_Current = map_option (\<lambda>r. anchor_run (run_anchor r)) (req_Current req),
      ka_Force = False, ka_FleetIdleDuration = 0,
      ka_IdleDuration = dstackSecondsPtr (req_IdleDuration req)\<rparr>"

text \<open>A run that carries the document it was decoded from.\<close>

definition good_anchor :: "Run \<Rightarrow> bool" where
  "good_anchor r \<longleftrightarrow> decode_anchor (Some (run_raw r)) = Some (Some (run_anchor r))"

lemma client_run_anchor: "run_in_range run \<Longrightarrow> good_anchor (client_run run)"
  by (simp add: good_anchor_def client_run_def decode_anchor_def run_json_eq run_anchor_def json_read
      run_in_range_def)

definition client_apply_error :: "mock_error \<Rightarrow> dstack_error" where
  "client_apply_error e =
     (if e = MErrCannotOverride
      then HTTPError 400 ErrCannotOverride ''Cannot override active run. Stop the run first.''
      else HTTPError 400 ErrResourceChanged ''Resource has been changed. Try again or use force apply'')"

lemma dstackSeconds_range: "is_duration d \<Longrightarrow> is_duration (dstackSeconds d)"
proof -
  assume d: "is_duration d"
  have "0 \<le> max 0 d div Second" and "max 0 d div Second \<le> max 0 d"
    using zdiv_mono2 [of "max 0 d" 1 Second] by (simp_all add: pos_imp_zdiv_nonneg_iff)
  with d show ?thesis
    by (auto simp: dstackSeconds_def Let_def go_div_nonneg is_duration_def minDuration_def
        maxDuration_def max_def)
qed

abbreviation request_spec :: "ApplyRequest \<Rightarrow> normalizedRunSpecWire" where
  "request_spec req \<equiv> normalize \<lparr>rin_RunName = req_Name req, rin_Replicas = req_Replicas req,
     rin_IdleDuration = dstackSecondsPtr (req_IdleDuration req)\<rparr>"

abbreviation plan_answer :: "ApplyRequest \<Rightarrow> runPlanResponseWire" where
  "plan_answer req \<equiv> \<lparr>rpr_RunSpec = Some (enc_normalized (request_spec req)), rpr_CurrentResource = None, rpr_Action = ''create''\<rparr>"

lemma plan_of_request:
  assumes "is_duration (req_Replicas req)"
    and "\<And>d. req_IdleDuration req = Some d \<Longrightarrow> is_duration d"
  shows "handleGetPlan render (enc_getPlanRequest \<lparr>gpr_RunSpec = runSpec req\<rparr>) =
    writeJSON render (enc_runPlanResponse (plan_answer req))"
proof -
  have "plan_fits \<lparr>gpr_RunSpec = runSpec req\<rparr>"
    using assms dstackSeconds_range by (auto simp: plan_fits_def runSpec_def dstackSecondsPtr_def split: option.split)
  from get_plan_msg.agrees [OF this] show ?thesis
    by (simp add: handleGetPlan_def plan_view_def runSpec_def)
qed

lemma apply_of_plan:
  assumes "spec_fits spec" and "\<And>r. cur = Some r \<Longrightarrow> good_anchor r"
  shows "handleApply render now
      (enc_applyRequest (newApplyRequest \<lparr>api_RunSpec = Some (enc_normalized spec), api_CurrentResource = map_option run_raw cur\<rparr>)) s =
    (case mock_Apply now
            \<lparr>ka_Name = nrs_RunName spec, ka_Replicas = rpl_Min (nrs_Replicas spec),
             ka_Current = map_option (\<lambda>r. anchor_run (run_anchor r)) cur,
             ka_Force = False, ka_FleetIdleDuration = 0, ka_IdleDuration = nrs_IdleDuration spec\<rparr> s of
       (Inr run, s') \<Rightarrow> (writeJSON render (run_json run), s')
     | (Inl e, s') \<Rightarrow>
         (if e = MErrCannotOverride
          then writeError render 400 ''Cannot override active run. Stop the run first.'' ''error''
          else writeError render 400 ''Resource has been changed. Try again or use force apply'' ''error'', s'))"
proof -
  let ?R = "\<lparr>ka_Name = nrs_RunName spec, ka_Replicas = rpl_Min (nrs_Replicas spec),
     ka_Current = map_option (\<lambda>r. anchor_run (run_anchor r)) cur,
     ka_Force = False, ka_FleetIdleDuration = 0, ka_IdleDuration = nrs_IdleDuration spec\<rparr>"
  have anchor: "decode_anchor (map_option run_raw cur) = Some (map_option run_anchor cur)"
    using assms(2) by (cases cur) (auto simp: good_anchor_def decode_anchor_def json_ptr_def)
  have "fst (mock_Apply now ?R s) = Inl e \<Longrightarrow> e = MErrCannotOverride \<or> e = MErrResourceChanged" for e
    by (auto simp: mock_Apply_eq Let_def split: option.splits if_splits)
  then show ?thesis
    using anchor normalized_msg.agrees [OF assms(1)]
    by (cases "mock_Apply now ?R s"; cases "fst (mock_Apply now ?R s)")
      (auto simp: handleApply_def apply_msg.agrees apply_view_def newApplyRequest_def enc_raw_def option.map_comp comp_def
        split: mock_error.splits)
qed

lemma client_Apply_eq:
  assumes "good_client c token" and "is_duration (req_Replicas req)"
    and "\<And>d. req_IdleDuration req = Some d \<Longrightarrow> is_duration d"
    and "\<And>r. req_Current req = Some r \<Longrightarrow> good_anchor r"
    and "\<And>run s'. mock_Apply now (mock_request req) s = (Inr run, s') \<Longrightarrow> run_in_range run"
  shows "client_Apply (NewHTTPServer render token now) c req s =
    (case mock_Apply now (mock_request req) s of
       (Inr run, s') \<Rightarrow> (Inr (client_run run), s')
     | (Inl e, s') \<Rightarrow> (Inl (client_apply_error e), s'))"
proof -
  let ?srv = "NewHTTPServer render token now"
  let ?ask = "enc_applyRequest (newApplyRequest \<lparr>api_RunSpec = Some (enc_normalized (request_spec req)),
    api_CurrentResource = map_option run_raw (req_Current req)\<rparr>)"
  have split: "Split_char (CHR ''/'') ''runs/get_plan'' = [''runs'', ''get_plan'']"
    "Split_char (CHR ''/'') ''runs/apply'' = [''runs'', ''apply'']" by simp_all
  have plan: "post ?srv c (projectPath c ''runs/get_plan'') (enc_getPlanRequest \<lparr>gpr_RunSpec = runSpec req\<rparr>) s =
      (Inr (Some (enc_runPlanResponse (plan_answer req))), s)"
    by (rule server_json [OF assms(1)])
      (simp add: split mock_project_route_def plan_of_request [OF assms(2,3)])
  have fits: "spec_fits (request_spec req)"
    using assms(2,3) dstackSeconds_range by (auto simp: spec_fits_def normalize_def dstackSecondsPtr_def split: option.split)
  have route: "mock_project_route render now [''runs'', ''apply''] ?ask s = Some (handleApply render now ?ask s)"
    by (simp add: mock_project_route_def)
  have h: "handleApply render now ?ask s =
      (case mock_Apply now (mock_request req) s of
         (Inr run, s') \<Rightarrow> (writeJSON render (run_json run), s')
       | (Inl e, s') \<Rightarrow>
           (if e = MErrCannotOverride
            then writeError render 400 ''Cannot override active run. Stop the run first.'' ''error''
            else writeError render 400 ''Resource has been changed. Try again or use force apply'' ''error'', s'))"
    using apply_of_plan [OF fits, where cur = "req_Current req" and render = render and now = now and s = s] assms(4)
    by (simp add: mock_request_def normalize_def)
  have step: "client_Apply ?srv c req s =
      (case post ?srv c (projectPath c ''runs/apply'') ?ask s of
         (Inl e, s2) \<Rightarrow> (Inl e, s2) | (Inr body, s2) \<Rightarrow> (decodeRun body, s2))"
    by (simp add: client_Apply_def runsPath_def plan run_plan_msg.agrees enc_raw_def)
  show ?thesis
  proof (cases "mock_Apply now (mock_request req) s")
    case (Pair res s')
    show ?thesis
    proof (cases res)
      case (Inl e)
      let ?msg = "if e = MErrCannotOverride then ''Cannot override active run. Stop the run first.''
        else ''Resource has been changed. Try again or use force apply''"
      have "handleApply render now ?ask s = (writeError render 400 ?msg ''error'', s')"
        using h Pair Inl by simp
      then have "post ?srv c (projectPath c ''runs/apply'') ?ask s = (Inl (client_apply_error e), s')"
        using server_error [OF assms(1), of ?msg render now "''runs/apply''" ?ask s "''error''" s',
            unfolded split route] error_classes
        by (cases "e = MErrCannotOverride") (simp_all add: client_apply_error_def)
      with step Pair Inl show ?thesis by simp
    next
      case (Inr run)
      have "post ?srv c (projectPath c ''runs/apply'') ?ask s = (Inr (Some (run_json run)), s')"
        by (rule server_json [OF assms(1)]) (use h Pair Inr in \<open>simp add: split route\<close>)
      with step Pair Inr assms(5) show ?thesis by (simp add: decodeRun_mock)
    qed
  qed
qed

text \<open>
  C21. Apply over HTTP is one Apply of the server. Planning and applying against the in-memory
  server carries out exactly the server's Apply of the decoded request: anchored on the identity
  the client last observed (not on what get_plan re-read), never forced, with the idle duration
  absent exactly when the caller left it unset. A conflict and an override refusal come back as
  their own errors, and a success as the run that the server now has.
\<close>

theorem client_Apply_refines:
  assumes "good_client c token" and "is_duration (req_Replicas req)"
    and "\<And>d. req_IdleDuration req = Some d \<Longrightarrow> is_duration d"
    and "\<And>r. req_Current req = Some r \<Longrightarrow> good_anchor r"
    and "\<And>run s'. mock_Apply now (mock_request req) s = (Inr run, s') \<Longrightarrow> run_in_range run"
  shows "client_Apply (NewHTTPServer render token now) c req s =
    (case mock_Apply now (mock_request req) s of
       (Inr run, s') \<Rightarrow> (Inr (client_run run), s')
     | (Inl e, s') \<Rightarrow> (Inl (client_apply_error e), s'))"
  by (rule client_Apply_eq [OF assms])

definition sample_request :: "int \<Rightarrow> Run option \<Rightarrow> ApplyRequest" where
  "sample_request n cur =
     \<lparr>req_Name = ''m'', req_Replicas = n, req_SSHKeyPub = [], req_Image = ''img'', req_Port = 8000,
      req_Env = [], req_Args = [], req_Resources = None, req_Probe = None,
      req_Placement = \<lparr>pc_Backends = [''vastai''], pc_Regions = [], pc_MaxPrice = []\<rparr>,
      req_IdleDuration = Some 0, req_MaxDuration = 0, req_Current = cur\<rparr>"

theorem client_Apply_refines_witness:
  "\<exists>run s'. client_Apply (NewHTTPServer (\<lambda>_. []) ''t'' 5) sample_client (sample_request 1 None) mock_New =
     (Inr (client_run run), s') \<and> kr_RunID run = newRunID ''m'' 1 \<and> mock_ident s' ''m'' = Some (newRunID ''m'' 1, 1)"
proof -
  let ?req = "mock_request (sample_request 1 None)"
  have one: "is_duration 1" by (simp add: is_duration_def minDuration_def maxDuration_def)
  obtain run s' where ok: "mock_Apply 5 ?req mock_New = (Inr run, s')"
    and run: "run_in_range run" "kr_RunID run = newRunID ''m'' 1"
    and s': "mock_ident s' ''m'' = Some (newRunID ''m'' 1, 1)"
    using one
    by (simp add: mock_Apply_def mock_New_def mock_request_def sample_request_def Let_def
        apply_service_def fresh_service_def runFor_def run_in_range_def dstackSecondsPtr_def
        dstackSeconds_def go_div_def mock_ident_def live_service_def)
  have "client_Apply (NewHTTPServer (\<lambda>_. []) ''t'' 5) sample_client (sample_request 1 None) mock_New =
      (case mock_Apply 5 ?req mock_New of
         (Inr run, s') \<Rightarrow> (Inr (client_run run), s')
       | (Inl e, s') \<Rightarrow> (Inl (client_apply_error e), s'))"
    by (rule client_Apply_refines [OF sample_client_good])
      (use ok run one in \<open>auto simp: sample_request_def\<close>)
  with ok run s' show ?thesis by auto
qed

lemma client_Stop_refines:
  assumes "good_client c token"
  shows "client_Stop (NewHTTPServer render token now) c name s =
    (case mock_Stop name s of
       (Inl _, s') \<Rightarrow> (Some (HTTPError 400 ErrNotFound ''Run not found''), s')
     | (Inr _, s') \<Rightarrow> (None, s'))"
proof -
  let ?j = "enc_stopRunsRequest \<lparr>srq_RunsNames = [name], srq_Abort = True\<rparr>"
  have split: "Split_char (CHR ''/'') ''runs/stop'' = [''runs'', ''stop'']" by simp
  have h: "mock_project_route render now [''runs'', ''stop''] ?j s =
      Some (case mock_Stop name s of
         (Inl _, s') \<Rightarrow> (writeError render 400 ''Run not found'' ''resource_not_exists'', s')
       | (Inr _, s') \<Rightarrow> (writeJSON render (JObj []), s'))"
    by (auto simp: mock_project_route_def handleStopRun_def stop_msg.agrees mock_Stop_def split: option.splits)
  show ?thesis
  proof (cases "mock_Stop name s")
    case (Pair res s')
    show ?thesis
    proof (cases res)
      case (Inl e)
      then show ?thesis
        using server_error [OF assms, of "''Run not found''" render now "''runs/stop''" ?j s
          "''resource_not_exists''" s', unfolded split h error_classes] Pair
        by (simp add: client_Stop_def runsPath_def)
    next
      case (Inr u)
      then show ?thesis
        using server_json [OF assms, of render now "''runs/stop''" ?j s "JObj []" s', unfolded split h] Pair
        by (simp add: client_Stop_def runsPath_def)
    qed
  qed
qed

definition client_delete_error :: "string \<Rightarrow> mock_error \<Rightarrow> dstack_error" where
  "client_delete_error name e =
     (if e = MErrNotFound then HTTPError 400 ErrNotFound ''Run not found''
      else (case classify_details
                   [\<lparr>ed_Msg = ''Cannot delete active runs: ['' @ name @ '']'', ed_Code = ''error''\<rparr>] of
              Some (k, m) \<Rightarrow> HTTPError 400 k m
            | None \<Rightarrow> HTTPError 400 ErrPlain (''Cannot delete active runs: ['' @ name @ '']'')))"

lemma client_Delete_refines:
  assumes "good_client c token"
  shows "client_Delete (NewHTTPServer render token now) c name s =
    (case mock_Delete name s of
       (Inl e, s') \<Rightarrow> (Some (client_delete_error name e), s')
     | (Inr _, s') \<Rightarrow> (None, s'))"
proof -
  let ?j = "enc_deleteRunsRequest \<lparr>drq_RunsNames = [name]\<rparr>"
  let ?active = "''Cannot delete active runs: ['' @ name @ '']''"
  have split: "Split_char (CHR ''/'') ''runs/delete'' = [''runs'', ''delete'']" by simp
  have h: "mock_project_route render now [''runs'', ''delete''] ?j s =
      Some (case mock_Delete name s of
         (Inl e, s') \<Rightarrow> (if e = MErrNotFound then writeError render 400 ''Run not found'' ''resource_not_exists''
                         else writeError render 400 ?active ''error'', s')
       | (Inr _, s') \<Rightarrow> (writeJSON render (JObj []), s'))"
    by (auto simp: mock_project_route_def handleDeleteRun_def delete_msg.agrees mock_Delete_def split: option.splits)
  show ?thesis
  proof (cases "mock_Delete name s")
    case (Pair res s')
    show ?thesis
    proof (cases res)
      case (Inl e)
      have "post (NewHTTPServer render token now) c (projectPath c ''runs/delete'') ?j s =
          (Inl (client_delete_error name e), s')"
        using server_error [OF assms, of "''Run not found''" render now "''runs/delete''" ?j s
            "''resource_not_exists''" s', unfolded split h error_classes]
          server_error [OF assms, of ?active render now "''runs/delete''" ?j s "''error''" s',
            unfolded split h] Pair Inl
        by (simp add: client_delete_error_def)
      with Pair Inl show ?thesis by (simp add: client_Delete_def runsPath_def)
    next
      case (Inr u)
      then show ?thesis
        using server_json [OF assms, of render now "''runs/delete''" ?j s "JObj []" s', unfolded split h] Pair
        by (simp add: client_Delete_def runsPath_def)
    qed
  qed
qed

lemma decode_runs_mock:
  "\<forall>run\<in>set rs. run_in_range run \<Longrightarrow> decode_runs (map run_json rs) = Inr (map client_run rs)"
  by (induction rs) (simp_all add: decodeRun_mock)

lemma decode_all_Some: "decode_all Some xs = Some xs"
  by (induction xs) auto

lemma client_ListRuns_refines:
  assumes "good_client c token" and "\<forall>run\<in>set (mock_ListRuns now s). run_in_range run"
  shows "client_ListRuns (NewHTTPServer render token now) c s =
    (Inr (map client_run (mock_ListRuns now s)), s)"
proof -
  have "NewHTTPServer render token now ''/api/runs/list'' (''Bearer '' @ hc_token c) (JObj []) s =
      (writeJSON render (JArr (map run_json (mock_ListRuns now s))), s)"
    using bearer_ok [OF assms(1)] by (simp add: NewHTTPServer_def handleListRuns_def)
  then have "post (NewHTTPServer render token now) c ''/api/runs/list'' (JObj []) s =
      (Inr (Some (JArr (map run_json (mock_ListRuns now s)))), s)"
    by (intro post_json [where render = render])
  then show ?thesis
    by (simp add: client_ListRuns_def json_list_def decode_all_Some decode_runs_mock [OF assms(2)])
qed

text \<open>
  Fleets: a fleet the server has is left alone, another is planned and created with the backends asked
  for, whatever else the spec carries; and the server's placement answers are the open ones.
\<close>

lemma client_EnsureFleet_refines:
  assumes "good_client c token"
  shows "client_EnsureFleet (NewHTTPServer render token now) c f s = (None, mock_EnsureFleet (fl_Name f) (fl_Backends f) s)"
proof -
  let ?srv = "NewHTTPServer render token now"
  let ?ask = "enc_getFleetRequest \<lparr>gfr_Name = fl_Name f\<rparr>"
  let ?plan = "enc_getFleetPlanRequest \<lparr>gfq_Spec = fleet_spec f\<rparr>"
  let ?spec = "enc_mockFleetSpec (fleet_view (fleet_spec f))"
  let ?apply = "enc_applyFleetPlanRequest (newApplyFleetPlanRequest \<lparr>afi_Spec = Some ?spec, afi_CurrentResource = None\<rparr>)"
  have split: "Split_char (CHR ''/'') ''fleets/get'' = [''fleets'', ''get'']"
    "Split_char (CHR ''/'') ''fleets/get_plan'' = [''fleets'', ''get_plan'']"
    "Split_char (CHR ''/'') ''fleets/apply'' = [''fleets'', ''apply'']" by simp_all
  show ?thesis
  proof (cases "mock_HasFleet (fl_Name f) s")
    case True
    then have "post ?srv c (projectPath c ''fleets/get'') ?ask s =
        (Inr (Some (JObj [(''name'', JStr (fl_Name f)), (''status'', JStr ''active'')])), s)"
      by (intro server_json [OF assms]) (simp add: split mock_project_route_def handleGetFleet_def get_fleet_msg.agrees)
    with True show ?thesis
      by (auto simp: client_EnsureFleet_def mock_EnsureFleet_def mock_HasFleet_def)
  next
    case False
    have missing: "post ?srv c (projectPath c ''fleets/get'') ?ask s = (Inl (HTTPError 400 ErrNotFound ''Resource not found''), s)"
      using server_error [OF assms, of "''Resource not found''" render now "''fleets/get''" ?ask s "''resource_not_exists''" s] False
      by (simp add: split mock_project_route_def handleGetFleet_def get_fleet_msg.agrees resourceNotExistsCode_def)
    have planned: "post ?srv c (projectPath c ''fleets/get_plan'') ?plan s =
        (Inr (Some (enc_fleetPlanResponse \<lparr>fpr_Spec = Some ?spec\<rparr>)), s)"
      by (rule server_json [OF assms]) (simp add: split mock_project_route_def handleGetFleetPlan_def get_fleet_plan_msg.agrees)
    have applied: "post ?srv c (projectPath c ''fleets/apply'') ?apply s =
        (Inr (Some (JObj [(''name'', JStr (fl_Name f)), (''status'', JStr ''active'')])), mock_EnsureFleet (fl_Name f) (fl_Backends f) s)"
      by (rule server_json [OF assms])
        (simp add: split mock_project_route_def handleApplyFleet_def apply_fleet_msg.agrees newApplyFleetPlanRequest_def enc_raw_def
          mock_fleet_msg.agrees fleet_view_def fleet_spec_def)
    show ?thesis
      using missing planned applied
      by (simp add: client_EnsureFleet_def createFleet_def fleet_plan_msg.agrees enc_raw_def)
  qed
qed

lemma client_placement_open:
  assumes "good_client c token" and "b \<noteq> []" and "CHR ''/'' \<notin> set b"
  shows "client_BackendConfigured (NewHTTPServer render token now) c b s = (Inr True, s)"
    and "client_HasFleetFor (NewHTTPServer render token now) c b s = (Inr True, s)"
proof -
  have "Split_char (CHR ''/'') (''backends/'' @ b @ ''/config_info'') = [''backends'', b, ''config_info'']"
    using Split_char_append [of "CHR ''/''" "''backends''" "b @ ''/config_info''"]
      Split_char_append [OF assms(3), of "''config_info''"] by simp
  then have "post (NewHTTPServer render token now) c (projectPath c (''backends/'' @ b @ ''/config_info'')) (JObj []) s = (Inr (Some (JObj [])), s)"
    using assms(2) by (intro server_json [OF assms(1)]) (simp add: mock_project_route_def)
  then show "client_BackendConfigured (NewHTTPServer render token now) c b s = (Inr True, s)"
    by (simp add: client_BackendConfigured_def)
  have "post (NewHTTPServer render token now) c (projectPath c ''fleets/list'') (JObj []) s =
      (Inr (Some (JArr [JObj [(''status'', JStr ''active''), (''spec'', JObj [(''configuration'', JObj [(''backends'', JArr [])])])]])), s)"
    by (rule server_json [OF assms(1)]) (simp add: mock_project_route_def)
  then show "client_HasFleetFor (NewHTTPServer render token now) c b s = (Inr True, s)"
    by (simp add: client_HasFleetFor_def decode_fleet_def json_read)
qed

end
