(* ===== verification/Squall_System.thy ===== *)
theory Squall_System
  imports Squall_Wake Dstack_Client
begin

text \<open>
  Reconcile passes on a dstack that keeps its contract. The reconciler's calls go to a dstack client
  over a state of its own; the locale states what such a client promises (reads change nothing, an
  anchored apply succeeds unless it is an override the dstack refuses, Stop ends a run, Delete forgets an ended one), its lemmas say what whole
  passes then achieve, and the interpretation discharges the promises for the HTTP client against the
  in-memory server.
\<close>

section \<open>A reconciler on a dstack client\<close>

record 'd dstack_calls =
  dc_Get :: "string \<Rightarrow> 'd \<Rightarrow> (dstack_error + Run) \<times> 'd"
  dc_Apply :: "ApplyRequest \<Rightarrow> 'd \<Rightarrow> (dstack_error + Run) \<times> 'd"
  dc_Stop :: "string \<Rightarrow> 'd \<Rightarrow> dstack_error option \<times> 'd"
  dc_Delete :: "string \<Rightarrow> 'd \<Rightarrow> dstack_error option \<times> 'd"
  dc_preflight :: "'d preflight_client"

definition on_fst :: "('s \<Rightarrow> 'r \<times> 's) \<Rightarrow> 's \<times> 'd \<Rightarrow> 'r \<times> 's \<times> 'd" where
  "on_fst f w = (case f (fst w) of (r, s) \<Rightarrow> (r, (s, snd w)))"

definition on_snd :: "('d \<Rightarrow> 'r \<times> 'd) \<Rightarrow> 's \<times> 'd \<Rightarrow> 'r \<times> 's \<times> 'd" where
  "on_snd f w = (case f (snd w) of (r, d) \<Rightarrow> (r, (fst w, d)))"

text \<open>Kubernetes, the proxies and the key pair stay with \<open>E\<close>; everything dstack goes to \<open>D\<close>.\<close>

definition with_dstack :: "'d dstack_calls \<Rightarrow> 's reconcile_env \<Rightarrow> ('s \<times> 'd) reconcile_env" where
  "with_dstack D E =
     \<lparr>rc_UpdateModel = \<lambda>m. on_fst (rc_UpdateModel E m), rc_PatchStatus = \<lambda>m old. on_fst (rc_PatchStatus E m old),
      rc_DGet = \<lambda>n. on_snd (dc_Get D n), rc_DApply = \<lambda>q. on_snd (dc_Apply D q),
      rc_DStop = \<lambda>n. on_snd (dc_Stop D n), rc_DDelete = \<lambda>n. on_snd (dc_Delete D n),
      rc_preflight =
        \<lparr>pf_BackendConfigured = \<lambda>b. on_snd (pf_BackendConfigured (dc_preflight D) b),
         pf_HasFleetFor = \<lambda>b. on_snd (pf_HasFleetFor (dc_preflight D) b),
         pf_EnsureFleet = \<lambda>f. on_snd (pf_EnsureFleet (dc_preflight D) f)\<rparr>,
      rc_ssh = \<lparr>sk_get = \<lambda>ns n. on_fst (sk_get (rc_ssh E) ns n),
                sk_create = \<lambda>ns n d. on_fst (sk_create (rc_ssh E) ns n d),
                sk_generate = on_fst (sk_generate (rc_ssh E))\<rparr>,
      rc_secret = \<lambda>w. rc_secret E (fst w), rc_slices = \<lambda>w. rc_slices E (fst w),
      rc_fetch = \<lambda>w. rc_fetch E (fst w), rc_served = \<lambda>w. rc_served E (fst w), rc_order = rc_order E,
      rc_meta = rc_meta E, rc_ParseFloat = rc_ParseFloat E, rc_rfc3339 = rc_rfc3339 E,
      rc_showDuration = rc_showDuration E, rc_showPriceError = rc_showPriceError E,
      rc_showValidation = rc_showValidation E, rc_ProxyNamespace = rc_ProxyNamespace E,
      rc_ProxyName = rc_ProxyName E, rc_SSHKeyNamespace = rc_SSHKeyNamespace E,
      rc_HasServedModels = rc_HasServedModels E, rc_IdleRequeueInterval = rc_IdleRequeueInterval E\<rparr>"

lemma on_fst_pair [simp]: "on_fst f (s, d) = (fst (f s), (snd (f s), d))"
  by (simp add: on_fst_def split: prod.split)

lemma on_snd_pair [simp]: "on_snd f (s, d) = (fst (f d), (s, snd (f d)))"
  by (simp add: on_snd_def split: prod.split)

lemma snd_on_fst [simp]: "snd (snd (on_fst f w)) = snd w"
  by (simp add: on_fst_def split: prod.split)

lemma snd_on_snd [simp]: "snd (snd (on_snd f w)) = snd (f (snd w))"
  by (simp add: on_snd_def split: prod.split)

lemma fst_on_snd [simp]: "fst (on_snd f w) = fst (f (snd w))"
  by (simp add: on_snd_def split: prod.split)

lemma with_dstack_simps [simp]:
  "rc_UpdateModel (with_dstack D E) m = on_fst (rc_UpdateModel E m)"
  "rc_PatchStatus (with_dstack D E) m old = on_fst (rc_PatchStatus E m old)"
  "rc_DGet (with_dstack D E) n = on_snd (dc_Get D n)"
  "rc_DApply (with_dstack D E) q = on_snd (dc_Apply D q)"
  "rc_DStop (with_dstack D E) n = on_snd (dc_Stop D n)"
  "rc_DDelete (with_dstack D E) n = on_snd (dc_Delete D n)"
  "rc_meta (with_dstack D E) = rc_meta E" "rc_rfc3339 (with_dstack D E) = rc_rfc3339 E"
  "rc_ParseFloat (with_dstack D E) = rc_ParseFloat E" "rc_secret (with_dstack D E) w = rc_secret E (fst w)"
  by (simp_all add: with_dstack_def)

section \<open>What the dstack state sees of a pass\<close>

text \<open>Every relation that the preflight calls keep is kept by the whole preflight.\<close>

lemma preflight_loop_keeps:
  assumes "\<And>b s. R s \<Longrightarrow> R (snd (pf_BackendConfigured c b s))"
    and "\<And>b s. R s \<Longrightarrow> R (snd (pf_HasFleetFor c b s))"
    and "\<And>f s. R s \<Longrightarrow> R (snd (pf_EnsureFleet c f s))" and "R s"
  shows "R (snd (preflight_loop c bs unconf unfl fleets s))"
  using assms(4)
proof (induction bs arbitrary: unconf unfl fleets s)
  case (Cons b bs)
  obtain r1 s1 where 1: "pf_BackendConfigured c b s = (r1, s1)" by fastforce
  obtain r2 s2 where r2: "pf_HasFleetFor c b s1 = (r2, s2)" by fastforce
  obtain r3 s3 where r3: "pf_EnsureFleet c \<lparr>fl_Name = FleetName b, fl_Backends = [b], fl_IdleDuration = 0\<rparr> s2 = (r3, s3)"
    by fastforce
  have "R s1" "R s2" "R s3"
    using assms(1) [OF Cons.prems, of b] assms(2) [of s1 b] assms(3) [of s2] 1 r2 r3 by (metis snd_conv)+
  then show ?case
    using Cons.IH 1 r2 r3 by (cases r1; cases r2; cases r3) (auto split: bool.split)
qed simp

lemma preflight_keeps:
  assumes "\<And>b s. R s \<Longrightarrow> R (snd (pf_BackendConfigured c b s))"
    and "\<And>b s. R s \<Longrightarrow> R (snd (pf_HasFleetFor c b s))"
    and "\<And>f s. R s \<Longrightarrow> R (snd (pf_EnsureFleet c f s))" and "R s"
  shows "R (snd (preflight c bs s))"
  using preflight_loop_keeps [of R, OF assms(1-3) assms(4), of bs "[]" "[]" "[]"] assms(4)
  by (auto simp: preflight_def split: prod.splits option.splits)

lemma EnsureSSHKey_dstack: "snd (snd (EnsureSSHKey (rc_ssh (with_dstack D E)) ns w)) = snd w"
  by (cases w) (auto simp: EnsureSSHKey_def with_dstack_def split: prod.splits api_result.splits option.splits)

lemma applyEnvFor_dstack: "snd (snd (applyEnvFor (with_dstack D E) m a w)) = snd w"
  using EnsureSSHKey_dstack [of D E "operatorNamespace (with_dstack D E)" w]
  by (auto simp: applyEnvFor_def Let_def split: prod.splits sum.splits option.splits)

lemma env_gather_dstack [simp]: "env_gather (with_dstack D E) k now (s, d) = env_gather E k now s"
  by (simp add: env_gather_def with_dstack_def)

lemma observe_dstack: "snd (snd (observe (with_dstack D E) n k spec now w)) = snd (dc_Get D n (snd w))"
  by (cases w) (auto simp: observe_def Let_def split: prod.splits sum.splits)

text \<open>The schedulability gate reaches dstack through the preflight only.\<close>

lemma checkSchedulable_state:
  "snd (checkSchedulable E m a ph s) = s \<or>
   snd (checkSchedulable E m a ph s) = snd (preflight (rc_preflight E) (pc_Backends (enginePlacement (sp_Placement (md_Spec m)))) s)"
  unfolding checkSchedulable_def Let_def
  by (auto split: prod.splits sum.splits)

text \<open>A pass from the observation on, by its plan.\<close>

lemma reconcileObserved_planned:
  assumes "planned E orig n ob now s = ((model, action, phase), s1)"
  shows "reconcileObserved E orig n ob now s =
    (case actuate E orig model action n now s1 of
       (Inl msg, s2) \<Rightarrow> (ReconcileError msg, s2)
     | (Inr model2, s2) \<Rightarrow>
         let model3 = finishStatus E ob action phase now model2 s2; (ok, s3) = rc_PatchStatus E model3 orig s2
         in if \<not> ok then (ReconcileError ''update status'', s3)
            else (requeueFor E ob (md_Spec model3) phase, s3))"
proof -
  let ?d = "hasDemand (rc_rfc3339 E) orig now"
  let ?m = "statusForDecide E orig n ob ?d now"
  obtain ph0 a0 where dec: "Decide (rc_meta E) ob (md_Status ?m) (md_Spec ?m) ?d now = (ph0, a0)"
    by fastforce
  show ?thesis
    using assms unfolding planned_def reconcileObserved_def Let_def dec prod.case by (simp only: prod.case)
qed

lemma observed_dstack:
  assumes "planned (with_dstack D E) orig n ob now w = ((model, action, phase), w1)"
  shows "snd (snd (reconcileObserved (with_dstack D E) orig n ob now w)) =
    snd (snd (actuate (with_dstack D E) orig model action n now w1))"
  unfolding reconcileObserved_planned [OF assms]
  by (auto simp: Let_def split: prod.split sum.split dest: arg_cong [of _ _ "\<lambda>p. snd (snd p)"])

lemma live_pass_dstack:
  assumes "live_model m" and "observe (with_dstack D E) (runNameFor m) (md_Name m) (md_Spec m) now w = (Inr ob, w1)"
    and "planned (with_dstack D E) m (runNameFor m) ob now w1 = ((model, action, phase), w2)"
  shows "snd (snd (Reconcile (with_dstack D E) (ApiOk, m) now w)) =
    snd (snd (actuate (with_dstack D E) m model action (runNameFor m) now w2))"
  using assms observed_dstack [OF assms(3)] by (simp add: Reconcile_def live_model_def Let_def)

text \<open>A replica is asked for only where none runs.\<close>

lemma Decide_wakes_asleep:
  assumes "ac_Apply (snd (Decide M ob prior spec demand now))" and "ac_Replicas (snd (Decide M ob prior spec demand now)) \<noteq> 0"
    and "ob_Run ob = Some r"
  shows "run_Replicas r = 0"
  using assms by (auto simp: Decide_def Let_def split: if_splits)

lemma planned_wakes_asleep:
  assumes "planned E orig n ob now s = ((model, action, phase), s1)" and "ac_Apply action"
    and "ac_Replicas action \<noteq> 0" and "ob_Run ob = Some r"
  shows "run_Replicas r = 0"
proof -
  let ?d = "hasDemand (rc_rfc3339 E) orig now"
  let ?m = "statusForDecide E orig n ob ?d now"
  obtain ph0 a0 where dec: "Decide (rc_meta E) ob (md_Status ?m) (md_Spec ?m) ?d now = (ph0, a0)"
    by fastforce
  have "ac_Apply a0" "ac_Replicas a0 \<noteq> 0"
    using assms(1-3) dec by (auto simp: planned_def Let_def split: if_splits dest: checkSchedulable_frame(4,5))
  with Decide_wakes_asleep [of "rc_meta E" ob "md_Status ?m" "md_Spec ?m" ?d now r] dec assms(4) show ?thesis
    by simp
qed

text \<open>What the preflight calls keep, the plan of a pass keeps.\<close>

lemma planned_state:
  assumes "planned E orig n ob now s = (p, s')"
    and "\<And>b s. R s \<Longrightarrow> R (snd (pf_BackendConfigured (rc_preflight E) b s))"
    and "\<And>b s. R s \<Longrightarrow> R (snd (pf_HasFleetFor (rc_preflight E) b s))"
    and "\<And>f s. R s \<Longrightarrow> R (snd (pf_EnsureFleet (rc_preflight E) f s))" and "R s"
  shows "R s'"
proof -
  let ?m = "statusForDecide E orig n ob (hasDemand (rc_rfc3339 E) orig now) now"
  have "s' = s \<or> (\<exists>a ph. s' = snd (checkSchedulable E ?m a ph s))"
    using assms(1) by (auto simp: planned_def Let_def split: prod.splits if_splits) (metis snd_conv)
  then show ?thesis
    using preflight_keeps [of R, OF assms(2-5)] assms(5) checkSchedulable_state [of E] by metis
qed

section \<open>The contract of a dstack\<close>

text \<open>
  \<open>room k d\<close>: the state is well formed and its counters leave room for \<open>k\<close> more applies. \<open>refuse\<close> are
  the applies dstack answers with an override refusal: only ones on a live run, and they change nothing.
\<close>

locale dstack_contract =
  fixes D :: "'d dstack_calls" and room :: "nat \<Rightarrow> 'd \<Rightarrow> bool" and refuse :: "ApplyRequest \<Rightarrow> 'd \<Rightarrow> bool"
  assumes room_mono: "room (Suc k) d \<Longrightarrow> room k d"
    and get_keeps: "room k d \<Longrightarrow> snd (dc_Get D n d) = d"
    and get_error: "room k d \<Longrightarrow> fst (dc_Get D n d) = Inl e \<Longrightarrow> err_is e ErrNotFound"
    and get_range: "room k d \<Longrightarrow> fst (dc_Get D n d) = Inr r \<Longrightarrow> run_IdleDuration r = Some x \<Longrightarrow> is_duration x"
    and backend_keeps: "room k d \<Longrightarrow> room k (snd (pf_BackendConfigured (dc_preflight D) b d)) \<and>
      fst (dc_Get D n (snd (pf_BackendConfigured (dc_preflight D) b d))) = fst (dc_Get D n d)"
    and fleet_keeps: "room k d \<Longrightarrow> room k (snd (pf_HasFleetFor (dc_preflight D) b d)) \<and>
      fst (dc_Get D n (snd (pf_HasFleetFor (dc_preflight D) b d))) = fst (dc_Get D n d)"
    and ensure_keeps: "room k d \<Longrightarrow> room k (snd (pf_EnsureFleet (dc_preflight D) f d)) \<and>
      fst (dc_Get D n (snd (pf_EnsureFleet (dc_preflight D) f d))) = fst (dc_Get D n d)"
    and refuse_live: "room k d \<Longrightarrow> refuse q d \<Longrightarrow> live_run (fst (dc_Get D (req_Name q) d)) \<noteq> None"
    and apply_refused: "room k d \<Longrightarrow> refuse q d \<Longrightarrow> \<exists>e. dc_Apply D q d = (Inl e, d) \<and> err_is e ErrCannotOverride"
    and apply_anchored: "room (Suc k) d \<Longrightarrow> \<not> refuse q d \<Longrightarrow> req_Current q = live_run (fst (dc_Get D (req_Name q) d)) \<Longrightarrow>
      req_Replicas q \<in> {0, 1} \<Longrightarrow> (\<And>x. req_IdleDuration q = Some x \<Longrightarrow> is_duration x) \<Longrightarrow>
      (\<And>r. req_Current q = Some r \<Longrightarrow> run_Replicas r = 0 \<or> req_IdleDuration q = run_IdleDuration r) \<Longrightarrow>
      \<exists>run. fst (dc_Apply D q d) = Inr run \<and> room k (snd (dc_Apply D q d)) \<and> \<not> IsTerminal run \<and>
        run_Replicas run = req_Replicas q \<and> fst (dc_Get D (req_Name q) (snd (dc_Apply D q d))) = Inr run \<and>
        (\<forall>n. n \<noteq> req_Name q \<longrightarrow> fst (dc_Get D n (snd (dc_Apply D q d))) = fst (dc_Get D n d))"
    and stop_ends: "room k d \<Longrightarrow> fst (dc_Get D n d) = Inr r \<Longrightarrow> fst (dc_Stop D n d) = None \<and>
      room k (snd (dc_Stop D n d)) \<and> live_run (fst (dc_Get D n (snd (dc_Stop D n d)))) = None"
    and delete_forgets: "room k d \<Longrightarrow> live_run (fst (dc_Get D n d)) = None \<Longrightarrow> tolerated (fst (dc_Delete D n d)) \<and>
      room k (snd (dc_Delete D n d)) \<and> is_err (fst (dc_Get D n (snd (dc_Delete D n d))))"
    and stop_others: "room k d \<Longrightarrow> n' \<noteq> n \<Longrightarrow> fst (dc_Get D n' (snd (dc_Stop D n d))) = fst (dc_Get D n' d)"
    and delete_others: "room k d \<Longrightarrow> n' \<noteq> n \<Longrightarrow> fst (dc_Get D n' (snd (dc_Delete D n d))) = fst (dc_Get D n' d)"
begin

lemma planned_keeps:
  assumes "planned (with_dstack D E) orig n ob now w = (p, w')" and "room k (snd w)"
  shows "room k (snd w') \<and> (\<forall>x. fst (dc_Get D x (snd w')) = fst (dc_Get D x (snd w)))"
  by (rule planned_state [OF assms(1), where R = "\<lambda>v. room k (snd v) \<and> (\<forall>x. fst (dc_Get D x (snd v)) = fst (dc_Get D x (snd w)))"])
    (use backend_keeps fleet_keeps ensure_keeps assms(2) in \<open>auto simp: with_dstack_def\<close>)

text \<open>The request a pass plans on a live run is one the contract accepts.\<close>

lemma planned_request:
  assumes "planned E orig n ob now w = ((model, action, phase), w1)" and "ac_Apply action"
    and "applyEnvFor E model action w1 = (Inr (env, key), w2)"
    and "\<And>r x. ob_Run ob = Some r \<Longrightarrow> run_IdleDuration r = Some x \<Longrightarrow> is_duration x"
  shows "req_Current (applyRequestFor model action n env key) = ob_Run ob"
    and "req_Replicas (applyRequestFor model action n env key) \<in> {0, 1}"
    and "req_IdleDuration (applyRequestFor model action n env key) = Some x \<Longrightarrow> is_duration x"
    and "req_Current (applyRequestFor model action n env key) = Some r \<Longrightarrow>
      run_Replicas r = 0 \<or> req_IdleDuration (applyRequestFor model action n env key) = run_IdleDuration r"
proof -
  note shape = planned_spec(3,4,6) [OF assms(1,2)]
  show "req_Current (applyRequestFor model action n env key) = ob_Run ob"
    "req_Replicas (applyRequestFor model action n env key) \<in> {0, 1}"
    using shape by simp_all
  show "is_duration x" if "req_IdleDuration (applyRequestFor model action n env key) = Some x"
    using that shape assms(4) by (auto simp: applyDurationsFor_def split: option.splits if_splits)
  show "run_Replicas r = 0 \<or> req_IdleDuration (applyRequestFor model action n env key) = run_IdleDuration r"
    if "req_Current (applyRequestFor model action n env key) = Some r"
    using that shape planned_wakes_asleep [OF assms(1,2)]
    by (auto simp: applyDurationsFor_def split: option.splits if_splits)
qed

text \<open>A planned apply that is not refused succeeds, and Get shows its result.\<close>

lemma planned_apply:
  assumes "room (Suc k) (snd w)" and "ob_Run ob = live_run (fst (dc_Get D n (snd w)))"
    and "planned (with_dstack D E) orig n ob now w = ((model, action, phase), w1)" and "ac_Apply action"
    and "applyEnvFor (with_dstack D E) model action w1 = (Inr (env, key), w2)"
    and "\<not> refuse (applyRequestFor model action n env key) (snd w2)"
  obtains run d' where "dc_Apply D (applyRequestFor model action n env key) (snd w2) = (Inr run, d')" "room k d'"
    "\<not> IsTerminal run" "run_Replicas run = ac_Replicas action" "fst (dc_Get D n d') = Inr run"
    "\<And>x. x \<noteq> n \<Longrightarrow> fst (dc_Get D x d') = fst (dc_Get D x (snd w))"
proof -
  let ?q = "applyRequestFor model action n env key"
  have d: "snd w2 = snd w1"
    using applyEnvFor_dstack [of D E model action w1] assms(5) by simp
  have keeps: "room (Suc k) (snd w2)" "\<And>x. fst (dc_Get D x (snd w2)) = fst (dc_Get D x (snd w))"
    using planned_keeps [OF assms(3,1)] d by simp_all
  have range: "is_duration x" if "ob_Run ob = Some r" "run_IdleDuration r = Some x" for r x
    using that assms(2) get_range [OF assms(1), of n r x]
    by (auto simp: live_run_def split: sum.splits if_splits)
  note req = planned_request [OF assms(3-5) range]
  have "\<exists>run. fst (dc_Apply D ?q (snd w2)) = Inr run \<and> room k (snd (dc_Apply D ?q (snd w2))) \<and> \<not> IsTerminal run \<and>
      run_Replicas run = req_Replicas ?q \<and> fst (dc_Get D (req_Name ?q) (snd (dc_Apply D ?q (snd w2)))) = Inr run \<and>
      (\<forall>n. n \<noteq> req_Name ?q \<longrightarrow> fst (dc_Get D n (snd (dc_Apply D ?q (snd w2)))) = fst (dc_Get D n (snd w2)))"
    by (rule apply_anchored [OF keeps(1) assms(6)]) (use req assms(2) keeps(2) in auto)
  then show thesis
    using that [of _ "snd (dc_Apply D ?q (snd w2))"] keeps(2)
    by (auto simp: prod_eq_iff)
qed

text \<open>
  The dstack state after a pass of a live Model: as before, as its apply left it, or, after an override
  refusal, as before for a refused sleep and with the run stopped for a refused wake.
\<close>

lemma live_pass_cases:
  assumes "room (Suc k) d" and "live_model m"
  obtains (quiet) d' where "snd (snd (Reconcile (with_dstack D E) (ApiOk, m) now (s, d))) = d'" "room k d'"
      "\<And>x. fst (dc_Get D x d') = fst (dc_Get D x d)"
      "\<And>q r. CallApply q r \<notin> set (pass_calls (with_dstack D E) (ApiOk, m) now (s, d))"
  | (applied) q run d0 d' where "snd (snd (Reconcile (with_dstack D E) (ApiOk, m) now (s, d))) = d'" "room k d'"
      "\<And>x. x \<noteq> runNameFor m \<Longrightarrow> fst (dc_Get D x d') = fst (dc_Get D x d)"
      "fst (dc_Get D (runNameFor m) d') = Inr run" "\<not> IsTerminal run" "run_Replicas run = req_Replicas q"
      "\<not> refuse q d0" "req_Name q = runNameFor m" "fst (dc_Get D (runNameFor m) d0) = fst (dc_Get D (runNameFor m) d)"
      "room k d0"
      "\<And>q' r. CallApply q' r \<in> set (pass_calls (with_dstack D E) (ApiOk, m) now (s, d)) \<longleftrightarrow> q' = q \<and> r = Inr run"
  | (refusal) q e cur d0 d' where "snd (snd (Reconcile (with_dstack D E) (ApiOk, m) now (s, d))) = d'" "room k d'"
      "\<And>x. x \<noteq> runNameFor m \<or> req_Replicas q = 0 \<Longrightarrow> fst (dc_Get D x d') = fst (dc_Get D x d)"
      "refuse q d0" "err_is e ErrCannotOverride" "req_Replicas q \<in> {0, 1}" "req_Current q = Some cur" "live_run (fst (dc_Get D (runNameFor m) d)) = Some cur"
      "req_Replicas q = 1 \<Longrightarrow> run_Replicas cur = 0 \<and> live_run (fst (dc_Get D (runNameFor m) d')) = None"
      "\<And>q' r. CallApply q' r \<in> set (pass_calls (with_dstack D E) (ApiOk, m) now (s, d)) \<longleftrightarrow> q' = q \<and> r = Inl e"
proof -
  let ?E = "with_dstack D E" let ?n = "runNameFor m"
  obtain r w1 where obs: "observe ?E ?n (md_Name m) (md_Spec m) now (s, d) = (r, w1)"
    by (rule prod.exhaust)
  have w1: "snd w1 = d"
    using observe_dstack [of D E ?n "md_Name m" "md_Spec m" now "(s, d)"] obs get_keeps [OF assms(1)] by simp
  have "\<exists>ob. r = Inr ob"
    using obs get_error [OF assms(1), of ?n] by (auto simp: observe_def Let_def split: sum.splits if_splits)
  then obtain ob where ob: "r = Inr ob"
    by blast
  obtain model action phase w2 where plan: "planned ?E m ?n ob now w1 = ((model, action, phase), w2)"
    by (metis prod_cases3 surj_pair)
  have keeps: "room (Suc k) (snd w2)" "\<And>x. fst (dc_Get D x (snd w2)) = fst (dc_Get D x d)"
    using planned_keeps [OF plan, of "Suc k"] assms(1) w1 by simp_all
  have state: "snd (snd (Reconcile ?E (ApiOk, m) now (s, d))) = snd (snd (actuate ?E m model action ?n now w2))"
    by (rule live_pass_dstack [OF assms(2) _ plan]) (use obs ob in simp)
  have calls: "pass_calls ?E (ApiOk, m) now (s, d) = CallGet ?n (fst (dc_Get D ?n d)) # observed_calls ?E m ?n ob now w1"
    using pass_calls_live [OF assms(2), of ?E now "(s, d)"] obs ob by simp
  from plan show ?thesis
  proof (cases rule: observed_calls_cases)
    case (idle m' ok)
    with state calls keeps room_mono [OF keeps(1)] show ?thesis
      by (intro quiet [of "snd w2"]) (auto simp: actuate_def)
  next
    case (env_failed e w3)
    then have "snd w3 = snd w2"
      using applyEnvFor_dstack [of D E model action w2] by simp
    with env_failed state calls keeps room_mono [OF keeps(1)] show ?thesis
      by (intro quiet [of "snd w2"]) (auto simp: actuate_def)
  next
    case (refused env key w3 q err w4)
    have run: "ob_Run ob = live_run (fst (dc_Get D ?n (snd w1)))"
      using observe_live_run(1) [of ?E ?n "md_Name m" "md_Spec m" now "(s, d)"] obs ob w1 by simp
    have w3: "snd w3 = snd w2"
      using applyEnvFor_dstack [of D E model action w2] refused(2) by simp
    have refuse: "refuse q (snd w3)"
    proof (rule ccontr)
      assume "\<not> refuse q (snd w3)"
      with planned_apply [OF _ run plan refused(1,2), of k] assms(1) w1 refused(3,4) show False
        by (metis Inl_Inr_False fst_conv fst_on_snd with_dstack_simps(4))
    qed
    have q: "req_Name q = ?n" "req_Current q = ob_Run ob" "req_Replicas q = ac_Replicas action"
      using planned_spec(3) [OF plan refused(1)] refused(3) by simp_all
    obtain cur where cur: "live_run (fst (dc_Get D ?n d)) = Some cur" "ob_Run ob = Some cur"
      using refuse_live [OF keeps(1), of q] refuse w3 keeps(2) q(1) run w1 by auto
    have err: "err_is err ErrCannotOverride" "snd w4 = snd w2"
      using apply_refused [OF keeps(1), of q] refuse refused(4) w3 by (auto simp: on_snd_def split: prod.splits)
    have asleep: "run_Replicas cur = 0" if "req_Replicas q = 1"
      using planned_wakes_asleep [OF plan refused(1) _ cur(2)] that q(3) by simp
    have rec: "snd (recoverFromOverrideRefusal ?E model m action ?n err w4) =
        (if req_Replicas q = 1 then snd (dc_Stop D ?n (snd w2)) else snd w2)"
      using err asleep q planned_spec(3,4) [OF plan refused(1)] cur(2)
      by (auto simp: recoverFromOverrideRefusal_def Let_def)
    have state': "snd (snd (actuate ?E m model action ?n now w2)) =
        (if req_Replicas q = 1 then snd (dc_Stop D ?n (snd w2)) else snd w2)"
      using refused(1-4) rec by (simp add: actuate_def)
    obtain r0 where r0: "fst (dc_Get D ?n (snd w2)) = Inr r0"
      using cur(1) keeps(2) by (auto simp: live_run_def split: sum.splits)
    note stops = stop_ends [OF keeps(1) r0] and others = stop_others [OF keeps(1), of _ ?n]
    have only: "CallApply q' r \<in> set (pass_calls ?E (ApiOk, m) now (s, d)) \<longleftrightarrow> q' = q \<and> r = Inl err" for q' r
      using calls refused(5) recovery_calls_kinds [of "CallApply q' r" ?E model m action ?n err w4] by auto
    show ?thesis
    proof (rule refusal [OF _ _ _ refuse err(1) _ _ cur(1) _ only])
      show "snd (snd (Reconcile ?E (ApiOk, m) now (s, d))) = (if req_Replicas q = 1 then snd (dc_Stop D ?n (snd w2)) else snd w2)"
        using state state' by simp
      show "room k (if req_Replicas q = 1 then snd (dc_Stop D ?n (snd w2)) else snd w2)"
        using room_mono [OF keeps(1)] room_mono [of k "snd (dc_Stop D ?n (snd w2))"] stops by simp
    qed (use q(2,3) cur(2) asleep stops others keeps(2) planned_spec(4) [OF plan refused(1)] in auto)
  next
    case (applied env key w3 q run w4 m' ok)
    have run: "ob_Run ob = live_run (fst (dc_Get D ?n (snd w1)))"
      using observe_live_run(1) [of ?E ?n "md_Name m" "md_Spec m" now "(s, d)"] obs ob w1 by simp
    have "room (Suc k) (snd w1)"
      using assms(1) w1 by simp
    have w3: "snd w3 = snd w2"
      using applyEnvFor_dstack [of D E model action w2] applied(2) by simp
    have taken: "\<not> refuse q (snd w3)"
      using apply_refused [OF keeps(1), of q] applied(4) w3 by (auto simp: on_snd_def split: prod.splits)
    with planned_apply [OF \<open>room (Suc k) (snd w1)\<close> run plan applied(1,2)] obtain run' d' where
      ok: "dc_Apply D q (snd w3) = (Inr run', d')" "room k d'" "\<not> IsTerminal run'" "run_Replicas run' = ac_Replicas action"
        "fst (dc_Get D ?n d') = Inr run'" "\<And>x. x \<noteq> ?n \<Longrightarrow> fst (dc_Get D x d') = fst (dc_Get D x d)"
      using applied(3) w1 by metis
    have same: "run' = run" "snd w4 = d'"
      using applied(4) ok(1) by (auto simp: on_snd_def split: prod.splits)
    have "snd (snd (actuate ?E m model action ?n now w2)) = d'"
      using applied(1-4) same by (simp add: actuate_def)
    with state ok same calls applied show ?thesis
      by (intro that(2) [OF _ _ _ _ _ _ taken]) (use keeps w3 room_mono in auto)
  qed
qed

text \<open>Teardown passes: stop what runs, delete what ended.\<close>

lemma drain_entry_dstack:
  "drain_entry (with_dstack D E) m (s, d) = (fst (drain_entry E m s), (snd (drain_entry E m s), d))"
  by (simp add: drain_entry_def)

lemma reconcileDelete_state:
  assumes "room k d"
  shows "snd (snd (reconcileDelete (with_dstack D E) m n now (s, d))) =
    (if ModelFinalizer \<notin> set (md_Finalizers m) \<or> \<not> fst (drain_entry E m s) then d
     else case fst (dc_Get D n d) of
       Inl _ \<Rightarrow> snd (dc_Delete D n d)
     | Inr r \<Rightarrow>
         if 0 < run_Replicas r \<and>
            \<not> drainTimeoutOrDefault (md_Spec m) < time_sub now (case md_DeletionTimestamp m of None \<Rightarrow> 0 | Some t \<Rightarrow> t) \<and>
            \<not> drainEvidenceClean (env_gather (with_dstack D E) (md_Name m) now (snd (drain_entry E m s), d)) then d
         else if \<not> IsTerminal r then snd (dc_Stop D n d) else snd (dc_Delete D n d))"
proof -
  let ?E = "with_dstack D E"
  have entry: "(if st_Phase (md_Status m) \<noteq> Draining then rc_PatchStatus ?E (draining m) m (s, d) else (True, (s, d))) =
      (fst (drain_entry E m s), (snd (drain_entry E m s), d))"
    using drain_entry_dstack [of E m s d] by (simp add: drain_entry_def)
  have finish: "snd (snd (finishDelete ?E m' n (t, d))) = snd (dc_Delete D n d)" for m' t
    by (auto simp: finishDelete_def Let_def split: option.splits)
  have stop: "snd (snd (stopFirst ?E n (t, d))) = snd (dc_Stop D n d)" for t
    by (auto simp: stopFirst_def split: option.splits)
  have get: "rc_DGet ?E n (t, d) = (fst (dc_Get D n d), (t, d))" for t
    using get_keeps [OF assms, of n] by simp
  note body = reconcileDelete_def [of ?E m n now "(s, d)", folded draining_def, unfolded entry Let_def prod.case get]
  show ?thesis
    unfolding body
    using get_error [OF assms, of n] finish stop by (auto split: sum.splits)
qed

lemma delete_pass_keeps:
  assumes "room k d"
  shows "room k (snd (snd (reconcileDelete (with_dstack D E) m n now (s, d)))) \<and>
    (\<forall>x. x \<noteq> n \<longrightarrow> fst (dc_Get D x (snd (snd (reconcileDelete (with_dstack D E) m n now (s, d))))) = fst (dc_Get D x d))"
  unfolding reconcileDelete_state [OF assms]
  using assms stop_ends [OF assms, of n] delete_forgets [OF assms, of n] stop_others [OF assms, of _ n] delete_others [OF assms, of _ n]
  by (auto simp: live_run_def split: sum.splits)

text \<open>Past the drain deadline a pass leaves no live run; with none left, the next one forgets the record.\<close>

lemma teardown_pass:
  assumes "room k d" and "ModelFinalizer \<in> set (md_Finalizers m)" and "fst (drain_entry E m s)"
    and "drainTimeoutOrDefault (md_Spec m) < time_sub now (case md_DeletionTimestamp m of None \<Rightarrow> 0 | Some t \<Rightarrow> t)"
  shows "live_run (fst (dc_Get D n (snd (snd (reconcileDelete (with_dstack D E) m n now (s, d)))))) = None"
    and "live_run (fst (dc_Get D n d)) = None \<Longrightarrow>
      is_err (fst (dc_Get D n (snd (snd (reconcileDelete (with_dstack D E) m n now (s, d))))))"
  unfolding reconcileDelete_state [OF assms(1)]
  using assms stop_ends [OF assms(1), of n] delete_forgets [OF assms(1), of n]
  by (auto simp: live_run_def is_err_def split: sum.splits if_splits)

text \<open>
  Any pass, of any Model: room for the rest, no other Model's run touched, and every apply it makes
  is accepted, or refused as an override of a live run; a refused sleep changes nothing, a refused
  wake leaves no live run behind.
\<close>

lemma pass_answered:
  assumes "room (Suc k) d"
  shows "room k (snd (snd (Reconcile (with_dstack D E) (ApiOk, m) now (s, d)))) \<and>
    (\<forall>x. x \<noteq> runNameFor m \<longrightarrow>
       fst (dc_Get D x (snd (snd (Reconcile (with_dstack D E) (ApiOk, m) now (s, d))))) = fst (dc_Get D x d)) \<and>
    (\<forall>q r. CallApply q r \<in> set (pass_calls (with_dstack D E) (ApiOk, m) now (s, d)) \<longrightarrow>
       (\<exists>run. r = Inr run \<and> \<not> IsTerminal run \<and> run_Replicas run = req_Replicas q) \<or>
       (\<exists>e cur d0. r = Inl e \<and> err_is e ErrCannotOverride \<and> refuse q d0 \<and> req_Current q = Some cur \<and>
          live_run (fst (dc_Get D (runNameFor m) d)) = Some cur \<and>
          (req_Replicas q = 0 \<longrightarrow>
             fst (dc_Get D (runNameFor m) (snd (snd (Reconcile (with_dstack D E) (ApiOk, m) now (s, d))))) = fst (dc_Get D (runNameFor m) d)) \<and>
          (req_Replicas q = 1 \<longrightarrow> run_Replicas cur = 0 \<and>
             live_run (fst (dc_Get D (runNameFor m) (snd (snd (Reconcile (with_dstack D E) (ApiOk, m) now (s, d)))))) = None)))"
proof (cases "live_model m")
  case True
  from assms True show ?thesis
  proof (cases rule: live_pass_cases [where E = E and now = now and s = s])
    case (quiet d')
    then show ?thesis
      by simp
  next
    case (applied q run d0 d')
    then show ?thesis
      by simp
  next
    case (refusal q e cur d0 d')
    then show ?thesis
      by (simp add: refusal(10) del: not_None_eq) blast
  qed
next
  case False
  have "room k (snd (snd (Reconcile (with_dstack D E) (ApiOk, m) now (s, d)))) \<and>
    (\<forall>x. x \<noteq> runNameFor m \<longrightarrow>
       fst (dc_Get D x (snd (snd (Reconcile (with_dstack D E) (ApiOk, m) now (s, d))))) = fst (dc_Get D x d))"
  proof (cases "isZeroPtr (md_DeletionTimestamp m)")
    case True
    with False room_mono [OF assms] show ?thesis
      by (simp add: Reconcile_def live_model_def Let_def)
  next
    case False
    with delete_pass_keeps [OF room_mono [OF assms], of E m "runNameFor m" now s] show ?thesis
      by (simp add: pass_calls_deleting(2))
  qed
  with pass_calls_not_live [OF False, of _ _ "with_dstack D E" now "(s, d)"] show ?thesis
    by simp
qed

end

section \<open>The HTTP client against the in-memory server\<close>

definition server_calls :: "(json \<Rightarrow> string) \<Rightarrow> string \<Rightarrow> HTTPClient \<Rightarrow> gotime \<Rightarrow> mockServer dstack_calls" where
  "server_calls render token c now =
     (let tr = NewHTTPServer render token now
      in \<lparr>dc_Get = client_Get tr c, dc_Apply = client_Apply tr c, dc_Stop = client_Stop tr c,
          dc_Delete = client_Delete tr c,
          dc_preflight = \<lparr>pf_BackendConfigured = client_BackendConfigured tr c,
            pf_HasFleetFor = client_HasFleetFor tr c, pf_EnsureFleet = client_EnsureFleet tr c\<rparr>\<rparr>)"

text \<open>Counters with room for \<open>k\<close> more applies, and idle durations that fit a \<open>time.Duration\<close>.\<close>

definition service_room :: "nat \<Rightarrow> mockService \<Rightarrow> bool" where
  "service_room k svc \<longleftrightarrow> 0 \<le> sv_deploymentNum svc \<and> sv_deploymentNum svc + int k \<le> maxDuration \<and>
     0 \<le> sv_replicas svc \<and> sv_replicas svc \<le> maxDuration \<and>
     (\<forall>x. sv_idleDuration svc = Some x \<longrightarrow> 0 \<le> x \<and> x * Second \<le> maxDuration)"

definition server_room :: "HTTPClient \<Rightarrow> string \<Rightarrow> nat \<Rightarrow> mockServer \<Rightarrow> bool" where
  "server_room c token k s \<longleftrightarrow> good_client c token \<and> int k \<le> maxDuration \<and>
     (\<forall>n svc. gomap_get (ms_services s) n = Some svc \<longrightarrow> service_room k svc)"

text \<open>The two states differ in their fleets at most.\<close>

definition fleets_only :: "mockServer \<Rightarrow> mockServer \<Rightarrow> bool" where
  "fleets_only s s' \<longleftrightarrow> s' = s\<lparr>ms_fleets := ms_fleets s'\<rparr>"

lemma fleets_only_refl [simp]: "fleets_only s s"
  by (simp add: fleets_only_def)

lemma fleets_only_trans: "fleets_only s t \<Longrightarrow> fleets_only t u \<Longrightarrow> fleets_only s u"
  unfolding fleets_only_def by (metis mockServer.surjective mockServer.update_convs(2))

lemma fleets_only_fields:
  "fleets_only s t \<Longrightarrow> ms_services t = ms_services s \<and> ms_seq t = ms_seq s \<and> ms_probeDelay t = ms_probeDelay s"
  unfolding fleets_only_def by (metis mockServer.select_convs(1,3,4) mockServer.surjective mockServer.update_convs(2))

lemma EnsureFleet_only [simp]: "fleets_only s (mock_EnsureFleet n bs s)"
  by (auto simp: fleets_only_def mock_EnsureFleet_def split: option.split)

lemma snd_post: "snd (post tr c path j s) = snd (tr path (''Bearer '' @ hc_token c) j s)"
  by (auto simp: post_def split: prod.splits http_outcome.splits option.splits)

lemma fleet_routes:
  assumes "good_client c token" and "hd (Split_char (CHR ''/'') op) \<noteq> ''runs''"
  shows "fleets_only s (snd (post (NewHTTPServer render token now) c (projectPath c op) j s))"
proof -
  have route: "fleets_only s (snd r)" if "mock_project_route render now xs j s = Some r" "hd xs \<noteq> ''runs''" for xs r
    using that by (auto simp: mock_project_route_def handleApplyFleet_def Let_def split: if_splits option.splits)
  show ?thesis
    using route [of "Split_char (CHR ''/'') op"] assms(2)
    by (auto simp: snd_post NewHTTPServer_def split_project_path [OF assms(1)] Let_def split: option.splits)
qed

text \<open>So a chain of posts outside \<open>runs/\<close> changes fleets at most.\<close>

lemma post_fleets:
  assumes "good_client c token" and "hd (Split_char (CHR ''/'') op) \<noteq> ''runs''" and "fleets_only s t"
    and "post (NewHTTPServer render token now) c (projectPath c op) j t = (r, u)"
  shows "fleets_only s u"
  using fleets_only_trans [OF assms(3) fleet_routes [OF assms(1,2)], of render now j] assms(4) by simp

lemma preflight_posts:
  assumes "good_client c token"
  shows "fleets_only s (snd (client_BackendConfigured (NewHTTPServer render token now) c b s))"
    and "fleets_only s (snd (client_HasFleetFor (NewHTTPServer render token now) c b s))"
    and "fleets_only s (snd (client_EnsureFleet (NewHTTPServer render token now) c f s))"
proof -
  let ?tr = "NewHTTPServer render token now"
  have hd: "hd (Split_char (CHR ''/'') (''backends/'' @ b @ ''/config_info'')) \<noteq> ''runs''"
    using Split_char_append [of "CHR ''/''" "''backends''" "b @ ''/config_info''"] by simp
  have fl: "hd (Split_char (CHR ''/'') ''fleets/list'') \<noteq> ''runs''" "hd (Split_char (CHR ''/'') ''fleets/get'') \<noteq> ''runs''"
    "hd (Split_char (CHR ''/'') ''fleets/get_plan'') \<noteq> ''runs''" "hd (Split_char (CHR ''/'') ''fleets/apply'') \<noteq> ''runs''"
    by simp_all
  note step = post_fleets [OF assms, of _ s]
  show "fleets_only s (snd (client_BackendConfigured ?tr c b s))"
    by (auto simp: client_BackendConfigured_def intro: step [OF hd fleets_only_refl]
        split: prod.split sum.split dstack_error.split)
  show "fleets_only s (snd (client_HasFleetFor ?tr c b s))"
    by (auto simp: client_HasFleetFor_def intro: step [OF fl(1) fleets_only_refl] split: prod.split sum.split option.split)
  have create: "fleets_only s (snd (createFleet ?tr c f t))" if "fleets_only s t" for t
    by (auto simp: createFleet_def Let_def intro: step [OF fl(4)] step [OF fl(3) that]
        split: prod.split sum.split option.split)
  show "fleets_only s (snd (client_EnsureFleet ?tr c f s))"
    by (auto simp: client_EnsureFleet_def intro: step [OF fl(2) fleets_only_refl] create split: prod.split sum.split)
qed

lemma server_calls_simps [simp]:
  "dc_Get (server_calls render token c now) = client_Get (NewHTTPServer render token now) c"
  "dc_Apply (server_calls render token c now) = client_Apply (NewHTTPServer render token now) c"
  "dc_Stop (server_calls render token c now) = client_Stop (NewHTTPServer render token now) c"
  "dc_Delete (server_calls render token c now) = client_Delete (NewHTTPServer render token now) c"
  "pf_BackendConfigured (dc_preflight (server_calls render token c now)) = client_BackendConfigured (NewHTTPServer render token now) c"
  "pf_HasFleetFor (dc_preflight (server_calls render token c now)) = client_HasFleetFor (NewHTTPServer render token now) c"
  "pf_EnsureFleet (dc_preflight (server_calls render token c now)) = client_EnsureFleet (NewHTTPServer render token now) c"
  by (simp_all add: server_calls_def Let_def)

text \<open>What Get shows, by the service record.\<close>

definition shown :: "gotime \<Rightarrow> mockServer \<Rightarrow> string \<Rightarrow> dstack_error + Run" where
  "shown now s n =
     (case gomap_get (ms_services s) n of
        None \<Rightarrow> Inl (HTTPError 400 ErrNotFound ''Run not found'')
      | Some svc \<Rightarrow> Inr (client_run (runFor now s n svc)))"

lemma service_room_Suc: "service_room (Suc k) svc \<Longrightarrow> service_room k svc"
  by (simp add: service_room_def)

lemma service_room_range: "service_room k svc \<Longrightarrow> run_in_range (runFor now s n svc)"
  by (auto simp: service_room_def run_in_range_def runFor_def is_duration_def minDuration_def)

lemma server_Get:
  assumes "server_room c token k s"
  shows "client_Get (NewHTTPServer render token now) c n s = (shown now s n, s)"
proof -
  have "client_Get (NewHTTPServer render token now) c n s =
    (case mock_Get now n s of
       Inl _ \<Rightarrow> (Inl (HTTPError 400 ErrNotFound ''Run not found''), s)
     | Inr run \<Rightarrow> (Inr (client_run run), s))"
    by (rule client_Get_eq)
      (use assms in \<open>auto simp: server_room_def mock_Get_def split: option.splits intro: service_room_range\<close>)
  then show ?thesis
    by (simp add: mock_Get_def shown_def split: option.split)
qed

lemma fleets_only_room: "fleets_only s t \<Longrightarrow> server_room c token k s \<Longrightarrow> server_room c token k t"
  using fleets_only_fields [of s t] by (simp add: server_room_def)

lemma fleets_only_shown: "fleets_only s t \<Longrightarrow> shown now t n = shown now s n"
  using fleets_only_fields [of s t] by (simp add: shown_def runFor_def mock_probesReady_def split: option.split)

lemma server_room_client: "server_room c token k s \<Longrightarrow> good_client c token"
  by (simp add: server_room_def)

lemma server_fleets_keep:
  assumes "server_room c token k s" and "fleets_only s t"
  shows "server_room c token k t \<and>
    fst (client_Get (NewHTTPServer render token now) c n t) = fst (client_Get (NewHTTPServer render token now) c n s)"
  using fleets_only_room [OF assms(2,1)] fleets_only_shown [OF assms(2)] assms(1) by (simp add: server_Get)

lemma client_run_terminal [simp]: "IsTerminal (client_run (runFor now s n svc)) = sv_terminal svc"
  by (simp add: IsTerminal_def client_run_def runFor_def statusFor_def finishedRunStatuses_def)

lemma live_run_shown:
  "live_run (shown now s n) = map_option (\<lambda>svc. client_run (runFor now s n svc)) (live_service s n)"
  by (simp add: shown_def live_run_def live_service_def IsTerminal_def client_run_def runFor_def statusFor_def
      finishedRunStatuses_def split: option.split)

text \<open>Seconds that fit survive the trip to the client and back.\<close>

lemma seconds_echo:
  assumes "\<And>x. v = Some x \<Longrightarrow> 0 \<le> x \<and> x * Second \<le> maxDuration"
  shows "dstackSecondsPtr (wireSecondsPtr v) = v"
  using assms by (cases v) (auto simp: dstackSecondsPtr_def wireSecondsPtr_def dstackSeconds_def wrap64_id is_duration_def
      minDuration_def go_div_nonneg Let_def)

lemma dstackSeconds_fits:
  assumes "is_duration d"
  shows "0 \<le> dstackSeconds d" and "dstackSeconds d * Second \<le> maxDuration"
proof -
  have "max 0 d div Second * Second \<le> max 0 d"
    by (simp add: div_times_less_eq_dividend)
  moreover have "dstackSeconds d = max 0 d div Second"
    by (simp add: dstackSeconds_def go_div_nonneg Let_def max_def)
  ultimately show "0 \<le> dstackSeconds d" "dstackSeconds d * Second \<le> maxDuration"
    using assms by (auto simp: pos_imp_zdiv_nonneg_iff is_duration_def maxDuration_def max_def split: if_splits)
qed

lemma apply_service_idle [simp]: "sv_idleDuration (apply_service now req svc) = ka_IdleDuration req"
  by (simp add: apply_service_def Let_def)

lemma mock_request_simps [simp]:
  "ka_Name (mock_request q) = req_Name q" "ka_Replicas (mock_request q) = req_Replicas q"
  "ka_Force (mock_request q) = False" "ka_IdleDuration (mock_request q) = dstackSecondsPtr (req_IdleDuration q)"
  by (simp_all add: mock_request_def)

lemma apply_service_room:
  assumes "0 \<le> sv_deploymentNum svc" and "sv_deploymentNum svc + int (Suc k) \<le> maxDuration" and "req_Replicas q \<in> {0, 1}"
    and "\<And>x. req_IdleDuration q = Some x \<Longrightarrow> is_duration x"
  shows "service_room k (apply_service now (mock_request q) svc)"
  using assms dstackSeconds_fits
  by (auto simp: service_room_def dstackSecondsPtr_def is_duration_def minDuration_def maxDuration_def split: option.splits)

text \<open>An anchored request, by the service it applies to.\<close>

lemma mock_Apply_accepts:
  assumes "server_room c token (Suc k) s" and "req_Current q = live_run (shown now s (req_Name q))"
    and "\<And>r. req_Current q = Some r \<Longrightarrow> run_Replicas r = 0 \<or> req_IdleDuration q = run_IdleDuration r"
  obtains base s0 where "live_service s (req_Name q) = Some base \<and> s0 = s \<or>
      live_service s (req_Name q) = None \<and> base = fresh_service (newRunID (req_Name q) (Suc (ms_seq s))) now \<and> s0 = s\<lparr>ms_seq := Suc (ms_seq s)\<rparr>"
    "mock_Apply now (mock_request q) s =
       (let svc = apply_service now (mock_request q) base; s' = put_service (req_Name q) svc s0
        in (Inr (runFor now s' (req_Name q) svc), s'))"
proof (cases "live_service s (req_Name q)")
  case None
  then show thesis
    using that by (auto simp: mock_Apply_eq minted_def Let_def)
next
  case (Some svc)
  let ?r = "client_run (runFor now s (req_Name q) svc)"
  have r: "req_Current q = Some ?r"
    using assms(2) Some by (simp add: live_run_shown)
  have anchored: "anchored (mock_request q) svc"
    by (simp add: anchored_def mock_request_def r anchor_run_def run_anchor_def client_run_def runFor_def)
  have "sameSeconds (sv_idleDuration svc) (dstackSecondsPtr (req_IdleDuration q))" if "0 < sv_replicas svc"
  proof -
    have "service_room (Suc k) svc"
      using assms(1) live_serviceD [OF Some] by (auto simp: server_room_def)
    then have "dstackSecondsPtr (wireSecondsPtr (sv_idleDuration svc)) = sv_idleDuration svc"
      by (intro seconds_echo) (simp add: service_room_def)
    moreover have "req_IdleDuration q = wireSecondsPtr (sv_idleDuration svc)"
      using assms(3) [OF r] that by (simp add: client_run_def runFor_def)
    ultimately show ?thesis
      by (simp add: sameSeconds_def split: option.split)
  qed
  with Some anchored show thesis
    using that by (auto simp: mock_Apply_eq Let_def)
qed

lemma server_Apply_accepts:
  assumes room: "server_room c token (Suc k) s" and cur: "req_Current q = live_run (shown now s (req_Name q))"
    and reps: "req_Replicas q \<in> {0, 1}" and dur: "\<And>x. req_IdleDuration q = Some x \<Longrightarrow> is_duration x"
    and idle: "\<And>r. req_Current q = Some r \<Longrightarrow> run_Replicas r = 0 \<or> req_IdleDuration q = run_IdleDuration r"
  obtains svc s' where
    "client_Apply (NewHTTPServer render token now) c q s = (Inr (client_run (runFor now s' (req_Name q) svc)), s')"
    "gomap_get (ms_services s') (req_Name q) = Some svc" "\<not> sv_terminal svc" "sv_replicas svc = req_Replicas q"
    "server_room c token k s'" "ms_probeDelay s' = ms_probeDelay s"
    "\<And>n. n \<noteq> req_Name q \<Longrightarrow> gomap_get (ms_services s') n = gomap_get (ms_services s) n"
    "sv_replicas svc = 0 \<or> sv_replicasUpAt svc = now \<or> (\<exists>old. live_service s (req_Name q) = Some old \<and> 0 < sv_replicas old)"
    "\<And>old. live_service s (req_Name q) = Some old \<Longrightarrow>
       sv_runID svc = sv_runID old \<and> sv_deploymentNum svc = sv_deploymentNum old + 1"
proof -
  let ?n = "req_Name q" let ?R = "mock_request q"
  obtain base s0 where base: "live_service s ?n = Some base \<and> s0 = s \<or>
      live_service s ?n = None \<and> base = fresh_service (newRunID ?n (Suc (ms_seq s))) now \<and> s0 = s\<lparr>ms_seq := Suc (ms_seq s)\<rparr>"
    and app: "mock_Apply now ?R s = (let svc = apply_service now ?R base; s' = put_service ?n svc s0 in (Inr (runFor now s' ?n svc), s'))"
    using mock_Apply_accepts [OF room cur idle] by blast
  define svc where "svc = apply_service now ?R base"
  define s' where "s' = put_service ?n svc s0"
  have ok: "mock_Apply now ?R s = (Inr (runFor now s' ?n svc), s')"
    using app by (simp add: svc_def s'_def Let_def)
  have good: "good_client c token" and fits: "int (Suc k) \<le> maxDuration"
    and old: "\<And>n v. gomap_get (ms_services s) n = Some v \<Longrightarrow> service_room (Suc k) v"
    using room by (auto simp: server_room_def)
  have bounds: "0 \<le> sv_deploymentNum base" "sv_deploymentNum base + int (Suc k) \<le> maxDuration" "\<not> sv_terminal base"
    using base old fits by (auto simp: service_room_def dest: live_serviceD)
  have new: "service_room k svc"
    unfolding svc_def by (rule apply_service_room [OF bounds(1,2) reps dur])
  have s0: "ms_services s0 = ms_services s" "ms_probeDelay s0 = ms_probeDelay s"
    using base by auto
  have get: "gomap_get (ms_services s') n = (if n = ?n then Some svc else gomap_get (ms_services s) n)" for n
    by (simp add: s'_def s0)
  have anchor: "good_anchor r" if "req_Current q = Some r" for r
    using that cur old by (auto simp: live_run_shown dest!: live_serviceD intro!: client_run_anchor service_room_range)
  have "client_Apply (NewHTTPServer render token now) c q s = (case mock_Apply now ?R s of
       (Inr run, s') \<Rightarrow> (Inr (client_run run), s') | (Inl e, s') \<Rightarrow> (Inl (client_apply_error e), s'))"
    by (rule client_Apply_eq [OF good _ dur anchor])
      (use reps ok new in \<open>auto simp: is_duration_def minDuration_def maxDuration_def intro: service_room_range\<close>)
  then have "client_Apply (NewHTTPServer render token now) c q s = (Inr (client_run (runFor now s' ?n svc)), s')"
    by (simp add: ok)
  moreover have "server_room c token k s'"
    using good fits new old service_room_Suc by (auto simp: server_room_def get split: if_splits)
  moreover have "sv_replicas svc = 0 \<or> sv_replicasUpAt svc = now \<or> (\<exists>old. live_service s ?n = Some old \<and> 0 < sv_replicas old)"
    using base reps by (auto simp: svc_def apply_service_def Let_def fresh_service_def)
  moreover have "sv_runID svc = sv_runID old \<and> sv_deploymentNum svc = sv_deploymentNum old + 1"
    if "live_service s ?n = Some old" for old
    using base that by (auto simp: svc_def)
  ultimately show thesis
    using bounds(3) by (intro that [of s' svc]) (simp_all add: get s'_def svc_def put_service_def s0)
qed

lemma server_Stop:
  assumes "server_room c token k s" and "gomap_get (ms_services s) n = Some svc"
  obtains s' where "client_Stop (NewHTTPServer render token now) c n s = (None, s')" "server_room c token k s'"
    "live_service s' n = None" "\<And>x. x \<noteq> n \<Longrightarrow> shown now s' x = shown now s x"
proof -
  have "service_room k svc"
    using assms by (auto simp: server_room_def)
  then have "service_room k (svc\<lparr>sv_terminal := True, sv_instanceUp := False, sv_replicas := 0\<rparr>)"
    by (simp add: service_room_def)
  with assms show thesis
    by (intro that [of "snd (mock_Stop n s)"])
      (auto simp: client_Stop_refines mock_Stop_def server_room_def live_service_def shown_def runFor_def mock_probesReady_def
        split: option.splits if_splits)
qed

lemma server_Delete:
  assumes "server_room c token k s" and "live_service s n = None"
  obtains e s' where "client_Delete (NewHTTPServer render token now) c n s = (e, s')" "tolerated e" "server_room c token k s'"
    "gomap_get (ms_services s') n = None" "\<And>x. x \<noteq> n \<Longrightarrow> shown now s' x = shown now s x"
proof -
  have "good_client c token"
    using assms(1) by (simp add: server_room_def)
  from client_Delete_refines [OF this, of render now n s] assms show thesis
    by (intro that [of "fst (client_Delete (NewHTTPServer render token now) c n s)" "snd (mock_Delete n s)"])
      (auto simp: mock_Delete_def live_service_def tolerated_def client_delete_error_def server_room_def shown_def runFor_def
        mock_probesReady_def split: option.splits if_splits)
qed

interpretation server: dstack_contract "server_calls render token c now" "server_room c token" "\<lambda>q d. False" for render token c now
proof unfold_locales
  fix k s assume "server_room c token (Suc k) s"
  then show "server_room c token k s"
    using service_room_Suc by (auto simp: server_room_def)
next
  fix k s n x and r :: Run assume "server_room c token k s" "fst (dc_Get (server_calls render token c now) n s) = Inr r" "run_IdleDuration r = Some x"
  then show "is_duration x"
    by (auto simp: server_Get shown_def client_run_def wireSecondsPtr_def wrap64_range split: option.splits)
next
  fix k s and q :: ApplyRequest
  assume room: "server_room c token (Suc k) s"
    and cur: "req_Current q = live_run (fst (dc_Get (server_calls render token c now) (req_Name q) s))"
    and rest: "req_Replicas q \<in> {0, 1}" "\<And>x. req_IdleDuration q = Some x \<Longrightarrow> is_duration x"
      "\<And>r. req_Current q = Some r \<Longrightarrow> run_Replicas r = 0 \<or> req_IdleDuration q = run_IdleDuration r"
  have "req_Current q = live_run (shown now s (req_Name q))"
    using cur server_Get [OF room] by simp
  then obtain svc s' where
    ok: "client_Apply (NewHTTPServer render token now) c q s = (Inr (client_run (runFor now s' (req_Name q) svc)), s')"
      "gomap_get (ms_services s') (req_Name q) = Some svc" "\<not> sv_terminal svc" "sv_replicas svc = req_Replicas q"
      "server_room c token k s'" "ms_probeDelay s' = ms_probeDelay s"
      "\<And>n. n \<noteq> req_Name q \<Longrightarrow> gomap_get (ms_services s') n = gomap_get (ms_services s) n"
    by (rule server_Apply_accepts [OF room _ rest, where render = render]) auto
  have others: "shown now s' n = shown now s n" if "n \<noteq> req_Name q" for n
    using ok(6,7) that by (simp add: shown_def runFor_def mock_probesReady_def split: option.split)
  let ?D = "server_calls render token c now"
  show "\<exists>run. fst (dc_Apply ?D q s) = Inr run \<and> server_room c token k (snd (dc_Apply ?D q s)) \<and> \<not> IsTerminal run \<and>
      run_Replicas run = req_Replicas q \<and> fst (dc_Get ?D (req_Name q) (snd (dc_Apply ?D q s))) = Inr run \<and>
      (\<forall>n. n \<noteq> req_Name q \<longrightarrow> fst (dc_Get ?D n (snd (dc_Apply ?D q s))) = fst (dc_Get ?D n s))"
    using ok(1-5) others server_Get [OF ok(5)] server_Get [OF room]
    by (auto simp: shown_def [of _ _ "req_Name q"] IsTerminal_def client_run_def runFor_def statusFor_def finishedRunStatuses_def)
next
  fix k s n and r :: Run assume room: "server_room c token k s" and "fst (dc_Get (server_calls render token c now) n s) = Inr r"
  then obtain svc where "gomap_get (ms_services s) n = Some svc"
    by (auto simp: server_Get shown_def split: option.splits)
  from server_Stop [OF room this, of render now] obtain s' where
    "client_Stop (NewHTTPServer render token now) c n s = (None, s')" "server_room c token k s'" "live_service s' n = None"
    by metis
  then show "fst (dc_Stop (server_calls render token c now) n s) = None \<and>
      server_room c token k (snd (dc_Stop (server_calls render token c now) n s)) \<and>
      live_run (fst (dc_Get (server_calls render token c now) n (snd (dc_Stop (server_calls render token c now) n s)))) = None"
    by (simp add: server_Get live_run_shown)
next
  fix k s n assume room: "server_room c token k s" and "live_run (fst (dc_Get (server_calls render token c now) n s)) = None"
  then have "live_service s n = None"
    by (simp add: server_Get live_run_shown)
  from server_Delete [OF room this, of render now] obtain e s' where
    "client_Delete (NewHTTPServer render token now) c n s = (e, s')" "tolerated e" "server_room c token k s'"
    "gomap_get (ms_services s') n = None"
    by metis
  then show "tolerated (fst (dc_Delete (server_calls render token c now) n s)) \<and>
      server_room c token k (snd (dc_Delete (server_calls render token c now) n s)) \<and>
      is_err (fst (dc_Get (server_calls render token c now) n (snd (dc_Delete (server_calls render token c now) n s))))"
    by (simp add: server_Get shown_def is_err_def)
next
  fix k s n n' assume room: "server_room c token k s" and ne: "n' \<noteq> (n :: string)"
  show "fst (dc_Get (server_calls render token c now) n' (snd (dc_Stop (server_calls render token c now) n s))) =
      fst (dc_Get (server_calls render token c now) n' s)"
  proof (cases "gomap_get (ms_services s) n")
    case None
    then show ?thesis
      using room by (simp add: server_room_def client_Stop_refines mock_Stop_def)
  next
    case (Some svc)
    from server_Stop [OF room Some, of render now] ne show ?thesis
      by (metis server_Get [OF room] server_Get fst_conv snd_conv server_calls_simps(1,3))
  qed
next
  fix k s n n' assume room: "server_room c token k s" and ne: "n' \<noteq> (n :: string)"
  show "fst (dc_Get (server_calls render token c now) n' (snd (dc_Delete (server_calls render token c now) n s))) =
      fst (dc_Get (server_calls render token c now) n' s)"
  proof (cases "live_service s n")
    case None
    from server_Delete [OF room None, of render now] ne show ?thesis
      by (metis server_Get [OF room] server_Get fst_conv snd_conv server_calls_simps(1,4))
  next
    case (Some svc)
    then show ?thesis
      using room live_serviceD [OF Some] by (simp add: server_room_def client_Delete_refines mock_Delete_def)
  qed
qed (use server_fleets_keep preflight_posts server_room_client in \<open>auto simp: server_Get shown_def split: option.splits\<close>)

section \<open>The controller on the in-memory server\<close>

abbreviation server_env ::
  "(json \<Rightarrow> string) \<Rightarrow> string \<Rightarrow> HTTPClient \<Rightarrow> gotime \<Rightarrow> 's reconcile_env \<Rightarrow> ('s \<times> mockServer) reconcile_env" where
  "server_env render token c now E \<equiv> with_dstack (server_calls render token c now) E"

text \<open>
  A history of one controller and the server it alone applies to: passes over any Models at any times,
  between them ticks of the server, deaths of replicas, changes of the probe delay, and anything at all
  on the side of Kubernetes and the proxies. The number counts the passes.
\<close>

inductive controller_history ::
  "(json \<Rightarrow> string) \<Rightarrow> string \<Rightarrow> HTTPClient \<Rightarrow> 's reconcile_env \<Rightarrow> nat \<Rightarrow> 's \<times> mockServer \<Rightarrow> bool"
  for render token c E where
  hist_start: "controller_history render token c E 0 (s, mock_New)"
| hist_pass: "controller_history render token c E k w \<Longrightarrow>
    controller_history render token c E (Suc k) (snd (Reconcile (server_env render token c now E) (ApiOk, m) now w))"
| hist_tick: "controller_history render token c E k (s, d) \<Longrightarrow> controller_history render token c E k (s, mock_Tick now d)"
| hist_death: "controller_history render token c E k (s, d) \<Longrightarrow> controller_history render token c E k (s, mock_Terminate n d)"
| hist_delay: "controller_history render token c E k (s, d) \<Longrightarrow> controller_history render token c E k (s, mock_SetProbeDelay t d)"
| hist_world: "controller_history render token c E k (s, d) \<Longrightarrow> controller_history render token c E k (s', d)"

lemma server_pass_accepted:
  assumes "server_room c token (Suc k) d"
  shows "server_room c token k (snd (snd (Reconcile (server_env render token c now E) (ApiOk, m) now (s, d))))"
    and "n \<noteq> runNameFor m \<Longrightarrow>
      fst (client_Get (NewHTTPServer render token now) c n (snd (snd (Reconcile (server_env render token c now E) (ApiOk, m) now (s, d))))) =
      fst (client_Get (NewHTTPServer render token now) c n d)"
    and "CallApply q r \<in> set (pass_calls (server_env render token c now E) (ApiOk, m) now (s, d)) \<Longrightarrow>
      \<exists>run. r = Inr run \<and> \<not> IsTerminal run \<and> run_Replicas run = req_Replicas q"
proof -
  note acc = server.pass_answered [OF assms, where render = render]
  show "server_room c token k (snd (snd (Reconcile (server_env render token c now E) (ApiOk, m) now (s, d))))"
    by (rule conjunct1 [OF acc])
  show "fst (client_Get (NewHTTPServer render token now) c n (snd (snd (Reconcile (server_env render token c now E) (ApiOk, m) now (s, d))))) =
      fst (client_Get (NewHTTPServer render token now) c n d)" if "n \<noteq> runNameFor m"
    using conjunct1 [OF conjunct2 [OF acc], rule_format, OF that] unfolding server_calls_simps .
  show "\<exists>run. r = Inr run \<and> \<not> IsTerminal run \<and> run_Replicas run = req_Replicas q"
    if "CallApply q r \<in> set (pass_calls (server_env render token c now E) (ApiOk, m) now (s, d))"
    using conjunct2 [OF conjunct2 [OF acc], rule_format, OF that] by simp
qed

lemma tick_service_room: "service_room k (tick_service now svc) = service_room k svc"
  by (simp add: service_room_def tick_service_def)

lemma server_room_world:
  "server_room c token k d \<Longrightarrow> server_room c token k (mock_Tick now d)"
  "server_room c token k d \<Longrightarrow> server_room c token k (mock_Terminate n d)"
  "server_room c token k d \<Longrightarrow> server_room c token k (mock_SetProbeDelay t d)"
  subgoal by (auto simp: server_room_def mock_Tick_get tick_service_room)
  subgoal by (auto simp: server_room_def mock_Terminate_def service_room_def split: option.splits if_splits)
  subgoal by (simp add: server_room_def mock_SetProbeDelay_def)
  done

lemma history_room:
  assumes "controller_history render token c E k w" and "good_client c token"
  shows "int (j + k) \<le> maxDuration \<Longrightarrow> server_room c token j (snd w)"
  using assms(1)
proof (induction arbitrary: j rule: controller_history.induct)
  case (hist_start s)
  then show ?case
    using assms(2) by (simp add: server_room_def mock_New_def)
next
  case (hist_pass k w now m)
  obtain s d where w: "w = (s, d)"
    by fastforce
  have "server_room c token (Suc j) d"
    using hist_pass.IH [of "Suc j"] hist_pass.prems w by simp
  then show ?case
    unfolding w by (rule server_pass_accepted(1))
qed (auto simp: server_room_world)

text \<open>
  A planned apply on the server, by the service records before and after: minted or updated in place,
  with the replica count of the plan, up since now if it was not up before.
\<close>

lemma server_planned_apply:
  assumes room: "server_room c token (Suc k) d" and live: "live_model m"
    and obs: "observe (server_env render token c now E) (runNameFor m) (md_Name m) (md_Spec m) now (s, d) = (Inr ob, w1)"
    and plan: "planned (server_env render token c now E) m (runNameFor m) ob now w1 = ((m', a, ph), w2)" and a: "ac_Apply a"
    and env: "applyEnvFor (server_env render token c now E) m' a w2 = (Inr (env, key), w3)"
  obtains svc d' where "snd (snd (Reconcile (server_env render token c now E) (ApiOk, m) now (s, d))) = d'" "server_room c token k d'"
    "gomap_get (ms_services d') (runNameFor m) = Some svc" "\<not> sv_terminal svc" "sv_replicas svc = ac_Replicas a"
    "ms_probeDelay d' = ms_probeDelay d"
    "sv_replicas svc = 0 \<or> sv_replicasUpAt svc = now \<or> (\<exists>old. live_service d (runNameFor m) = Some old \<and> 0 < sv_replicas old)"
    "\<And>old. live_service d (runNameFor m) = Some old \<Longrightarrow>
       sv_runID svc = sv_runID old \<and> sv_deploymentNum svc = sv_deploymentNum old + 1"
    "\<And>n. n \<noteq> runNameFor m \<Longrightarrow> gomap_get (ms_services d') n = gomap_get (ms_services d) n"
proof -
  let ?E = "server_env render token c now E" let ?n = "runNameFor m"
  have run: "ob_Run ob = live_run (shown now d ?n)"
    using observe_live_run(1) [OF obs] server_Get [OF room] by simp
  have w1: "snd w1 = d"
    using observe_dstack [of "server_calls render token c now" E ?n "md_Name m" "md_Spec m" now "(s, d)"] obs server_Get [OF room] by simp
  have w3: "snd w3 = snd w2"
    using applyEnvFor_dstack [of "server_calls render token c now" E m' a w2] env by simp
  have fl: "fleets_only d (snd w3)"
    unfolding w3
    by (rule planned_state [OF plan, where R = "\<lambda>v. fleets_only d (snd v)"])
      (use preflight_posts [OF server_room_client [OF room]] fleets_only_trans w1 in \<open>auto simp: with_dstack_def\<close>)
  then have room3: "server_room c token (Suc k) (snd w3)" and same: "\<And>x. shown now (snd w3) x = shown now d x"
    and delay: "ms_probeDelay (snd w3) = ms_probeDelay d" and svcs: "live_service (snd w3) ?n = live_service d ?n"
    and rest: "ms_services (snd w3) = ms_services d"
    using fleets_only_room [OF _ room] fleets_only_shown fleets_only_fields by (auto simp: live_service_def)
  let ?q = "applyRequestFor m' a ?n env key"
  have range: "is_duration x" if "ob_Run ob = Some r" "run_IdleDuration r = Some x" for r x
    using that run by (auto simp: live_run_shown client_run_def wireSecondsPtr_def wrap64_range split: option.splits)
  note req = server.planned_request [OF plan a env range]
  obtain svc d' where ap: "client_Apply (NewHTTPServer render token now) c ?q (snd w3) = (Inr (client_run (runFor now d' ?n svc)), d')"
    "gomap_get (ms_services d') ?n = Some svc" "\<not> sv_terminal svc" "sv_replicas svc = ac_Replicas a" "server_room c token k d'"
    "ms_probeDelay d' = ms_probeDelay (snd w3)"
    "sv_replicas svc = 0 \<or> sv_replicasUpAt svc = now \<or> (\<exists>old. live_service (snd w3) ?n = Some old \<and> 0 < sv_replicas old)"
    "\<And>old. live_service (snd w3) ?n = Some old \<Longrightarrow> sv_runID svc = sv_runID old \<and> sv_deploymentNum svc = sv_deploymentNum old + 1"
    "\<And>n. n \<noteq> ?n \<Longrightarrow> gomap_get (ms_services d') n = gomap_get (ms_services (snd w3)) n"
    by (rule server_Apply_accepts [OF room3, of ?q now render]) (use req run same in auto)
  moreover have "snd (snd (Reconcile ?E (ApiOk, m) now (s, d))) = d'"
    using live_pass_dstack [OF live obs plan] ap(1) a env by (simp add: actuate_def on_snd_def)
  ultimately show thesis
    using delay svcs rest by (intro that [of d' svc]) simp_all
qed

text \<open>A wake on the server: the run is live, has its replica, and is up since this pass.\<close>

lemma server_wake:
  assumes room: "server_room c token (Suc k) d" and demand: "sp_MinReplicas (md_Spec m) = 1 \<or> hasDemand (rc_rfc3339 E) m now"
    and may: "may_wake (server_env render token c now E) m now"
    and asleep: "case gomap_get (ms_services d) (runNameFor m) of None \<Rightarrow> True | Some svc \<Rightarrow> \<not> sv_terminal svc \<and> sv_replicas svc = 0"
  obtains svc d' where "snd (snd (Reconcile (server_env render token c now E) (ApiOk, m) now (s, d))) = d'" "server_room c token k d'"
    "gomap_get (ms_services d') (runNameFor m) = Some svc" "\<not> sv_terminal svc" "sv_replicas svc = 1" "sv_replicasUpAt svc = now"
    "ms_probeDelay d' = ms_probeDelay d"
proof -
  let ?E = "server_env render token c now E" let ?n = "runNameFor m"
  have live: "live_model m"
    using may by (simp add: may_wake_def)
  have get: "rc_DGet ?E ?n (s, d) = (shown now d ?n, (s, d))"
    using server_Get [OF room] by simp
  have sleeping: "shows_asleep (fst (rc_DGet ?E ?n (s, d)))"
    unfolding get fst_conv
    using asleep by (auto simp: shows_asleep_def shown_def client_run_def runFor_def statusFor_def IsTerminal_def
        finishedRunStatuses_def split: option.splits)
  have "sp_MinReplicas (md_Spec m) = 1 \<or> hasDemand (rc_rfc3339 ?E) m now"
    using demand by simp
  then show thesis
  proof (rule demanded_plan [OF _ may sleeping])
    fix ob w1 m' a ph w2 env key w3
    assume plan: "observe ?E ?n (md_Name m) (md_Spec m) now (s, d) = (Inr ob, w1)"
      "planned ?E m ?n ob now w1 = ((m', a, ph), w2)" "ac_Apply a" "applyEnvFor ?E m' a w2 = (Inr (env, key), w3)"
      and one: "ac_Replicas a = 1"
    have down: "sv_replicas old = 0" if "live_service d ?n = Some old" for old
      using that asleep by (auto simp: live_service_def split: option.splits if_splits)
    show thesis
    proof (rule server_planned_apply [OF room live plan])
      fix svc d' assume new: "snd (snd (Reconcile ?E (ApiOk, m) now (s, d))) = d'" "server_room c token k d'"
        "gomap_get (ms_services d') ?n = Some svc" "\<not> sv_terminal svc" "sv_replicas svc = ac_Replicas a" "ms_probeDelay d' = ms_probeDelay d"
        "sv_replicas svc = 0 \<or> sv_replicasUpAt svc = now \<or> (\<exists>old. live_service d ?n = Some old \<and> 0 < sv_replicas old)"
      from new(5,7) one down have "sv_replicas svc = 1" "sv_replicasUpAt svc = now"
        by auto
      with new show thesis
        by (intro that [of d' svc])
    qed
  qed
qed

text \<open>A replica given up, for whatever cause: the same run, one deployment later, without replicas.\<close>

lemma server_scale_down:
  assumes room: "server_room c token (Suc k) d" and live: "live_model m"
    and svc: "live_service d (runNameFor m) = Some svc" "0 < sv_replicas svc"
    and ob: "ob = no_observation\<lparr>ob_Run := Some (client_run (runFor now d (runNameFor m) svc)), ob_Activity := env_gather E (md_Name m) now s,
      ob_Ready := (mock_probesReady now d svc \<or> freshSuccess (env_gather E (md_Name m) now s) now (sp_IdleTimeout (md_Spec m)))\<rparr>"
    and due: "scale_down_due ob (md_Status (statusForDecide (server_env render token c now E) m (runNameFor m) ob
      (hasDemand (rc_rfc3339 E) m now) now)) (md_Spec m) (hasDemand (rc_rfc3339 E) m now) now"
  obtains svc' where
    "gomap_get (ms_services (snd (snd (Reconcile (server_env render token c now E) (ApiOk, m) now (s, d))))) (runNameFor m) = Some svc'"
    "\<not> sv_terminal svc'" "sv_replicas svc' = 0" "sv_runID svc' = sv_runID svc" "sv_deploymentNum svc' = sv_deploymentNum svc + 1"
proof -
  let ?E = "server_env render token c now E" let ?n = "runNameFor m"
  define run where "run = client_run (runFor now d ?n svc)"
  have run: "shown now d ?n = Inr run" "\<not> IsTerminal run" "0 < run_Replicas run" "run_ProbesReady run = mock_probesReady now d svc"
    using live_serviceD [OF svc(1)] svc(2) by (simp_all add: shown_def run_def) (simp_all add: client_run_def runFor_def)
  have obs: "observe ?E ?n (md_Name m) (md_Spec m) now (s, d) = (Inr ob, (s, d))"
    using server_Get [OF room] run by (simp add: observe_def ob run_def Let_def)
  let ?dem = "hasDemand (rc_rfc3339 E) m now" let ?m = "statusForDecide ?E m ?n ob ?dem now"
  obtain ph a where dec: "Decide (rc_meta E) ob (md_Status ?m) (md_Spec m) ?dem now = (ph, a)"
    by fastforce
  have a: "ac_Apply a" "ac_Replicas a = 0" "ac_Current a = Some run"
    using Decide_up_given_up(1-3) [OF _ _ due, of run "rc_meta E"] run(3) dec by (simp_all add: ob run_def)
  have plan: "planned ?E m ?n ob now (s, d) = ((?m, a, ph), (s, d))"
    using dec a(2) by (simp add: planned_def Let_def)
  have env: "applyEnvFor ?E ?m a (s, d) = (Inr (run_Env run, run_SSHKeyPub run), (s, d))"
    using a by (simp add: applyEnvFor_def)
  show thesis
  proof (rule server_planned_apply [OF room live obs plan a(1) env])
    fix svc' d' assume new: "snd (snd (Reconcile ?E (ApiOk, m) now (s, d))) = d'"
      "gomap_get (ms_services d') ?n = Some svc'" "\<not> sv_terminal svc'" "sv_replicas svc' = ac_Replicas a"
      "\<And>old. live_service d ?n = Some old \<Longrightarrow> sv_runID svc' = sv_runID old \<and> sv_deploymentNum svc' = sv_deploymentNum old + 1"
    with a(2) new(5) [OF svc(1)] show thesis
      by (intro that [of svc']) simp_all
  qed
qed

text \<open>An idle one.\<close>

lemma server_sleep:
  assumes room: "server_room c token (Suc k) d" and live: "live_model m" and demand: "sp_MinReplicas (md_Spec m) = 0"
    and ev: "env_gather E (md_Name m) now s = Some e" "ev_Complete e" "ev_AllIdle e" "ev_AnyData e"
      "sp_IdleTimeout (md_Spec m) < time_sub now (ev_NewestLastRequestAt e)"
    and svc: "gomap_get (ms_services d) (runNameFor m) = Some svc" "\<not> sv_terminal svc" "0 < sv_replicas svc"
  obtains svc' where
    "gomap_get (ms_services (snd (snd (Reconcile (server_env render token c now E) (ApiOk, m) now (s, d))))) (runNameFor m) = Some svc'"
    "\<not> sv_terminal svc'" "sv_replicas svc' = 0" "sv_runID svc' = sv_runID svc" "sv_deploymentNum svc' = sv_deploymentNum svc + 1"
proof -
  have ls: "live_service d (runNameFor m) = Some svc"
    using svc by (simp add: live_service_def)
  show thesis
    by (rule server_scale_down [OF room live ls svc(3) refl, where E = E and s = s and now = now and render = render])
      (use ev demand that in \<open>auto simp: scale_down_due_def sleepDue_def\<close>)
qed

text \<open>A pass that leaves a live Model alone writes its status and nothing else.\<close>

lemma quiet_calls:
  assumes "planned E orig n ob now s = ((model, action, phase), s1)" and "\<not> ac_Apply action"
  shows "observed_calls E orig n ob now s =
    [CallPatch (finishStatus E ob action phase now model s1) (fst (rc_PatchStatus E (finishStatus E ob action phase now model s1) orig s1))]"
proof -
  let ?d = "hasDemand (rc_rfc3339 E) orig now"
  let ?m = "statusForDecide E orig n ob ?d now"
  obtain ph0 a0 where dec: "Decide (rc_meta E) ob (md_Status ?m) (md_Spec ?m) ?d now = (ph0, a0)"
    by fastforce
  have gate: "(if ac_Apply a0 \<and> 0 < ac_Replicas a0 then checkSchedulable E ?m a0 ph0 s else ((?m, a0, ph0), s)) = ((model, action, phase), s1)"
    using assms(1) unfolding planned_def Let_def dec prod.case .
  then have traced_gate: "(if ac_Apply a0 \<and> 0 < ac_Replicas a0 then checkSchedulable (traced E) ?m a0 ph0 (s, []) else ((?m, a0, ph0), (s, []))) =
      ((model, action, phase), (s1, []))"
    by (auto simp: checkSchedulable_traced split: if_splits)
  show ?thesis
    unfolding observed_calls_def reconcileObserved_def Let_def traced_simps statusForDecide_traced dec prod.case traced_gate
    using assms(2) by (simp add: actuate_def)
qed

lemma condition_frames [simp]:
  "st_ServiceURL (md_Status (set_cond M c m)) = st_ServiceURL (md_Status m)"
  "st_ServiceURL (md_Status (remove_cond M t m)) = st_ServiceURL (md_Status m)"
  by (simp_all add: set_cond_def remove_cond_def)

lemma report_frames [simp]:
  "st_ServiceURL (md_Status (reportProvisioningCondition M m f ph now)) = st_ServiceURL (md_Status m)"
  "st_RunID (md_Status (reportProvisioningCondition M m f ph now)) = st_RunID (md_Status m)"
  "st_ServiceURL (md_Status (reportProvisioningTimeout M a m)) = st_ServiceURL (md_Status m)"
  "st_RunID (md_Status (reportProvisioningTimeout M a m)) = st_RunID (md_Status m)"
  by (simp_all add: reportProvisioningCondition_def reportProvisioningTimeout_def Let_def split: option.split)

lemma verifyServed_frame [simp]:
  "st_ServiceURL (md_Status (verifyServed E ph m s)) = st_ServiceURL (md_Status m)"
  "st_RunID (md_Status (verifyServed E ph m s)) = st_RunID (md_Status m)"
  by (simp_all add: verifyServed_def Let_def split: sum.split)

lemma finishStatus_frame [simp]:
  "st_Phase (md_Status (finishStatus E ob a ph now m s)) = ph"
  "st_ServiceURL (md_Status (finishStatus E ob a ph now m s)) = st_ServiceURL (md_Status m)"
  "st_RunID (md_Status (finishStatus E ob a ph now m s)) = st_RunID (md_Status m)"
  by (simp_all add: finishStatus_def Let_def)

lemma statusForDecide_run:
  assumes "ob_Run ob = Some r" and "ob_ProvisioningFailure ob = None"
  shows "st_ServiceURL (md_Status (statusForDecide E m n ob d now)) = run_ServiceURL r"
    and "st_RunID (md_Status (statusForDecide E m n ob d now)) = run_RunID r"
  using assms
  by (auto simp: statusForDecide_def recordObservedRun_def updateActivityStatus_def reconcileRunOwnership_def set_cond_def
      remove_cond_def Let_def split: runOwnership.split)

text \<open>Nothing the proxies report speaks against keeping the replica: a request is open, and it is not failing.\<close>

definition busy :: "ActivityEvidence option \<Rightarrow> ModelSpec \<Rightarrow> bool" where
  "busy ev spec \<longleftrightarrow> (case ev of None \<Rightarrow> True
     | Some e \<Rightarrow> \<not> ev_AllIdle e \<and> ev_FailuresSinceSuccess e < failure_floor (mh_FailureThreshold (sp_Health spec)))"

lemma busy_kept:
  assumes "busy (ob_Activity ob) spec" and "ob_Ready ob"
  shows "\<not> scale_down_due ob prior spec True now"
  using assms by (auto simp: busy_def scale_down_due_def due_iffs split: option.splits)

lemma server_ready:
  assumes room: "server_room c token k d" and live: "live_model m" and demand: "hasDemand (rc_rfc3339 E) m now"
    and busy: "busy (env_gather E (md_Name m) now s) (md_Spec m)"
    and svc: "gomap_get (ms_services d) (runNameFor m) = Some svc" "\<not> sv_terminal svc" "0 < sv_replicas svc"
      "sv_replicasUpAt svc \<noteq> 0" "sv_replicasUpAt svc + ms_probeDelay d \<le> now"
  shows "\<exists>g m' ok. pass_calls (server_env render token c now E) (ApiOk, m) now (s, d) = [CallGet (runNameFor m) g, CallPatch m' ok] \<and>
    st_Phase (md_Status m') = Ready \<and> st_RunID (md_Status m') = sv_runID svc \<and>
    st_ServiceURL (md_Status m') = ''/proxy/services/main/'' @ runNameFor m @ ''/''"
proof -
  let ?E = "server_env render token c now E" let ?n = "runNameFor m"
  define run where "run = client_run (runFor now d ?n svc)"
  have shown: "shown now d ?n = Inr run"
    using svc(1) by (simp add: shown_def run_def)
  have run: "\<not> IsTerminal run" "0 < run_Replicas run" "run_ProbesReady run" "run_RunID run = sv_runID svc"
    "run_ServiceURL run = ''/proxy/services/main/'' @ ?n @ ''/''"
    using svc by (simp_all add: run_def client_run_def runFor_def IsTerminal_def statusFor_def finishedRunStatuses_def
        mock_probesReady_def isZero_def)
  define ob where "ob = no_observation\<lparr>ob_Run := Some run, ob_Activity := env_gather E (md_Name m) now s, ob_Ready := True\<rparr>"
  have obs: "observe ?E ?n (md_Name m) (md_Spec m) now (s, d) = (Inr ob, (s, d))"
    using server_Get [OF room] shown run by (simp add: observe_def ob_def Let_def)
  let ?m = "statusForDecide ?E m ?n ob True now"
  have "Decide (rc_meta E) ob (md_Status ?m) (md_Spec m) True now = (Ready, (action_at now)\<lparr>ac_Replicas := 1\<rparr>)"
    using Decide_up_kept [of ob run, OF _ _ busy_kept [of ob "md_Spec m"]] run(2) busy by (simp add: ob_def)
  then have plan: "planned ?E m ?n ob now (s, d) = ((?m, (action_at now)\<lparr>ac_Replicas := 1\<rparr>, Ready), (s, d))"
    using demand by (simp add: planned_def Let_def)
  have rec: "st_ServiceURL (md_Status ?m) = run_ServiceURL run" "st_RunID (md_Status ?m) = run_RunID run"
    by (rule statusForDecide_run; simp add: ob_def no_observation_def)+
  have calls: "pass_calls ?E (ApiOk, m) now (s, d) = CallGet ?n (fst (rc_DGet ?E ?n (s, d))) # observed_calls ?E m ?n ob now (s, d)"
    using pass_calls_live [OF live, of ?E now "(s, d)"] obs by simp
  show ?thesis
    unfolding calls quiet_calls [OF plan, simplified] using rec run(4,5) by simp
qed

lemma may_wake_dstack [simp]: "may_wake (with_dstack D E) m now = may_wake E m now"
  by (auto simp: may_wake_def price_ok_def split: option.splits)

text \<open>
  C5. The wake path, from the held request to the status that lets it through. A client's request for a
  sleeping Model is held by the proxy, which signals demand. The first pass that runs before the
  signal is due again brings the run up on the server, so that its gateway answers 200; and any later
  pass of the Model, once the probe delay is over, while demand stands and no proxy reports the Model
  idle or failing, writes the phase Ready with the service's URL and this run's identity and asks
  dstack for nothing more.
\<close>

theorem held_request_reaches_ready:
  assumes hist: "controller_history render token c E k (s, d)" "good_client c token" "int k < maxDuration"
    and fmt: "\<And>t. rc_rfc3339 E (fmt t) = Some (Second * (t div Second))" "namespace \<noteq> []"
    and idle: "MinIdleTimeout \<le> sp_IdleTimeout (md_Spec model)" "sp_IdleTimeout (md_Spec model) \<le> maxDuration"
    and cooldown: "0 \<le> cooldown" "cooldown \<le> 53 * Second"
    and signals: "fold (\<lambda>t. Signal (PatchDemand annotate fmt namespace cache) t name) (ticks @ [t])
        (NewDemandCoalescer cooldown, md_Annotations model) = (cc, anns)"
    and now: "t \<le> now" "now \<le> t + refreshIntervalFor (sp_IdleTimeout (md_Spec model)) ceiling" "now \<noteq> 0"
    and may: "may_wake E (model\<lparr>md_Annotations := anns\<rparr>) now"
    and asleep: "case gomap_get (ms_services d) (runNameFor model) of None \<Rightarrow> True | Some svc \<Rightarrow> \<not> sv_terminal svc \<and> sv_replicas svc = 0"
    and d': "d' = snd (snd (Reconcile (server_env render token c now E) (ApiOk, model\<lparr>md_Annotations := anns\<rparr>) now (s, d)))"
    and later: "now + ms_probeDelay d \<le> now'" "live_model m'" "runNameFor m' = runNameFor model"
      "hasDemand (rc_rfc3339 E) m' now'" "busy (env_gather E (md_Name m') now' s') (md_Spec m')"
  shows "GatewayGet (runNameFor model) ValidToken d' = 200 \<and>
    (\<exists>g m'' ok. pass_calls (server_env render token c now' E) (ApiOk, m') now' (s', d') =
        [CallGet (runNameFor model) g, CallPatch m'' ok] \<and>
      st_Phase (md_Status m'') = Ready \<and> Some (st_RunID (md_Status m'')) = map_option fst (mock_ident d' (runNameFor model)) \<and>
      st_ServiceURL (md_Status m'') = ''/proxy/services/main/'' @ runNameFor model @ ''/'')"
proof -
  let ?m = "model\<lparr>md_Annotations := anns\<rparr>"
  have name: "runNameFor ?m = runNameFor model"
    by (simp add: runNameFor_def dstackRunName_def)
  have room: "server_room c token (Suc 0) d"
    using history_room [OF hist(1,2), of 1] hist(3) by simp
  have demand: "hasDemand (rc_rfc3339 E) ?m now"
    by (rule held_demand_read [OF fmt idle cooldown signals now(1,2)])
  obtain svc where svc: "server_room c token 0 d'" "gomap_get (ms_services d') (runNameFor model) = Some svc"
    "\<not> sv_terminal svc" "sv_replicas svc = 1" "sv_replicasUpAt svc = now" "ms_probeDelay d' = ms_probeDelay d"
    by (rule server_wake [OF room disjI2 [OF demand], of render s]) (simp_all add: name may asleep d')
  have "\<exists>g m'' ok. pass_calls (server_env render token c now' E) (ApiOk, m') now' (s', d') =
        [CallGet (runNameFor m') g, CallPatch m'' ok] \<and>
      st_Phase (md_Status m'') = Ready \<and> st_RunID (md_Status m'') = sv_runID svc \<and>
      st_ServiceURL (md_Status m'') = ''/proxy/services/main/'' @ runNameFor m' @ ''/''"
    by (rule server_ready [OF svc(1) later(2,4,5)]) (use svc later now(3) in simp_all)
  with svc later(3) show ?thesis
    by (auto simp: GatewayGet_def mock_ident_def live_service_def)
qed

text \<open>
  C6. The sleep half of the cycle. When every proxy replica reports the Model idle for longer than its idle
  timeout, the next pass over it takes the replica away: the gateway answers 503 from then on, and
  the run is still the same one, one deployment later, so that the next wake flips it back in place.
\<close>

theorem idle_replica_sleeps:
  assumes hist: "controller_history render token c E k (s, d)" "good_client c token" "int k < maxDuration"
    and m: "live_model m" "sp_MinReplicas (md_Spec m) = 0"
    and ev: "env_gather E (md_Name m) now s = Some e" "ev_Complete e" "ev_AllIdle e" "ev_AnyData e"
      "sp_IdleTimeout (md_Spec m) < time_sub now (ev_NewestLastRequestAt e)"
    and up: "GatewayGet (runNameFor m) ValidToken d = 200" "mock_ident d (runNameFor m) = Some (run_id, n)"
    and d': "d' = snd (snd (Reconcile (server_env render token c now E) (ApiOk, m) now (s, d)))"
  shows "GatewayGet (runNameFor m) ValidToken d' = 503 \<and> mock_ident d' (runNameFor m) = Some (run_id, n + 1)"
proof -
  have room: "server_room c token (Suc 0) d"
    using history_room [OF hist(1,2), of 1] hist(3) by simp
  obtain svc where svc: "gomap_get (ms_services d) (runNameFor m) = Some svc" "\<not> sv_terminal svc" "sv_replicas svc \<noteq> 0"
    "sv_runID svc = run_id" "sv_deploymentNum svc = n"
    using up by (auto simp: GatewayGet_def mock_ident_def live_service_def split: option.splits if_splits)
  have "0 < sv_replicas svc"
    using room svc(1,3) by (force simp: server_room_def service_room_def)
  with room m ev svc(1,2) show ?thesis
  proof (rule server_sleep [where render = render])
    fix svc' assume "gomap_get (ms_services (snd (snd (Reconcile (server_env render token c now E) (ApiOk, m) now (s, d))))) (runNameFor m) = Some svc'"
      "\<not> sv_terminal svc'" "sv_replicas svc' = 0" "sv_runID svc' = sv_runID svc" "sv_deploymentNum svc' = sv_deploymentNum svc + 1"
    then show ?thesis
      using svc(4,5) by (simp add: d' GatewayGet_def mock_ident_def live_service_def)
  qed
qed

text \<open>
  C9. A teardown ends. Once the drain deadline has passed, two passes over a Model being deleted are enough,
  whatever state its run was in: a pass over a live run stops it and asks to be called again in a
  second; after the second pass the server holds no record of the run and no instance for it, and that
  pass ended by giving the finalizer up, right after a Delete that succeeded or found nothing.
\<close>

theorem teardown_completes:
  assumes hist: "controller_history render token c E k (s, d)" "good_client c token" "int k \<le> maxDuration"
    and m: "md_DeletionTimestamp m = Some t" "t \<noteq> 0" "ModelFinalizer \<in> set (md_Finalizers m)"
    and api: "\<And>new old s. fst (rc_PatchStatus E new old s)"
    and due: "drainTimeoutOrDefault (md_Spec m) < time_sub now t" "now \<le> now'"
    and d1: "d1 = snd (snd (Reconcile (server_env render token c now E) (ApiOk, m) now (s, d)))"
    and d2: "d2 = snd (snd (Reconcile (server_env render token c now' E) (ApiOk, draining m) now' (s', d1)))"
  shows "(mock_ident d (runNameFor m) \<noteq> None \<longrightarrow>
      fst (Reconcile (server_env render token c now E) (ApiOk, m) now (s, d)) = RequeueAfter Second) \<and>
    \<not> mock_known d2 (runNameFor m) \<and> mock_InstanceCount (runNameFor m) d2 = 0 \<and>
    (\<exists>pre e ok. pass_calls (server_env render token c now' E) (ApiOk, draining m) now' (s', d1) =
       pre @ [CallDelete (runNameFor m) e, CallUpdate (without_finalizer (draining m)) ok] \<and> tolerated e)"
proof -
  let ?n = "runNameFor m"
  have dr: "runNameFor (draining m) = ?n" "md_DeletionTimestamp (draining m) = Some t"
    "ModelFinalizer \<in> set (md_Finalizers (draining m))" "md_Spec (draining m) = md_Spec m" "draining (draining m) = draining m"
    "st_Phase (md_Status (draining m)) = Draining"
    using m by (simp_all add: draining_def runNameFor_def dstackRunName_def)
  have del: "\<not> isZeroPtr (md_DeletionTimestamp m)" "\<not> isZeroPtr (md_DeletionTimestamp (draining m))"
    using m dr by (simp_all add: isZeroPtr_def isZero_def)
  have room: "server_room c token 0 d"
    using history_room [OF hist(1,2), of 0] hist(3) by simp
  have entry: "fst (drain_entry E x u)" for x u
    using api by (simp add: drain_entry_def)
  have due': "drainTimeoutOrDefault (md_Spec m) < time_sub now' t"
    using due by (auto simp: time_sub_def minDuration_def maxDuration_def Let_def split: if_splits)
  have room1: "server_room c token 0 d1"
    unfolding d1 pass_calls_deleting(2) [OF del(1)] by (rule conjunct1 [OF server.delete_pass_keeps [OF room]])
  have "live_run (fst (dc_Get (server_calls render token c now) ?n d1)) = None"
    unfolding d1 pass_calls_deleting(2) [OF del(1)]
    by (rule server.teardown_pass(1) [OF room m(3) entry]) (simp add: m(1) due(1))
  then have dead: "live_service d1 ?n = None"
    by (simp add: server_Get [OF room1] live_run_shown)
  have room2: "server_room c token 0 d2"
    unfolding d2 pass_calls_deleting(2) [OF del(2)] by (rule conjunct1 [OF server.delete_pass_keeps [OF room1]])
  have "is_err (fst (dc_Get (server_calls render token c now') ?n d2))"
    unfolding d2 pass_calls_deleting(2) [OF del(2)] dr(1)
    by (rule server.teardown_pass(2) [OF room1 dr(3) entry])
      (simp_all add: dr due' server_Get [OF room1] live_run_shown dead)
  then have gone: "gomap_get (ms_services d2) ?n = None"
    by (simp add: server_Get [OF room2] shown_def is_err_def split: option.splits)
  have "tolerated (fst (client_Delete (NewHTTPServer render token now') c ?n d1))"
    using server_Delete [OF room1 dead, of render now'] by (metis fst_conv)
  then have calls: "\<exists>pre e ok. pass_calls (server_env render token c now' E) (ApiOk, draining m) now' (s', d1) =
       pre @ [CallDelete ?n e, CallUpdate (without_finalizer (draining m)) ok] \<and> tolerated e"
    using server_Get [OF room1, of render now' ?n] dead due' dr
    unfolding pass_calls_deleting(1) [OF del(2)] delete_calls_eq [OF dr(3)]
    by (auto simp: drain_prefix_def drain_entry_def final_calls_def shown_def live_service_def
        split: option.splits if_splits)
  have again: "fst (Reconcile (server_env render token c now E) (ApiOk, m) now (s, d)) = RequeueAfter Second"
    if alive: "live_service d ?n = Some svc" for svc
  proof -
    have get: "rc_DGet (server_env render token c now E) ?n (u, d) = (Inr (client_run (runFor now d ?n svc)), (u, d))" for u
      using live_serviceD [OF alive] by (simp add: server_Get [OF room] shown_def)
    have stop: "fst (client_Stop (NewHTTPServer render token now) c ?n d) = None"
      using server_Stop [OF room conjunct1 [OF live_serviceD [OF alive]], of render now] by (metis fst_conv)
    show ?thesis
      using live_serviceD [OF alive] m due(1) api stop
      unfolding pass_calls_deleting(2) [OF del(1)] reconcileDelete_def Let_def
      by (auto simp: get stopFirst_def simp del: with_dstack_simps(3) split: prod.splits)
  qed
  from gone calls again show ?thesis
    by (auto simp: mock_known_def mock_InstanceCount_def mock_ident_def)
qed

section \<open>Witnesses\<close>

abbreviation sample_server_env :: "gotime \<Rightarrow> (Run option \<times> mockServer) reconcile_env" where
  "sample_server_env now \<equiv> server_env (\<lambda>_. []) ''t'' sample_client now (sample_env\<lparr>rc_rfc3339 := unary_parse\<rparr>)"

lemma sample_history: "controller_history (\<lambda>_. []) ''t'' sample_client E 0 (None, mock_New)"
  by (rule hist_start)

definition waiting_model :: Model where
  "waiting_model = sample_model\<lparr>md_Finalizers := [ModelFinalizer]\<rparr>"

lemma waiting_model_may_wake: "may_wake (sample_env\<lparr>rc_rfc3339 := unary_parse\<rparr>) (waiting_model\<lparr>md_Annotations := anns\<rparr>) now"
proof -
  have "Validate (md_Spec waiting_model) = None"
    by code_simp
  moreover have "resolveEnv f (waiting_model\<lparr>md_Annotations := anns\<rparr>) = Inr []" for f
    by (simp add: resolveEnv_def waiting_model_def sample_model_def sample_spec_def)
  ultimately show ?thesis
    by (simp add: may_wake_def live_model_def price_ok_def waiting_model_def sample_model_def sample_spec_def sample_env_def
        sample_status_def isZeroPtr_def is_err_def provisioningBackoff_iff ref_meta_def ref_find_def)
qed

theorem held_request_reaches_ready_witness:
  "\<exists>anns. GatewayGet (runNameFor waiting_model) ValidToken
     (snd (snd (Reconcile (sample_server_env (12 * Second)) (ApiOk, waiting_model\<lparr>md_Annotations := anns\<rparr>) (12 * Second) (None, mock_New)))) = 200"
proof -
  let ?E = "sample_env\<lparr>rc_rfc3339 := unary_parse\<rparr>"
  let ?r = "Signal (PatchDemand annotate unary_format ''a'' None) (10 * Second) ''qwen''
      (NewDemandCoalescer (5 * Second), md_Annotations waiting_model)"
  have idle: "sp_IdleTimeout (md_Spec waiting_model) = 5 * Minute"
    by (simp add: waiting_model_def sample_model_def sample_spec_def)
  have refresh: "refreshIntervalFor (5 * Minute) (30 * Second) = 30 * Second"
    by (simp add: refreshIntervalFor_def go_div_def)
  have demand: "hasDemand unary_parse (waiting_model\<lparr>md_Annotations := snd ?r\<rparr>) (15 * Second)"
    by (rule held_demand_read [of unary_parse unary_format "''a''" waiting_model "5 * Second" None "''qwen''" "[]" "10 * Second"
          "fst ?r" "snd ?r" "15 * Second" "30 * Second"])
      (simp_all add: unary_roundtrip idle MinIdleTimeout_def maxDuration_def refresh [simplified])
  have live: "live_model (waiting_model\<lparr>md_Annotations := snd ?r\<rparr>)"
    by (simp add: live_model_def waiting_model_def sample_model_def isZeroPtr_def)
  have "runNameFor (waiting_model\<lparr>md_Annotations := snd ?r\<rparr>) = runNameFor waiting_model"
    by (simp add: runNameFor_def dstackRunName_def)
  from held_request_reaches_ready [OF sample_history sample_client_good, of ?E unary_format "''a''" waiting_model "5 * Second" None "''qwen''"
      "[]" "10 * Second" "fst ?r" "snd ?r" "12 * Second" "30 * Second" _ "15 * Second" "waiting_model\<lparr>md_Annotations := snd ?r\<rparr>" None,
      OF _ _ _ _ _ _ _ _ _ _ _ waiting_model_may_wake _ refl _ live this] demand
  show ?thesis
    by (intro exI [of _ "snd ?r"])
      (simp add: unary_roundtrip idle MinIdleTimeout_def maxDuration_def refresh [simplified] mock_New_def sample_env_def busy_def env_gather_def
        gatherActivity_def)
qed

theorem teardown_completes_witness:
  "\<not> mock_known (snd (snd (Reconcile (sample_server_env (3 * Hour)) (ApiOk, draining dying_model) (3 * Hour)
       (None, snd (snd (Reconcile (sample_server_env (2 * Hour)) (ApiOk, dying_model) (2 * Hour) (None, mock_New)))))))
     (runNameFor dying_model)"
proof -
  have "fst (rc_PatchStatus (sample_env\<lparr>rc_rfc3339 := unary_parse\<rparr>) new old s)" for new old s
    by (simp add: sample_env_def)
  from teardown_completes [OF sample_history sample_client_good, of dying_model Hour, OF _ _ _ _ this _ _ refl refl,
      of "2 * Hour" "3 * Hour"]
  show ?thesis
    by (simp add: dying_model_def sample_model_def sample_spec_def drainTimeoutOrDefault_def defaultDrainTimeout_def time_sub_def
        minDuration_def maxDuration_def)
qed

text \<open>One proxy replica that has seen nothing since the first hour.\<close>

definition idle_env :: "Run option reconcile_env" where
  "idle_env = sample_env\<lparr>rc_ProxyNamespace := ''a'', rc_ProxyName := ''p'', rc_slices := \<lambda>s. Some [sample_slice],
     rc_fetch := \<lambda>s i u. ActivityAnswer 200 (Some [(''qwen'', \<lparr>ma_InFlight = 0, ma_LastRequestAt = Hour,
       ma_LastSuccessAt = Hour, ma_FailuresSinceSuccess = 0\<rparr>)]), rc_order := remdups\<rparr>"

definition awake_server :: mockServer where
  "awake_server = snd (snd (Reconcile (server_env (\<lambda>_. []) ''t'' sample_client Hour idle_env) (ApiOk, pinned_model) Hour (None, mock_New)))"

lemma awake_server_up:
  "GatewayGet (runNameFor waiting_model) ValidToken awake_server = 200"
  "mock_ident awake_server (runNameFor waiting_model) = Some (newRunID (runNameFor waiting_model) 1, 1)"
  by code_simp+

theorem idle_replica_sleeps_witness:
  "GatewayGet (runNameFor waiting_model) ValidToken
     (snd (snd (Reconcile (server_env (\<lambda>_. []) ''t'' sample_client (2 * Hour) idle_env) (ApiOk, waiting_model) (2 * Hour) (None, awake_server)))) = 503"
proof -
  have "controller_history (\<lambda>_. []) ''t'' sample_client idle_env (Suc 0)
      (snd (Reconcile (server_env (\<lambda>_. []) ''t'' sample_client Hour idle_env) (ApiOk, pinned_model) Hour (None, mock_New)))"
    by (rule hist_pass [OF sample_history])
  then have hist: "controller_history (\<lambda>_. []) ''t'' sample_client idle_env (Suc 0) (None, awake_server)"
    unfolding awake_server_def by (metis hist_world prod.collapse)
  have ev: "env_gather idle_env (md_Name waiting_model) (2 * Hour) None = Some \<lparr>ev_Complete = True, ev_AllIdle = True, ev_AnyData = True,
      ev_NewestLastRequestAt = Hour, ev_NewestLastSuccessAt = Hour, ev_FailuresSinceSuccess = 0\<rparr>"
    by (simp add: env_gather_def idle_env_def sample_env_def gatherActivity_def sample_slice_addresses queryActivity_def zero_query_def
        waiting_model_def sample_model_def aggregateActivity_def got_queries_def got_at_def query_bad_def agg_step_def Let_def)
  have "int (Suc 0) < maxDuration" "live_model waiting_model" "sp_MinReplicas (md_Spec waiting_model) = 0"
    by (simp_all add: maxDuration_def live_model_def waiting_model_def sample_model_def sample_spec_def isZeroPtr_def)
  from idle_replica_sleeps [OF hist sample_client_good this ev _ _ _ _ awake_server_up refl] show ?thesis
    by (simp add: waiting_model_def sample_model_def sample_spec_def time_sub_def minDuration_def maxDuration_def)
qed

end
