(* ===== verification/Squall_Journal.thy ===== *)
theory Squall_Journal
  imports Squall_System
begin

text \<open>
  The controller reading its own journal. A reconcile pass is over the Model as the API server stores
  it: status patches and finalizer updates that succeed are kept. The instants of a status are
  written as \<open>metav1.Time\<close>, which is less precise than the clock: how an instant reads back is a
  parameter. Histories of one Model, its controller and its dstack, in which the stored status is the
  only memory between passes.
\<close>

section \<open>What the API server keeps of a pass\<close>

text \<open>An instant reads back less than a second early, and reads back the same when it is written again.\<close>

definition reads_back :: "(gotime \<Rightarrow> gotime) \<Rightarrow> bool" where
  "reads_back keep \<longleftrightarrow> (\<forall>t. t - Second < keep t \<and> keep t \<le> t \<and> keep (keep t) = keep t)"

definition stored_status :: "(gotime \<Rightarrow> gotime) \<Rightarrow> ModelStatus \<Rightarrow> ModelStatus" where
  "stored_status keep st =
     st\<lparr>st_WakeStartedAt := map_option keep (st_WakeStartedAt st),
        st_LastRequestAt := map_option keep (st_LastRequestAt st),
        st_UncontrolledSince := map_option keep (st_UncontrolledSince st),
        st_Conditions := map (\<lambda>c. c\<lparr>cond_LastTransitionTime := keep (cond_LastTransitionTime c)\<rparr>) (st_Conditions st)\<rparr>"

text \<open>A status patch stores the status and an update the finalizers; a call that failed stores nothing.\<close>

fun api_write :: "(gotime \<Rightarrow> gotime) \<Rightarrow> ext_call \<Rightarrow> Model \<Rightarrow> Model" where
  "api_write keep (CallPatch m' ok) m = (if ok then m\<lparr>md_Status := stored_status keep (md_Status m')\<rparr> else m)"
| "api_write keep (CallUpdate m' ok) m = (if ok then m\<lparr>md_Finalizers := md_Finalizers m'\<rparr> else m)"
| "api_write keep _ m = m"

definition stored_after :: "(gotime \<Rightarrow> gotime) \<Rightarrow> ext_call list \<Rightarrow> Model \<Rightarrow> Model" where
  "stored_after keep cs m = fold (api_write keep) cs m"

lemma stored_after_simps [simp]:
  "stored_after keep [] m = m" "stored_after keep (c # cs) m = stored_after keep cs (api_write keep c m)"
  "stored_after keep (cs @ cs') m = stored_after keep cs' (stored_after keep cs m)"
  by (simp_all add: stored_after_def)

lemma stored_after_frame [simp]:
  "md_Spec (stored_after keep cs m) = md_Spec m" "md_Name (stored_after keep cs m) = md_Name m"
  "md_DeletionTimestamp (stored_after keep cs m) = md_DeletionTimestamp m"
proof -
  have frame: "md_Spec (api_write keep c m) = md_Spec m \<and> md_Name (api_write keep c m) = md_Name m \<and>
      md_DeletionTimestamp (api_write keep c m) = md_DeletionTimestamp m" for c m
    by (cases c) simp_all
  show "md_Spec (stored_after keep cs m) = md_Spec m" "md_Name (stored_after keep cs m) = md_Name m"
    "md_DeletionTimestamp (stored_after keep cs m) = md_DeletionTimestamp m"
    by (induction cs arbitrary: m) (use frame in simp_all)
qed

lemma stored_status_simps [simp]:
  "st_WakeStartedAt (stored_status keep st) = map_option keep (st_WakeStartedAt st)"
  "st_RunName (stored_status keep st) = st_RunName st" "st_RunID (stored_status keep st) = st_RunID st"
  by (simp_all add: stored_status_def)

section \<open>The wake anchor through a pass\<close>

text \<open>Of the status a pass hands on: when the current wake started, and the name of its run.\<close>

definition anchors :: "Model \<Rightarrow> gotime option \<times> string" where
  "anchors m = (st_WakeStartedAt (md_Status m), st_RunName (md_Status m))"

lemma anchors_cond [simp]:
  "anchors (set_cond M c m) = anchors m" "anchors (remove_cond M t m) = anchors m"
  by (simp_all add: anchors_def set_cond_def remove_cond_def)

lemma anchors_update [simp]:
  "anchors (recordObservedRun ob m) = anchors m" "anchors (snd (updateActivityStatus m ob d now)) = anchors m"
  "anchors (draining m) = anchors m"
  by (auto simp: anchors_def recordObservedRun_def updateActivityStatus_def draining_def Let_def split: option.split)

lemma anchors_report [simp]:
  "anchors (reportProvisioningCondition M m f ph now) = anchors m" "anchors (reportProvisioningTimeout M a m) = anchors m"
  by (auto simp: reportProvisioningCondition_def reportProvisioningTimeout_def Let_def split: option.split)

lemma anchors_ownership [simp]: "anchors (reconcileRunOwnership M m r n) = anchors m"
  by (auto simp: reconcileRunOwnership_def Let_def split: runOwnership.split) (auto simp: anchors_def)

lemma anchors_verify [simp]: "anchors (verifyServed E ph m s) = anchors m"
  by (auto simp: verifyServed_def Let_def split: sum.split) (auto simp: anchors_def)

lemma anchors_finish [simp]: "anchors (finishStatus E ob a ph now m s) = anchors m"
proof -
  have "anchors (m'\<lparr>md_Status := (md_Status m')\<lparr>st_Phase := ph\<rparr>\<rparr>) = anchors m'" for m'
    by (simp add: anchors_def)
  then show ?thesis
    by (simp add: finishStatus_def Let_def)
qed

lemma anchors_decide: "anchors (statusForDecide E m n ob d now) = (st_WakeStartedAt (md_Status m), n)"
proof -
  have "anchors (m\<lparr>md_Status := (md_Status m)\<lparr>st_RunName := n\<rparr>\<rparr>) = (st_WakeStartedAt (md_Status m), n)"
    by (simp add: anchors_def)
  then show ?thesis
    by (simp add: statusForDecide_def Let_def)
qed

lemma anchors_schedulable:
  assumes "checkSchedulable E m a ph s = ((m', a', ph'), s')"
  shows "anchors m' = anchors m"
proof -
  have "anchors (m\<lparr>md_Status := (md_Status m)\<lparr>st_Fleet := fs\<rparr>\<rparr>) = anchors m" for fs
    by (simp add: anchors_def)
  then show ?thesis
    using assms by (auto simp: checkSchedulable_def Let_def split: prod.splits sum.splits if_splits)
qed

lemma anchors_planned:
  assumes "planned E m n ob now s = ((m', a, ph), s')"
  shows "anchors m' = (st_WakeStartedAt (md_Status m), n)"
  using assms by (auto simp: planned_def Let_def anchors_decide split: prod.splits if_splits dest: anchors_schedulable)

lemma anchors_applied:
  "anchors (recordApplied M a run now m) =
     (if ac_Replicas a = 0 then None
      else if 0 < ac_Replicas a \<and> fst (anchors m) = None then Some now else fst (anchors m), snd (anchors m))"
  by (auto simp: recordApplied_def anchors_def set_cond_def remove_cond_def Let_def)

text \<open>The calls of a pass that applied, with the status it writes.\<close>

lemma applied_calls:
  assumes "planned E orig n ob now s = ((model, action, phase), s1)" and "ac_Apply action"
    and "applyEnvFor E model action s1 = (Inr (env, key), s2)" and "q = applyRequestFor model action n env key"
    and "rc_DApply E q s2 = (Inr run, s3)"
  shows "observed_calls E orig n ob now s =
    [CallApply q (Inr run),
     CallPatch (finishStatus E ob action phase now (recordApplied (rc_meta E) action run now model) s3)
       (fst (rc_PatchStatus E (finishStatus E ob action phase now (recordApplied (rc_meta E) action run now model) s3) orig s3))]"
proof -
  let ?d = "hasDemand (rc_rfc3339 E) orig now"
  let ?m = "statusForDecide E orig n ob ?d now"
  obtain ph0 a0 where dec: "Decide (rc_meta E) ob (md_Status ?m) (md_Spec ?m) ?d now = (ph0, a0)"
    by fastforce
  have gate: "(if ac_Apply a0 \<and> 0 < ac_Replicas a0 then checkSchedulable E ?m a0 ph0 s else ((?m, a0, ph0), s)) = ((model, action, phase), s1)"
    using assms(1) unfolding planned_def Let_def dec prod.case .
  then have traced_gate: "(if ac_Apply a0 \<and> 0 < ac_Replicas a0 then checkSchedulable (traced E) ?m a0 ph0 (s, []) else ((?m, a0, ph0), (s, []))) =
      ((model, action, phase), (s1, []))"
    by (auto simp: checkSchedulable_traced split: if_splits)
  show ?thesis
    unfolding observed_calls_def reconcileObserved_def Let_def traced_simps statusForDecide_traced dec prod.case traced_gate
    using assms(2-5) by (simp add: actuate_def applyEnvFor_traced)
qed

text \<open>A live pass leaves the finalizers alone, so that the Model stays live.\<close>

lemma stored_live:
  assumes "live_model m"
  shows "live_model (stored_after keep (pass_calls E (ApiOk, m) now s) m)"
proof -
  have fin: "md_Finalizers (stored_after keep cs x) = md_Finalizers x" if "\<And>y ok. CallUpdate y ok \<notin> set cs" for cs x
    using that
  proof (induction cs arbitrary: x)
    case (Cons c cs)
    then show ?case
      by (cases c) auto
  qed simp
  have "CallUpdate y ok \<notin> set (observed_calls E m n ob now s1)" for y ok n ob s1
  proof -
    obtain model action phase s2 where plan: "planned E m n ob now s1 = ((model, action, phase), s2)"
      by (metis prod_cases3 surj_pair)
    from plan show ?thesis
      by (cases rule: observed_calls_cases) (auto dest: recovery_calls_kinds)
  qed
  then have "md_Finalizers (stored_after keep (pass_calls E (ApiOk, m) now s) m) = md_Finalizers m"
    by (intro fin) (auto simp: pass_calls_live [OF assms] split: prod.splits sum.splits)
  with assms show ?thesis
    by (simp add: live_model_def)
qed

section \<open>Histories\<close>

text \<open>
  One Model, its controller and its dstack, at time \<open>t\<close> after \<open>k\<close> passes. A pass over the Model reads what
  is stored; the controller also makes passes over other Models, whose runs have other names. Between passes the clock advances, replicas die, the probes slow down, the server ticks,
  the proxies and the rest of Kubernetes do anything, and users and proxies edit the Model: its spec,
  its annotations, its deletion, everything but its name and its status.
\<close>

inductive journal ::
  "(gotime \<Rightarrow> gotime) \<Rightarrow> (json \<Rightarrow> string) \<Rightarrow> string \<Rightarrow> HTTPClient \<Rightarrow> 's reconcile_env \<Rightarrow> gotime \<Rightarrow> nat \<Rightarrow> Model \<Rightarrow> 's \<times> mockServer \<Rightarrow> bool"
  for keep render token c E where
  journal_start: "Second \<le> t \<Longrightarrow> st_WakeStartedAt (md_Status m) = None \<Longrightarrow> journal keep render token c E t 0 m (s, mock_New)"
| journal_pass: "journal keep render token c E t k m w \<Longrightarrow> t \<le> now \<Longrightarrow>
    journal keep render token c E now (Suc k) (stored_after keep (pass_calls (server_env render token c now E) (ApiOk, m) now w) m)
      (snd (Reconcile (server_env render token c now E) (ApiOk, m) now w))"
| journal_other: "journal keep render token c E t k m w \<Longrightarrow> t \<le> now \<Longrightarrow> runNameFor m' \<noteq> runNameFor m \<Longrightarrow>
    journal keep render token c E now (Suc k) m (snd (Reconcile (server_env render token c now E) (ApiOk, m') now w))"
| journal_edit: "journal keep render token c E t k m w \<Longrightarrow> md_Status m' = md_Status m \<Longrightarrow> runNameFor m' = runNameFor m \<Longrightarrow>
    journal keep render token c E t k m' w"
| journal_clock: "journal keep render token c E t k m w \<Longrightarrow> t \<le> t' \<Longrightarrow> journal keep render token c E t' k m w"
| journal_tick: "journal keep render token c E t k m (s, d) \<Longrightarrow> journal keep render token c E t k m (s, mock_Tick now d)"
| journal_death: "journal keep render token c E t k m (s, d) \<Longrightarrow> journal keep render token c E t k m (s, mock_Terminate n d)"
| journal_delay: "journal keep render token c E t k m (s, d) \<Longrightarrow> journal keep render token c E t k m (s, mock_SetProbeDelay p d)"
| journal_world: "journal keep render token c E t k m (s, d) \<Longrightarrow> journal keep render token c E t k m (s', d)"

lemma journal_history: "journal keep render token c E t k m w \<Longrightarrow> controller_history render token c E k w"
  by (induction rule: journal.induct) (auto intro: controller_history.intros)

text \<open>How a live pass on the server goes: an observation, a plan that at most created fleets, and its actuation.\<close>

lemma server_live_plan:
  assumes room: "server_room c token (Suc k) d" and live: "live_model m"
  obtains ob w1 model action phase w2 where
    "observe (server_env render token c now E) (runNameFor m) (md_Name m) (md_Spec m) now (s, d) = (Inr ob, w1)" "snd w1 = d"
    "planned (server_env render token c now E) m (runNameFor m) ob now w1 = ((model, action, phase), w2)" "fleets_only d (snd w2)"
    "snd (snd (Reconcile (server_env render token c now E) (ApiOk, m) now (s, d))) =
       snd (snd (actuate (server_env render token c now E) m model action (runNameFor m) now w2))"
proof -
  let ?E = "server_env render token c now E" let ?n = "runNameFor m"
  obtain r w1 where obs: "observe ?E ?n (md_Name m) (md_Spec m) now (s, d) = (r, w1)"
    by (rule prod.exhaust)
  have w1: "snd w1 = d"
    using observe_dstack [of "server_calls render token c now" E ?n "md_Name m" "md_Spec m" now "(s, d)"] obs server_Get [OF room] by simp
  have "\<exists>ob. r = Inr ob"
    using obs server.get_error [OF room, of render now ?n] by (auto simp: observe_def Let_def split: sum.splits if_splits)
  then obtain ob where ob: "r = Inr ob"
    by blast
  obtain model action phase w2 where plan: "planned ?E m ?n ob now w1 = ((model, action, phase), w2)"
    by (metis prod_cases3 surj_pair)
  have "fleets_only d (snd w2)"
    by (rule planned_state [OF plan, where R = "\<lambda>v. fleets_only d (snd v)"])
      (use preflight_posts [OF server_room_client [OF room]] fleets_only_trans w1 in \<open>auto simp: with_dstack_def\<close>)
  with live_pass_dstack [OF live obs [unfolded ob] plan] show thesis
    using obs ob w1 plan by (intro that) simp_all
qed

text \<open>A pass touches no service but its own Model's.\<close>

lemma pass_other_services:
  assumes room: "server_room c token (Suc k) d" and n: "n \<noteq> runNameFor m"
  shows "gomap_get (ms_services (snd (snd (Reconcile (server_env render token c now E) (ApiOk, m) now (s, d))))) n = gomap_get (ms_services d) n"
proof (cases "live_model m")
  case True
  let ?E = "server_env render token c now E" let ?n = "runNameFor m"
  obtain ob w1 model action phase w2 where obs: "observe ?E ?n (md_Name m) (md_Spec m) now (s, d) = (Inr ob, w1)"
    and plan: "planned ?E m ?n ob now w1 = ((model, action, phase), w2)" and fl: "fleets_only d (snd w2)"
    and state: "snd (snd (Reconcile ?E (ApiOk, m) now (s, d))) = snd (snd (actuate ?E m model action ?n now w2))"
    by (rule server_live_plan [OF room True])
  obtain e w3 where env: "applyEnvFor ?E model action w2 = (e, w3)"
    by (rule prod.exhaust)
  then have w3: "snd w3 = snd w2"
    using applyEnvFor_dstack [of "server_calls render token c now" E model action w2] by simp
  show ?thesis
  proof (cases "ac_Apply action \<and> (\<exists>p. e = Inr p)")
    case False
    then show ?thesis
      using state env w3 fleets_only_fields [OF fl] by (cases e) (auto simp: actuate_def)
  next
    case yes: True
    then obtain v key where "e = Inr (v, key)"
      by (metis surj_pair)
    with env have env: "applyEnvFor ?E model action w2 = (Inr (v, key), w3)"
      by simp
    show ?thesis
      by (rule server_planned_apply [OF room True obs plan conjunct1 [OF yes] env]) (use n in simp)
  qed
next
  case False
  have room0: "server_room c token k d"
    using room by (rule server.room_mono)
  have ends: "gomap_get (ms_services (snd (client_Delete (NewHTTPServer render token now) c (runNameFor m) d))) n = gomap_get (ms_services d) n"
    "gomap_get (ms_services (snd (client_Stop (NewHTTPServer render token now) c (runNameFor m) d))) n = gomap_get (ms_services d) n"
    using client_Delete_refines [OF server_room_client [OF room]] client_Stop_refines [OF server_room_client [OF room]] n
    by (auto simp: mock_Delete_def mock_Stop_def split: option.splits)
  show ?thesis
  proof (cases "isZeroPtr (md_DeletionTimestamp m)")
    case True
    with False show ?thesis
      by (simp add: Reconcile_def live_model_def Let_def)
  next
    case deleted: False
    show ?thesis
      unfolding pass_calls_deleting(2) [OF deleted] server.reconcileDelete_state [OF room0]
      using ends by (auto split: sum.splits)
  qed
qed

text \<open>
  The journal knows of every replica: while one runs, the stored anchor is set and no later than the
  moment the replica came up.
\<close>

definition anchored_run :: "(gotime \<Rightarrow> gotime) \<Rightarrow> gotime \<Rightarrow> Model \<Rightarrow> mockServer \<Rightarrow> bool" where
  "anchored_run keep t m d \<longleftrightarrow>
     (\<forall>w. st_WakeStartedAt (md_Status m) = Some w \<longrightarrow> 0 < w \<and> w \<le> t \<and> keep w = w) \<and>
     (\<forall>svc. live_service d (runNameFor m) = Some svc \<and> sv_replicas svc \<noteq> 0 \<longrightarrow>
        (\<exists>w. st_WakeStartedAt (md_Status m) = Some w \<and> w \<le> sv_replicasUpAt svc))"

lemma anchored_runI:
  assumes "\<And>w. fst (anchors m) = Some w \<Longrightarrow> 0 < w \<and> w \<le> t \<and> keep w = w"
    and "\<And>svc. live_service d (runNameFor m) = Some svc \<Longrightarrow> sv_replicas svc \<noteq> 0 \<Longrightarrow>
      \<exists>w. fst (anchors m) = Some w \<and> w \<le> sv_replicasUpAt svc"
  shows "anchored_run keep t m d"
  using assms by (auto simp: anchored_run_def anchors_def)

text \<open>A status write keeps the run's name, and the anchor as it reads back.\<close>

lemma stored_patch:
  assumes "anchors m' = (w, runNameFor m)"
  shows "fst (anchors (api_write keep (CallPatch m' True) m)) = map_option keep w"
    and "runNameFor (api_write keep (CallPatch m' True) m) = runNameFor m"
  using assms by (simp_all add: anchors_def runNameFor_def dstackRunName_def)

text \<open>A live pass whose status write succeeds, on the server.\<close>

lemma journal_live_pass:
  assumes room: "server_room c token (Suc k) d" and live: "live_model m"
    and api: "\<And>new old s. fst (rc_PatchStatus E new old s)"
    and m': "m' = stored_after keep (pass_calls (server_env render token c now E) (ApiOk, m) now (s, d)) m"
    and d': "d' = snd (snd (Reconcile (server_env render token c now E) (ApiOk, m) now (s, d)))"
  obtains (kept) "ms_services d' = ms_services d" "runNameFor m' = runNameFor m"
      "fst (anchors m') \<in> {fst (anchors m), map_option keep (fst (anchors m))}"
  | (woke) svc where "live_service d' (runNameFor m) = Some svc" "sv_replicas svc = 1" "sv_replicasUpAt svc = now" "runNameFor m' = runNameFor m"
      "fst (anchors m') = Some (keep (case fst (anchors m) of None \<Rightarrow> now | Some w \<Rightarrow> w))"
  | (slept) svc where "live_service d' (runNameFor m) = Some svc" "sv_replicas svc = 0" "runNameFor m' = runNameFor m"
      "fst (anchors m') = None"
proof -
  let ?E = "server_env render token c now E" let ?n = "runNameFor m"
  obtain ob w1 model action phase w2 where obs: "observe ?E ?n (md_Name m) (md_Spec m) now (s, d) = (Inr ob, w1)" and w1: "snd w1 = d"
    and plan: "planned ?E m ?n ob now w1 = ((model, action, phase), w2)" and fl: "fleets_only d (snd w2)"
    and state: "d' = snd (snd (actuate ?E m model action ?n now w2))"
    unfolding d' by (rule server_live_plan [OF room live])
  have calls: "m' = stored_after keep (observed_calls ?E m ?n ob now w1) m"
    using pass_calls_live [OF live, of ?E now "(s, d)"] obs by (simp add: m')
  have patch: "fst (rc_PatchStatus ?E new old w)" for new old w
    using api by (simp add: with_dstack_def on_fst_def split: prod.split) (metis fst_conv)
  note names = anchors_planned [OF plan]
  from plan show ?thesis
  proof (cases rule: observed_calls_cases)
    case (idle x ok)
    let ?f = "finishStatus ?E ob action phase now model w2"
    have new: "m' = api_write keep (CallPatch ?f True) m"
      using calls patch unfolding quiet_calls [OF plan idle(1)] by simp
    have "anchors ?f = (fst (anchors m), ?n)"
      using names by (simp add: anchors_def [of m])
    note stored_patch [OF this, of keep, folded new]
    then show ?thesis
      using idle(1) state fleets_only_fields [OF fl] by (intro kept) (auto simp: actuate_def)
  next
    case (env_failed e w3)
    then have "snd w3 = snd w2"
      using applyEnvFor_dstack [of "server_calls render token c now" E model action w2] by simp
    with env_failed show ?thesis
      using calls state fleets_only_fields [OF fl] by (intro kept) (auto simp: actuate_def)
  next
    case (refused env key w3 q err w4)
    have "ob_Run ob = live_run (fst (dc_Get (server_calls render token c now) ?n (snd w1)))"
      using observe_live_run(1) [OF obs] w1 by simp
    from server.planned_apply [OF _ this plan refused(1,2), of k] room w1 refused(3,4) show ?thesis
      by (metis Inl_Inr_False fst_conv fst_on_snd with_dstack_simps(4))
  next
    case (applied env key w3 q run w4 x ok)
    let ?f = "finishStatus ?E ob action phase now (recordApplied (rc_meta ?E) action run now model) w4"
    have new: "m' = api_write keep (CallPatch ?f True) m"
      using calls patch unfolding applied_calls [OF plan applied(1-4)] by simp
    note shape = planned_spec(3,4) [OF plan applied(1)]
    have down: "sv_replicas old = 0" if "live_service d ?n = Some old" "ac_Replicas action \<noteq> 0" for old
      using planned_wakes_asleep [OF plan applied(1) that(2)] that(1) observe_live_run(1) [OF obs] server_Get [OF room]
      by (auto simp: live_run_shown client_run_def runFor_def)
    note wrote = stored_patch [of ?f _ m keep, folded new]
    show ?thesis
    proof (rule server_planned_apply [OF room live obs plan applied(1,2)])
      fix svc d'' assume svc: "snd (snd (Reconcile ?E (ApiOk, m) now (s, d))) = d''" "gomap_get (ms_services d'') ?n = Some svc"
        "\<not> sv_terminal svc" "sv_replicas svc = ac_Replicas action"
        "sv_replicas svc = 0 \<or> sv_replicasUpAt svc = now \<or> (\<exists>old. live_service d ?n = Some old \<and> 0 < sv_replicas old)"
      have ls: "live_service d' ?n = Some svc"
        using svc d' by (simp add: live_service_def)
      show ?thesis
      proof (cases "ac_Replicas action = 0")
        case True
        with wrote [of None] show ?thesis
          using ls svc(4) names by (intro slept) (auto simp: anchors_applied)
      next
        case False
        with shape have one: "ac_Replicas action = 1"
          by simp
        let ?w = "case fst (anchors m) of None \<Rightarrow> now | Some w \<Rightarrow> w"
        have "anchors ?f = (Some ?w, ?n)"
          using one names by (auto simp: anchors_applied anchors_def [of m] split: option.split)
        with wrote show ?thesis
          using ls svc(4,5) down one by (intro woke) auto
      qed
    qed
  qed
qed

text \<open>A pass over a Model being deleted, or about to get its finalizer, leaves both anchor and name.\<close>

lemma journal_other_pass:
  assumes room: "server_room c token k d" and other: "\<not> live_model m"
    and m': "m' = stored_after keep (pass_calls (server_env render token c now E) (ApiOk, m) now (s, d)) m"
    and d': "d' = snd (snd (Reconcile (server_env render token c now E) (ApiOk, m) now (s, d)))"
  shows "runNameFor m' = runNameFor m \<and> fst (anchors m') \<in> {fst (anchors m), map_option keep (fst (anchors m))} \<and>
    (d' = d \<or> live_service d' (runNameFor m) = None)"
proof (cases "isZeroPtr (md_DeletionTimestamp m)")
  case True
  then have "ModelFinalizer \<notin> set (md_Finalizers m)"
    using other by (simp add: live_model_def)
  with True show ?thesis
    by (auto simp: m' d' pass_calls_def Reconcile_def Let_def anchors_def runNameFor_def dstackRunName_def)
next
  case False
  let ?E = "server_env render token c now E" let ?n = "runNameFor m"
  have gone: "live_service (snd (client_Delete (NewHTTPServer render token now) c ?n d)) ?n = None" if "live_service d ?n = None"
    using server_Delete [OF room that, of render now] by (metis live_service_def option.simps(4) snd_conv)
  have stopped: "live_service (snd (client_Stop (NewHTTPServer render token now) c ?n d)) ?n = None"
    if "gomap_get (ms_services d) ?n = Some svc" for svc
    using server_Stop [OF room that, of render now] by (metis snd_conv)
  have state: "d' = d \<or> live_service d' ?n = None"
    unfolding d' pass_calls_deleting(2) [OF False] server.reconcileDelete_state [OF room]
    using gone stopped server_Get [OF room]
    by (auto simp: shown_def live_service_def [of d] split: option.splits if_splits)
  have calls: "pass_calls ?E (ApiOk, m) now (s, d) = delete_calls ?E m ?n now (s, d)"
    by (rule pass_calls_deleting(1) [OF False])
  have names: "anchors (draining m) = (fst (anchors m), st_RunName (md_Status m))"
    by (simp add: anchors_def draining_def)
  have shape: "runNameFor x = runNameFor m \<and> fst (anchors x) \<in> {fst (anchors m), map_option keep (fst (anchors m))}"
    if "x \<in> {m, api_write keep (CallPatch (draining m) ok) m}" for x ok
    using that by (cases ok) (auto simp: anchors_def draining_def runNameFor_def dstackRunName_def)
  have update: "runNameFor (api_write keep (CallUpdate y ok) x) = runNameFor x \<and> anchors (api_write keep (CallUpdate y ok) x) = anchors x" for x y ok
    by (simp add: anchors_def runNameFor_def dstackRunName_def)
  have skip: "stored_after keep [CallStop ?n e] x = x" "stored_after keep [CallGet ?n g] x = x" "api_write keep (CallGet ?n g) x = x"
    "api_write keep (CallDelete ?n e) x = x" for e g x
    by simp_all
  show ?thesis
  proof (cases "ModelFinalizer \<in> set (md_Finalizers m)")
    case True
    define x where "x = stored_after keep (drain_prefix ?E m (s, d)) m"
    have x: "x \<in> {m, api_write keep (CallPatch (draining m) (fst (drain_entry ?E m (s, d)))) m}"
      by (simp add: x_def drain_prefix_def)
    have "m' = x \<or> (\<exists>y ok. m' = api_write keep (CallUpdate y ok) x)"
      unfolding m' calls delete_calls_eq [OF True] stored_after_simps(3) x_def [symmetric]
      by (auto simp: final_calls_def skip split: prod.split sum.split simp del: api_write.simps(1,2))
    with shape [OF x] update [of _ _ x] state show ?thesis
      by auto
  next
    case False
    with shape [of m] state show ?thesis
      by (simp add: m' calls delete_calls_def reconcileDelete_def)
  qed
qed

lemma anchored_pass:
  assumes room: "server_room c token (Suc 0) d" and keep: "reads_back keep"
    and api: "\<And>new old s. fst (rc_PatchStatus E new old s)"
    and inv: "anchored_run keep t m d" and now: "Second \<le> t" "t \<le> now"
    and m': "m' = stored_after keep (pass_calls (server_env render token c now E) (ApiOk, m) now (s, d)) m"
    and d': "d' = snd (snd (Reconcile (server_env render token c now E) (ApiOk, m) now (s, d)))"
  shows "anchored_run keep now m' d'"
proof -
  have bound: "0 < x \<and> x \<le> now \<and> keep x = x" if "fst (anchors m) = Some x" for x
    using that inv now by (fastforce simp: anchored_run_def anchors_def)
  have up: "\<exists>x. fst (anchors m) = Some x \<and> x \<le> sv_replicasUpAt svc"
    if "live_service d (runNameFor m) = Some svc" "sv_replicas svc \<noteq> 0" for svc
    using that inv by (auto simp: anchored_run_def anchors_def)
  have again: "fst (anchors m) = map_option keep (fst (anchors m))"
    using bound by (cases "fst (anchors m)") auto
  have same: "anchored_run keep now m' d'" if names: "runNameFor m' = runNameFor m"
    "fst (anchors m') \<in> {fst (anchors m), map_option keep (fst (anchors m))}"
    "live_service d' (runNameFor m) \<in> {None, live_service d (runNameFor m)}"
  proof (rule anchored_runI)
    have "fst (anchors m') = fst (anchors m)"
      using names(2) again by auto
    with bound up names(1,3) show "\<And>w. fst (anchors m') = Some w \<Longrightarrow> 0 < w \<and> w \<le> now \<and> keep w = w"
      "\<And>svc. live_service d' (runNameFor m') = Some svc \<Longrightarrow> sv_replicas svc \<noteq> 0 \<Longrightarrow>
         \<exists>w. fst (anchors m') = Some w \<and> w \<le> sv_replicasUpAt svc"
      by simp_all
  qed
  show "anchored_run keep now m' d'"
  proof (cases "live_model m")
    case True
    show ?thesis
    proof (rule journal_live_pass [OF room True api m' d'])
      assume "ms_services d' = ms_services d" "runNameFor m' = runNameFor m"
        "fst (anchors m') \<in> {fst (anchors m), map_option keep (fst (anchors m))}"
      then show ?thesis
        by (intro same) (simp_all add: live_service_def)
    next
      fix svc assume svc: "live_service d' (runNameFor m) = Some svc" "sv_replicas svc = 1" "sv_replicasUpAt svc = now" "runNameFor m' = runNameFor m"
        "fst (anchors m') = Some (keep (case fst (anchors m) of None \<Rightarrow> now | Some w \<Rightarrow> w))"
      define x where "x = keep (case fst (anchors m) of None \<Rightarrow> now | Some w \<Rightarrow> w)"
      have "0 < x \<and> x \<le> now \<and> keep x = x"
        using bound now keep unfolding x_def reads_back_def
        by (cases "fst (anchors m)") (auto simp: algebra_simps dest: spec [of _ now])
      with svc show ?thesis
        by (intro anchored_runI) (auto simp: x_def)
    next
      fix svc assume "live_service d' (runNameFor m) = Some svc" "sv_replicas svc = 0" "runNameFor m' = runNameFor m"
        "fst (anchors m') = None"
      then show ?thesis
        by (intro anchored_runI) auto
    qed
  next
    case False
    with journal_other_pass [OF room False m' d'] show ?thesis
      by (intro same) auto
  qed
qed

text \<open>The journal is kept by every step, if no status write of the controller is lost.\<close>

lemma journal_anchored:
  assumes "journal keep render token c E t k m w" and good: "good_client c token"
    and api: "\<And>new old s. fst (rc_PatchStatus E new old s)" and keep: "reads_back keep" and "int k \<le> maxDuration"
  shows "Second \<le> t \<and> anchored_run keep t m (snd w)"
  using assms(1,5)
proof (induction rule: journal.induct)
  case (journal_start t m s)
  then show ?case
    by (simp add: anchored_run_def live_service_def mock_New_def)
next
  case (journal_pass t k m w now)
  obtain s d where w: "w = (s, d)"
    by fastforce
  have room: "server_room c token (Suc 0) d"
    using history_room [OF journal_history [OF journal_pass.hyps(1)] good, of "Suc 0"] journal_pass.prems w by simp
  with journal_pass keep show ?case
    unfolding w by (auto intro: anchored_pass [OF _ _ api _ _ _ refl refl])
next
  case (journal_other t k m w now m')
  obtain s d where w: "w = (s, d)"
    by fastforce
  have "server_room c token (Suc 0) d"
    using history_room [OF journal_history [OF journal_other.hyps(1)] good, of "Suc 0"] journal_other.prems w by simp
  note same = pass_other_services [OF this not_sym [OF journal_other.hyps(3)], where render = render and now = now and E = E and s = s]
  show ?case
    using journal_other unfolding w by (fastforce simp: anchored_run_def live_service_def same)
next
  case (journal_edit t k m w m')
  then show ?case
    by (simp add: anchored_run_def)
next
  case (journal_clock t k m w t')
  then show ?case
    by (fastforce simp: anchored_run_def)
next
  case (journal_tick t k m s d now)
  then show ?case
    by (auto simp: anchored_run_def live_service_def mock_Tick_get tick_service_def split: option.splits if_splits)
next
  case (journal_death t k m s d n)
  then show ?case
    by (auto simp: anchored_run_def live_service_def mock_Terminate_def split: option.splits if_splits)
next
  case (journal_delay t k m s d p)
  then show ?case
    by (simp add: anchored_run_def live_service_def mock_SetProbeDelay_def)
qed simp

section \<open>The provisioning deadline holds\<close>

lemma unready_given_up:
  assumes hist: "journal keep render token c E t k m (s, d)" "good_client c token" "int k < maxDuration"
    and api: "\<And>new old s. fst (rc_PatchStatus E new old s)" "reads_back keep"
    and up: "live_model m" "live_service d (runNameFor m) = Some svc" "sv_replicas svc \<noteq> 0"
    and late: "t \<le> now" "0 < sp_ProvisioningTimeout (md_Spec m)" "sp_ProvisioningTimeout (md_Spec m) < time_sub now (sv_replicasUpAt svc)"
    and unready: "\<not> mock_probesReady now d svc" "\<not> freshSuccess (env_gather E (md_Name m) now s) now (sp_IdleTimeout (md_Spec m))"
    and m': "m' = stored_after keep (pass_calls (server_env render token c now E) (ApiOk, m) now (s, d)) m"
    and d': "d' = snd (snd (Reconcile (server_env render token c now E) (ApiOk, m) now (s, d)))"
  shows "GatewayGet (runNameFor m) ValidToken d' = 503 \<and> mock_ident d' (runNameFor m) = Some (sv_runID svc, sv_deploymentNum svc + 1) \<and>
    st_WakeStartedAt (md_Status m') = None"
proof -
  let ?E = "server_env render token c now E" let ?n = "runNameFor m"
  let ?ob = "no_observation\<lparr>ob_Run := Some (client_run (runFor now d ?n svc)), ob_Activity := env_gather E (md_Name m) now s,
      ob_Ready := (mock_probesReady now d svc \<or> freshSuccess (env_gather E (md_Name m) now s) now (sp_IdleTimeout (md_Spec m)))\<rparr>"
  have room: "server_room c token (Suc 0) d"
    using history_room [OF journal_history [OF hist(1)] hist(2), of "Suc 0"] hist(3) by simp
  obtain w where w: "st_WakeStartedAt (md_Status m) = Some w" "w \<le> sv_replicasUpAt svc" "0 < w"
    using journal_anchored [OF hist(1,2) api] hist(3) up(2,3) by (auto simp: anchored_run_def)
  have pos: "0 < sv_replicas svc"
    using room live_serviceD [OF up(2)] up(3) by (force simp: server_room_def service_room_def)
  have anchor: "st_WakeStartedAt (md_Status (statusForDecide ?E m ?n ?ob dem now)) = Some w" for dem
    using arg_cong [OF anchors_decide [of ?E m ?n ?ob dem now], of fst] w(1) by (simp add: anchors_def)
  have due: "scale_down_due ?ob (md_Status (statusForDecide ?E m ?n ?ob dem now)) (md_Spec m) dem now" for dem
    using anchor late unready w(3) order.strict_trans2 [OF late(3) time_sub_anti [OF w(2)]]
    by (auto simp: scale_down_due_def provisioningDue_iff)
  obtain svc' where svc': "gomap_get (ms_services d') ?n = Some svc'" "\<not> sv_terminal svc'" "sv_replicas svc' = 0"
    "sv_runID svc' = sv_runID svc" "sv_deploymentNum svc' = sv_deploymentNum svc + 1"
    unfolding d' by (rule server_scale_down [OF room up(1,2) pos refl due])
  have "fst (anchors m') = None"
    using room up(1) api(1) m' d'
  proof (cases rule: journal_live_pass)
    case kept
    with svc' live_serviceD [OF up(2)] show ?thesis
      by simp
  next
    case (woke x)
    with svc' show ?thesis
      by (auto simp: live_service_def)
  qed
  with svc' show ?thesis
    by (simp add: GatewayGet_def mock_ident_def live_service_def anchors_def)
qed

text \<open>
  C7. No replica outlives its provisioning deadline. In every history of a Model in which no status write of the controller is lost, a
  replica that came up longer ago than the provisioning timeout, whose probes still fail and which no
  proxy reports a fresh success of, is taken away by the next pass: across any number of passes,
  edits of the Model, deaths and recreations, and although what the journal keeps of an instant may be short of it by up to a second. The
  run itself stays, one deployment later, and the stored anchor is cleared for the next wake.
\<close>

theorem provisioning_deadline_enforced:
  assumes hist: "journal keep render token c E t k m (s, d)" "good_client c token" "int k < maxDuration"
    and api: "\<And>new old s. fst (rc_PatchStatus E new old s)" "reads_back keep"
    and up: "live_model m" "live_service d (runNameFor m) = Some svc" "sv_replicas svc \<noteq> 0"
    and late: "t \<le> now" "0 < sp_ProvisioningTimeout (md_Spec m)" "sp_ProvisioningTimeout (md_Spec m) < time_sub now (sv_replicasUpAt svc)"
    and unready: "\<not> mock_probesReady now d svc" "\<not> freshSuccess (env_gather E (md_Name m) now s) now (sp_IdleTimeout (md_Spec m))"
    and m': "m' = stored_after keep (pass_calls (server_env render token c now E) (ApiOk, m) now (s, d)) m"
    and d': "d' = snd (snd (Reconcile (server_env render token c now E) (ApiOk, m) now (s, d)))"
  shows "GatewayGet (runNameFor m) ValidToken d' = 503 \<and> mock_ident d' (runNameFor m) = Some (sv_runID svc, sv_deploymentNum svc + 1) \<and>
    st_WakeStartedAt (md_Status m') = None"
  by (rule unready_given_up [OF hist api up late unready m' d'])

section \<open>A lost wake write\<close>

text \<open>What a pass observes of a replica that is up, and the pass when none of the four causes is due.\<close>

definition up_observation :: "'s reconcile_env \<Rightarrow> Model \<Rightarrow> gotime \<Rightarrow> 's \<Rightarrow> Run \<Rightarrow> Observed" where
  "up_observation E m now s run = no_observation\<lparr>ob_Run := Some run, ob_Activity := env_gather E (md_Name m) now s,
     ob_Ready := (run_ProbesReady run \<or> freshSuccess (env_gather E (md_Name m) now s) now (sp_IdleTimeout (md_Spec m)))\<rparr>"

lemma up_pass:
  assumes room: "server_room c token k d" and live: "live_model m"
    and svc: "live_service d (runNameFor m) = Some svc" "0 < sv_replicas svc"
    and ob: "ob = up_observation E m now s (client_run (runFor now d (runNameFor m) svc))"
    and kept: "\<And>prior. st_WakeStartedAt prior = st_WakeStartedAt (md_Status m) \<Longrightarrow>
      \<not> scale_down_due ob prior (md_Spec m) (hasDemand (rc_rfc3339 E) m now) now"
    and m': "m' = stored_after keep (pass_calls (server_env render token c now E) (ApiOk, m) now (s, d)) m"
  shows "snd (snd (Reconcile (server_env render token c now E) (ApiOk, m) now (s, d))) = d"
    and "\<exists>f. m' = api_write keep (CallPatch f (fst (rc_PatchStatus (server_env render token c now E) f m (s, d)))) m \<and>
      anchors f = (st_WakeStartedAt (md_Status m), runNameFor m) \<and> (ob_Ready ob \<longrightarrow> st_Phase (md_Status f) = Ready)"
proof -
  let ?E = "server_env render token c now E" let ?n = "runNameFor m"
  define run where "run = client_run (runFor now d ?n svc)"
  have run: "shown now d ?n = Inr run" "\<not> IsTerminal run" "0 < run_Replicas run"
    using live_serviceD [OF svc(1)] svc(2) by (simp_all add: shown_def run_def) (simp_all add: client_run_def runFor_def)
  have ob': "ob_Run ob = Some run"
    by (simp add: ob up_observation_def run_def)
  have obs: "observe ?E ?n (md_Name m) (md_Spec m) now (s, d) = (Inr ob, (s, d))"
    using server_Get [OF room] run by (simp add: observe_def ob up_observation_def run_def Let_def)
  let ?dem = "hasDemand (rc_rfc3339 E) m now" let ?m = "statusForDecide ?E m ?n ob ?dem now" let ?a = "(action_at now)\<lparr>ac_Replicas := 1\<rparr>"
  have "st_WakeStartedAt (md_Status ?m) = st_WakeStartedAt (md_Status m)"
    using arg_cong [OF anchors_decide [of ?E m ?n ob ?dem now], of fst] by (simp add: anchors_def)
  from Decide_up_kept [OF ob' _ kept [OF this], of "rc_meta E"] run(3)
  obtain ph where dec: "Decide (rc_meta E) ob (md_Status ?m) (md_Spec m) ?dem now = (ph, ?a)" "ob_Ready ob \<longrightarrow> ph = Ready"
    by auto
  then have plan: "planned ?E m ?n ob now (s, d) = ((?m, ?a, ph), (s, d))"
    by (simp add: planned_def Let_def)
  show "snd (snd (Reconcile ?E (ApiOk, m) now (s, d))) = d"
    using live_pass_dstack [OF live obs plan] by (simp add: actuate_def)
  let ?f = "finishStatus ?E ob ?a ph now ?m (s, d)"
  have "m' = api_write keep (CallPatch ?f (fst (rc_PatchStatus ?E ?f m (s, d)))) m"
    using pass_calls_live [OF live, of ?E now "(s, d)"] obs quiet_calls [OF plan] by (simp add: m' del: api_write.simps(1))
  moreover have "anchors ?f = (st_WakeStartedAt (md_Status m), ?n)"
    by (simp add: anchors_decide)
  moreover have "ob_Ready ob \<longrightarrow> st_Phase (md_Status ?f) = Ready"
    using dec(2) by (simp add: finishStatus_def Let_def)
  ultimately show "\<exists>f. m' = api_write keep (CallPatch f (fst (rc_PatchStatus ?E f m (s, d)))) m \<and>
      anchors f = (st_WakeStartedAt (md_Status m), ?n) \<and> (ob_Ready ob \<longrightarrow> st_Phase (md_Status f) = Ready)"
    by blast
qed

text \<open>A Model that is to be up: pinned, or with demand and nothing the proxies report against it.\<close>

definition wanted :: "'s reconcile_env \<Rightarrow> Model \<Rightarrow> gotime \<Rightarrow> 's \<Rightarrow> bool" where
  "wanted E m now s \<longleftrightarrow> sp_MinReplicas (md_Spec m) = 1 \<or>
     hasDemand (rc_rfc3339 E) m now \<and> busy (env_gather E (md_Name m) now s) (md_Spec m)"

lemma wanted_kept:
  assumes "wanted E m now s" and "st_WakeStartedAt prior = None \<or> ob_Ready (up_observation E m now s run)"
  shows "\<not> scale_down_due (up_observation E m now s run) prior (md_Spec m) (hasDemand (rc_rfc3339 E) m now) now"
  using assms by (auto simp: wanted_def scale_down_due_def due_iffs busy_def up_observation_def split: option.splits)

text \<open>A number of passes in a row, each at its own time, in its own world and with the annotations of that time.\<close>

fun journal_passes ::
  "(gotime \<Rightarrow> gotime) \<Rightarrow> (gotime \<Rightarrow> ('s \<times> mockServer) reconcile_env) \<Rightarrow> (string gomap \<times> gotime \<times> 's) list \<Rightarrow> Model \<Rightarrow> mockServer \<Rightarrow>
   Model \<times> mockServer" where
  "journal_passes keep E [] m d = (m, d)"
| "journal_passes keep E ((anns, now, s) # ps) m d =
     (let m0 = m\<lparr>md_Annotations := anns\<rparr>
      in journal_passes keep E ps (stored_after keep (pass_calls (E now) (ApiOk, m0) now (s, d)) m0)
           (snd (snd (Reconcile (E now) (ApiOk, m0) now (s, d)))))"

text \<open>A live pass whose status writes fail stores nothing.\<close>

lemma lost_writes:
  assumes "live_model m" and "\<And>new old w. \<not> fst (rc_PatchStatus E new old w)"
  shows "stored_after keep (pass_calls E (ApiOk, m) now s) m = m"
proof -
  have "stored_after keep (observed_calls E m n ob now s1) m = m" for n ob s1
  proof -
    obtain model action phase s2 where plan: "planned E m n ob now s1 = ((model, action, phase), s2)"
      by (metis prod_cases3 surj_pair)
    from plan show ?thesis
    proof (cases rule: observed_calls_cases)
      case (refused env key s3 q err s4)
      then show ?thesis
        using assms(2) by (auto simp: recovery_calls_def recoverFromOverrideRefusal_def Let_def)
    next
      case (applied env key s3 q run s4 m' ok)
      show ?thesis
        using assms(2) unfolding applied_calls [OF plan applied(1-4)] by simp
    next
      case (idle m' ok)
      show ?thesis
        using assms(2) unfolding quiet_calls [OF plan idle(1)] by simp
    qed simp
  qed
  then show ?thesis
    using pass_calls_live [OF assms(1), of E now s] by (auto split: prod.split sum.split)
qed

lemma unanchored_passes:
  assumes "server_room c token k d" and "live_model m" and "st_WakeStartedAt (md_Status m) = None"
    and "live_service d (runNameFor m) = Some svc" "0 < sv_replicas svc"
    and "\<forall>(anns, t, s)\<in>set ps. wanted E (m\<lparr>md_Annotations := anns\<rparr>) t s"
    and "journal_passes keep (\<lambda>now. server_env render token c now E) ps m d = (m', d')"
  shows "d' = d \<and> st_WakeStartedAt (md_Status m') = None"
  using assms
proof (induction ps arbitrary: m)
  case (Cons p ps)
  obtain anns now s where p: "p = (anns, now, s)"
    by (rule prod_cases3)
  let ?E = "server_env render token c now E" let ?seen = "m\<lparr>md_Annotations := anns\<rparr>"
  let ?m = "stored_after keep (pass_calls ?E (ApiOk, ?seen) now (s, d)) ?seen"
  have live: "live_model ?seen" and name: "runNameFor ?seen = runNameFor m"
    using Cons.prems(2) by (simp_all add: live_model_def runNameFor_def dstackRunName_def)
  have keep: "\<not> scale_down_due (up_observation E ?seen now s run) prior (md_Spec ?seen) (hasDemand (rc_rfc3339 E) ?seen now) now"
    if "st_WakeStartedAt prior = st_WakeStartedAt (md_Status ?seen)" for prior run
    by (rule wanted_kept) (use that Cons.prems(3,6) p in auto)
  note step = up_pass [OF Cons.prems(1) live, unfolded name, OF Cons.prems(4,5) refl keep refl, where render = render]
  from step(2) [of keep] obtain f ok where f: "?m = api_write keep (CallPatch f ok) ?seen" "anchors f = (None, runNameFor ?seen)"
    using Cons.prems(3) name by auto
  have m: "st_WakeStartedAt (md_Status ?m) = None" "runNameFor ?m = runNameFor m"
    using stored_patch [OF f(2), of keep] f(1) Cons.prems(3) name by (cases ok; simp add: anchors_def)+
  have frame: "?m\<lparr>md_Annotations := as\<rparr> = ?seen\<lparr>md_Status := md_Status ?m, md_Annotations := as\<rparr>" for as
    unfolding f(1) by (cases ok) simp_all
  have same: "wanted E (?m\<lparr>md_Annotations := as\<rparr>) t x = wanted E (m\<lparr>md_Annotations := as\<rparr>) t x" for as t x
    unfolding frame by (simp add: wanted_def hasDemand_def cong: option.case_cong)
  show ?case
    by (rule Cons.IH [of ?m]) (use Cons.prems m same step(1) stored_live [OF live] p in \<open>simp_all add: Let_def\<close>)
qed simp

text \<open>
  C38. The deadline hangs on a single write. If the status write of the pass that wakes a Model is lost,
  the replica is up and the journal does not know since when. As long as the Model is to be up (it
  is pinned, or demand stands and the proxies report an open request and no failures), no later pass,
  however many there are and whatever the probes say, stamps the anchor or takes the replica away
  again, so the provisioning timeout never applies to it. Status fields such as the run's identity are
  re-asserted from what every pass observes; the anchor is not.
\<close>

theorem lost_wake_write_unbounded:
  assumes hist: "controller_history render token c E k (s, d)" "good_client c token" "int k < maxDuration"
    and m: "sp_MinReplicas (md_Spec m) = 1 \<or> hasDemand (rc_rfc3339 F) m now" "may_wake F m now" "st_WakeStartedAt (md_Status m) = None"
    and asleep: "case gomap_get (ms_services d) (runNameFor m) of None \<Rightarrow> True | Some svc \<Rightarrow> \<not> sv_terminal svc \<and> sv_replicas svc = 0"
    and lost: "\<And>new old s. \<not> fst (rc_PatchStatus F new old s)"
    and m1: "m1 = stored_after keep (pass_calls (server_env render token c now F) (ApiOk, m) now (s, d)) m"
    and d1: "d1 = snd (snd (Reconcile (server_env render token c now F) (ApiOk, m) now (s, d)))"
    and later: "journal_passes keep (\<lambda>now. server_env render token c now E) ps m1 d1 = (m', d')"
      "\<forall>(anns, t, s)\<in>set ps. wanted E (m\<lparr>md_Annotations := anns\<rparr>) t s"
  shows "GatewayGet (runNameFor m) ValidToken d' = 200 \<and> d' = d1 \<and> st_WakeStartedAt (md_Status m') = None"
proof -
  have room: "server_room c token (Suc 0) d"
    using history_room [OF hist(1,2), of 1] hist(3) by simp
  obtain svc where svc: "server_room c token 0 d1" "gomap_get (ms_services d1) (runNameFor m) = Some svc"
    "\<not> sv_terminal svc" "sv_replicas svc = 1"
    by (rule server_wake [OF room m(1), where render = render and s = s]) (use m(2) asleep d1 in simp_all)
  have patch: "\<not> fst (rc_PatchStatus (server_env render token c now F) new old w)" for new old w
    using lost by (simp add: with_dstack_def on_fst_def split: prod.split) (metis fst_conv)
  have kept: "m1 = m"
    unfolding m1 by (rule lost_writes) (use m(2) patch in \<open>simp_all add: may_wake_def\<close>)
  have "live_service d1 (runNameFor m) = Some svc"
    using svc by (simp add: live_service_def)
  from unanchored_passes [OF svc(1) _ m(3) this _ later(2) later(1) [unfolded kept]] m(2) svc(4)
  have "d' = d1 \<and> st_WakeStartedAt (md_Status m') = None"
    by (simp add: may_wake_def)
  with svc show ?thesis
    by (simp add: GatewayGet_def)
qed

section \<open>A replica that served\<close>

text \<open>
  C40. A served replica is given up at its first lapse. In every history of a Model in which no status write is
  lost, let a pass find the replica ready and the Model wanted, so that it stores the phase Ready. If
  the probes fail at any time later than the provisioning timeout after the replica came up, and no
  proxy has a fresh success of it, the next pass flips it to zero, be it pinned, with demand or with
  requests open: becoming ready does not end the deadline of the wake, which is documented for a replica
  that never became ready.
\<close>

theorem readiness_lapse_is_fatal:
  assumes hist: "journal keep render token c E t k m (s, d)" "good_client c token" "int k + 1 < maxDuration"
    and api: "\<And>new old s. fst (rc_PatchStatus E new old s)" "reads_back keep"
    and up: "live_model m" "live_service d (runNameFor m) = Some svc" "sv_replicas svc \<noteq> 0"
    and serving: "t \<le> t1" "mock_probesReady t1 d svc" "wanted E m t1 s"
    and m1: "m1 = stored_after keep (pass_calls (server_env render token c t1 E) (ApiOk, m) t1 (s, d)) m"
    and lapse: "t1 \<le> t2" "0 < sp_ProvisioningTimeout (md_Spec m)" "sp_ProvisioningTimeout (md_Spec m) < time_sub t2 (sv_replicasUpAt svc)"
      "\<not> mock_probesReady t2 (mock_SetProbeDelay p d) svc"
      "\<not> freshSuccess (env_gather E (md_Name m) t2 s2) t2 (sp_IdleTimeout (md_Spec m))"
    and d2: "d2 = snd (snd (Reconcile (server_env render token c t2 E) (ApiOk, m1) t2 (s2, mock_SetProbeDelay p d)))"
  shows "st_Phase (md_Status m1) = Ready \<and> GatewayGet (runNameFor m) ValidToken d2 = 503"
proof -
  let ?E1 = "server_env render token c t1 E" let ?ob = "up_observation E m t1 s (client_run (runFor t1 d (runNameFor m) svc))"
  have room: "server_room c token (Suc 0) d"
    using history_room [OF journal_history [OF hist(1)] hist(2), of "Suc 0"] hist(3) by simp
  have pos: "0 < sv_replicas svc"
    using room live_serviceD [OF up(2)] up(3) by (force simp: server_room_def service_room_def)
  have ready: "ob_Ready ?ob"
    using serving(2) pos by (simp add: up_observation_def client_run_def runFor_def)
  note pass = up_pass [OF room up(1,2) pos refl wanted_kept [OF serving(3)] m1, OF disjI2 [OF ready]]
  have "fst (rc_PatchStatus ?E1 f x w)" for f x w
    using api(1) by (simp add: with_dstack_def on_fst_def split: prod.split) (metis fst_conv)
  with pass(2) ready obtain f where f: "m1 = api_write keep (CallPatch f True) m" "anchors f = (st_WakeStartedAt (md_Status m), runNameFor m)"
    "st_Phase (md_Status f) = Ready"
    by auto
  have m1': "runNameFor m1 = runNameFor m" "md_Spec m1 = md_Spec m" "md_Name m1 = md_Name m" "st_Phase (md_Status m1) = Ready" "live_model m1"
    using stored_patch [OF f(2), of keep] f(1,3) up(1) stored_live [OF up(1), of keep ?E1 t1 "(s, d)", folded m1]
    by (simp_all add: stored_status_def)
  have "journal keep render token c E t1 (Suc k) m1 (snd (Reconcile ?E1 (ApiOk, m) t1 (s, d)))"
    unfolding m1 by (rule journal_pass [OF hist(1) serving(1)])
  then have "journal keep render token c E t1 (Suc k) m1 (s2, mock_SetProbeDelay p d)"
    using pass(1) by (metis journal_delay journal_world prod.collapse)
  moreover have "live_service (mock_SetProbeDelay p d) (runNameFor m1) = Some svc"
    using up(2) m1'(1) by (simp add: live_service_def mock_SetProbeDelay_def)
  ultimately have "GatewayGet (runNameFor m1) ValidToken d2 = 503"
    using unready_given_up [OF _ hist(2) _ api m1'(5) _ up(3) lapse(1) _ _ lapse(4) _ refl d2] hist(3) lapse m1'(1-3) by simp
  with m1' show ?thesis
    by simp
qed

section \<open>Witnesses\<close>

text \<open>A pinned Model woken in the first hour, on a server whose probes take a thousand.\<close>

definition whole_seconds :: "gotime \<Rightarrow> gotime" where
  "whole_seconds t = Second * (t div Second)"

lemma whole_seconds_read_back: "reads_back whole_seconds"
  by (auto simp: reads_back_def whole_seconds_def)

definition woken_model :: Model where
  "woken_model = stored_after whole_seconds (pass_calls (server_env (\<lambda>_. []) ''t'' sample_client Hour sample_env) (ApiOk, pinned_model) Hour (None, mock_New)) pinned_model"

definition slow_server :: mockServer where
  "slow_server = mock_SetProbeDelay (1000 * Hour)
     (snd (snd (Reconcile (server_env (\<lambda>_. []) ''t'' sample_client Hour sample_env) (ApiOk, pinned_model) Hour (None, mock_New))))"

lemma slow_server_up:
  "case live_service slow_server (runNameFor pinned_model) of None \<Rightarrow> False | Some svc \<Rightarrow> sv_replicas svc = 1 \<and> sv_replicasUpAt svc = Hour"
  by code_simp

lemma pinned_model_live: "live_model pinned_model"
  by (simp add: live_model_def pinned_model_def sample_model_def isZeroPtr_def)

lemma pinned_model_min: "sp_MinReplicas (md_Spec pinned_model) = 1"
  by (simp add: pinned_model_def sample_model_def)

lemma woken_model_name: "runNameFor woken_model = runNameFor pinned_model"
proof -
  have room: "server_room sample_client ''t'' (Suc 0) mock_New"
    using history_room [OF sample_history sample_client_good, of 1] by (simp add: maxDuration_def)
  have api: "fst (rc_PatchStatus sample_env new old s)" for new old s
    by (simp add: sample_env_def)
  show ?thesis
    by (rule journal_live_pass [OF room pinned_model_live api woken_model_def refl])
qed

lemma woken_model_live: "live_model woken_model"
  unfolding woken_model_def by (rule stored_live [OF pinned_model_live])

lemma woken_model_min: "sp_MinReplicas (md_Spec woken_model) = 1"
  and woken_model_timeout: "sp_ProvisioningTimeout (md_Spec woken_model) = 30 * Minute"
  by (simp_all add: woken_model_def pinned_model_def sample_model_def sample_spec_def)

lemma woken_model_quiet: "\<not> freshSuccess (env_gather sample_env n t s) t idle"
  by (simp add: sample_env_def env_gather_def gatherActivity_def freshSuccess_def)

lemma sample_env_patches: "fst (rc_PatchStatus sample_env new old s)"
  by (simp add: sample_env_def)

lemma woken_journal:
  "journal whole_seconds (\<lambda>_. []) ''t'' sample_client sample_env Hour (Suc 0) woken_model
     (snd (Reconcile (server_env (\<lambda>_. []) ''t'' sample_client Hour sample_env) (ApiOk, pinned_model) Hour (None, mock_New)))"
proof -
  have "journal whole_seconds (\<lambda>_. []) ''t'' sample_client sample_env Hour 0 pinned_model (None, mock_New)"
    by (rule journal_start) (simp_all add: pinned_model_def sample_model_def sample_status_def)
  then show ?thesis
    unfolding woken_model_def by (rule journal_pass) simp
qed

theorem provisioning_deadline_enforced_witness:
  "GatewayGet (runNameFor woken_model) ValidToken
     (snd (snd (Reconcile (server_env (\<lambda>_. []) ''t'' sample_client (3 * Hour) sample_env) (ApiOk, woken_model) (3 * Hour) (None, slow_server)))) = 503"
proof -
  have hist: "journal whole_seconds (\<lambda>_. []) ''t'' sample_client sample_env Hour (Suc 0) woken_model (None, slow_server)"
    unfolding slow_server_def by (metis woken_journal journal_delay journal_world prod.collapse)
  obtain svc where svc: "live_service slow_server (runNameFor woken_model) = Some svc" "sv_replicas svc = 1" "sv_replicasUpAt svc = Hour"
    using slow_server_up by (auto simp: woken_model_name split: option.splits)
  have unready: "\<not> mock_probesReady (3 * Hour) slow_server svc"
    using svc by (simp add: slow_server_def mock_SetProbeDelay_def mock_probesReady_def)
  from provisioning_deadline_enforced [OF hist sample_client_good _ sample_env_patches whole_seconds_read_back woken_model_live svc(1) _ _ _ _ unready
      woken_model_quiet refl refl] svc(2,3) woken_model_timeout
  show ?thesis
    by (simp add: maxDuration_def minDuration_def time_sub_def)
qed

text \<open>An API server that refuses status writes.\<close>

definition deaf_env :: "Run option reconcile_env" where
  "deaf_env = sample_env\<lparr>rc_PatchStatus := \<lambda>m old s. (False, s)\<rparr>"

theorem lost_wake_write_unbounded_witness:
  "GatewayGet (runNameFor pinned_model) ValidToken
     (snd (journal_passes whole_seconds (\<lambda>now. server_env (\<lambda>_. []) ''t'' sample_client now sample_env) [([], 9 * Hour, None), ([], 99 * Hour, None)] pinned_model
       (snd (snd (Reconcile (server_env (\<lambda>_. []) ''t'' sample_client Hour deaf_env) (ApiOk, pinned_model) Hour (None, mock_New)))))) = 200"
proof -
  have deaf: "\<not> fst (rc_PatchStatus deaf_env new old s)" for new old s
    by (simp add: deaf_env_def)
  have kept: "stored_after whole_seconds (pass_calls (server_env (\<lambda>_. []) ''t'' sample_client Hour deaf_env) (ApiOk, pinned_model) Hour (None, mock_New)) pinned_model =
      pinned_model"
    by (rule lost_writes [OF pinned_model_live]) (simp add: deaf_env_def with_dstack_def on_fst_def)
  have may: "may_wake deaf_env pinned_model Hour"
  proof -
    have "Validate (md_Spec pinned_model) = None"
      by code_simp
    moreover have "resolveEnv f pinned_model = Inr []" for f
      by (simp add: resolveEnv_def pinned_model_def sample_model_def sample_spec_def)
    ultimately show ?thesis
      using pinned_model_live by (simp add: may_wake_def price_ok_def pinned_model_def sample_model_def sample_spec_def deaf_env_def sample_env_def
          sample_status_def is_err_def provisioningBackoff_iff ref_meta_def ref_find_def)
  qed
  have "GatewayGet (runNameFor pinned_model) ValidToken d' = 200"
    if "journal_passes whole_seconds (\<lambda>now. server_env (\<lambda>_. []) ''t'' sample_client now sample_env) [([], 9 * Hour, None), ([], 99 * Hour, None)] pinned_model
       (snd (snd (Reconcile (server_env (\<lambda>_. []) ''t'' sample_client Hour deaf_env) (ApiOk, pinned_model) Hour (None, mock_New)))) = (m', d')" for m' d'
  proof -
    have "sp_MinReplicas (md_Spec pinned_model) = 1" "st_WakeStartedAt (md_Status pinned_model) = None"
      using pinned_model_min by (simp_all add: pinned_model_def sample_model_def sample_status_def)
    note all = lost_wake_write_unbounded [OF sample_history sample_client_good _ disjI1 [OF this(1)] may this(2) _ deaf kept [symmetric] refl that]
    show ?thesis
      by (rule conjunct1 [OF all]) (use pinned_model_min in \<open>simp_all add: maxDuration_def mock_New_def wanted_def\<close>)
  qed
  then show ?thesis
    by (metis prod.collapse)
qed

text \<open>The same server with probes that pass at once: the replica is up at the first hour and ready at the second.\<close>

definition woken_server :: mockServer where
  "woken_server = snd (snd (Reconcile (server_env (\<lambda>_. []) ''t'' sample_client Hour sample_env) (ApiOk, pinned_model) Hour (None, mock_New)))"

definition ready_model :: Model where
  "ready_model = stored_after whole_seconds
     (pass_calls (server_env (\<lambda>_. []) ''t'' sample_client (2 * Hour) sample_env) (ApiOk, woken_model) (2 * Hour) (None, woken_server)) woken_model"

lemma woken_server_up:
  "case live_service woken_server (runNameFor pinned_model) of None \<Rightarrow> False
   | Some svc \<Rightarrow> sv_replicas svc = 1 \<and> sv_replicasUpAt svc = Hour \<and> mock_probesReady (2 * Hour) woken_server svc"
  by code_simp

theorem readiness_lapse_is_fatal_witness:
  "st_Phase (md_Status ready_model) = Ready \<and>
   GatewayGet (runNameFor woken_model) ValidToken
     (snd (snd (Reconcile (server_env (\<lambda>_. []) ''t'' sample_client (3 * Hour) sample_env) (ApiOk, ready_model) (3 * Hour)
       (None, mock_SetProbeDelay (1000 * Hour) woken_server)))) = 503"
proof -
  obtain svc where svc: "live_service woken_server (runNameFor woken_model) = Some svc" "sv_replicas svc = 1" "sv_replicasUpAt svc = Hour"
    "mock_probesReady (2 * Hour) woken_server svc"
    using woken_server_up by (auto simp: woken_model_name split: option.splits)
  have "journal whole_seconds (\<lambda>_. []) ''t'' sample_client sample_env Hour (Suc 0) woken_model (None, woken_server)"
    unfolding woken_server_def by (metis woken_journal journal_world prod.collapse)
  note all = readiness_lapse_is_fatal [OF this sample_client_good _ sample_env_patches whole_seconds_read_back woken_model_live svc(1) _ _ svc(4) _ ready_model_def,
      where p = "1000 * Hour" and ?t2.0 = "3 * Hour" and ?s2.0 = None]
  show ?thesis
    by (rule all)
      (use svc(2,3) pinned_model_min in \<open>simp_all add: woken_model_timeout woken_model_quiet wanted_def woken_model_min maxDuration_def minDuration_def time_sub_def mock_SetProbeDelay_def mock_probesReady_def\<close>)
qed

end
