(* ===== verification/Squall_Override.thy ===== *)
theory Squall_Override
  imports Squall_System
begin

text \<open>
  A dstack that refuses overrides. The real server answers an apply on an active run whose submitted
  configuration differs from the stored one in anything but the replica count with 400 "Cannot override
  active run" (\<open>ErrCannotOverride\<close> of \<open>internal/dstack/client.go\<close>); the in-memory server compares the idle
  duration only. Here the comparison is a parameter: \<open>differs\<close> says which requests dstack finds different,
  and every such request on a live run is refused. The rest is the in-memory server over HTTP.
\<close>

section \<open>The server and its histories\<close>

definition override_refused :: "(ApplyRequest \<Rightarrow> mockServer \<Rightarrow> bool) \<Rightarrow> ApplyRequest \<Rightarrow> mockServer \<Rightarrow> bool" where
  "override_refused differs q d \<longleftrightarrow> differs q d \<and> live_service d (req_Name q) \<noteq> None"

definition strict_calls ::
  "(ApplyRequest \<Rightarrow> mockServer \<Rightarrow> bool) \<Rightarrow> (json \<Rightarrow> string) \<Rightarrow> string \<Rightarrow> HTTPClient \<Rightarrow> gotime \<Rightarrow> mockServer dstack_calls" where
  "strict_calls differs render token c now =
     (server_calls render token c now)\<lparr>dc_Apply := \<lambda>q d.
        if override_refused differs q d then (Inl (client_apply_error MErrCannotOverride), d)
        else client_Apply (NewHTTPServer render token now) c q d\<rparr>"

lemma strict_calls_simps [simp]:
  "dc_Get (strict_calls differs render token c now) = dc_Get (server_calls render token c now)"
  "dc_Stop (strict_calls differs render token c now) = dc_Stop (server_calls render token c now)"
  "dc_Delete (strict_calls differs render token c now) = dc_Delete (server_calls render token c now)"
  "dc_preflight (strict_calls differs render token c now) = dc_preflight (server_calls render token c now)"
  "dc_Apply (strict_calls differs render token c now) q d =
     (if override_refused differs q d then (Inl (client_apply_error MErrCannotOverride), d)
      else dc_Apply (server_calls render token c now) q d)"
  by (simp_all add: strict_calls_def)

interpretation strict: dstack_contract "strict_calls differs render token c now" "server_room c token" "override_refused differs"
  for differs render token c now
proof unfold_locales
  fix k d and q :: ApplyRequest
  assume room: "server_room c token k d" and "override_refused differs q d"
  then show "live_run (fst (dc_Get (strict_calls differs render token c now) (req_Name q) d)) \<noteq> None"
    by (auto simp: override_refused_def server_Get live_run_shown)
next
  fix k d and q :: ApplyRequest
  assume "override_refused differs q d"
  then show "\<exists>e. dc_Apply (strict_calls differs render token c now) q d = (Inl e, d) \<and> err_is e ErrCannotOverride"
    by (simp add: client_apply_error_def)
next
  fix k d and q :: ApplyRequest
  let ?D = "strict_calls differs render token c now" and ?S = "server_calls render token c now"
  assume room: "server_room c token (Suc k) d" and ok: "\<not> override_refused differs q d"
    and q: "req_Current q = live_run (fst (dc_Get ?D (req_Name q) d))" "req_Replicas q \<in> {0, 1}"
      "\<And>x. req_IdleDuration q = Some x \<Longrightarrow> is_duration x"
      "\<And>r. req_Current q = Some r \<Longrightarrow> run_Replicas r = 0 \<or> req_IdleDuration q = run_IdleDuration r"
  have same: "dc_Apply ?D q d = dc_Apply ?S q d"
    using ok by simp
  show "\<exists>run. fst (dc_Apply ?D q d) = Inr run \<and> server_room c token k (snd (dc_Apply ?D q d)) \<and> \<not> IsTerminal run \<and>
      run_Replicas run = req_Replicas q \<and> fst (dc_Get ?D (req_Name q) (snd (dc_Apply ?D q d))) = Inr run \<and>
      (\<forall>n. n \<noteq> req_Name q \<longrightarrow> fst (dc_Get ?D n (snd (dc_Apply ?D q d))) = fst (dc_Get ?D n d))"
    unfolding same strict_calls_simps(1)
    by (rule server.apply_anchored [OF room]) (use q in simp_all)
qed (unfold strict_calls_simps(1-4), (rule server.room_mono server.get_keeps server.get_error server.get_range server.backend_keeps
    server.fleet_keeps server.ensure_keeps server.stop_ends server.delete_forgets server.stop_others server.delete_others; assumption)+)

abbreviation strict_env ::
  "(ApplyRequest \<Rightarrow> mockServer \<Rightarrow> bool) \<Rightarrow> (json \<Rightarrow> string) \<Rightarrow> string \<Rightarrow> HTTPClient \<Rightarrow> gotime \<Rightarrow> 's reconcile_env \<Rightarrow>
   ('s \<times> mockServer) reconcile_env" where
  "strict_env differs render token c now E \<equiv> with_dstack (strict_calls differs render token c now) E"

text \<open>
  A history of one controller on such a dstack. What dstack finds different may change from pass to pass:
  Models are edited, Secrets rotate.
\<close>

inductive strict_history ::
  "(json \<Rightarrow> string) \<Rightarrow> string \<Rightarrow> HTTPClient \<Rightarrow> 's reconcile_env \<Rightarrow> nat \<Rightarrow> 's \<times> mockServer \<Rightarrow> bool"
  for render token c E where
  strict_start: "strict_history render token c E 0 (s, mock_New)"
| strict_pass: "strict_history render token c E k w \<Longrightarrow>
    strict_history render token c E (Suc k) (snd (Reconcile (strict_env differs render token c now E) (ApiOk, m) now w))"
| strict_tick: "strict_history render token c E k (s, d) \<Longrightarrow> strict_history render token c E k (s, mock_Tick now d)"
| strict_death: "strict_history render token c E k (s, d) \<Longrightarrow> strict_history render token c E k (s, mock_Terminate n d)"
| strict_delay: "strict_history render token c E k (s, d) \<Longrightarrow> strict_history render token c E k (s, mock_SetProbeDelay t d)"
| strict_world: "strict_history render token c E k (s, d) \<Longrightarrow> strict_history render token c E k (s', d)"

text \<open>A pass on the strict server, with what it finds and leaves by name.\<close>

lemma strict_pass_answered:
  assumes "server_room c token (Suc k) d"
    and "d' = snd (snd (Reconcile (strict_env differs render token c now E) (ApiOk, m) now (s, d)))"
  shows "server_room c token k d'"
    and "n \<noteq> runNameFor m \<Longrightarrow> shown now d' n = shown now d n"
    and "CallApply q r \<in> set (pass_calls (strict_env differs render token c now E) (ApiOk, m) now (s, d)) \<Longrightarrow>
      (\<exists>run. r = Inr run \<and> \<not> IsTerminal run \<and> run_Replicas run = req_Replicas q) \<or>
      (\<exists>e cur d0. r = Inl e \<and> err_is e ErrCannotOverride \<and> override_refused differs q d0 \<and> req_Current q = Some cur \<and>
         (req_Replicas q = 0 \<longrightarrow> shown now d' (runNameFor m) = shown now d (runNameFor m)) \<and>
         (req_Replicas q = 1 \<longrightarrow> run_Replicas cur = 0 \<and> live_service d' (runNameFor m) = None))"
proof -
  note ans = strict.pass_answered [OF assms(1), where differs = differs and render = render and now = now and nowa = now and E = E and m = m and s = s,
      folded assms(2)]
  show room: "server_room c token k d'"
    by (rule conjunct1 [OF ans])
  note get = server_Get [OF assms(1)] server_Get [OF room]
  show "shown now d' n = shown now d n" if "n \<noteq> runNameFor m"
    using conjunct1 [OF conjunct2 [OF ans], rule_format, OF that] by (simp add: get)
  show "(\<exists>run. r = Inr run \<and> \<not> IsTerminal run \<and> run_Replicas run = req_Replicas q) \<or>
      (\<exists>e cur d0. r = Inl e \<and> err_is e ErrCannotOverride \<and> override_refused differs q d0 \<and> req_Current q = Some cur \<and>
         (req_Replicas q = 0 \<longrightarrow> shown now d' (runNameFor m) = shown now d (runNameFor m)) \<and>
         (req_Replicas q = 1 \<longrightarrow> run_Replicas cur = 0 \<and> live_service d' (runNameFor m) = None))"
    if "CallApply q r \<in> set (pass_calls (strict_env differs render token c now E) (ApiOk, m) now (s, d))"
    using conjunct2 [OF conjunct2 [OF ans], rule_format, OF that] by (auto simp: get live_run_shown)
qed

lemma strict_room:
  assumes "strict_history render token c E k w" and "good_client c token"
  shows "int (j + k) \<le> maxDuration \<Longrightarrow> server_room c token j (snd w)"
  using assms(1)
proof (induction arbitrary: j rule: strict_history.induct)
  case (strict_start s)
  then show ?case
    using assms(2) by (simp add: server_room_def mock_New_def)
next
  case (strict_pass k w differs now m)
  obtain s d where w: "w = (s, d)"
    by fastforce
  have "server_room c token (Suc j) d"
    using strict_pass.IH [of "Suc j"] strict_pass.prems w by simp
  then show ?case
    unfolding w by (rule strict_pass_answered(1)) simp
qed (auto simp: server_room_world)

section \<open>What a lone controller can be refused\<close>

text \<open>An apply that mints a run is not an override.\<close>

lemma minting_not_refused:
  assumes room: "server_room c token (Suc k) d" and gone: "live_service d (runNameFor m) = None"
    and call: "CallApply q r \<in> set (pass_calls (strict_env differs render token c now E) (ApiOk, m) now (s, d))"
  shows "req_Current q = None \<and> (\<exists>run. r = Inr run \<and> \<not> IsTerminal run \<and> run_Replicas run = req_Replicas q)"
proof -
  have "req_Current q = live_run (shown now d (runNameFor m))"
    using call
  proof (cases rule: pass_Apply_cases)
    case (1 ob model action phase s1 s2 env key s3 s4 rest)
    with planned_spec(3) [OF 1(4,5)] show ?thesis
      by (simp add: server_Get [OF room])
  qed
  then have none: "req_Current q = None"
    using gone by (simp add: live_run_shown)
  with strict_pass_answered(3) [OF room refl call] show ?thesis
    by auto
qed

text \<open>
  C8. The applies of a controller that is alone on its dstack. In every history in which nothing but the
  controller's own passes applies runs, whatever Kubernetes, the proxies, edits of the Models, dying
  replicas and the clock do, and whichever requests dstack refuses as overrides, no Apply ever loses a
  race: it succeeds with the replica count it asked for, or it is an override refusal of a live run. A
  refused sleep leaves that run exactly as it was. A refused wake was of a run with no replica; the
  pass has stopped it, and every Apply of the next pass for that run's name mints a fresh run and is
  accepted, whatever dstack finds different by then. No pass touches another Model's run.
\<close>

theorem lone_controller_refusals:
  assumes hist: "strict_history render token c E k w" "good_client c token" "int k + 1 < maxDuration"
    and pass: "w' = snd (Reconcile (strict_env differs render token c now E) (ApiOk, m) now w)"
    and call: "CallApply q r \<in> set (pass_calls (strict_env differs render token c now E) (ApiOk, m) now w)"
  shows "((\<exists>run. r = Inr run \<and> \<not> IsTerminal run \<and> run_Replicas run = req_Replicas q) \<or>
      (\<exists>e cur. r = Inl e \<and> err_is e ErrCannotOverride \<and> req_Current q = Some cur \<and>
        (if req_Replicas q = 0 then shown now (snd w') (runNameFor m) = shown now (snd w) (runNameFor m)
         else run_Replicas cur = 0 \<and> live_service (snd w') (runNameFor m) = None \<and>
           (\<forall>differs' now' m' s' q' r'. runNameFor m' = runNameFor m \<longrightarrow>
              CallApply q' r' \<in> set (pass_calls (strict_env differs' render token c now' E) (ApiOk, m') now' (s', snd w')) \<longrightarrow>
              req_Current q' = None \<and> (\<exists>run. r' = Inr run \<and> \<not> IsTerminal run \<and> run_Replicas run = req_Replicas q'))))) \<and>
    (\<forall>n. n \<noteq> runNameFor m \<longrightarrow> shown now (snd w') n = shown now (snd w) n)"
proof -
  obtain s d where w: "w = (s, d)"
    by fastforce
  have room: "server_room c token (Suc (Suc 0)) d"
    using strict_room [OF hist(1,2), of 2] hist(3) w by (simp add: numeral_2_eq_2)
  have d': "snd w' = snd (snd (Reconcile (strict_env differs render token c now E) (ApiOk, m) now (s, d)))"
    by (simp add: pass w)
  note ans = strict_pass_answered [OF room d']
  have count: "req_Replicas q \<in> {0, 1}"
    using call
  proof (cases rule: pass_Apply_cases)
    case (1 ob model action phase s1 s2 env key s3 s4 rest)
    with planned_spec(4) [OF 1(4,5)] show ?thesis
      by simp
  qed
  have next_pass: "req_Current q' = None \<and> (\<exists>run. r' = Inr run \<and> \<not> IsTerminal run \<and> run_Replicas run = req_Replicas q')"
    if "live_service (snd w') (runNameFor m) = None" "runNameFor m' = runNameFor m"
      "CallApply q' r' \<in> set (pass_calls (strict_env differs' render token c now' E) (ApiOk, m') now' (s', snd w'))"
    for differs' now' m' s' q' r'
    by (rule minting_not_refused [OF ans(1) _ that(3)]) (simp add: that(1,2))
  from ans(3) [OF call [unfolded w]] show ?thesis
  proof (elim disjE exE conjE)
    fix e cur d0
    assume "r = Inl e" "err_is e ErrCannotOverride" "req_Current q = Some cur"
      "req_Replicas q = 0 \<longrightarrow> shown now (snd w') (runNameFor m) = shown now d (runNameFor m)"
      "req_Replicas q = 1 \<longrightarrow> run_Replicas cur = 0 \<and> live_service (snd w') (runNameFor m) = None"
    with ans(2) count next_pass show ?thesis
      by (simp add: w) blast
  qed (use ans(2) in \<open>simp add: w\<close>)
qed

section \<open>An edited Model that is awake\<close>

lemma shown_service:
  assumes "shown now d' n = shown now d n" and "live_service d n = Some svc"
  obtains svc' where "live_service d' n = Some svc'" "sv_replicas svc' = sv_replicas svc" "sv_runID svc' = sv_runID svc"
    "sv_deploymentNum svc' = sv_deploymentNum svc"
proof -
  from assms obtain svc' where svc': "gomap_get (ms_services d') n = Some svc'" "client_run (runFor now d' n svc') = client_run (runFor now d n svc)"
    by (auto simp: shown_def dest: live_serviceD split: option.splits)
  have "sv_terminal svc' = sv_terminal svc"
    using arg_cong [OF svc'(2), of IsTerminal] by simp
  with svc' live_serviceD [OF assms(2)] have "live_service d' n = Some svc'"
    by (simp add: live_service_def)
  moreover have "sv_replicas svc' = sv_replicas svc" "sv_runID svc' = sv_runID svc" "sv_deploymentNum svc' = sv_deploymentNum svc"
    using arg_cong [OF svc'(2), of run_Replicas] arg_cong [OF svc'(2), of run_RunID] arg_cong [OF svc'(2), of run_DeploymentNum]
    by (simp_all add: client_run_def runFor_def)
  ultimately show thesis
    by (rule that)
qed

text \<open>A pass over a Model whose image is not the one its live replica was started with.\<close>

lemma edited_pass:
  assumes room: "server_room c token (Suc k) d" and up: "live_service d (runNameFor m) = Some svc" "0 < sv_replicas svc"
    and differs: "\<And>q d. req_Image q \<noteq> img \<Longrightarrow> differs q d" and m: "live_model m" "sp_Image (md_Spec m) \<noteq> img"
    and d': "d' = snd (snd (Reconcile (strict_env differs render token c now E) (ApiOk, m) now (s, d)))"
  shows "server_room c token k d' \<and> shown now d' (runNameFor m) = shown now d (runNameFor m)"
proof -
  note get = server_Get [OF room]
  from room m(1) show ?thesis
  proof (cases rule: strict.live_pass_cases [where differs = differs and render = render and now = now and nowa = now and E = E and s = s])
    case (quiet d1)
    with d' show ?thesis
      by (simp add: get server_Get [OF quiet(2)])
  next
    case (applied q run d0 d1)
    have "req_Image q \<noteq> img"
      using apply_request_image [of q "Inr run"] applied(11) m(2) by metis
    then have "differs q d0"
      by (rule differs)
    moreover have "live_service d0 (runNameFor m) \<noteq> None"
      using shown_service [OF _ up(1), of now d0] applied(9) by (auto simp: get server_Get [OF applied(10)])
    ultimately show ?thesis
      using applied(7,8) by (simp add: override_refused_def)
  next
    case (refusal q e cur d0 d1)
    have "run_Replicas cur \<noteq> 0"
      using refusal(8) up by (auto simp: get live_run_shown client_run_def runFor_def)
    with refusal d' show ?thesis
      by (auto simp: get server_Get [OF refusal(2)])
  qed
qed

fun strict_passes ::
  "(ApplyRequest \<Rightarrow> mockServer \<Rightarrow> bool) \<Rightarrow> (json \<Rightarrow> string) \<Rightarrow> string \<Rightarrow> HTTPClient \<Rightarrow> 's reconcile_env \<Rightarrow>
   (Model \<times> gotime \<times> 's) list \<Rightarrow> mockServer \<Rightarrow> mockServer" where
  "strict_passes differs render token c E [] d = d"
| "strict_passes differs render token c E ((m, now, s) # ps) d =
     strict_passes differs render token c E ps (snd (snd (Reconcile (strict_env differs render token c now E) (ApiOk, m) now (s, d))))"

lemma edited_passes:
  assumes "server_room c token (length ps) d" and "live_service d n = Some svc" and "0 < sv_replicas svc"
    and "\<And>q d. req_Image q \<noteq> img \<Longrightarrow> differs q d"
    and "\<forall>(m, now, s)\<in>set ps. runNameFor m = n \<and> live_model m \<and> sp_Image (md_Spec m) \<noteq> img"
  shows "\<exists>svc'. live_service (strict_passes differs render token c E ps d) n = Some svc' \<and> sv_replicas svc' = sv_replicas svc \<and>
    sv_runID svc' = sv_runID svc \<and> sv_deploymentNum svc' = sv_deploymentNum svc"
  using assms(1-3,5)
proof (induction ps arbitrary: d svc)
  case (Cons p ps)
  obtain m now s where p: "p = (m, now, s)"
    by (rule prod_cases3)
  let ?d = "snd (snd (Reconcile (strict_env differs render token c now E) (ApiOk, m) now (s, d)))"
  have m: "runNameFor m = n" "live_model m" "sp_Image (md_Spec m) \<noteq> img"
    using Cons.prems(4) by (simp_all add: p)
  have pass: "server_room c token (length ps) ?d" "shown now ?d n = shown now d n"
    using edited_pass [where differs = differs and img = img and E = E, OF _ _ Cons.prems(3) assms(4) m(2,3) refl, of c token "length ps" d]
      Cons.prems(1,2) m(1) by auto
  obtain svc' where svc': "live_service ?d n = Some svc'" "sv_replicas svc' = sv_replicas svc" "sv_runID svc' = sv_runID svc"
    "sv_deploymentNum svc' = sv_deploymentNum svc"
    by (rule shown_service [OF pass(2) Cons.prems(2)])
  from Cons.IH [OF pass(1) svc'(1)] Cons.prems(3,4) svc'(2-4) show ?case
    by (simp add: p)
qed simp

text \<open>
  C36. A Model that is edited while awake never sleeps again. Where dstack refuses an apply whose image is
  not the one the run was started with, as it is documented to refuse every difference beyond the
  replica count, no number of passes over the edited Model takes its replica away, whatever the
  proxies report, however long it has been idle and even past its provisioning deadline: the sleep
  request carries the new image, every one of them is refused, and a refused sleep is not acted on.
  The very same run, undeployed, answers requests, and bills, throughout.
\<close>

theorem edited_model_never_sleeps:
  assumes hist: "strict_history render token c E k (s, d)" "good_client c token" "int (length ps) + int k \<le> maxDuration"
    and dstack: "\<And>q d. req_Image q \<noteq> img \<Longrightarrow> differs q d"
    and up: "live_service d n = Some svc" "0 < sv_replicas svc"
    and edited: "\<forall>(m, now, s)\<in>set ps. runNameFor m = n \<and> live_model m \<and> sp_Image (md_Spec m) \<noteq> img"
  shows "GatewayGet n ValidToken (strict_passes differs render token c E ps d) = 200 \<and>
    mock_ident (strict_passes differs render token c E ps d) n = mock_ident d n"
proof -
  have "server_room c token (length ps) d"
    using strict_room [OF hist(1,2), of "length ps"] hist(3) by simp
  from edited_passes [where E = E and differs = differs, OF this up dstack edited] obtain svc' where
    "live_service (strict_passes differs render token c E ps d) n = Some svc'" "sv_replicas svc' = sv_replicas svc"
    "sv_runID svc' = sv_runID svc" "sv_deploymentNum svc' = sv_deploymentNum svc"
    by blast
  with up show ?thesis
    by (simp add: GatewayGet_def mock_ident_def live_serviceD)
qed

section \<open>Witnesses\<close>

text \<open>A server on which a replica is awake, and one on which it was put to sleep because its probes never succeeded.\<close>

abbreviation strict_sample :: "bool \<Rightarrow> gotime \<Rightarrow> Run option reconcile_env \<Rightarrow> (Run option \<times> mockServer) reconcile_env" where
  "strict_sample b now E \<equiv> strict_env (\<lambda>_ _. b) (\<lambda>_. []) ''t'' sample_client now E"

definition strict_awake :: mockServer where
  "strict_awake = \<lparr>ms_services = [(''a-qwen'', \<lparr>sv_runID = ''run-a-qwen-1'', sv_deploymentNum = 1, sv_replicas = 1,
     sv_submittedAt = Hour, sv_replicasUpAt = Hour, sv_terminal = False, sv_instanceUp = True, sv_idleSince = 0,
     sv_fleetIdleDuration = 0, sv_applyCount = 1, sv_idleDuration = Some 0\<rparr>)], ms_fleets = [], ms_probeDelay = 0, ms_seq = 1\<rparr>"

definition strict_asleep :: mockServer where
  "strict_asleep = \<lparr>ms_services = [(''a-qwen'', \<lparr>sv_runID = ''run-a-qwen-1'', sv_deploymentNum = 2, sv_replicas = 0,
     sv_submittedAt = Hour, sv_replicasUpAt = 0, sv_terminal = False, sv_instanceUp = True, sv_idleSince = 100 * Hour,
     sv_fleetIdleDuration = 0, sv_applyCount = 2, sv_idleDuration = Some 0\<rparr>)], ms_fleets = [], ms_probeDelay = 999 * Hour, ms_seq = 1\<rparr>"

lemma strict_sample_passes:
  "snd (Reconcile (strict_sample False Hour idle_env) (ApiOk, pinned_model) Hour (None, mock_New)) = (None, strict_awake)"
  "snd (Reconcile (strict_sample False Hour sample_env) (ApiOk, pinned_model) Hour (None, mock_New)) = (None, strict_awake)"
  "snd (Reconcile (strict_sample False (100 * Hour) sample_env) (ApiOk, stuck_model) (100 * Hour)
     (None, mock_SetProbeDelay (999 * Hour) strict_awake)) = (None, strict_asleep)"
  by code_simp+

lemma strict_sample_history:
  "strict_history (\<lambda>_. []) ''t'' sample_client idle_env (Suc 0) (None, strict_awake)"
  "strict_history (\<lambda>_. []) ''t'' sample_client sample_env (Suc (Suc 0)) (None, strict_asleep)"
proof -
  show "strict_history (\<lambda>_. []) ''t'' sample_client idle_env (Suc 0) (None, strict_awake)"
    unfolding strict_sample_passes(1) [symmetric] by (rule strict_pass [OF strict_start])
  have "strict_history (\<lambda>_. []) ''t'' sample_client sample_env (Suc 0) (None, strict_awake)"
    unfolding strict_sample_passes(2) [symmetric] by (rule strict_pass [OF strict_start])
  from strict_pass [OF strict_delay [OF this]]
  show "strict_history (\<lambda>_. []) ''t'' sample_client sample_env (Suc (Suc 0)) (None, strict_asleep)"
    unfolding strict_sample_passes(3) [symmetric] .
qed

definition refused_wake :: "ext_call list \<Rightarrow> bool" where
  "refused_wake cs = list_ex (\<lambda>c. case c of CallApply q r \<Rightarrow> req_Replicas q = 1 \<and> is_err r | _ \<Rightarrow> False) cs"

lemma strict_sample_refused:
  "refused_wake (pass_calls (strict_sample True (101 * Hour) sample_env) (ApiOk, pinned_model) (101 * Hour) (None, strict_asleep))"
  by code_simp

theorem lone_controller_refusals_witness:
  "live_service (snd (snd (Reconcile (strict_sample True (101 * Hour) sample_env) (ApiOk, pinned_model) (101 * Hour) (None, strict_asleep))))
     (runNameFor pinned_model) = None"
proof -
  obtain c where c: "c \<in> set (pass_calls (strict_sample True (101 * Hour) sample_env) (ApiOk, pinned_model) (101 * Hour) (None, strict_asleep))"
    "case c of CallApply q r \<Rightarrow> req_Replicas q = 1 \<and> is_err r | _ \<Rightarrow> False"
    using strict_sample_refused unfolding refused_wake_def list_ex_iff by blast
  from c(2) obtain q r where q: "c = CallApply q r" "req_Replicas q = 1" "is_err r"
    by (cases c) auto
  have "int (Suc (Suc 0)) + 1 < maxDuration"
    by (simp add: maxDuration_def)
  from lone_controller_refusals [OF strict_sample_history(2) sample_client_good this refl c(1) [unfolded q(1)]] q show ?thesis
    by (auto simp: is_err_def)
qed

text \<open>The sleeping Model of the other examples, with another image.\<close>

definition edited_model :: Model where
  "edited_model = waiting_model\<lparr>md_Spec := (md_Spec waiting_model)\<lparr>sp_Image := ''vllm:next''\<rparr>\<rparr>"

theorem edited_model_never_sleeps_witness:
  "GatewayGet ''a-qwen'' ValidToken (strict_passes (\<lambda>q d. req_Image q \<noteq> sp_Image (md_Spec waiting_model)) (\<lambda>_. []) ''t''
     sample_client idle_env [(edited_model, 2 * Hour, None), (edited_model, 900 * Hour, None)] strict_awake) = 200"
proof -
  let ?svc = "\<lparr>sv_runID = ''run-a-qwen-1'', sv_deploymentNum = 1, sv_replicas = 1,
     sv_submittedAt = Hour, sv_replicasUpAt = Hour, sv_terminal = False, sv_instanceUp = True, sv_idleSince = 0,
     sv_fleetIdleDuration = 0, sv_applyCount = 1, sv_idleDuration = Some 0\<rparr>"
  have up: "live_service strict_awake ''a-qwen'' = Some ?svc"
    by (simp add: live_service_def strict_awake_def)
  have m: "runNameFor edited_model = ''a-qwen'' \<and> live_model edited_model \<and>
      sp_Image (md_Spec edited_model) \<noteq> sp_Image (md_Spec waiting_model)"
    by code_simp
  show ?thesis
    using edited_model_never_sleeps [where img = "sp_Image (md_Spec waiting_model)" and
        differs = "\<lambda>q d. req_Image q \<noteq> sp_Image (md_Spec waiting_model)", OF strict_sample_history(1) sample_client_good _ _ up,
        of "[(edited_model, 2 * Hour, None), (edited_model, 900 * Hour, None)]"] m
    by (simp add: maxDuration_def)
qed

end
