(* ===== verification/Activity_Wire.thy ===== *)
theory Activity_Wire
  imports Squall_Activity Dstack_Wire
begin

text \<open>
  The activity report between squall-proxy, which serves it (\<open>ServeHTTP\<close> of
  \<open>internal/proxy/activity.go\<close>), and the controller, which reads it (\<open>queryActivity\<close> of
  \<open>model_controller.go\<close>), as the JSON tree of \<open>api/squall/v1alpha1/activity.go\<close>.
\<close>

section \<open>Encoding and decoding\<close>

definition enc_modelActivity :: "ModelActivity \<Rightarrow> json" where
  "enc_modelActivity a = JObj
     [(''inFlight'', JNum (ma_InFlight a)), (''lastRequestAt'', JTime (ma_LastRequestAt a)),
      (''lastSuccessAt'', JTime (ma_LastSuccessAt a)), (''failuresSinceSuccess'', JNum (ma_FailuresSinceSuccess a))]"

definition enc_activityReport :: "ActivityReport \<Rightarrow> json" where
  "enc_activityReport r = JObj [(''models'', JObj (map (\<lambda>(k, a). (k, enc_modelActivity a)) r))]"

definition decode_modelActivity :: "json \<Rightarrow> ModelActivity option" where
  "decode_modelActivity j = do {
     o1 \<leftarrow> json_fields (Some j);
     n \<leftarrow> json_int (json_field o1 ''inflight'');
     req \<leftarrow> json_time (json_field o1 ''lastrequestat'');
     suc \<leftarrow> json_time (json_field o1 ''lastsuccessat'');
     f \<leftarrow> json_int (json_field o1 ''failuressincesuccess'');
     Some \<lparr>ma_InFlight = n, ma_LastRequestAt = req, ma_LastSuccessAt = suc, ma_FailuresSinceSuccess = f\<rparr> }"

text \<open>Decoding an object into a map: the last value of a key stays.\<close>

definition decode_activityReport :: "json \<Rightarrow> ActivityReport option" where
  "decode_activityReport j = do {
     o1 \<leftarrow> json_fields (Some j);
     kvs \<leftarrow> json_fields (json_field o1 ''models'');
     as \<leftarrow> decode_all (\<lambda>(k, v). map_option (Pair k) (decode_modelActivity v)) kvs;
     Some (fold (\<lambda>(k, a) m. gomap_put k a m) as []) }"

text \<open>The answer of the endpoint, and what \<open>queryActivity\<close> makes of an exchange: no answer, or a status with a body that may not be JSON.\<close>

definition tracker_ServeHTTP :: "ActivityTracker \<Rightarrow> int \<times> json option" where
  "tracker_ServeHTTP t = (200, Some (enc_activityReport (tracker_Report t)))"

definition activity_exchange :: "(int \<times> json option) option \<Rightarrow> activity_response" where
  "activity_exchange x =
     (case x of None \<Rightarrow> ActivityUnreachable
      | Some (code, body) \<Rightarrow> ActivityAnswer code (Option.bind body decode_activityReport))"

section \<open>The reader sees the report\<close>

definition report_fits :: "ActivityReport \<Rightarrow> bool" where
  "report_fits r \<longleftrightarrow> gomap_wf r \<and> (\<forall>a\<in>snd ` set r. is_duration (ma_InFlight a) \<and> is_duration (ma_FailuresSinceSuccess a))"

lemma activity_keys:
  "ToLower ''inFlight'' = ''inflight''" "ToLower ''lastRequestAt'' = ''lastrequestat''"
  "ToLower ''lastSuccessAt'' = ''lastsuccessat''" "ToLower ''failuresSinceSuccess'' = ''failuressincesuccess''"
  "ToLower ''models'' = ''models''"
  by code_simp+

lemma gomap_put_new: "k \<notin> fst ` set m \<Longrightarrow> gomap_put k v m = m @ [(k, v)]"
  by (induction m) auto

lemma fold_gomap_put:
  "distinct (map fst (m @ r)) \<Longrightarrow> fold (\<lambda>(k, a) m. gomap_put k a m) r m = m @ r"
  by (induction r arbitrary: m) (auto simp: gomap_put_new)

lemma modelActivity_read:
  assumes "is_duration (ma_InFlight a)" and "is_duration (ma_FailuresSinceSuccess a)"
  shows "decode_modelActivity (enc_modelActivity a) = Some a"
  using assms
  by (simp add: decode_modelActivity_def enc_modelActivity_def json_field_simps activity_keys json_fields_def json_int_def json_time_def)

interpretation activity_msg: wire_message enc_activityReport decode_activityReport id report_fits
proof
  fix r assume fits: "report_fits r"
  have all: "decode_all (\<lambda>(k, v). map_option (Pair k) (decode_modelActivity v)) (map (\<lambda>(k, a). (k, enc_modelActivity a)) xs) = Some xs"
    if "\<forall>a\<in>snd ` set xs. is_duration (ma_InFlight a) \<and> is_duration (ma_FailuresSinceSuccess a)" for xs
    using that by (induction xs) (auto simp: modelActivity_read)
  have "fold (\<lambda>(k, a) m. gomap_put k a m) r [] = r"
    using fold_gomap_put [of "[]" r] fits by (simp add: report_fits_def)
  with all [of r] fits show "decode_activityReport (enc_activityReport r) = Some (id r)"
    by (simp add: decode_activityReport_def enc_activityReport_def json_field_simps activity_keys json_fields_def report_fits_def)
qed

lemma exchange_report:
  "report_fits (tracker_Report t) \<Longrightarrow>
   activity_exchange (Some (tracker_ServeHTTP t)) = ActivityAnswer 200 (Some (tracker_Report t))"
  using activity_msg.agrees by (simp add: activity_exchange_def tracker_ServeHTTP_def)

text \<open>A report of an older proxy that lacks the later fields reads as never succeeded and never failed; one that is not an object of objects as no answer.\<close>

lemma older_report:
  assumes "is_duration n"
  shows "decode_activityReport (JObj [(''models'', JObj [(k, JObj [(''inFlight'', JNum n), (''lastRequestAt'', JTime t)])])]) =
    Some [(k, \<lparr>ma_InFlight = n, ma_LastRequestAt = t, ma_LastSuccessAt = 0, ma_FailuresSinceSuccess = 0\<rparr>)]"
  using assms
  by (simp add: decode_activityReport_def decode_modelActivity_def json_field_simps activity_keys json_fields_def json_int_def json_time_def)

text \<open>In a tracker that counts no more than an int holds, the report fits.\<close>

lemma report_fits_run:
  assumes "t = tracker_run es NewActivityTracker"
    and "\<And>m. is_duration (int (in_flight t m))" and "\<And>m. is_duration (mc_failuresSinceSuccess (counters_for t m))"
  shows "report_fits (tracker_Report t)"
proof -
  have inv: "tracker_inv t"
    unfolding assms(1) by (rule tracker_inv_run [OF tracker_inv_new])
  have get: "counters_for t k = c" if "(k, c) \<in> set (tr_models t)" for k c
    using inv that by (simp add: tracker_inv_def counters_for_def)
  have "gomap_wf (tracker_Report t)"
    using inv by (simp add: tracker_inv_def tracker_Report_def comp_def case_prod_unfold)
  moreover have "is_duration (mc_inFlight c) \<and> is_duration (mc_failuresSinceSuccess c)" if "(k, c) \<in> set (tr_models t)" for k c
    using get [OF that] inv assms(2,3) [of k] by (auto simp: tracker_inv_def)
  ultimately show ?thesis
    by (auto simp: report_fits_def tracker_Report_def)
qed

end
