(* ===== verification/Squall_DeepCopy.thy ===== *)
theory Squall_DeepCopy
  imports Squall_API "HOL-Library.Sublist"
begin

text \<open>
  The generated deep copies (\<open>zz_generated.deepcopy.go\<close>) over an explicit store. Everywhere else the
  records of the Model resource are values; here a struct holds addresses where the Go struct holds
  pointers, slices and maps, and reading it through the store gives the value record. The copies are
  shown to read the same and to share no cell with what they were copied from, which is what lets
  the reconciler keep its \<open>original\<close> beside the Model it changes.
\<close>

section \<open>The store\<close>

type_synonym addr = nat

text \<open>A slice that is not nil: its array, where it starts and how long it is.\<close>

record slice =
  sl_Array :: addr
  sl_Off :: nat
  sl_Len :: nat

record hGPUSpec =
  hg_Vendor :: string
  hg_Name :: "slice option"
  hg_Count :: string
  hg_Memory :: string
  hg_TotalMemory :: string
  hg_ComputeCapability :: string

record hModelProbe =
  hp_Path :: string
  hp_Method :: string
  hp_Timeout :: "addr option"
  hp_Interval :: "addr option"
  hp_ReadyAfter :: "addr option"

record hModelResources =
  hr_CPU :: "addr option"
  hr_Memory :: string
  hr_ShmSize :: string
  hr_GPU :: "addr option"
  hr_Disk :: string

record hModelPlacement =
  hl_Backends :: "slice option"
  hl_Regions :: "slice option"
  hl_MaxPricePerHour :: "addr option"

record hModelSpec =
  hs_Engine :: ModelEngine
  hs_Image :: string
  hs_Model :: string
  hs_Features :: "slice option"
  hs_Owner :: string
  hs_Args :: "slice option"
  hs_Env :: "addr option"
  hs_Resources :: hModelResources
  hs_SecretEnv :: "addr option"
  hs_Probe :: "addr option"
  hs_Placement :: hModelPlacement
  hs_MinReplicas :: int
  hs_HoldTimeout :: duration
  hs_IdleTimeout :: duration
  hs_UncontrolledTimeout :: "addr option"
  hs_Health :: ModelHealth
  hs_DrainTimeout :: duration
  hs_ProvisioningTimeout :: duration
  hs_MaxLifetime :: duration
  hs_HardStop :: duration

record hModelStatus =
  ht_Phase :: ModelPhase
  ht_RunID :: string
  ht_RunName :: string
  ht_RunUID :: string
  ht_DeploymentNum :: int
  ht_ServiceURL :: string
  ht_Replica :: "addr option"
  ht_ServedModel :: string
  ht_ForwardModel :: string
  ht_WakeStartedAt :: "addr option"
  ht_Fleet :: "slice option"
  ht_LastRequestAt :: "addr option"
  ht_UncontrolledSince :: "addr option"
  ht_Conditions :: "slice option"

text \<open>Kubernetes' metadata: of the object, the fields the value record has.\<close>

record TypeMeta =
  tm_Kind :: string
  tm_APIVersion :: string

record hObjectMeta =
  ho_Name :: string
  ho_Namespace :: string
  ho_UID :: string
  ho_Annotations :: "addr option"
  ho_DeletionTimestamp :: "addr option"
  ho_Finalizers :: "slice option"

record hListMeta =
  hlm_ResourceVersion :: string
  hlm_Continue :: string
  hlm_RemainingItemCount :: "addr option"

record hModel =
  hm_TypeMeta :: TypeMeta
  hm_ObjectMeta :: hObjectMeta
  hm_Spec :: hModelSpec
  hm_Status :: hModelStatus

record hModelList =
  hml_TypeMeta :: TypeMeta
  hml_ListMeta :: hListMeta
  hml_Items :: "slice option"

datatype cell =
  CStrs (un_Strs: "string list") | CFeatures (un_Features: "ModelFeature list")
| CEnv "string gomap" | CSecretEnv "SecretKeyRef gomap"
| CPrice (un_Price: string) | CDuration (un_Duration: duration) | CInt (un_Int: int) | CTime (un_Time: gotime)
| CCPU (un_CPU: CPUSpec) | CGPU (un_GPU: hGPUSpec) | CProbe (un_Probe: hModelProbe) | CHealth (un_Health: ModelHealth)
| CReplica (un_Replica: ReplicaEndpoint) | CSecretKeyRef (un_SecretKeyRef: SecretKeyRef)
| CFleetStatus (un_FleetStatus: FleetStatus) | CFleet (un_Fleet: "FleetStatus list")
| CConditions (un_Conditions: "Condition list") | CResources (un_Resources: hModelResources)
| CPlacement (un_Placement: hModelPlacement) | CSpec (un_Spec: hModelSpec) | CStatus (un_Status: hModelStatus)
| CModel (un_Model: hModel) | CModels (un_Models: "hModel list") | CModelList (un_ModelList: hModelList)

type_synonym store = "cell list"

fun un_Env :: "cell \<Rightarrow> string gomap" where
  "un_Env (CEnv m) = m"
| "un_Env c = []"

fun un_SecretEnv :: "cell \<Rightarrow> SecretKeyRef gomap" where
  "un_SecretEnv (CSecretEnv m) = m"
| "un_SecretEnv c = []"

text \<open>An address is an index; allocation appends.\<close>

definition alloc :: "cell \<Rightarrow> store \<Rightarrow> addr \<times> store" where
  "alloc c h = (length h, h @ [c])"

text \<open>A Go map has no key twice.\<close>

fun cell_ok :: "cell \<Rightarrow> bool" where
  "cell_ok (CEnv m) = gomap_wf m"
| "cell_ok (CSecretEnv m) = gomap_wf m"
| "cell_ok c = True"

definition store_ok :: "store \<Rightarrow> bool" where
  "store_ok h = list_all cell_ok h"

section \<open>What the generated code does with a field\<close>

text \<open>
  \<open>if in.F != nil { *out = new(T); (*in).DeepCopyInto(*out) }\<close>: the new cell first holds the shallow
  copy \<open>*out = *in\<close>, then what the copy of its fields leaves there.
\<close>

definition copy_ptr ::
  "(cell \<Rightarrow> 'a) \<Rightarrow> ('a \<Rightarrow> cell) \<Rightarrow> ('a \<Rightarrow> store \<Rightarrow> 'a \<times> store) \<Rightarrow> addr option \<Rightarrow> store \<Rightarrow> addr option \<times> store" where
  "copy_ptr get mk into p h =
     (case p of
        None \<Rightarrow> (None, h)
      | Some a \<Rightarrow>
          let x = get (h ! a); (b, h1) = alloc (mk x) h; (y, h2) = into x h1
          in (Some b, h2[b := mk y]))"

text \<open>
  \<open>if in.F != nil { *out = make([]T, len(*in)); for i := range *in { (*in)[i].DeepCopyInto(&(*out)[i]) } }\<close>,
  and \<open>copy(*out, *in)\<close> where the elements are plain. What the new array holds before an element is
  assigned is never read.
\<close>

fun copy_elems :: "('a \<Rightarrow> store \<Rightarrow> 'a \<times> store) \<Rightarrow> 'a list \<Rightarrow> store \<Rightarrow> 'a list \<times> store" where
  "copy_elems into [] h = ([], h)"
| "copy_elems into (x # xs) h =
     (case into x h of (y, h1) \<Rightarrow> case copy_elems into xs h1 of (ys, h2) \<Rightarrow> (y # ys, h2))"

definition slice_elems :: "(cell \<Rightarrow> 'a list) \<Rightarrow> store \<Rightarrow> slice option \<Rightarrow> 'a list" where
  "slice_elems get h s =
     (case s of None \<Rightarrow> [] | Some sl \<Rightarrow> take (sl_Len sl) (drop (sl_Off sl) (get (h ! sl_Array sl))))"

definition copy_slice ::
  "(cell \<Rightarrow> 'a list) \<Rightarrow> ('a list \<Rightarrow> cell) \<Rightarrow> ('a \<Rightarrow> store \<Rightarrow> 'a \<times> store) \<Rightarrow> slice option \<Rightarrow> store \<Rightarrow> slice option \<times> store" where
  "copy_slice get mk into s h =
     (case s of
        None \<Rightarrow> (None, h)
      | Some sl \<Rightarrow>
          let xs = slice_elems get h s; (b, h1) = alloc (mk xs) h; (ys, h2) = copy_elems into xs h1
          in (Some \<lparr>sl_Array = b, sl_Off = 0, sl_Len = sl_Len sl\<rparr>, h2[b := mk ys]))"

text \<open>\<open>if in.F != nil { *out = make(map...); for key, val := range *in { (*out)[key] = val } }\<close>.\<close>

definition copy_map ::
  "(cell \<Rightarrow> 'v gomap) \<Rightarrow> ('v gomap \<Rightarrow> cell) \<Rightarrow> addr option \<Rightarrow> store \<Rightarrow> addr option \<times> store" where
  "copy_map get mk p h =
     (case p of
        None \<Rightarrow> (None, h)
      | Some a \<Rightarrow>
          (case alloc (mk (fold (\<lambda>(k, v) m. gomap_put k v m) (get (h ! a)) [])) h of (b, h1) \<Rightarrow> (Some b, h1)))"

text \<open>A plain value is copied by the assignment of the struct.\<close>

definition plain :: "'a \<Rightarrow> store \<Rightarrow> 'a \<times> store" where
  "plain x h = (x, h)"

section \<open>Kubernetes' own copies\<close>

text \<open>
  \<open>DeepCopyInto\<close> of the metadata, of a condition and of a time are apimachinery's. Of them only their
  documented contract is used, stated below as \<open>meta_copy_ok\<close>.
\<close>

record meta_copy =
  mc_ObjectMeta :: "hObjectMeta \<Rightarrow> store \<Rightarrow> hObjectMeta \<times> store"
  mc_ListMeta :: "hListMeta \<Rightarrow> store \<Rightarrow> hListMeta \<times> store"
  mc_Condition :: "Condition \<Rightarrow> store \<Rightarrow> Condition \<times> store"
  mc_Time :: "gotime \<Rightarrow> store \<Rightarrow> gotime \<times> store"

section \<open>The generated functions\<close>

abbreviation copy_strs :: "slice option \<Rightarrow> store \<Rightarrow> slice option \<times> store" where
  "copy_strs \<equiv> copy_slice un_Strs CStrs plain"

definition CPUSpec_DeepCopyInto :: "CPUSpec \<Rightarrow> store \<Rightarrow> CPUSpec \<times> store" where
  "CPUSpec_DeepCopyInto = plain"

definition CPUSpec_DeepCopy :: "addr option \<Rightarrow> store \<Rightarrow> addr option \<times> store" where
  "CPUSpec_DeepCopy = copy_ptr un_CPU CCPU CPUSpec_DeepCopyInto"

definition FleetStatus_DeepCopyInto :: "FleetStatus \<Rightarrow> store \<Rightarrow> FleetStatus \<times> store" where
  "FleetStatus_DeepCopyInto = plain"

definition FleetStatus_DeepCopy :: "addr option \<Rightarrow> store \<Rightarrow> addr option \<times> store" where
  "FleetStatus_DeepCopy = copy_ptr un_FleetStatus CFleetStatus FleetStatus_DeepCopyInto"

definition GPUSpec_DeepCopyInto :: "hGPUSpec \<Rightarrow> store \<Rightarrow> hGPUSpec \<times> store" where
  "GPUSpec_DeepCopyInto x h = (case copy_strs (hg_Name x) h of (n, h1) \<Rightarrow> (x\<lparr>hg_Name := n\<rparr>, h1))"

definition GPUSpec_DeepCopy :: "addr option \<Rightarrow> store \<Rightarrow> addr option \<times> store" where
  "GPUSpec_DeepCopy = copy_ptr un_GPU CGPU GPUSpec_DeepCopyInto"

definition ModelHealth_DeepCopyInto :: "ModelHealth \<Rightarrow> store \<Rightarrow> ModelHealth \<times> store" where
  "ModelHealth_DeepCopyInto x h = (x\<lparr>mh_UnhealthyAfter := mh_UnhealthyAfter x\<rparr>, h)"

definition ModelHealth_DeepCopy :: "addr option \<Rightarrow> store \<Rightarrow> addr option \<times> store" where
  "ModelHealth_DeepCopy = copy_ptr un_Health CHealth ModelHealth_DeepCopyInto"

definition ModelPlacement_DeepCopyInto :: "hModelPlacement \<Rightarrow> store \<Rightarrow> hModelPlacement \<times> store" where
  "ModelPlacement_DeepCopyInto x h =
     (case copy_strs (hl_Backends x) h of (b, h1) \<Rightarrow>
      case copy_strs (hl_Regions x) h1 of (r, h2) \<Rightarrow>
      case copy_ptr un_Price CPrice plain (hl_MaxPricePerHour x) h2 of (p, h3) \<Rightarrow>
        (x\<lparr>hl_Backends := b, hl_Regions := r, hl_MaxPricePerHour := p\<rparr>, h3))"

definition ModelPlacement_DeepCopy :: "addr option \<Rightarrow> store \<Rightarrow> addr option \<times> store" where
  "ModelPlacement_DeepCopy = copy_ptr un_Placement CPlacement ModelPlacement_DeepCopyInto"

definition ModelProbe_DeepCopyInto :: "hModelProbe \<Rightarrow> store \<Rightarrow> hModelProbe \<times> store" where
  "ModelProbe_DeepCopyInto x h =
     (case copy_ptr un_Duration CDuration plain (hp_Timeout x) h of (t, h1) \<Rightarrow>
      case copy_ptr un_Duration CDuration plain (hp_Interval x) h1 of (i, h2) \<Rightarrow>
      case copy_ptr un_Int CInt plain (hp_ReadyAfter x) h2 of (r, h3) \<Rightarrow>
        (x\<lparr>hp_Timeout := t, hp_Interval := i, hp_ReadyAfter := r\<rparr>, h3))"

definition ModelProbe_DeepCopy :: "addr option \<Rightarrow> store \<Rightarrow> addr option \<times> store" where
  "ModelProbe_DeepCopy = copy_ptr un_Probe CProbe ModelProbe_DeepCopyInto"

definition ModelResources_DeepCopyInto :: "hModelResources \<Rightarrow> store \<Rightarrow> hModelResources \<times> store" where
  "ModelResources_DeepCopyInto x h =
     (case copy_ptr un_CPU CCPU plain (hr_CPU x) h of (c, h1) \<Rightarrow>
      case copy_ptr un_GPU CGPU GPUSpec_DeepCopyInto (hr_GPU x) h1 of (g, h2) \<Rightarrow>
        (x\<lparr>hr_CPU := c, hr_GPU := g\<rparr>, h2))"

definition ModelResources_DeepCopy :: "addr option \<Rightarrow> store \<Rightarrow> addr option \<times> store" where
  "ModelResources_DeepCopy = copy_ptr un_Resources CResources ModelResources_DeepCopyInto"

definition ModelSpec_DeepCopyInto :: "hModelSpec \<Rightarrow> store \<Rightarrow> hModelSpec \<times> store" where
  "ModelSpec_DeepCopyInto x h =
     (case copy_slice un_Features CFeatures plain (hs_Features x) h of (fs, h1) \<Rightarrow>
      case copy_strs (hs_Args x) h1 of (as, h2) \<Rightarrow>
      case copy_map un_Env CEnv (hs_Env x) h2 of (e, h3) \<Rightarrow>
      case ModelResources_DeepCopyInto (hs_Resources x) h3 of (r, h4) \<Rightarrow>
      case copy_map un_SecretEnv CSecretEnv (hs_SecretEnv x) h4 of (se, h5) \<Rightarrow>
      case copy_ptr un_Probe CProbe ModelProbe_DeepCopyInto (hs_Probe x) h5 of (p, h6) \<Rightarrow>
      case ModelPlacement_DeepCopyInto (hs_Placement x) h6 of (pl, h7) \<Rightarrow>
      case copy_ptr un_Duration CDuration plain (hs_UncontrolledTimeout x) h7 of (u, h8) \<Rightarrow>
        (x\<lparr>hs_Features := fs, hs_Args := as, hs_Env := e, hs_Resources := r, hs_SecretEnv := se, hs_Probe := p,
           hs_Placement := pl, hs_UncontrolledTimeout := u\<rparr>, h8))"

definition ModelSpec_DeepCopy :: "addr option \<Rightarrow> store \<Rightarrow> addr option \<times> store" where
  "ModelSpec_DeepCopy = copy_ptr un_Spec CSpec ModelSpec_DeepCopyInto"

definition ModelStatus_DeepCopyInto :: "meta_copy \<Rightarrow> hModelStatus \<Rightarrow> store \<Rightarrow> hModelStatus \<times> store" where
  "ModelStatus_DeepCopyInto M x h =
     (case copy_ptr un_Replica CReplica plain (ht_Replica x) h of (r, h1) \<Rightarrow>
      case copy_ptr un_Time CTime (mc_Time M) (ht_WakeStartedAt x) h1 of (w, h2) \<Rightarrow>
      case copy_slice un_Fleet CFleet plain (ht_Fleet x) h2 of (f, h3) \<Rightarrow>
      case copy_ptr un_Time CTime (mc_Time M) (ht_LastRequestAt x) h3 of (l, h4) \<Rightarrow>
      case copy_ptr un_Time CTime (mc_Time M) (ht_UncontrolledSince x) h4 of (u, h5) \<Rightarrow>
      case copy_slice un_Conditions CConditions (mc_Condition M) (ht_Conditions x) h5 of (c, h6) \<Rightarrow>
        (x\<lparr>ht_Replica := r, ht_WakeStartedAt := w, ht_Fleet := f, ht_LastRequestAt := l, ht_UncontrolledSince := u,
           ht_Conditions := c\<rparr>, h6))"

definition ModelStatus_DeepCopy :: "meta_copy \<Rightarrow> addr option \<Rightarrow> store \<Rightarrow> addr option \<times> store" where
  "ModelStatus_DeepCopy M = copy_ptr un_Status CStatus (ModelStatus_DeepCopyInto M)"

definition ReplicaEndpoint_DeepCopyInto :: "ReplicaEndpoint \<Rightarrow> store \<Rightarrow> ReplicaEndpoint \<times> store" where
  "ReplicaEndpoint_DeepCopyInto = plain"

definition ReplicaEndpoint_DeepCopy :: "addr option \<Rightarrow> store \<Rightarrow> addr option \<times> store" where
  "ReplicaEndpoint_DeepCopy = copy_ptr un_Replica CReplica ReplicaEndpoint_DeepCopyInto"

definition SecretKeyRef_DeepCopyInto :: "SecretKeyRef \<Rightarrow> store \<Rightarrow> SecretKeyRef \<times> store" where
  "SecretKeyRef_DeepCopyInto = plain"

definition SecretKeyRef_DeepCopy :: "addr option \<Rightarrow> store \<Rightarrow> addr option \<times> store" where
  "SecretKeyRef_DeepCopy = copy_ptr un_SecretKeyRef CSecretKeyRef SecretKeyRef_DeepCopyInto"

definition Model_DeepCopyInto :: "meta_copy \<Rightarrow> hModel \<Rightarrow> store \<Rightarrow> hModel \<times> store" where
  "Model_DeepCopyInto M x h =
     (case mc_ObjectMeta M (hm_ObjectMeta x) h of (om, h1) \<Rightarrow>
      case ModelSpec_DeepCopyInto (hm_Spec x) h1 of (sp, h2) \<Rightarrow>
      case ModelStatus_DeepCopyInto M (hm_Status x) h2 of (st, h3) \<Rightarrow>
        (x\<lparr>hm_TypeMeta := hm_TypeMeta x, hm_ObjectMeta := om, hm_Spec := sp, hm_Status := st\<rparr>, h3))"

definition Model_DeepCopy :: "meta_copy \<Rightarrow> addr option \<Rightarrow> store \<Rightarrow> addr option \<times> store" where
  "Model_DeepCopy M = copy_ptr un_Model CModel (Model_DeepCopyInto M)"

definition ModelList_DeepCopyInto :: "meta_copy \<Rightarrow> hModelList \<Rightarrow> store \<Rightarrow> hModelList \<times> store" where
  "ModelList_DeepCopyInto M x h =
     (case mc_ListMeta M (hml_ListMeta x) h of (lm, h1) \<Rightarrow>
      case copy_slice un_Models CModels (Model_DeepCopyInto M) (hml_Items x) h1 of (is, h2) \<Rightarrow>
        (x\<lparr>hml_TypeMeta := hml_TypeMeta x, hml_ListMeta := lm, hml_Items := is\<rparr>, h2))"

definition ModelList_DeepCopy :: "meta_copy \<Rightarrow> addr option \<Rightarrow> store \<Rightarrow> addr option \<times> store" where
  "ModelList_DeepCopy M = copy_ptr un_ModelList CModelList (ModelList_DeepCopyInto M)"

text \<open>A nil pointer becomes a nil interface, not an interface that holds a nil pointer.\<close>

datatype runtime_Object = ObjectModel "addr option" | ObjectModelList "addr option"

definition Model_DeepCopyObject :: "meta_copy \<Rightarrow> addr option \<Rightarrow> store \<Rightarrow> runtime_Object option \<times> store" where
  "Model_DeepCopyObject M p h =
     (case Model_DeepCopy M p h of (c, h1) \<Rightarrow> if c \<noteq> None then (Some (ObjectModel c), h1) else (None, h1))"

definition ModelList_DeepCopyObject :: "meta_copy \<Rightarrow> addr option \<Rightarrow> store \<Rightarrow> runtime_Object option \<times> store" where
  "ModelList_DeepCopyObject M p h =
     (case ModelList_DeepCopy M p h of (c, h1) \<Rightarrow> if c \<noteq> None then (Some (ObjectModelList c), h1) else (None, h1))"

section \<open>The contract of a copy\<close>

text \<open>
  \<open>val h x\<close> is what \<open>x\<close> reads in the store, \<open>fp h x\<close> the addresses it is read through. The copy only
  allocates, reads the same, and is read through new addresses only.
\<close>

definition copied ::
  "(store \<Rightarrow> 'a \<Rightarrow> 'v) \<Rightarrow> (store \<Rightarrow> 'a \<Rightarrow> addr set) \<Rightarrow> 'a \<Rightarrow> store \<Rightarrow> 'a \<times> store \<Rightarrow> bool" where
  "copied val fp x h r =
     (case r of (y, h') \<Rightarrow> prefix h h' \<and> store_ok h' \<and> val h' y = val h x \<and> fp h' y \<subseteq> {length h..<length h'})"

definition writes :: "(addr \<times> cell) list \<Rightarrow> store \<Rightarrow> store" where
  "writes ws h = fold (\<lambda>(a, c) h. h[a := c]) ws h"

lemma length_writes [simp]: "length (writes ws h) = length h"
  by (induction ws arbitrary: h) (auto simp: writes_def)

lemma writes_other: "a \<notin> fst ` set ws \<Longrightarrow> writes ws h ! a = h ! a"
  by (induction ws arbitrary: h) (auto simp: writes_def)

lemma prefix_nth: "prefix h h' \<Longrightarrow> a < length h \<Longrightarrow> a < length h' \<and> h' ! a = h ! a"
  by (auto simp: prefix_def nth_append)

locale deep_copier =
  fixes into :: "'a \<Rightarrow> store \<Rightarrow> 'a \<times> store" and val :: "store \<Rightarrow> 'a \<Rightarrow> 'v" and fp :: "store \<Rightarrow> 'a \<Rightarrow> addr set"
  assumes frame: "fp h x \<subseteq> {..<length h} \<Longrightarrow> (\<And>a. a \<in> fp h x \<Longrightarrow> a < length h2 \<and> h2 ! a = h ! a) \<Longrightarrow>
      val h2 x = val h x \<and> fp h2 x = fp h x"
    and copies: "store_ok h \<Longrightarrow> fp h x \<subseteq> {..<length h} \<Longrightarrow> copied val fp x h (into x h)"
begin

lemma grown: "prefix h h2 \<Longrightarrow> fp h x \<subseteq> {..<length h} \<Longrightarrow> val h2 x = val h x \<and> fp h2 x = fp h x"
  by (rule frame) (auto dest: prefix_nth)

lemma copyE:
  assumes "store_ok h" and "fp h x \<subseteq> {..<length h}" and "into x h = (y, h')"
  shows "prefix h h'" and "store_ok h'" and "val h' y = val h x" and "fp h' y \<subseteq> {length h..<length h'}"
    and "length h \<le> length h'"
  using copies [OF assms(1,2)] assms(3) by (auto simp: copied_def dest: prefix_length_le)

text \<open>Nothing written through the copy shows in the original, and the other way round.\<close>

lemma isolated:
  assumes "store_ok h" and "fp h x \<subseteq> {..<length h}" and "into x h = (y, h')"
  shows "val h' y = val h x \<and> fp h' y \<inter> fp h' x = {} \<and>
    (\<forall>ws. fst ` set ws \<subseteq> fp h' y \<longrightarrow> val (writes ws h') x = val h x) \<and>
    (\<forall>ws. fst ` set ws \<subseteq> fp h' x \<longrightarrow> val (writes ws h') y = val h x)"
proof -
  note c = copyE [OF assms]
  note old = grown [OF c(1) assms(2)]
  have sep: "fp h' y \<inter> fp h' x = {}"
    using old c(4) assms(2) by fastforce
  have away: "a < length (writes ws h') \<and> writes ws h' ! a = h' ! a"
    if "a \<in> A" "A \<subseteq> {..<length h'}" "fst ` set ws \<subseteq> B" "B \<inter> A = {}" for a A B ws
    using that writes_other [of a ws h'] by (metis disjoint_iff lessThan_iff length_writes subset_iff)
  have in_x: "fp h' x \<subseteq> {..<length h'}" and in_y: "fp h' y \<subseteq> {..<length h'}"
    using old c(4,5) assms(2) by (simp_all add: subset_iff) (meson order.strict_trans2)
  have "val (writes ws h') x = val h' x" if "fst ` set ws \<subseteq> fp h' y" for ws
    by (rule conjunct1 [OF frame [OF in_x]]) (rule away [OF _ in_x that sep])
  moreover have "val (writes ws h') y = val h' y" if "fst ` set ws \<subseteq> fp h' x" for ws
    by (rule conjunct1 [OF frame [OF in_y]]) (rule away [OF _ in_y that], use sep in auto)
  ultimately show ?thesis
    using c(3) old sep by simp
qed

end

section \<open>Copies of fields and of structs keep the contract\<close>

definition ptr_val :: "(cell \<Rightarrow> 'a) \<Rightarrow> (store \<Rightarrow> 'a \<Rightarrow> 'v) \<Rightarrow> store \<Rightarrow> addr option \<Rightarrow> 'v option" where
  "ptr_val get val h p = map_option (\<lambda>a. val h (get (h ! a))) p"

definition ptr_fp :: "(cell \<Rightarrow> 'a) \<Rightarrow> (store \<Rightarrow> 'a \<Rightarrow> addr set) \<Rightarrow> store \<Rightarrow> addr option \<Rightarrow> addr set" where
  "ptr_fp get fp h p = (case p of None \<Rightarrow> {} | Some a \<Rightarrow> insert a (fp h (get (h ! a))))"

definition slice_val :: "(cell \<Rightarrow> 'a list) \<Rightarrow> (store \<Rightarrow> 'a \<Rightarrow> 'v) \<Rightarrow> store \<Rightarrow> slice option \<Rightarrow> 'v list" where
  "slice_val get val h s = map (val h) (slice_elems get h s)"

definition slice_fp :: "(cell \<Rightarrow> 'a list) \<Rightarrow> (store \<Rightarrow> 'a \<Rightarrow> addr set) \<Rightarrow> store \<Rightarrow> slice option \<Rightarrow> addr set" where
  "slice_fp get fp h s =
     (case s of None \<Rightarrow> {} | Some sl \<Rightarrow> insert (sl_Array sl) (\<Union>x\<in>set (slice_elems get h s). fp h x))"

definition map_val :: "(cell \<Rightarrow> 'v gomap) \<Rightarrow> store \<Rightarrow> addr option \<Rightarrow> 'v gomap" where
  "map_val get h p = (case p of None \<Rightarrow> [] | Some a \<Rightarrow> get (h ! a))"

definition map_fp :: "store \<Rightarrow> addr option \<Rightarrow> addr set" where
  "map_fp h p = set_option p"

definition plain_val :: "store \<Rightarrow> 'a \<Rightarrow> 'a" where
  "plain_val h x = x"

definition plain_fp :: "store \<Rightarrow> 'a \<Rightarrow> addr set" where
  "plain_fp h x = {}"

lemma plain_copier: "deep_copier plain plain_val plain_fp"
  by unfold_locales (simp_all add: plain_def plain_val_def plain_fp_def copied_def)

lemma store_ok_append [simp]: "store_ok (h @ [c]) = (store_ok h \<and> cell_ok c)"
  by (simp add: store_ok_def)

lemma store_ok_update: "store_ok h \<Longrightarrow> cell_ok c \<Longrightarrow> store_ok (h[a := c])"
  by (auto simp: store_ok_def list_all_iff dest: set_update_subset_insert [THEN subsetD])

lemma prefix_update: "prefix h h' \<Longrightarrow> length h \<le> a \<Longrightarrow> prefix h (h'[a := c])"
  by (auto simp: prefix_def list_update_append)

lemma ptr_copier:
  assumes "deep_copier into val fp" and get: "\<And>x. get (mk x) = x" and ok: "\<And>x. cell_ok (mk x)"
  shows "deep_copier (copy_ptr get mk into) (ptr_val get val) (ptr_fp get fp)"
proof -
  note frame = deep_copier.frame [OF assms(1)] and grown = deep_copier.grown [OF assms(1)]
    and copyE = deep_copier.copyE [OF assms(1)]
  show ?thesis
  proof unfold_locales
    fix h p and h2 :: store
    assume "ptr_fp get fp h p \<subseteq> {..<length h}" "\<And>a. a \<in> ptr_fp get fp h p \<Longrightarrow> a < length h2 \<and> h2 ! a = h ! a"
    then show "ptr_val get val h2 p = ptr_val get val h p \<and> ptr_fp get fp h2 p = ptr_fp get fp h p"
      using frame [of h _ h2] by (cases p) (auto simp: ptr_val_def ptr_fp_def)
  next
    fix h p assume h: "store_ok h" "ptr_fp get fp h p \<subseteq> {..<length h}"
    show "copied (ptr_val get val) (ptr_fp get fp) p h (copy_ptr get mk into p h)"
    proof (cases p)
      case None
      then show ?thesis
        using h by (simp add: copied_def copy_ptr_def ptr_val_def ptr_fp_def)
    next
      case (Some a)
      let ?x = "get (h ! a)" let ?h1 = "h @ [mk ?x]"
      obtain y h2 where into: "into ?x ?h1 = (y, h2)" by fastforce
      have x: "fp h ?x \<subseteq> {..<length h}"
        using h(2) Some by (simp add: ptr_fp_def)
      note g = grown [of h ?h1 ?x, OF _ x, simplified]
      have h1: "store_ok ?h1" "fp ?h1 ?x \<subseteq> {..<length ?h1}"
        using h(1) ok g x by auto
      note c = copyE [OF h1 into]
      let ?h3 = "h2[length h := mk y]"
      have y: "fp h2 y \<subseteq> {..<length h2}" "length h < length h2" "length h \<notin> fp h2 y"
        using c(4,5) by auto
      have "val ?h3 y = val h2 y \<and> fp ?h3 y = fp h2 y"
        by (rule frame [OF y(1)]) (use y in \<open>auto simp: nth_list_update\<close>)
      moreover have "prefix h ?h3" "store_ok ?h3"
        using c(1,2) ok by (auto intro!: prefix_update store_ok_update intro: prefix_order.trans [of h ?h1])
      ultimately show ?thesis
        using Some into c(3,4) g y(2) get
        by (auto simp: copied_def copy_ptr_def ptr_val_def ptr_fp_def alloc_def)
    qed
  qed
qed

lemma elems_copied:
  assumes "deep_copier into val fp"
  shows "store_ok h \<Longrightarrow> (\<Union>x\<in>set xs. fp h x) \<subseteq> {..<length h} \<Longrightarrow> copy_elems into xs h = (ys, h') \<Longrightarrow>
    prefix h h' \<and> store_ok h' \<and> map (val h') ys = map (val h) xs \<and> length ys = length xs \<and>
    (\<Union>y\<in>set ys. fp h' y) \<subseteq> {length h..<length h'}"
proof (induction xs arbitrary: h ys)
  case (Cons x xs)
  note grown = deep_copier.grown [OF assms] and copyE = deep_copier.copyE [OF assms]
  from Cons.prems(3) obtain y h1 zs where st: "into x h = (y, h1)" "copy_elems into xs h1 = (zs, h')" "ys = y # zs"
    by (auto split: prod.splits)
  have x: "fp h x \<subseteq> {..<length h}" and xs: "\<And>z. z \<in> set xs \<Longrightarrow> fp h z \<subseteq> {..<length h}"
    using Cons.prems(2) by auto
  note c = copyE [OF Cons.prems(1) x st(1)]
  have old: "\<And>z. z \<in> set xs \<Longrightarrow> val h1 z = val h z \<and> fp h1 z = fp h z"
    using grown [OF c(1) xs] by blast
  have "(\<Union>z\<in>set xs. fp h1 z) \<subseteq> {..<length h1}"
    using old xs c(5) by fastforce
  note IH = Cons.IH [OF c(2) this st(2)]
  have y: "fp h1 y \<subseteq> {..<length h1}"
    using c(4) by auto
  have "val h' y = val h1 y \<and> fp h' y = fp h1 y"
    by (rule grown [OF conjunct1 [OF IH] y])
  with IH st(3) c old show ?case
    by (auto dest: prefix_length_le intro: prefix_order.trans) (fastforce dest: prefix_length_le)+
qed auto

lemma map_put_copy: "gomap_wf (acc @ m) \<Longrightarrow> fold (\<lambda>(k, v) m. gomap_put k v m) m acc = acc @ m"
proof (induction m arbitrary: acc)
  case (Cons kv m)
  obtain k v where "kv = (k, v)" by fastforce
  moreover have "k \<notin> fst ` set acc \<Longrightarrow> gomap_put k v acc = acc @ [(k, v)]"
    by (induction acc) auto
  ultimately show ?case
    using Cons.IH [of "acc @ [(k, v)]"] Cons.prems by simp
qed simp

lemma slice_copier:
  assumes "deep_copier into val fp" and get: "\<And>xs. get (mk xs) = xs" and ok: "\<And>xs. cell_ok (mk xs)"
  shows "deep_copier (copy_slice get mk into) (slice_val get val) (slice_fp get fp)"
proof -
  note frame = deep_copier.frame [OF assms(1)] and grown = deep_copier.grown [OF assms(1)]
  show ?thesis
  proof unfold_locales
    fix h p and h2 :: store
    assume h: "slice_fp get fp h p \<subseteq> {..<length h}" "\<And>a. a \<in> slice_fp get fp h p \<Longrightarrow> a < length h2 \<and> h2 ! a = h ! a"
    then have "slice_elems get h2 p = slice_elems get h p"
      by (cases p) (simp_all add: slice_elems_def slice_fp_def)
    moreover have "val h2 x = val h x \<and> fp h2 x = fp h x" if "x \<in> set (slice_elems get h p)" for x
      by (rule frame) (use h that in \<open>auto simp: slice_fp_def slice_elems_def split: option.splits\<close>)
    ultimately show "slice_val get val h2 p = slice_val get val h p \<and> slice_fp get fp h2 p = slice_fp get fp h p"
      by (cases p) (simp_all add: slice_val_def slice_fp_def)
  next
    fix h p assume h: "store_ok h" "slice_fp get fp h p \<subseteq> {..<length h}"
    show "copied (slice_val get val) (slice_fp get fp) p h (copy_slice get mk into p h)"
    proof (cases p)
      case None
      then show ?thesis
        using h by (simp add: copied_def copy_slice_def slice_val_def slice_fp_def slice_elems_def)
    next
      case (Some sl)
      let ?xs = "slice_elems get h p" let ?h1 = "h @ [mk ?xs]"
      obtain ys h2 where into: "copy_elems into ?xs ?h1 = (ys, h2)" by fastforce
      have xs: "\<And>x. x \<in> set ?xs \<Longrightarrow> fp h x \<subseteq> {..<length h}"
        using h(2) Some by (auto simp: slice_fp_def)
      have g: "\<And>x. x \<in> set ?xs \<Longrightarrow> val ?h1 x = val h x \<and> fp ?h1 x = fp h x"
        using grown [of h ?h1, OF _ xs] by simp
      have h1: "store_ok ?h1" "(\<Union>x\<in>set ?xs. fp ?h1 x) \<subseteq> {..<length ?h1}"
        using h(1) ok g xs by fastforce+
      note c = elems_copied [OF assms(1) h1 into]
      let ?h3 = "h2[length h := mk ys]"
      have len: "length h < length h2"
        using c by (auto dest: prefix_length_le)
      have "val ?h3 y = val h2 y \<and> fp ?h3 y = fp h2 y" if "y \<in> set ys" for y
        by (rule frame) (use c that in \<open>force simp: nth_list_update\<close>)+
      moreover have "prefix h ?h3" "store_ok ?h3"
        using c ok by (auto intro!: prefix_update store_ok_update intro: prefix_order.trans [of h ?h1])
      moreover have "map (val ?h1) ?xs = map (val h) ?xs"
        using g by simp
      moreover have "length ys \<le> sl_Len sl"
        using c Some by (simp add: slice_elems_def)
      ultimately show ?thesis
        using Some into c len get
        by (auto simp: copied_def copy_slice_def slice_val_def slice_fp_def alloc_def slice_elems_def [of _ ?h3] cong: map_cong)
    qed
  qed
qed

lemma map_copier:
  assumes "\<And>m. get (mk m) = m" and "\<And>m. cell_ok (mk m) = gomap_wf m" and "\<And>c. cell_ok c \<Longrightarrow> gomap_wf (get c)"
  shows "deep_copier (copy_map get mk) (map_val get) map_fp"
proof unfold_locales
  fix h p and h2 :: store
  assume "map_fp h p \<subseteq> {..<length h}" "\<And>a. a \<in> map_fp h p \<Longrightarrow> a < length h2 \<and> h2 ! a = h ! a"
  then show "map_val get h2 p = map_val get h p \<and> map_fp h2 p = map_fp h p"
    by (cases p) (auto simp: map_val_def map_fp_def)
next
  fix h p assume h: "store_ok h" "map_fp h p \<subseteq> {..<length h}"
  have "gomap_wf (get (h ! a))" if "p = Some a" for a
    using h that assms(3) by (simp add: map_fp_def store_ok_def list_all_length)
  then show "copied (map_val get) map_fp p h (copy_map get mk p h)"
    using h assms(1,2) map_put_copy [of "[]"]
    by (cases p) (auto simp: copied_def copy_map_def map_val_def map_fp_def alloc_def)
qed

text \<open>Two fields in turn, and a struct by its fields.\<close>

definition pair_into ::
  "('a \<Rightarrow> store \<Rightarrow> 'a \<times> store) \<Rightarrow> ('b \<Rightarrow> store \<Rightarrow> 'b \<times> store) \<Rightarrow> 'a \<times> 'b \<Rightarrow> store \<Rightarrow> ('a \<times> 'b) \<times> store" where
  "pair_into i j p h = (case i (fst p) h of (x, h1) \<Rightarrow> case j (snd p) h1 of (y, h2) \<Rightarrow> ((x, y), h2))"

definition pair_val :: "(store \<Rightarrow> 'a \<Rightarrow> 'v) \<Rightarrow> (store \<Rightarrow> 'b \<Rightarrow> 'w) \<Rightarrow> store \<Rightarrow> 'a \<times> 'b \<Rightarrow> 'v \<times> 'w" where
  "pair_val v w h p = (v h (fst p), w h (snd p))"

definition pair_fp :: "(store \<Rightarrow> 'a \<Rightarrow> addr set) \<Rightarrow> (store \<Rightarrow> 'b \<Rightarrow> addr set) \<Rightarrow> store \<Rightarrow> 'a \<times> 'b \<Rightarrow> addr set" where
  "pair_fp f g h p = f h (fst p) \<union> g h (snd p)"

lemma pair_copier:
  assumes "deep_copier i v f" and "deep_copier j w g"
  shows "deep_copier (pair_into i j) (pair_val v w) (pair_fp f g)"
proof unfold_locales
  fix h p and h2 :: store
  assume "pair_fp f g h p \<subseteq> {..<length h}" "\<And>a. a \<in> pair_fp f g h p \<Longrightarrow> a < length h2 \<and> h2 ! a = h ! a"
  then show "pair_val v w h2 p = pair_val v w h p \<and> pair_fp f g h2 p = pair_fp f g h p"
    using deep_copier.frame [OF assms(1), of h "fst p" h2] deep_copier.frame [OF assms(2), of h "snd p" h2]
    by (auto simp: pair_val_def pair_fp_def)
next
  fix h p assume h: "store_ok h" "pair_fp f g h p \<subseteq> {..<length h}"
  obtain x h1 where i: "i (fst p) h = (x, h1)" by fastforce
  obtain y h2 where j: "j (snd p) h1 = (y, h2)" by fastforce
  have p: "f h (fst p) \<subseteq> {..<length h}" "g h (snd p) \<subseteq> {..<length h}"
    using h(2) by (auto simp: pair_fp_def)
  note c = deep_copier.copyE [OF assms(1) h(1) p(1) i]
  note old = deep_copier.grown [OF assms(2) c(1) p(2)]
  have "g h1 (snd p) \<subseteq> {..<length h1}"
    using old p(2) c(5) by fastforce
  note d = deep_copier.copyE [OF assms(2) c(2) this j]
  have "f h1 x \<subseteq> {..<length h1}"
    using c(4) by auto
  note x = deep_copier.grown [OF assms(1) d(1) this]
  have "f h2 x \<union> g h2 y \<subseteq> {length h..<length h2}"
    using x c(4,5) d(4,5) by fastforce
  then show "copied (pair_val v w) (pair_fp f g) p h (pair_into i j p h)"
    using i j x c(1,3) d(1-3) old
    by (auto simp: copied_def pair_into_def pair_val_def pair_fp_def intro: prefix_order.trans)
qed

lemma struct_copier:
  assumes "deep_copier i v f"
    and "\<And>x h. into x h = (case i (refs x) h of (r, h') \<Rightarrow> (put r x, h'))"
    and "\<And>h x. val h x = mkval x (v h (refs x))" and "\<And>h x. fp h x = f h (refs x)"
    and "\<And>r x. refs (put r x) = r" and "\<And>r x u. mkval (put r x) u = mkval x u"
  shows "deep_copier into val fp"
proof unfold_locales
  fix h x and h2 :: store
  assume "fp h x \<subseteq> {..<length h}" "\<And>a. a \<in> fp h x \<Longrightarrow> a < length h2 \<and> h2 ! a = h ! a"
  then show "val h2 x = val h x \<and> fp h2 x = fp h x"
    using deep_copier.frame [OF assms(1), of h "refs x" h2] by (simp add: assms(3,4))
next
  fix h x assume "store_ok h" "fp h x \<subseteq> {..<length h}"
  then show "copied val fp x h (into x h)"
    using deep_copier.copies [OF assms(1), of h "refs x"] by (auto simp: copied_def assms(2-6) split: prod.splits)
qed

section \<open>What a struct reads, and through which cells\<close>

abbreviation strs_val :: "store \<Rightarrow> slice option \<Rightarrow> string list" where
  "strs_val \<equiv> slice_val un_Strs plain_val"

abbreviation strs_fp :: "store \<Rightarrow> slice option \<Rightarrow> addr set" where
  "strs_fp \<equiv> slice_fp un_Strs plain_fp"

abbreviation dur_val :: "store \<Rightarrow> addr option \<Rightarrow> duration option" where
  "dur_val \<equiv> ptr_val un_Duration plain_val"

abbreviation dur_fp :: "store \<Rightarrow> addr option \<Rightarrow> addr set" where
  "dur_fp \<equiv> ptr_fp un_Duration plain_fp"

abbreviation time_val :: "store \<Rightarrow> addr option \<Rightarrow> gotime option" where
  "time_val \<equiv> ptr_val un_Time plain_val"

abbreviation time_fp :: "store \<Rightarrow> addr option \<Rightarrow> addr set" where
  "time_fp \<equiv> ptr_fp un_Time plain_fp"

definition GPUSpec_val :: "store \<Rightarrow> hGPUSpec \<Rightarrow> GPUSpec" where
  "GPUSpec_val h x =
     \<lparr>gpu_Vendor = hg_Vendor x, gpu_Name = strs_val h (hg_Name x), gpu_Count = hg_Count x, gpu_Memory = hg_Memory x,
      gpu_TotalMemory = hg_TotalMemory x, gpu_ComputeCapability = hg_ComputeCapability x\<rparr>"

definition GPUSpec_fp :: "store \<Rightarrow> hGPUSpec \<Rightarrow> addr set" where
  "GPUSpec_fp h x = strs_fp h (hg_Name x)"

definition ModelProbe_val :: "store \<Rightarrow> hModelProbe \<Rightarrow> ModelProbe" where
  "ModelProbe_val h x =
     \<lparr>mp_Path = hp_Path x, mp_Method = hp_Method x, mp_Timeout = dur_val h (hp_Timeout x),
      mp_Interval = dur_val h (hp_Interval x), mp_ReadyAfter = ptr_val un_Int plain_val h (hp_ReadyAfter x)\<rparr>"

definition ModelProbe_fp :: "store \<Rightarrow> hModelProbe \<Rightarrow> addr set" where
  "ModelProbe_fp h x = dur_fp h (hp_Timeout x) \<union> (dur_fp h (hp_Interval x) \<union> ptr_fp un_Int plain_fp h (hp_ReadyAfter x))"

definition ModelResources_val :: "store \<Rightarrow> hModelResources \<Rightarrow> ModelResources" where
  "ModelResources_val h x =
     \<lparr>mr_CPU = ptr_val un_CPU plain_val h (hr_CPU x), mr_Memory = hr_Memory x, mr_ShmSize = hr_ShmSize x,
      mr_GPU = ptr_val un_GPU GPUSpec_val h (hr_GPU x), mr_Disk = hr_Disk x\<rparr>"

definition ModelResources_fp :: "store \<Rightarrow> hModelResources \<Rightarrow> addr set" where
  "ModelResources_fp h x = ptr_fp un_CPU plain_fp h (hr_CPU x) \<union> ptr_fp un_GPU GPUSpec_fp h (hr_GPU x)"

definition ModelPlacement_val :: "store \<Rightarrow> hModelPlacement \<Rightarrow> ModelPlacement" where
  "ModelPlacement_val h x =
     \<lparr>pl_Backends = strs_val h (hl_Backends x), pl_Regions = strs_val h (hl_Regions x),
      pl_MaxPricePerHour = ptr_val un_Price plain_val h (hl_MaxPricePerHour x)\<rparr>"

definition ModelPlacement_fp :: "store \<Rightarrow> hModelPlacement \<Rightarrow> addr set" where
  "ModelPlacement_fp h x =
     strs_fp h (hl_Backends x) \<union> (strs_fp h (hl_Regions x) \<union> ptr_fp un_Price plain_fp h (hl_MaxPricePerHour x))"

definition ModelSpec_val :: "store \<Rightarrow> hModelSpec \<Rightarrow> ModelSpec" where
  "ModelSpec_val h x =
     \<lparr>sp_Engine = hs_Engine x, sp_Image = hs_Image x, sp_Model = hs_Model x,
      sp_Features = slice_val un_Features plain_val h (hs_Features x), sp_Owner = hs_Owner x,
      sp_Args = strs_val h (hs_Args x), sp_Env = map_val un_Env h (hs_Env x),
      sp_Resources = ModelResources_val h (hs_Resources x), sp_SecretEnv = map_val un_SecretEnv h (hs_SecretEnv x),
      sp_Probe = ptr_val un_Probe ModelProbe_val h (hs_Probe x), sp_Placement = ModelPlacement_val h (hs_Placement x),
      sp_MinReplicas = hs_MinReplicas x, sp_HoldTimeout = hs_HoldTimeout x, sp_IdleTimeout = hs_IdleTimeout x,
      sp_UncontrolledTimeout = dur_val h (hs_UncontrolledTimeout x), sp_Health = hs_Health x,
      sp_DrainTimeout = hs_DrainTimeout x, sp_ProvisioningTimeout = hs_ProvisioningTimeout x,
      sp_MaxLifetime = hs_MaxLifetime x, sp_HardStop = hs_HardStop x\<rparr>"

definition ModelSpec_fp :: "store \<Rightarrow> hModelSpec \<Rightarrow> addr set" where
  "ModelSpec_fp h x =
     slice_fp un_Features plain_fp h (hs_Features x) \<union> (strs_fp h (hs_Args x) \<union> (map_fp h (hs_Env x) \<union>
     (ModelResources_fp h (hs_Resources x) \<union> (map_fp h (hs_SecretEnv x) \<union> (ptr_fp un_Probe ModelProbe_fp h (hs_Probe x) \<union>
     (ModelPlacement_fp h (hs_Placement x) \<union> dur_fp h (hs_UncontrolledTimeout x)))))))"

definition ModelStatus_val :: "store \<Rightarrow> hModelStatus \<Rightarrow> ModelStatus" where
  "ModelStatus_val h x =
     \<lparr>st_Phase = ht_Phase x, st_RunID = ht_RunID x, st_RunName = ht_RunName x, st_RunUID = ht_RunUID x,
      st_DeploymentNum = ht_DeploymentNum x, st_ServiceURL = ht_ServiceURL x,
      st_Replica = ptr_val un_Replica plain_val h (ht_Replica x), st_ServedModel = ht_ServedModel x,
      st_ForwardModel = ht_ForwardModel x, st_WakeStartedAt = time_val h (ht_WakeStartedAt x),
      st_Fleet = slice_val un_Fleet plain_val h (ht_Fleet x), st_LastRequestAt = time_val h (ht_LastRequestAt x),
      st_UncontrolledSince = time_val h (ht_UncontrolledSince x),
      st_Conditions = slice_val un_Conditions plain_val h (ht_Conditions x)\<rparr>"

definition ModelStatus_fp :: "store \<Rightarrow> hModelStatus \<Rightarrow> addr set" where
  "ModelStatus_fp h x =
     ptr_fp un_Replica plain_fp h (ht_Replica x) \<union> (time_fp h (ht_WakeStartedAt x) \<union> (slice_fp un_Fleet plain_fp h (ht_Fleet x) \<union>
     (time_fp h (ht_LastRequestAt x) \<union> (time_fp h (ht_UncontrolledSince x) \<union>
      slice_fp un_Conditions plain_fp h (ht_Conditions x)))))"

text \<open>Metadata: name, namespace, UID, annotations, deletion timestamp, finalizers; version, continue, remaining.\<close>

definition ObjectMeta_val ::
  "store \<Rightarrow> hObjectMeta \<Rightarrow> string \<times> string \<times> string \<times> string gomap \<times> gotime option \<times> string list" where
  "ObjectMeta_val h x = (ho_Name x, ho_Namespace x, ho_UID x, map_val un_Env h (ho_Annotations x),
     time_val h (ho_DeletionTimestamp x), strs_val h (ho_Finalizers x))"

definition ObjectMeta_fp :: "store \<Rightarrow> hObjectMeta \<Rightarrow> addr set" where
  "ObjectMeta_fp h x = map_fp h (ho_Annotations x) \<union> (time_fp h (ho_DeletionTimestamp x) \<union> strs_fp h (ho_Finalizers x))"

definition ListMeta_val :: "store \<Rightarrow> hListMeta \<Rightarrow> string \<times> string \<times> int option" where
  "ListMeta_val h x = (hlm_ResourceVersion x, hlm_Continue x, ptr_val un_Int plain_val h (hlm_RemainingItemCount x))"

definition ListMeta_fp :: "store \<Rightarrow> hListMeta \<Rightarrow> addr set" where
  "ListMeta_fp h x = ptr_fp un_Int plain_fp h (hlm_RemainingItemCount x)"

definition meta_copy_ok :: "meta_copy \<Rightarrow> bool" where
  "meta_copy_ok M = (deep_copier (mc_ObjectMeta M) ObjectMeta_val ObjectMeta_fp \<and>
     deep_copier (mc_ListMeta M) ListMeta_val ListMeta_fp \<and>
     deep_copier (mc_Condition M) plain_val plain_fp \<and> deep_copier (mc_Time M) plain_val plain_fp)"

definition Model_val :: "store \<Rightarrow> hModel \<Rightarrow> TypeMeta \<times> Model" where
  "Model_val h x =
     (case ObjectMeta_val h (hm_ObjectMeta x) of (n, ns, uid, ann, del, fin) \<Rightarrow>
       (hm_TypeMeta x,
        \<lparr>md_Name = n, md_Namespace = ns, md_UID = uid, md_Annotations = ann, md_DeletionTimestamp = del,
         md_Finalizers = fin, md_Spec = ModelSpec_val h (hm_Spec x), md_Status = ModelStatus_val h (hm_Status x)\<rparr>))"

definition Model_fp :: "store \<Rightarrow> hModel \<Rightarrow> addr set" where
  "Model_fp h x = ObjectMeta_fp h (hm_ObjectMeta x) \<union> (ModelSpec_fp h (hm_Spec x) \<union> ModelStatus_fp h (hm_Status x))"

definition ModelList_val ::
  "store \<Rightarrow> hModelList \<Rightarrow> TypeMeta \<times> (string \<times> string \<times> int option) \<times> (TypeMeta \<times> Model) list" where
  "ModelList_val h x = (hml_TypeMeta x, ListMeta_val h (hml_ListMeta x), slice_val un_Models Model_val h (hml_Items x))"

definition ModelList_fp :: "store \<Rightarrow> hModelList \<Rightarrow> addr set" where
  "ModelList_fp h x = ListMeta_fp h (hml_ListMeta x) \<union> slice_fp un_Models Model_fp h (hml_Items x)"

section \<open>Every generated copy keeps the contract\<close>

lemma env_copier: "deep_copier (copy_map un_Env CEnv) (map_val un_Env) map_fp"
  by (rule map_copier) (auto elim: cell_ok.elims un_Env.elims)

lemma secret_copier: "deep_copier (copy_map un_SecretEnv CSecretEnv) (map_val un_SecretEnv) map_fp"
  by (rule map_copier) (auto elim: cell_ok.elims un_SecretEnv.elims)

lemmas strs_copier = slice_copier [OF plain_copier, of un_Strs CStrs, simplified]
  and dur_copier = ptr_copier [OF plain_copier, of un_Duration CDuration, simplified]
  and int_copier = ptr_copier [OF plain_copier, of un_Int CInt, simplified]

lemma GPUSpec_copier: "deep_copier GPUSpec_DeepCopyInto GPUSpec_val GPUSpec_fp"
  by (rule struct_copier [OF strs_copier, where refs = hg_Name and put = "\<lambda>n x. x\<lparr>hg_Name := n\<rparr>"
        and mkval = "\<lambda>x n. \<lparr>gpu_Vendor = hg_Vendor x, gpu_Name = n, gpu_Count = hg_Count x, gpu_Memory = hg_Memory x,
          gpu_TotalMemory = hg_TotalMemory x, gpu_ComputeCapability = hg_ComputeCapability x\<rparr>"])
    (simp_all add: GPUSpec_DeepCopyInto_def GPUSpec_val_def GPUSpec_fp_def)

lemma ModelProbe_copier: "deep_copier ModelProbe_DeepCopyInto ModelProbe_val ModelProbe_fp"
  by (rule struct_copier [OF pair_copier [OF dur_copier pair_copier [OF dur_copier int_copier]],
        where refs = "\<lambda>x. (hp_Timeout x, hp_Interval x, hp_ReadyAfter x)"
        and put = "\<lambda>(t, i, r) x. x\<lparr>hp_Timeout := t, hp_Interval := i, hp_ReadyAfter := r\<rparr>"
        and mkval = "\<lambda>x (t, i, r). \<lparr>mp_Path = hp_Path x, mp_Method = hp_Method x, mp_Timeout = t, mp_Interval = i, mp_ReadyAfter = r\<rparr>"])
    (auto simp: ModelProbe_DeepCopyInto_def ModelProbe_val_def ModelProbe_fp_def pair_into_def pair_val_def pair_fp_def
      split: prod.splits)

lemma ModelResources_copier: "deep_copier ModelResources_DeepCopyInto ModelResources_val ModelResources_fp"
  by (rule struct_copier [OF pair_copier [OF ptr_copier [OF plain_copier, of un_CPU CCPU] ptr_copier [OF GPUSpec_copier, of un_GPU CGPU]],
        where refs = "\<lambda>x. (hr_CPU x, hr_GPU x)" and put = "\<lambda>(c, g) x. x\<lparr>hr_CPU := c, hr_GPU := g\<rparr>"
        and mkval = "\<lambda>x (c, g). \<lparr>mr_CPU = c, mr_Memory = hr_Memory x, mr_ShmSize = hr_ShmSize x, mr_GPU = g, mr_Disk = hr_Disk x\<rparr>"])
    (auto simp: ModelResources_DeepCopyInto_def ModelResources_val_def ModelResources_fp_def pair_into_def pair_val_def pair_fp_def
      split: prod.splits)

lemma ModelPlacement_copier: "deep_copier ModelPlacement_DeepCopyInto ModelPlacement_val ModelPlacement_fp"
  by (rule struct_copier [OF pair_copier [OF strs_copier pair_copier [OF strs_copier ptr_copier [OF plain_copier, of un_Price CPrice]]],
        where refs = "\<lambda>x. (hl_Backends x, hl_Regions x, hl_MaxPricePerHour x)"
        and put = "\<lambda>(b, r, p) x. x\<lparr>hl_Backends := b, hl_Regions := r, hl_MaxPricePerHour := p\<rparr>"
        and mkval = "\<lambda>x (b, r, p). \<lparr>pl_Backends = b, pl_Regions = r, pl_MaxPricePerHour = p\<rparr>"])
    (auto simp: ModelPlacement_DeepCopyInto_def ModelPlacement_val_def ModelPlacement_fp_def pair_into_def pair_val_def pair_fp_def
      split: prod.splits)

lemma ModelSpec_copier: "deep_copier ModelSpec_DeepCopyInto ModelSpec_val ModelSpec_fp"
  by (rule struct_copier [OF pair_copier [OF slice_copier [OF plain_copier, of un_Features CFeatures] pair_copier [OF strs_copier
        pair_copier [OF env_copier pair_copier [OF ModelResources_copier pair_copier [OF secret_copier
        pair_copier [OF ptr_copier [OF ModelProbe_copier, of un_Probe CProbe] pair_copier [OF ModelPlacement_copier dur_copier]]]]]]],
        where refs = "\<lambda>x. (hs_Features x, hs_Args x, hs_Env x, hs_Resources x, hs_SecretEnv x, hs_Probe x, hs_Placement x,
          hs_UncontrolledTimeout x)"
        and put = "\<lambda>(f, a, e, r, s, p, pl, u) x. x\<lparr>hs_Features := f, hs_Args := a, hs_Env := e, hs_Resources := r,
          hs_SecretEnv := s, hs_Probe := p, hs_Placement := pl, hs_UncontrolledTimeout := u\<rparr>"
        and mkval = "\<lambda>x (f, a, e, r, s, p, pl, u).
          \<lparr>sp_Engine = hs_Engine x, sp_Image = hs_Image x, sp_Model = hs_Model x, sp_Features = f, sp_Owner = hs_Owner x,
           sp_Args = a, sp_Env = e, sp_Resources = r, sp_SecretEnv = s, sp_Probe = p, sp_Placement = pl,
           sp_MinReplicas = hs_MinReplicas x, sp_HoldTimeout = hs_HoldTimeout x, sp_IdleTimeout = hs_IdleTimeout x,
           sp_UncontrolledTimeout = u, sp_Health = hs_Health x, sp_DrainTimeout = hs_DrainTimeout x,
           sp_ProvisioningTimeout = hs_ProvisioningTimeout x, sp_MaxLifetime = hs_MaxLifetime x, sp_HardStop = hs_HardStop x\<rparr>"])
    (auto simp: ModelSpec_DeepCopyInto_def ModelSpec_val_def ModelSpec_fp_def pair_into_def pair_val_def pair_fp_def
      split: prod.splits)

lemma ModelStatus_copier:
  assumes "meta_copy_ok M"
  shows "deep_copier (ModelStatus_DeepCopyInto M) ModelStatus_val ModelStatus_fp"
proof -
  have conds: "deep_copier (mc_Condition M) plain_val plain_fp" and tm: "deep_copier (mc_Time M) plain_val plain_fp"
    using assms by (simp_all add: meta_copy_ok_def)
  note time = ptr_copier [OF tm, of un_Time CTime, simplified]
  show ?thesis
    by (rule struct_copier [OF pair_copier [OF ptr_copier [OF plain_copier, of un_Replica CReplica] pair_copier [OF time
          pair_copier [OF slice_copier [OF plain_copier, of un_Fleet CFleet] pair_copier [OF time pair_copier [OF time
          slice_copier [OF conds, of un_Conditions CConditions]]]]]],
          where refs = "\<lambda>x. (ht_Replica x, ht_WakeStartedAt x, ht_Fleet x, ht_LastRequestAt x, ht_UncontrolledSince x, ht_Conditions x)"
          and put = "\<lambda>(r, w, f, l, u, c) x. x\<lparr>ht_Replica := r, ht_WakeStartedAt := w, ht_Fleet := f, ht_LastRequestAt := l,
            ht_UncontrolledSince := u, ht_Conditions := c\<rparr>"
          and mkval = "\<lambda>x (r, w, f, l, u, c).
            \<lparr>st_Phase = ht_Phase x, st_RunID = ht_RunID x, st_RunName = ht_RunName x, st_RunUID = ht_RunUID x,
             st_DeploymentNum = ht_DeploymentNum x, st_ServiceURL = ht_ServiceURL x, st_Replica = r,
             st_ServedModel = ht_ServedModel x, st_ForwardModel = ht_ForwardModel x, st_WakeStartedAt = w, st_Fleet = f,
             st_LastRequestAt = l, st_UncontrolledSince = u, st_Conditions = c\<rparr>"])
      (auto simp: ModelStatus_DeepCopyInto_def ModelStatus_val_def ModelStatus_fp_def pair_into_def pair_val_def pair_fp_def
        split: prod.splits)
qed

lemma Model_copier:
  assumes "meta_copy_ok M"
  shows "deep_copier (Model_DeepCopyInto M) Model_val Model_fp"
proof -
  have meta: "deep_copier (mc_ObjectMeta M) ObjectMeta_val ObjectMeta_fp"
    using assms by (simp add: meta_copy_ok_def)
  show ?thesis
    by (rule struct_copier [OF pair_copier [OF meta pair_copier [OF ModelSpec_copier ModelStatus_copier [OF assms]]],
          where refs = "\<lambda>x. (hm_ObjectMeta x, hm_Spec x, hm_Status x)"
          and put = "\<lambda>(om, sp, st) x. x\<lparr>hm_ObjectMeta := om, hm_Spec := sp, hm_Status := st\<rparr>"
          and mkval = "\<lambda>x ((n, ns, uid, ann, del, fin), sp, st). (hm_TypeMeta x,
            \<lparr>md_Name = n, md_Namespace = ns, md_UID = uid, md_Annotations = ann, md_DeletionTimestamp = del,
             md_Finalizers = fin, md_Spec = sp, md_Status = st\<rparr>)"])
      (auto simp: Model_DeepCopyInto_def Model_val_def Model_fp_def pair_into_def pair_val_def pair_fp_def split: prod.splits)
qed

lemma ModelList_copier:
  assumes "meta_copy_ok M"
  shows "deep_copier (ModelList_DeepCopyInto M) ModelList_val ModelList_fp"
proof -
  have meta: "deep_copier (mc_ListMeta M) ListMeta_val ListMeta_fp"
    using assms by (simp add: meta_copy_ok_def)
  show ?thesis
    by (rule struct_copier [OF pair_copier [OF meta slice_copier [OF Model_copier [OF assms], of un_Models CModels]],
          where refs = "\<lambda>x. (hml_ListMeta x, hml_Items x)"
          and put = "\<lambda>(lm, is) x. x\<lparr>hml_ListMeta := lm, hml_Items := is\<rparr>"
          and mkval = "\<lambda>x (lm, is). (hml_TypeMeta x, lm, is)"])
      (auto simp: ModelList_DeepCopyInto_def ModelList_val_def ModelList_fp_def pair_into_def pair_val_def pair_fp_def
        split: prod.splits)
qed

interpretation spec_copy: deep_copier ModelSpec_DeepCopyInto ModelSpec_val ModelSpec_fp
  by (rule ModelSpec_copier)

text \<open>Apimachinery's copies written the way its generator writes them, for instances.\<close>

definition ref_meta_copy :: meta_copy where
  "ref_meta_copy =
     \<lparr>mc_ObjectMeta = \<lambda>x h.
        (case copy_map un_Env CEnv (ho_Annotations x) h of (a, h1) \<Rightarrow>
         case copy_ptr un_Time CTime plain (ho_DeletionTimestamp x) h1 of (d, h2) \<Rightarrow>
         case copy_strs (ho_Finalizers x) h2 of (f, h3) \<Rightarrow>
           (x\<lparr>ho_Annotations := a, ho_DeletionTimestamp := d, ho_Finalizers := f\<rparr>, h3)),
      mc_ListMeta = \<lambda>x h.
        (case copy_ptr un_Int CInt plain (hlm_RemainingItemCount x) h of (r, h1) \<Rightarrow> (x\<lparr>hlm_RemainingItemCount := r\<rparr>, h1)),
      mc_Condition = plain, mc_Time = plain\<rparr>"

lemma ref_meta_copy_ok: "meta_copy_ok ref_meta_copy"
proof -
  have "deep_copier (mc_ObjectMeta ref_meta_copy) ObjectMeta_val ObjectMeta_fp"
    by (rule struct_copier [OF pair_copier [OF env_copier pair_copier [OF ptr_copier [OF plain_copier, of un_Time CTime] strs_copier]],
          where refs = "\<lambda>x. (ho_Annotations x, ho_DeletionTimestamp x, ho_Finalizers x)"
          and put = "\<lambda>(a, d, f) x. x\<lparr>ho_Annotations := a, ho_DeletionTimestamp := d, ho_Finalizers := f\<rparr>"
          and mkval = "\<lambda>x (a, d, f). (ho_Name x, ho_Namespace x, ho_UID x, a, d, f)"])
      (auto simp: ref_meta_copy_def ObjectMeta_val_def ObjectMeta_fp_def pair_into_def pair_val_def pair_fp_def split: prod.splits)
  moreover have "deep_copier (mc_ListMeta ref_meta_copy) ListMeta_val ListMeta_fp"
    by (rule struct_copier [OF int_copier, where refs = hlm_RemainingItemCount and put = "\<lambda>r x. x\<lparr>hlm_RemainingItemCount := r\<rparr>"
          and mkval = "\<lambda>x r. (hlm_ResourceVersion x, hlm_Continue x, r)"])
      (simp_all add: ref_meta_copy_def ListMeta_val_def ListMeta_fp_def)
  ultimately show ?thesis
    by (simp add: meta_copy_ok_def ref_meta_copy_def plain_copier)
qed

interpretation ref_model_copy: deep_copier "Model_DeepCopyInto ref_meta_copy" Model_val Model_fp
  by (rule Model_copier [OF ref_meta_copy_ok])

section \<open>Copies share nothing\<close>

text \<open>What a pointer to a Model or to a list of them reads, and through which cells, its own included.\<close>

abbreviation Model_at :: "store \<Rightarrow> addr \<Rightarrow> (TypeMeta \<times> Model) option" where
  "Model_at h a \<equiv> ptr_val un_Model Model_val h (Some a)"

abbreviation Model_reach :: "store \<Rightarrow> addr \<Rightarrow> addr set" where
  "Model_reach h a \<equiv> ptr_fp un_Model Model_fp h (Some a)"

abbreviation ModelList_at ::
  "store \<Rightarrow> addr \<Rightarrow> (TypeMeta \<times> (string \<times> string \<times> int option) \<times> (TypeMeta \<times> Model) list) option" where
  "ModelList_at h a \<equiv> ptr_val un_ModelList ModelList_val h (Some a)"

abbreviation ModelList_reach :: "store \<Rightarrow> addr \<Rightarrow> addr set" where
  "ModelList_reach h a \<equiv> ptr_fp un_ModelList ModelList_fp h (Some a)"

lemma copy_ptr_some: "copy_ptr get mk into (Some a) h = (p, h') \<Longrightarrow> p = Some (length h)"
  by (auto simp: copy_ptr_def alloc_def Let_def split: prod.splits)

text \<open>
  C27. A deep copy is a value. \<open>DeepCopy\<close> of a Model, through whatever pointers, slices and maps its
  metadata, spec and status hold, reads exactly like the Model it copies and shares no cell with it: no
  sequence of writes through the copy, in place into its conditions, maps or anything else, changes what
  the original reads, and none through the original changes the copy. So the base of a status patch is
  still the Model as it was read when the pass has rewritten its conditions.
\<close>

theorem deepcopy_isolates:
  assumes "meta_copy_ok M" and "store_ok h" and "Model_reach h a \<subseteq> {..<length h}"
    and "Model_DeepCopy M (Some a) h = (p, h')"
  shows "\<exists>b. p = Some b \<and> Model_at h' b = Model_at h a \<and> Model_reach h' b \<inter> Model_reach h' a = {} \<and>
    (\<forall>ws. fst ` set ws \<subseteq> Model_reach h' b \<longrightarrow> Model_at (writes ws h') a = Model_at h a) \<and>
    (\<forall>ws. fst ` set ws \<subseteq> Model_reach h' a \<longrightarrow> Model_at (writes ws h') b = Model_at h a)"
proof -
  have "deep_copier (Model_DeepCopy M) (ptr_val un_Model Model_val) (ptr_fp un_Model Model_fp)"
    unfolding Model_DeepCopy_def by (rule ptr_copier [OF Model_copier [OF assms(1)]]) simp_all
  from deep_copier.isolated [OF this assms(2-4)] copy_ptr_some [OF assms(4) [unfolded Model_DeepCopy_def]]
  show ?thesis by auto
qed

text \<open>The same for a list: every Model in it is copied with all it refers to.\<close>

theorem deepcopy_list_isolates:
  assumes "meta_copy_ok M" and "store_ok h" and "ModelList_reach h a \<subseteq> {..<length h}"
    and "ModelList_DeepCopy M (Some a) h = (p, h')"
  shows "\<exists>b. p = Some b \<and> ModelList_at h' b = ModelList_at h a \<and> ModelList_reach h' b \<inter> ModelList_reach h' a = {} \<and>
    (\<forall>ws. fst ` set ws \<subseteq> ModelList_reach h' b \<longrightarrow> ModelList_at (writes ws h') a = ModelList_at h a) \<and>
    (\<forall>ws. fst ` set ws \<subseteq> ModelList_reach h' a \<longrightarrow> ModelList_at (writes ws h') b = ModelList_at h a)"
proof -
  have "deep_copier (ModelList_DeepCopy M) (ptr_val un_ModelList ModelList_val) (ptr_fp un_ModelList ModelList_fp)"
    unfolding ModelList_DeepCopy_def by (rule ptr_copier [OF ModelList_copier [OF assms(1)]]) simp_all
  from deep_copier.isolated [OF this assms(2-4)] copy_ptr_some [OF assms(4) [unfolded ModelList_DeepCopy_def]]
  show ?thesis by auto
qed

lemma deepcopy_object:
  "Model_DeepCopyObject M None h = (None, h)"
  "fst (Model_DeepCopyObject M (Some a) h) = Some (ObjectModel (Some (length h)))"
  "ModelList_DeepCopyObject M None h = (None, h)"
  "fst (ModelList_DeepCopyObject M (Some a) h) = Some (ObjectModelList (Some (length h)))"
  by (auto simp: Model_DeepCopyObject_def ModelList_DeepCopyObject_def Model_DeepCopy_def ModelList_DeepCopy_def
      copy_ptr_def alloc_def Let_def split: prod.splits)

text \<open>A Model whose status holds one condition, and an in-place change of the condition of its copy.\<close>

definition stored_model :: hModel where
  "stored_model =
     \<lparr>hm_TypeMeta = \<lparr>tm_Kind = ''Model'', tm_APIVersion = ''squall.ackstorm.ai/v1alpha1''\<rparr>,
      hm_ObjectMeta = \<lparr>ho_Name = ''qwen'', ho_Namespace = ''a'', ho_UID = ''u'', ho_Annotations = Some 1,
        ho_DeletionTimestamp = None, ho_Finalizers = Some \<lparr>sl_Array = 2, sl_Off = 1, sl_Len = 1\<rparr>\<rparr>,
      hm_Spec = \<lparr>hs_Engine = VLLM, hs_Image = ''i'', hs_Model = [], hs_Features = None, hs_Owner = [], hs_Args = None,
        hs_Env = Some 1, hs_Resources = \<lparr>hr_CPU = None, hr_Memory = [], hr_ShmSize = [], hr_GPU = Some 4, hr_Disk = []\<rparr>,
        hs_SecretEnv = None, hs_Probe = None,
        hs_Placement = \<lparr>hl_Backends = Some \<lparr>sl_Array = 2, sl_Off = 0, sl_Len = 2\<rparr>, hl_Regions = None, hl_MaxPricePerHour = None\<rparr>,
        hs_MinReplicas = 0, hs_HoldTimeout = 0, hs_IdleTimeout = 5 * Minute, hs_UncontrolledTimeout = None,
        hs_Health = \<lparr>mh_UnhealthyAfter = 0, mh_FailureThreshold = 0\<rparr>, hs_DrainTimeout = 0, hs_ProvisioningTimeout = Hour,
        hs_MaxLifetime = 0, hs_HardStop = 0\<rparr>,
      hm_Status = \<lparr>ht_Phase = Asleep, ht_RunID = [], ht_RunName = [], ht_RunUID = [], ht_DeploymentNum = 0, ht_ServiceURL = [],
        ht_Replica = None, ht_ServedModel = [], ht_ForwardModel = [], ht_WakeStartedAt = Some 5, ht_Fleet = None,
        ht_LastRequestAt = None, ht_UncontrolledSince = None, ht_Conditions = Some \<lparr>sl_Array = 3, sl_Off = 0, sl_Len = 1\<rparr>\<rparr>\<rparr>"

definition sample_store :: store where
  "sample_store = [CModel stored_model, CEnv [(''k'', ''v'')], CStrs [''aws'', ''gcp''],
     CConditions [mk_condition ConditionSchedulable CondTrue ReasonSchedulable []],
     CGPU \<lparr>hg_Vendor = [], hg_Name = Some \<lparr>sl_Array = 2, sl_Off = 1, sl_Len = 0\<rparr>, hg_Count = ''1'', hg_Memory = [], hg_TotalMemory = [],
       hg_ComputeCapability = []\<rparr>, CTime Hour]"

definition copied_conditions :: addr where
  "copied_conditions = (case snd (Model_DeepCopy ref_meta_copy (Some 0) sample_store) ! 6 of
     CModel m \<Rightarrow> (case ht_Conditions (hm_Status m) of Some sl \<Rightarrow> sl_Array sl | None \<Rightarrow> 0) | _ \<Rightarrow> 0)"

lemma sample_copy:
  "fst (Model_DeepCopy ref_meta_copy (Some 0) sample_store) = Some 6"
  "copied_conditions \<in> Model_reach (snd (Model_DeepCopy ref_meta_copy (Some 0) sample_store)) 6"
  "Model_reach sample_store 0 \<subseteq> {..<length sample_store}" "store_ok sample_store"
  by code_simp+

theorem deepcopy_isolates_witness:
  "Model_at (writes [(copied_conditions, CConditions [])] (snd (Model_DeepCopy ref_meta_copy (Some 0) sample_store))) 0 =
   Model_at sample_store 0"
proof -
  obtain p h' where c: "Model_DeepCopy ref_meta_copy (Some 0) sample_store = (p, h')"
    by fastforce
  obtain b where b: "p = Some b"
    "\<And>ws. fst ` set ws \<subseteq> Model_reach h' b \<Longrightarrow> Model_at (writes ws h') 0 = Model_at sample_store 0"
    using deepcopy_isolates [OF ref_meta_copy_ok sample_copy(4,3) c] by auto
  show ?thesis
    using b(2) [of "[(copied_conditions, CConditions [])]"] sample_copy(1,2) b(1) c by simp
qed

end
