(* ===== verification/Proxy_Handler.thy ===== *)
theory Proxy_Handler
  imports Proxy_Cache
begin

text \<open>
  squall-proxy's request path (\<open>internal/proxy/handler.go\<close>, \<open>attempt.go\<close>, \<open>hold.go\<close>): reading the
  model name, the blocking hold, the forward with its retries, and the commit. The cache, the
  tracker, the coalescer, the transport and the client's connection are one external state \<open>'s\<close>
  reached through \<open>proxy_env\<close>. What the rest of the system does while a request waits is a list of
  state transformations, one before each time the wait ends with a notification or a tick; the end
  of the list is the deadline or the end of the request's context.
\<close>

section \<open>Requests, answers and the environment\<close>

record http_request =
  rq_Method :: string
  rq_Path :: string
  rq_RawQuery :: string
  rq_Header :: "string list gomap"
  rq_Body :: "string option"

record outbound_request =
  ob_Method :: string
  ob_URL :: string
  ob_Header :: "string list gomap"
  ob_Payload :: string

text \<open>Why the request's context ended: not yet, the caller hung up, or squall's own ceiling.\<close>

datatype ctx_state = CtxLive | CtxClientGone | CtxCeiling

datatype request_outcome = outcomeCommitted | outcomeWaitContract | outcomeImmediate
  | outcomeGatewayAuth | outcomeClientGone | outcomeCeiling

datatype client_answer = NoAnswer | StatusAnswer int | WaitAnswer int WaitState
  | Streamed upstream_response bool

datatype attempt_error = ErrNoBackendURL | ErrBuildRequest | ErrUpstreamStatus int | ErrUpstream
  | ErrHoldDeadline | ErrContext | ErrRequestCeiling | ErrStoppedServing ModelPhase

record request_result =
  rr_outcome :: request_outcome
  rr_answer :: client_answer
  rr_reason :: "attempt_error list"

text \<open>
  A backend resolves a Model to its forward target and the transport to reach it with. One that owns
  its transports answers both in one call, which may change its state (\<open>RouteBackend\<close>); any other
  answers the URL, for the shared default client. A transport is \<open>None\<close> for the default client and
  \<open>Some t\<close> for the client of tunnel \<open>t\<close>.
\<close>

datatype 's backend = RouteBackend "string \<Rightarrow> 's \<Rightarrow> (string \<times> nat option) option \<times> 's"
  | PlainBackend "string \<Rightarrow> 's \<Rightarrow> string option"

text \<open>
  \<open>px_Stream\<close> writes a response to the client and says whether it was delivered whole;
  \<open>px_CanBuild\<close> is whether \<open>http.NewRequestWithContext\<close> accepts the method and URL.
\<close>

record 's proxy_env =
  px_Get :: "'s \<Rightarrow> string \<Rightarrow> ModelSnapshot \<times> bool"
  px_Begin :: "string \<Rightarrow> 's \<Rightarrow> 's"
  px_Done :: "string \<Rightarrow> 's \<Rightarrow> 's"
  px_Success :: "string \<Rightarrow> 's \<Rightarrow> 's"
  px_Failure :: "string \<Rightarrow> 's \<Rightarrow> 's"
  px_Signal :: "string \<Rightarrow> 's \<Rightarrow> 's"
  px_acquirePending :: "string \<Rightarrow> 's \<Rightarrow> bool \<times> 's"
  px_releasePending :: "string \<Rightarrow> 's \<Rightarrow> 's"
  px_Backend :: "'s backend"
  px_Do :: "nat option \<Rightarrow> outbound_request \<Rightarrow> 's \<Rightarrow> upstream_response option \<times> 's"
  px_Stream :: "upstream_response \<Rightarrow> 's \<Rightarrow> bool \<times> 's"
  px_Ctx :: "'s \<Rightarrow> ctx_state"
  px_CanBuild :: "string \<Rightarrow> string \<Rightarrow> bool"
  px_unmarshal :: "string \<Rightarrow> json option"
  px_marshal :: "json \<Rightarrow> string"
  px_DstackToken :: string

section \<open>Reading the request (handler.go, attempt.go)\<close>

text \<open>\<open>None\<close> as the body is a nil body or one that cannot be read.\<close>

definition modelFromRequest :: "(string \<Rightarrow> json option) \<Rightarrow> http_request \<Rightarrow> string \<times> int" where
  "modelFromRequest unmarshal r =
     (case rq_Body r of
        None \<Rightarrow> ([], 400)
      | Some raw \<Rightarrow>
          if maxReplayableBody < length raw then ([], 413)
          else case unmarshal raw of
                 None \<Rightarrow> ([], 400)
               | Some j \<Rightarrow>
                   (case json_fields (Some j) of
                      None \<Rightarrow> ([], 400)
                    | Some kvs \<Rightarrow>
                        (case json_string (json_field kvs ''model'') of
                           None \<Rightarrow> ([], 400)
                         | Some m \<Rightarrow> let m' = TrimSpace m in if m' = [] then ([], 400) else (m', 0))))"

definition readReplayableBody :: "http_request \<Rightarrow> string option \<times> bool" where
  "readReplayableBody r =
     (case rq_Body r of
        None \<Rightarrow> (None, True)
      | Some buf \<Rightarrow> if maxReplayableBody < length buf then (None, False) else (Some buf, True))"

section \<open>One forward (attempt.go)\<close>

definition rewrite_body :: "'s proxy_env \<Rightarrow> string option \<Rightarrow> string \<Rightarrow> string option" where
  "rewrite_body E body served =
     (case body of
        None \<Rightarrow> None
      | Some b \<Rightarrow> map_option (px_marshal E) (rewriteModelField (px_unmarshal E b) served))"

definition outbound :: "'s proxy_env \<Rightarrow> http_request \<Rightarrow> string \<Rightarrow> string option \<Rightarrow> outbound_request" where
  "outbound E r target body =
     (let h = stripHopByHop (header_Del ''Host'' (rq_Header r));
          h' = (if px_DstackToken E \<noteq> [] then header_Set ''Authorization'' (''Bearer '' @ px_DstackToken E) h else h)
      in \<lparr>ob_Method = rq_Method r,
          ob_URL = target @ rq_Path r @ (if rq_RawQuery r \<noteq> [] then ''?'' @ rq_RawQuery r else []),
          ob_Header = h',
          ob_Payload = (case body of Some b \<Rightarrow> b | None \<Rightarrow> (case rq_Body r of Some b \<Rightarrow> b | None \<Rightarrow> []))\<rparr>)"

definition route :: "'s proxy_env \<Rightarrow> string \<Rightarrow> 's \<Rightarrow> (string \<times> nat option) option \<times> 's" where
  "route E model s =
     (case px_Backend E of
        RouteBackend rb \<Rightarrow> rb model s
      | PlainBackend url \<Rightarrow> (map_option (\<lambda>target. (target, None)) (url model s), s))"

definition attemptForward ::
  "'s proxy_env \<Rightarrow> http_request \<Rightarrow> string \<Rightarrow> string option \<Rightarrow> ModelPhase \<Rightarrow> 's \<Rightarrow>
   (attempt_error list + upstream_response) \<times> 's" where
  "attemptForward E r model body phase s0 =
     (case route E model s0 of
        (None, s) \<Rightarrow> (Inl [ErrNoBackendURL], s)
      | (Some (target, fwdClient), s) \<Rightarrow>
          let (snap, ok) = px_Get E s model;
              body1 = (if ok \<and> sn_ForwardModel snap \<noteq> [] \<and> sn_ForwardModel snap \<noteq> model
                       then (case rewrite_body E body (sn_ForwardModel snap) of Some b \<Rightarrow> Some b | None \<Rightarrow> body)
                       else body);
              out = outbound E r target body1
          in if \<not> px_CanBuild E (ob_Method out) (ob_URL out) then (Inl [ErrBuildRequest], s)
             else case px_Do E fwdClient out s of
                    (resp, s1) \<Rightarrow>
                      let body404 = (case resp of
                            Some p \<Rightarrow> if up_StatusCode p = 404 then fst (peekAndRestore p notFoundPeekLimit) else []
                          | None \<Rightarrow> [])
                      in case resp of
                           None \<Rightarrow> (Inl [ErrUpstream], s1)
                         | Some p \<Rightarrow>
                             if classifyAttempt (px_unmarshal E) resp phase body404 = attemptRetry
                             then (Inl [ErrUpstreamStatus (up_StatusCode p)], s1)
                             else (Inr p, s1))"

section \<open>The hold (hold.go)\<close>

text \<open>One tick of the hold: demand again, then a forward unless one committed already.\<close>

definition hold_tick ::
  "'s proxy_env \<Rightarrow> http_request \<Rightarrow> string \<Rightarrow> string option \<Rightarrow> bool \<Rightarrow> upstream_response option \<Rightarrow> 's \<Rightarrow>
   upstream_response option \<times> 's" where
  "hold_tick E r model body replayable committed s =
     (let s1 = px_Signal E model s in
      if committed \<noteq> None \<or> \<not> replayable then (committed, s1)
      else case attemptForward E r model body (sn_Phase (fst (px_Get E s1 model))) s1 of
             (Inr resp, s2) \<Rightarrow> (Some resp, s2)
           | (Inl _, s2) \<Rightarrow> (None, s2))"

definition would_block :: "'s proxy_env \<Rightarrow> 's \<Rightarrow> string \<Rightarrow> bool" where
  "would_block E s model \<longleftrightarrow>
     pa_Block (proxy_Decide (sn_Phase (fst (px_Get E s model))) (snd (px_Get E s model)) 0)"

text \<open>\<open>Await\<close> after its first look: the final snapshot, whether the wait timed out, what committed.\<close>

fun await_loop ::
  "'s proxy_env \<Rightarrow> http_request \<Rightarrow> string \<Rightarrow> string option \<Rightarrow> bool \<Rightarrow> ('s \<Rightarrow> 's) list \<Rightarrow>
   upstream_response option \<Rightarrow> 's \<Rightarrow> (bool \<times> upstream_response option) \<times> 's" where
  "await_loop E r model body replayable [] committed s = ((True, committed), s)"
| "await_loop E r model body replayable (world # ws) committed s =
     (case hold_tick E r model body replayable committed (world s) of
        (committed1, s1) \<Rightarrow>
          if \<not> would_block E s1 model then ((False, committed1), s1)
          else await_loop E r model body replayable ws committed1 s1)"

definition Await ::
  "'s proxy_env \<Rightarrow> http_request \<Rightarrow> string \<Rightarrow> string option \<Rightarrow> bool \<Rightarrow> ('s \<Rightarrow> 's) list \<Rightarrow> 's \<Rightarrow>
   (bool \<times> upstream_response option) \<times> 's" where
  "Await E r model body replayable ws s =
     (case hold_tick E r model body replayable None s of
        (committed, s1) \<Rightarrow>
          if \<not> would_block E s1 model then ((False, committed), s1)
          else await_loop E r model body replayable ws committed s1)"

section \<open>Retries after the hold (handler.go)\<close>

fun retryForward ::
  "'s proxy_env \<Rightarrow> http_request \<Rightarrow> string \<Rightarrow> string option \<Rightarrow> ('s \<Rightarrow> 's) list \<Rightarrow> attempt_error list \<Rightarrow> 's \<Rightarrow>
   (attempt_error list + upstream_response) \<times> 's" where
  "retryForward E r model body [] prev s =
     (if px_Ctx E s \<noteq> CtxLive then (Inl [ErrContext], s) else (Inl (ErrHoldDeadline # prev), s))"
| "retryForward E r model body (world # ws) prev s =
     (let s1 = px_Signal E model (world s);
          (snap, hasCR) = px_Get E s1 model
      in if pa_ImmediateStatus (proxy_Decide (sn_Phase snap) hasCR 0) \<noteq> 0
         then (Inl [ErrStoppedServing (sn_Phase snap)], s1)
         else case attemptForward E r model body (sn_Phase snap) s1 of
                (Inr resp, s2) \<Rightarrow> (Inr resp, s2)
              | (Inl err, s2) \<Rightarrow> retryForward E r model body ws err s2)"

section \<open>Commit (handler.go)\<close>

definition commit :: "'s proxy_env \<Rightarrow> upstream_response \<Rightarrow> string \<Rightarrow> 's \<Rightarrow> request_result \<times> 's" where
  "commit E resp model s =
     (if up_StatusCode resp = 403
      then (\<lparr>rr_outcome = outcomeGatewayAuth,
             rr_answer = StatusAnswer (pa_ImmediateStatus (proxy_Decide Ready True (up_StatusCode resp))),
             rr_reason = []\<rparr>, s)
      else case px_Stream E (resp\<lparr>up_Header := stripHopByHop (up_Header resp)\<rparr>) s of
             (delivered, s1) \<Rightarrow>
               let res = \<lparr>rr_outcome = outcomeCommitted, rr_answer = Streamed resp delivered, rr_reason = []\<rparr>
               in if \<not> delivered
                  then (if px_Ctx E s1 = CtxCeiling
                        then res\<lparr>rr_outcome := outcomeCeiling, rr_reason := [ErrRequestCeiling]\<rparr> else res, s1)
                  else if 200 \<le> up_StatusCode resp \<and> up_StatusCode resp < 300
                  then (res, px_Success E model s1)
                  else (res, px_Failure E model s1))"

section \<open>ServeHTTP (handler.go)\<close>

definition wait_result :: "int \<Rightarrow> WaitState \<Rightarrow> request_outcome \<Rightarrow> attempt_error list \<Rightarrow> request_result" where
  "wait_result status state oc reason =
     \<lparr>rr_outcome = oc, rr_answer = WaitAnswer status state, rr_reason = reason\<rparr>"

text \<open>The \<open>Forward\<close> case; \<open>held\<close> says whether the request waited before.\<close>

definition serve_forward ::
  "'s proxy_env \<Rightarrow> http_request \<Rightarrow> string \<Rightarrow> string option \<Rightarrow> bool \<Rightarrow> bool \<Rightarrow> ModelPhase \<Rightarrow> ('s \<Rightarrow> 's) list \<Rightarrow> 's \<Rightarrow>
   request_result \<times> 's" where
  "serve_forward E r model body replayable held phase ws s =
     (case (case attemptForward E r model body phase s of
              (Inl err, s1) \<Rightarrow>
                if held \<and> replayable then retryForward E r model body ws [] s1 else (Inl err, s1)
            | (Inr resp, s1) \<Rightarrow> (Inr resp, s1)) of
        (Inr resp, s1) \<Rightarrow> commit E resp model s1
      | (Inl ferr, s1) \<Rightarrow>
          if px_Ctx E s1 = CtxClientGone
          then (\<lparr>rr_outcome = outcomeClientGone, rr_answer = NoAnswer, rr_reason = [ErrContext]\<rparr>, s1)
          else if px_Ctx E s1 = CtxCeiling then (wait_result 503 WaitWaking outcomeCeiling [ErrRequestCeiling], s1)
          else
            let s2 = (if ErrNoBackendURL \<in> set ferr then s1 else px_Failure E model s1)
            in (wait_result 503 WaitWaking outcomeWaitContract ferr, s2))"

text \<open>The request once the Model is known or not and the tracker was told.\<close>

definition serve_action ::
  "'s proxy_env \<Rightarrow> http_request \<Rightarrow> string \<Rightarrow> string option \<Rightarrow> bool \<Rightarrow> bool \<Rightarrow> ModelPhase \<Rightarrow> bool \<Rightarrow> ('s \<Rightarrow> 's) list \<Rightarrow> 's \<Rightarrow>
   request_result \<times> 's" where
  "serve_action E r model body replayable held phase hasCR ws s =
     (let action = proxy_Decide phase hasCR 0 in
      if pa_Forward action then serve_forward E r model body replayable held phase ws s
      else if pa_ImmediateStatus action \<noteq> 0
      then (\<lparr>rr_outcome = outcomeImmediate, rr_answer = StatusAnswer (pa_ImmediateStatus action), rr_reason = []\<rparr>, s)
      else (\<lparr>rr_outcome = outcomeImmediate, rr_answer = StatusAnswer 500, rr_reason = []\<rparr>, s))"

definition serve_hold ::
  "'s proxy_env \<Rightarrow> http_request \<Rightarrow> string \<Rightarrow> string option \<Rightarrow> bool \<Rightarrow> ('s \<Rightarrow> 's) list \<Rightarrow> ('s \<Rightarrow> 's) list \<Rightarrow> 's \<Rightarrow>
   request_result \<times> 's" where
  "serve_hold E r model body replayable ws retries s =
     (case Await E r model body replayable ws s of
        ((timedOut, committed), s1) \<Rightarrow>
          (case committed of
             Some resp \<Rightarrow> commit E resp model s1
           | None \<Rightarrow>
               if px_Ctx E s1 = CtxCeiling then (wait_result 503 WaitWaking outcomeCeiling [ErrRequestCeiling], s1)
               else
                 let (snap, hasCR) = px_Get E s1 model;
                     action = proxy_Decide (sn_Phase snap) hasCR 0
                 in if pa_Block action
                    then (wait_result (pa_DeadlineStatus action) (pa_DeadlineState action) outcomeWaitContract [], s1)
                    else serve_action E r model body replayable True (sn_Phase snap) hasCR retries s1))"

definition serve_known ::
  "'s proxy_env \<Rightarrow> http_request \<Rightarrow> string \<Rightarrow> ModelSnapshot \<Rightarrow> bool \<Rightarrow> ('s \<Rightarrow> 's) list \<Rightarrow> ('s \<Rightarrow> 's) list \<Rightarrow> 's \<Rightarrow>
   request_result \<times> 's" where
  "serve_known E r model snap hasCR ws retries s =
     (let action = proxy_Decide (sn_Phase snap) hasCR 0;
          (body, replayable) = readReplayableBody r
      in if pa_Block action \<and> hasCR \<and> \<not> sn_Schedulable snap
         then (wait_result 503 WaitAsleep outcomeWaitContract [],
               if pa_DemandPatch action then px_Signal E model s else s)
         else if pa_Block action
         then (case px_acquirePending E model s of
                 (False, s1) \<Rightarrow>
                   (wait_result (pa_DeadlineStatus action) (pa_DeadlineState action) outcomeWaitContract [], s1)
               | (True, s1) \<Rightarrow>
                   (case serve_hold E r model body replayable ws retries s1 of
                      (res, s2) \<Rightarrow> (res, px_releasePending E model s2)))
         else serve_action E r model body replayable False (sn_Phase snap) hasCR [] s)"

definition ServeHTTP ::
  "'s proxy_env \<Rightarrow> http_request \<Rightarrow> ('s \<Rightarrow> 's) list \<Rightarrow> ('s \<Rightarrow> 's) list \<Rightarrow> 's \<Rightarrow> request_result \<times> 's" where
  "ServeHTTP E r ws retries s =
     (case modelFromRequest (px_unmarshal E) r of
        (model, errStatus) \<Rightarrow>
          if errStatus \<noteq> 0
          then (\<lparr>rr_outcome = outcomeImmediate, rr_answer = StatusAnswer errStatus, rr_reason = []\<rparr>, s)
          else
            let (snap, hasCR) = px_Get E s model
            in if \<not> hasCR then serve_known E r model snap hasCR ws retries s
               else case serve_known E r model snap hasCR ws retries (px_Begin E model s) of
                      (res, s1) \<Rightarrow> (res, px_Done E model s1))"

section \<open>Held capacity (handler.go)\<close>

text \<open>Reading a missing key gives zero.\<close>

definition pending_of :: "int gomap \<Rightarrow> string \<Rightarrow> int" where
  "pending_of pending model = (case gomap_get pending model of Some k \<Rightarrow> k | None \<Rightarrow> 0)"

definition acquirePending :: "int \<Rightarrow> string \<Rightarrow> int gomap \<Rightarrow> bool \<times> int gomap" where
  "acquirePending maxPending model pending =
     (if maxPending \<le> 0 then (True, pending)
      else if maxPending \<le> pending_of pending model then (False, pending)
      else (True, gomap_put model (pending_of pending model + 1) pending))"

definition releasePending :: "int \<Rightarrow> string \<Rightarrow> int gomap \<Rightarrow> int gomap" where
  "releasePending maxPending model pending =
     (if maxPending \<le> 0 then pending
      else gomap_put model (pending_of pending model - 1) pending)"

section \<open>Traced requests\<close>

datatype proxy_call = PcBegin string | PcDone string | PcSuccess string | PcFailure string
  | PcSignal string | PcForward "nat option" outbound_request "upstream_response option"
  | PcStream upstream_response bool

definition mark :: "proxy_call \<Rightarrow> ('s \<Rightarrow> 's) \<Rightarrow> 's \<times> proxy_call list \<Rightarrow> 's \<times> proxy_call list" where
  "mark c f st = (f (fst st), snd st @ [c])"

fun traced_backend :: "'s backend \<Rightarrow> ('s \<times> proxy_call list) backend" where
  "traced_backend (RouteBackend rb) = RouteBackend (\<lambda>m st. (case rb m (fst st) of (x, s) \<Rightarrow> (x, (s, snd st))))"
| "traced_backend (PlainBackend url) = PlainBackend (\<lambda>m st. url m (fst st))"

definition traced_proxy :: "'s proxy_env \<Rightarrow> ('s \<times> proxy_call list) proxy_env" where
  "traced_proxy E =
     \<lparr>px_Get = \<lambda>st. px_Get E (fst st), px_Begin = \<lambda>m. mark (PcBegin m) (px_Begin E m),
      px_Done = \<lambda>m. mark (PcDone m) (px_Done E m), px_Success = \<lambda>m. mark (PcSuccess m) (px_Success E m),
      px_Failure = \<lambda>m. mark (PcFailure m) (px_Failure E m), px_Signal = \<lambda>m. mark (PcSignal m) (px_Signal E m),
      px_acquirePending = \<lambda>m st. (case px_acquirePending E m (fst st) of (b, s) \<Rightarrow> (b, (s, snd st))),
      px_releasePending = \<lambda>m st. (px_releasePending E m (fst st), snd st),
      px_Backend = traced_backend (px_Backend E),
      px_Do = \<lambda>c q st. (case px_Do E c q (fst st) of (p, s) \<Rightarrow> (p, (s, snd st @ [PcForward c q p]))),
      px_Stream = \<lambda>p st. (case px_Stream E p (fst st) of (d, s) \<Rightarrow> (d, (s, snd st @ [PcStream p d]))),
      px_Ctx = \<lambda>st. px_Ctx E (fst st), px_CanBuild = px_CanBuild E, px_unmarshal = px_unmarshal E,
      px_marshal = px_marshal E, px_DstackToken = px_DstackToken E\<rparr>"

lemma traced_proxy_simps [simp]:
  "px_Get (traced_proxy E) (s, l) = px_Get E s"
  "px_Begin (traced_proxy E) m (s, l) = (px_Begin E m s, l @ [PcBegin m])"
  "px_Done (traced_proxy E) m (s, l) = (px_Done E m s, l @ [PcDone m])"
  "px_Success (traced_proxy E) m (s, l) = (px_Success E m s, l @ [PcSuccess m])"
  "px_Failure (traced_proxy E) m (s, l) = (px_Failure E m s, l @ [PcFailure m])"
  "px_Signal (traced_proxy E) m (s, l) = (px_Signal E m s, l @ [PcSignal m])"
  "px_acquirePending (traced_proxy E) m (s, l) = (fst (px_acquirePending E m s), (snd (px_acquirePending E m s), l))"
  "px_releasePending (traced_proxy E) m (s, l) = (px_releasePending E m s, l)"
  "px_Do (traced_proxy E) c q (s, l) =
     (fst (px_Do E c q s), (snd (px_Do E c q s), l @ [PcForward c q (fst (px_Do E c q s))]))"
  "px_Stream (traced_proxy E) p (s, l) = (fst (px_Stream E p s), (snd (px_Stream E p s), l @ [PcStream p (fst (px_Stream E p s))]))"
  "px_Ctx (traced_proxy E) (s, l) = px_Ctx E s" "px_CanBuild (traced_proxy E) = px_CanBuild E"
  "px_unmarshal (traced_proxy E) = px_unmarshal E" "px_marshal (traced_proxy E) = px_marshal E"
  "px_DstackToken (traced_proxy E) = px_DstackToken E"
  by (simp_all add: traced_proxy_def mark_def split: prod.split)

lemma route_traced [simp]: "route (traced_proxy E) m (s, l) = (fst (route E m s), (snd (route E m s), l))"
  by (cases "px_Backend E") (simp_all add: route_def traced_proxy_def split: prod.split)

lemma outbound_traced [simp]: "outbound (traced_proxy E) = outbound E"
  by (intro ext) (simp add: outbound_def Let_def)

definition lift_world :: "('s \<Rightarrow> 's) \<Rightarrow> 's \<times> proxy_call list \<Rightarrow> 's \<times> proxy_call list" where
  "lift_world w st = (w (fst st), snd st)"

definition serve_trace ::
  "'s proxy_env \<Rightarrow> http_request \<Rightarrow> ('s \<Rightarrow> 's) list \<Rightarrow> ('s \<Rightarrow> 's) list \<Rightarrow> 's \<Rightarrow> request_result \<times> 's \<times> proxy_call list" where
  "serve_trace E r ws retries s =
     ServeHTTP (traced_proxy E) r (map lift_world ws) (map lift_world retries) (s, [])"

definition serve_calls ::
  "'s proxy_env \<Rightarrow> http_request \<Rightarrow> ('s \<Rightarrow> 's) list \<Rightarrow> ('s \<Rightarrow> 's) list \<Rightarrow> 's \<Rightarrow> proxy_call list" where
  "serve_calls E r ws retries s = snd (snd (serve_trace E r ws retries s))"

definition serve_result ::
  "'s proxy_env \<Rightarrow> http_request \<Rightarrow> ('s \<Rightarrow> 's) list \<Rightarrow> ('s \<Rightarrow> 's) list \<Rightarrow> 's \<Rightarrow> request_result" where
  "serve_result E r ws retries s = fst (serve_trace E r ws retries s)"

section \<open>Which calls each step makes\<close>

definition extends :: "(proxy_call \<Rightarrow> bool) \<Rightarrow> proxy_call list \<Rightarrow> proxy_call list \<Rightarrow> bool" where
  "extends P l l' \<longleftrightarrow> (\<exists>cs. l' = l @ cs \<and> list_all P cs)"

lemma extends_refl [simp]: "extends P l l" by (simp add: extends_def)

lemma extends_snoc [simp]: "P c \<Longrightarrow> extends P l (l @ [c])" by (simp add: extends_def)

lemma extends_trans: "extends P l l' \<Longrightarrow> extends P l' l'' \<Longrightarrow> extends P l l''"
  by (auto simp: extends_def)

lemma extends_mono: "extends P l l' \<Longrightarrow> (\<And>c. P c \<Longrightarrow> Q c) \<Longrightarrow> extends Q l l'"
  by (auto simp: extends_def list_all_iff)

lemma extends_filter: "extends P l l' \<Longrightarrow> (\<And>c. P c \<Longrightarrow> \<not> Q c) \<Longrightarrow> filter Q l' = filter Q l"
  by (auto simp: extends_def list_all_iff)

fun quiet_call :: "proxy_call \<Rightarrow> bool" where
  "quiet_call (PcSignal _) \<longleftrightarrow> True" | "quiet_call (PcForward _ _ _) \<longleftrightarrow> True" | "quiet_call _ \<longleftrightarrow> False"

fun verdict_call :: "proxy_call \<Rightarrow> bool" where
  "verdict_call (PcSuccess _) \<longleftrightarrow> True" | "verdict_call (PcFailure _) \<longleftrightarrow> True" | "verdict_call _ \<longleftrightarrow> False"

fun bracket_call :: "proxy_call \<Rightarrow> bool" where
  "bracket_call (PcBegin _) \<longleftrightarrow> True" | "bracket_call (PcDone _) \<longleftrightarrow> True" | "bracket_call _ \<longleftrightarrow> False"

lemma quiet_not_verdict: "quiet_call c \<Longrightarrow> \<not> verdict_call c" by (cases c) auto

lemma hold_tick_state:
  "snd (hold_tick E r m b rp co s) =
     (if co \<noteq> None \<or> \<not> rp then px_Signal E m s
      else snd (attemptForward E r m b (sn_Phase (fst (px_Get E (px_Signal E m s) m))) (px_Signal E m s)))"
  by (simp add: hold_tick_def Let_def split: prod.split sum.split)

text \<open>
  The hold and the retries only signal demand and forward, and they forward exactly what \<open>route\<close>
  resolved: a property of the calls that holds of the demand signal and of each such forward holds
  of every call they add.
\<close>

locale forward_calls =
  fixes E :: "'s proxy_env" and r :: http_request and m :: string and P :: "proxy_call \<Rightarrow> bool"
  assumes signal: "P (PcSignal m)"
    and forward: "fst (route E m s) = Some (u, c) \<Longrightarrow> P (PcForward c (outbound E r u b) p)"
begin

lemma attempt_calls:
  "extends P (snd st) (snd (snd (attemptForward (traced_proxy E) r m b ph st)))"
proof -
  obtain s l where st: "st = (s, l)" by fastforce
  show ?thesis
  proof (cases "fst (route E m s)")
    case None
    then show ?thesis by (simp add: attemptForward_def st)
  next
    case (Some x)
    obtain u c where x: "x = (u, c)" by fastforce
    note fwd = forward [OF Some [unfolded x]]
    show ?thesis using fwd Some x by (auto simp: attemptForward_def st Let_def split: option.split prod.split)
  qed
qed

lemma hold_tick_calls: "extends P (snd st) (snd (snd (hold_tick (traced_proxy E) r m b rp co st)))"
  using signal by (cases st) (auto simp: hold_tick_state intro: extends_trans [OF _ attempt_calls])

lemma await_loop_calls:
  "extends P (snd st) (snd (snd (await_loop (traced_proxy E) r m b rp (map lift_world ws) co st)))"
proof (induction ws arbitrary: co st)
  case (Cons w ws)
  obtain co1 st1 where tick: "hold_tick (traced_proxy E) r m b rp co (lift_world w st) = (co1, st1)" by (rule prod.exhaust)
  have "extends P (snd st) (snd st1)"
    using hold_tick_calls [of "lift_world w st" b rp co] tick by (simp add: lift_world_def)
  with Cons.IH [of st1 co1] tick show ?case by (auto intro: extends_trans)
qed simp

lemma Await_calls: "extends P (snd st) (snd (snd (Await (traced_proxy E) r m b rp (map lift_world ws) st)))"
proof -
  obtain co1 st1 where tick: "hold_tick (traced_proxy E) r m b rp None st = (co1, st1)" by (rule prod.exhaust)
  have "extends P (snd st) (snd st1)"
    using hold_tick_calls [of st b rp None] tick by simp
  with await_loop_calls [of st1 b rp ws co1] tick show ?thesis
    by (auto simp: Await_def intro: extends_trans)
qed

lemma retry_calls:
  "extends P (snd st) (snd (snd (retryForward (traced_proxy E) r m b (map lift_world ws) prev st)))"
proof (induction ws arbitrary: prev st)
  case Nil
  then show ?case by simp
next
  case (Cons w ws)
  define st1 where "st1 = px_Signal (traced_proxy E) m (lift_world w st)"
  have sg: "extends P (snd st) (snd st1)"
    using signal by (cases st) (simp add: st1_def lift_world_def)
  obtain snap cr where get: "px_Get (traced_proxy E) st1 m = (snap, cr)" by fastforce
  obtain a st2 where at: "attemptForward (traced_proxy E) r m b (sn_Phase snap) st1 = (a, st2)" by (rule prod.exhaust)
  have st2: "extends P (snd st) (snd st2)"
    using extends_trans [OF sg] attempt_calls [of st1 b "sn_Phase snap"] at by simp
  show ?case
    using sg st2 extends_trans [OF st2 Cons.IH] get at
    by (cases a) (auto simp: Let_def st1_def [symmetric])
qed

end

interpretation quiet: forward_calls E r m quiet_call for E r m
  by unfold_locales simp_all

text \<open>A property of the forwards alone holds of every call of the whole request.\<close>

fun is_forward :: "proxy_call \<Rightarrow> bool" where
  "is_forward (PcForward _ _ _) \<longleftrightarrow> True" | "is_forward _ \<longleftrightarrow> False"

locale request_calls = forward_calls +
  assumes rest: "\<not> is_forward c \<Longrightarrow> P c"
begin

lemma commit_calls: "extends P (snd st) (snd (snd (commit (traced_proxy E) resp m st)))"
  by (cases st) (auto simp: commit_def extends_def rest Let_def)

lemma serve_forward_calls:
  "extends P (snd st) (snd (snd (serve_forward (traced_proxy E) r m b rp held ph (map lift_world ws) st)))"
proof -
  let ?E = "traced_proxy E"
  obtain a0 st0 where a0: "attemptForward ?E r m b ph st = (a0, st0)" by (rule prod.exhaust)
  obtain a1 st1 where a1: "retryForward ?E r m b (map lift_world ws) [] st0 = (a1, st1)" by (rule prod.exhaust)
  have q0: "extends P (snd st) (snd st0)" using attempt_calls [of st b ph] a0 by simp
  have q1: "extends P (snd st) (snd st1)"
    using extends_trans [OF q0 retry_calls, of b ws "[]"] a1 by simp
  have failed: "extends P (snd st) (snd (px_Failure ?E m x))" if "extends P (snd st) (snd x)" for x
    using extends_trans [OF that, of "snd (px_Failure ?E m x)"] by (cases x) (auto simp: extends_def rest)
  show ?thesis
    using q0 q1 failed [OF q0] failed [OF q1] extends_trans [OF q0 commit_calls] extends_trans [OF q1 commit_calls]
    by (auto simp: serve_forward_def a0 a1 Let_def split: sum.split)
qed

lemma serve_action_calls:
  "extends P (snd st) (snd (snd (serve_action (traced_proxy E) r m b rp held ph cr (map lift_world ws) st)))"
  by (simp add: serve_action_def Let_def serve_forward_calls)

lemma serve_hold_calls:
  "extends P (snd st) (snd (snd (serve_hold (traced_proxy E) r m b rp (map lift_world ws) (map lift_world rs) st)))"
proof -
  obtain t co st1 where aw: "Await (traced_proxy E) r m b rp (map lift_world ws) st = ((t, co), st1)"
    by (metis prod.exhaust)
  have q: "extends P (snd st) (snd st1)" using Await_calls [of st b rp ws] aw by simp
  show ?thesis using q extends_trans [OF q commit_calls] extends_trans [OF q serve_action_calls]
    by (auto simp: serve_hold_def aw Let_def split: option.split prod.split)
qed

lemma serve_known_calls:
  "extends P (snd st) (snd (snd (serve_known (traced_proxy E) r m snap cr (map lift_world ws) (map lift_world rs) st)))"
proof -
  obtain b rp where body: "readReplayableBody r = (b, rp)" by fastforce
  obtain s l where st: "st = (s, l)" by fastforce
  obtain ok s1 where acq: "px_acquirePending E m s = (ok, s1)" by fastforce
  obtain res s2 l2 where hold: "serve_hold (traced_proxy E) r m b rp (map lift_world ws) (map lift_world rs) (s1, l) = (res, (s2, l2))"
    by (metis prod_cases3)
  have "extends P l l2" using serve_hold_calls [of "(s1, l)" b rp ws rs] hold by simp
  moreover have "extends P l (l @ [PcSignal m])" using signal by simp
  ultimately show ?thesis
    using serve_action_calls [of "(s, l)" b rp False "sn_Phase snap" cr "[]"]
    by (auto simp: serve_known_def st body acq hold Let_def split: bool.split)
qed

end

section \<open>The health verdict of a request\<close>

text \<open>
  What a request may tell the tracker, from its result: a response delivered whole is a success or
  a failure by its status; a wait answer is a failure at most when the forward was tried, the caller
  was still there and the proxy had a route; anything else says nothing about the replica.
\<close>

definition expected_verdict :: "string \<Rightarrow> request_result \<Rightarrow> proxy_call list" where
  "expected_verdict m res =
     (case rr_answer res of
        Streamed p delivered \<Rightarrow>
          if \<not> delivered then []
          else if 200 \<le> up_StatusCode p \<and> up_StatusCode p < 300 then [PcSuccess m] else [PcFailure m]
      | WaitAnswer status w \<Rightarrow>
          if rr_outcome res = outcomeWaitContract \<and> rr_reason res \<noteq> [] \<and> ErrNoBackendURL \<notin> set (rr_reason res)
          then [PcFailure m] else []
      | _ \<Rightarrow> [])"

definition served :: "string \<Rightarrow> proxy_call list \<Rightarrow> request_result \<times> 's \<times> proxy_call list \<Rightarrow> bool" where
  "served m l p \<longleftrightarrow>
     (\<exists>cs. snd (snd p) = l @ cs \<and> list_all (\<lambda>c. \<not> bracket_call c) cs \<and>
        filter verdict_call cs = expected_verdict m (fst p))"

lemma quiet_not_bracket: "quiet_call c \<Longrightarrow> \<not> bracket_call c" by (cases c) auto

lemma served_after_quiet:
  assumes "extends quiet_call l l1" and "served m l1 p"
  shows "served m l p"
proof -
  obtain cs where cs: "l1 = l @ cs" "list_all quiet_call cs" using assms(1) by (auto simp: extends_def)
  obtain ds where ds: "snd (snd p) = l1 @ ds" "list_all (\<lambda>c. \<not> bracket_call c) ds"
      "filter verdict_call ds = expected_verdict m (fst p)"
    using assms(2) by (auto simp: served_def)
  have "filter verdict_call cs = []" using cs(2) by (auto simp: list_all_iff quiet_not_verdict filter_empty_conv)
  moreover have "list_all (\<lambda>c. \<not> bracket_call c) cs" using cs(2) by (auto simp: list_all_iff quiet_not_bracket)
  ultimately show ?thesis using cs(1) ds by (auto simp: served_def intro: exI [of _ "cs @ ds"])
qed

lemma served_refl: "expected_verdict m res = [] \<Longrightarrow> served m (snd st) (res, st)"
  by (simp add: served_def)

lemma commit_served: "served m (snd st) (commit (traced_proxy E) resp m st)"
  by (cases st) (auto simp: commit_def served_def expected_verdict_def Let_def)

lemma attempt_error_reported: "attemptForward E r m b ph s = (Inl e, s') \<Longrightarrow> e \<noteq> []"
  by (auto simp: attemptForward_def Let_def split: option.splits prod.splits if_splits)

lemma retry_error_reported: "retryForward E r m b ws prev s = (Inl e, s') \<Longrightarrow> e \<noteq> []"
  by (induction E r m b ws prev s rule: retryForward.induct)
    (auto simp: Let_def split: if_splits prod.splits sum.splits)

lemma serve_forward_served:
  "served m (snd st) (serve_forward (traced_proxy E) r m b rp held ph (map lift_world ws) st)"
proof -
  let ?E = "traced_proxy E"
  obtain a0 st0 where a0: "attemptForward ?E r m b ph st = (a0, st0)" by (rule prod.exhaust)
  define att where "att = (case a0 of
      Inl err \<Rightarrow> if held \<and> rp then retryForward ?E r m b (map lift_world ws) [] st0 else (Inl err, st0)
    | Inr resp \<Rightarrow> (Inr resp, st0))"
  obtain a st1 where a: "att = (a, st1)" by (rule prod.exhaust)
  have q0: "extends quiet_call (snd st) (snd st0)" using quiet.attempt_calls [of st E r m b ph] a0 by simp
  have q: "extends quiet_call (snd st) (snd st1)"
    using q0 extends_trans [OF q0 quiet.retry_calls, of E r m b ws "[]"] a
    by (auto simp: att_def split: sum.splits if_splits)
  have eq: "serve_forward ?E r m b rp held ph (map lift_world ws) st =
      (case a of Inr resp \<Rightarrow> commit ?E resp m st1
       | Inl ferr \<Rightarrow>
          if px_Ctx ?E st1 = CtxClientGone
          then (\<lparr>rr_outcome = outcomeClientGone, rr_answer = NoAnswer, rr_reason = [ErrContext]\<rparr>, st1)
          else if px_Ctx ?E st1 = CtxCeiling then (wait_result 503 WaitWaking outcomeCeiling [ErrRequestCeiling], st1)
          else (wait_result 503 WaitWaking outcomeWaitContract ferr,
                if ErrNoBackendURL \<in> set ferr then st1 else px_Failure ?E m st1))"
    using a by (simp add: serve_forward_def a0 att_def Let_def split: sum.split)
  show ?thesis
  proof (rule served_after_quiet [OF q])
    show "served m (snd st1) (serve_forward ?E r m b rp held ph (map lift_world ws) st)"
    proof (cases a)
      case (Inl ferr)
      have "ferr \<noteq> []"
        using a Inl a0 by (auto simp: att_def split: sum.splits if_splits
            dest: attempt_error_reported retry_error_reported)
      with Inl show ?thesis
        unfolding eq by (cases st1) (auto simp: served_def expected_verdict_def wait_result_def)
    next
      case (Inr resp)
      then show ?thesis unfolding eq using commit_served by simp
    qed
  qed
qed

lemma serve_action_served:
  "served m (snd st) (serve_action (traced_proxy E) r m b rp held ph cr (map lift_world ws) st)"
  by (auto simp: serve_action_def Let_def serve_forward_served intro!: served_refl)
    (auto simp: expected_verdict_def)

lemma serve_hold_served:
  "served m (snd st) (serve_hold (traced_proxy E) r m b rp (map lift_world ws) (map lift_world rs) st)"
proof -
  obtain t co st1 where aw: "Await (traced_proxy E) r m b rp (map lift_world ws) st = ((t, co), st1)"
    by (metis prod.exhaust)
  have "extends quiet_call (snd st) (snd st1)"
    using quiet.Await_calls [of st E r m b rp ws] aw by simp
  moreover have "served m (snd st1)
      (serve_hold (traced_proxy E) r m b rp (map lift_world ws) (map lift_world rs) st)"
    by (auto simp: serve_hold_def aw Let_def commit_served serve_action_served
        split: option.split prod.split intro!: served_refl)
      (auto simp: expected_verdict_def wait_result_def)
  ultimately show ?thesis by (rule served_after_quiet)
qed

lemma serve_known_served:
  "served m (snd st) (serve_known (traced_proxy E) r m snap cr (map lift_world ws) (map lift_world rs) st)"
proof -
  obtain b rp where body: "readReplayableBody r = (b, rp)" by fastforce
  obtain s l where st: "st = (s, l)" by fastforce
  obtain ok s1 where acq: "px_acquirePending E m s = (ok, s1)" by fastforce
  obtain res s2 l2 where hold: "serve_hold (traced_proxy E) r m b rp (map lift_world ws) (map lift_world rs) (s1, l) = (res, (s2, l2))"
    by (metis prod_cases3)
  have "served m l (res, (s2, l2))" using serve_hold_served [of m "(s1, l)" E r b rp ws rs] hold by simp
  then have rel: "served m l (res, (px_releasePending E m s2, l2))" by (simp add: served_def)
  have sig: "served m l (wait_result 503 WaitAsleep outcomeWaitContract [], (px_Signal E m s, l @ [PcSignal m]))"
    "served m l (wait_result 503 WaitAsleep outcomeWaitContract [], (s, l))"
    "served m l (wait_result n w outcomeWaitContract [], (s1, l))" for n w
    by (auto simp: served_def expected_verdict_def wait_result_def)
  show ?thesis
    using serve_action_served [of m "(s, l)" E r b rp False "sn_Phase snap" cr "[]"]
    by (auto simp: serve_known_def st body acq hold rel sig Let_def split: bool.split)
qed

section \<open>Properties\<close>

text \<open>
  C4. Every request the proxy works on is visible to the sleep decision, for its whole life, and
  tells the tracker about the replica only what it learnt. A request for a Model the cache knows is
  recorded as begun before its first signal and forward and as done after its last step, exactly
  once each, whatever the cache, the gateway and the client do meanwhile; a request for any other
  name, or with no name, makes no call at all. In between at most one verdict is recorded: success
  for a 2xx delivered whole, failure for another status delivered whole or for a wait answer after
  a forward that failed with the caller still connected and a route configured. A caller that hung
  up, the proxy's own ceiling, a gateway 403 and a missing route are never charged to the replica.
\<close>

theorem serve_request_trace:
  "(case modelFromRequest (px_unmarshal E) r of
      (m, err) \<Rightarrow>
        if err \<noteq> 0 \<or> \<not> snd (px_Get E s m) then serve_calls E r ws rs s = []
        else \<exists>mid. serve_calls E r ws rs s = PcBegin m # mid @ [PcDone m] \<and>
               list_all (\<lambda>c. \<not> bracket_call c) mid \<and>
               filter verdict_call mid = expected_verdict m (serve_result E r ws rs s))"
proof -
  obtain m err where req: "modelFromRequest (px_unmarshal E) r = (m, err)" by fastforce
  obtain snap cr where get: "px_Get E s m = (snap, cr)" by fastforce
  show ?thesis
  proof (cases "err \<noteq> 0 \<or> \<not> cr")
    case True
    then show ?thesis
      by (auto simp: req get serve_calls_def serve_trace_def ServeHTTP_def serve_known_def
          serve_action_def proxy_Decide_def Let_def split: prod.split)
  next
    case False
    obtain res s1 l1 where known: "serve_known (traced_proxy E) r m snap cr (map lift_world ws)
        (map lift_world rs) (px_Begin E m s, [PcBegin m]) = (res, (s1, l1))"
      by (metis prod_cases3)
    have "served m [PcBegin m] (res, (s1, l1))"
      using serve_known_served [of m "(px_Begin E m s, [PcBegin m])" E r snap cr ws rs] known by simp
    then obtain cs where "l1 = PcBegin m # cs" "list_all (\<lambda>c. \<not> bracket_call c) cs"
        "filter verdict_call cs = expected_verdict m res"
      by (auto simp: served_def)
    then show ?thesis
      using False known
      by (simp add: req get serve_calls_def serve_result_def serve_trace_def ServeHTTP_def)
  qed
qed

lemma hold_tick_signals:
  "extends quiet_call (snd st @ [PcSignal m]) (snd (snd (hold_tick (traced_proxy E) r m b rp co st)))"
proof (cases st)
  case (Pair s l)
  show ?thesis
    using quiet.attempt_calls [of "(px_Signal E m s, l @ [PcSignal m])" E r m b]
    by (simp add: Pair hold_tick_state)
qed

lemma Await_signals:
  "extends quiet_call (snd st @ [PcSignal m]) (snd (snd (Await (traced_proxy E) r m b rp (map lift_world ws) st)))"
proof -
  obtain co1 st1 where tick: "hold_tick (traced_proxy E) r m b rp None st = (co1, st1)" by (rule prod.exhaust)
  have "extends quiet_call (snd st @ [PcSignal m]) (snd st1)"
    using hold_tick_signals [of st m E r b rp None] tick by simp
  with quiet.await_loop_calls [of st1 E r m b rp ws co1] tick show ?thesis
    by (auto simp: Await_def intro: extends_trans)
qed

lemma serve_hold_signals:
  "\<exists>rest. snd (snd (serve_hold (traced_proxy E) r m b rp (map lift_world ws) (map lift_world rs) st)) =
     snd st @ PcSignal m # rest"
proof -
  obtain t co st1 where aw: "Await (traced_proxy E) r m b rp (map lift_world ws) st = ((t, co), st1)"
    by (metis prod.exhaust)
  obtain cs where "snd st1 = snd st @ PcSignal m # cs"
    using Await_signals [of st m E r b rp ws] aw by (auto simp: extends_def)
  moreover have "served m (snd st1)
      (serve_hold (traced_proxy E) r m b rp (map lift_world ws) (map lift_world rs) st)"
    by (auto simp: serve_hold_def aw Let_def commit_served serve_action_served
        split: option.split prod.split intro!: served_refl)
      (auto simp: expected_verdict_def wait_result_def)
  ultimately show ?thesis by (auto simp: served_def)
qed

text \<open>
  C26. Waking fails open. A request for a known Model that is asleep, waking, recreating or dead
  signals demand as its first act after being recorded, also when the controller has ruled the
  Model unschedulable (it is then answered 503 at once, but its demand makes the controller look
  again); only a request beyond the pending limit is turned away without a signal.
\<close>

theorem blocked_request_signals:
  assumes "modelFromRequest (px_unmarshal E) r = (m, 0)" and "px_Get E s m = (snap, True)"
    and "sn_Phase snap \<in> {Asleep, Waking, Recreating, Dead}"
    and "\<not> sn_Schedulable snap \<or> fst (px_acquirePending E m (px_Begin E m s))"
  shows "(\<exists>rest. serve_calls E r ws rs s = PcBegin m # PcSignal m # rest) \<and>
    (\<not> sn_Schedulable snap \<longrightarrow> rr_answer (serve_result E r ws rs s) = WaitAnswer 503 WaitAsleep)"
proof -
  have blk: "pa_Block (proxy_Decide (sn_Phase snap) True 0)" "pa_DemandPatch (proxy_Decide (sn_Phase snap) True 0)"
    using assms(3) by (auto simp: proxy_Decide_def)
  obtain b rp where body: "readReplayableBody r = (b, rp)" by fastforce
  obtain ok s1 where acq: "px_acquirePending E m (px_Begin E m s) = (ok, s1)" by fastforce
  obtain res s2 l2 where hold: "serve_hold (traced_proxy E) r m b rp (map lift_world ws) (map lift_world rs)
      (s1, [PcBegin m]) = (res, (s2, l2))"
    by (metis prod_cases3)
  then obtain rest where "l2 = PcBegin m # PcSignal m # rest"
    using serve_hold_signals [of E r m b rp ws rs "(s1, [PcBegin m])"] by auto
  with assms blk body acq hold show ?thesis
    by (auto simp: serve_calls_def serve_result_def serve_trace_def ServeHTTP_def serve_known_def
        wait_result_def Let_def)
qed

text \<open>A proxy that knows one sleeping Model and has no route to it.\<close>

definition sample_proxy :: "'s proxy_env" where
  "sample_proxy =
     \<lparr>px_Get = \<lambda>s m. (zero_snapshot\<lparr>sn_Phase := Asleep\<rparr>, True), px_Begin = \<lambda>m s. s, px_Done = \<lambda>m s. s,
      px_Success = \<lambda>m s. s, px_Failure = \<lambda>m s. s, px_Signal = \<lambda>m s. s,
      px_acquirePending = \<lambda>m s. (True, s), px_releasePending = \<lambda>m s. s, px_Backend = PlainBackend (\<lambda>m s. None),
      px_Do = \<lambda>c q s. (None, s), px_Stream = \<lambda>p s. (True, s), px_Ctx = \<lambda>s. CtxLive,
      px_CanBuild = \<lambda>m u. True, px_unmarshal = \<lambda>b. Some (JObj [(''model'', JStr ''qwen'')]),
      px_marshal = \<lambda>j. [], px_DstackToken = []\<rparr>"

definition sample_http_request :: http_request where
  "sample_http_request =
     \<lparr>rq_Method = ''POST'', rq_Path = ''/v1/chat/completions'', rq_RawQuery = [], rq_Header = [], rq_Body = Some []\<rparr>"

lemma sample_http_model: "modelFromRequest (px_unmarshal sample_proxy) sample_http_request = (''qwen'', 0)"
  by (simp add: modelFromRequest_def sample_proxy_def sample_http_request_def maxReplayableBody_def
      json_fields_def json_field_def json_string_def ToLower_def lower_char_def TrimSpace_def is_space_def Let_def)

lemma sample_proxy_Get: "px_Get sample_proxy () ''qwen'' = (zero_snapshot\<lparr>sn_Phase := Asleep\<rparr>, True)"
  by (simp add: sample_proxy_def)

theorem serve_request_trace_witness:
  "\<exists>mid. serve_calls sample_proxy sample_http_request [] [] () = PcBegin ''qwen'' # mid @ [PcDone ''qwen''] \<and>
     list_all (\<lambda>c. \<not> bracket_call c) mid"
  using serve_request_trace [where E = sample_proxy and r = sample_http_request and s = "()" and ws = "[]" and rs = "[]"]
  by (auto simp: sample_http_model sample_proxy_Get)

theorem blocked_request_signals_witness:
  "rr_answer (serve_result sample_proxy sample_http_request [] [] ()) = WaitAnswer 503 WaitAsleep"
  using blocked_request_signals [of sample_proxy sample_http_request "''qwen''" "()" "zero_snapshot\<lparr>sn_Phase := Asleep\<rparr>" "[]" "[]"]
  by (simp add: zero_snapshot_def sample_http_model sample_proxy_Get)

section \<open>The pending limit\<close>

text \<open>Any interleaving of requests that enter and leave the hold; \<open>holders\<close> are those inside.\<close>

inductive pending_step :: "int \<Rightarrow> int gomap \<times> string list \<Rightarrow> int gomap \<times> string list \<Rightarrow> bool" for mx where
  enter: "acquirePending mx m p = (True, p') \<Longrightarrow> pending_step mx (p, hs) (p', m # hs)"
| turned_away: "acquirePending mx m p = (False, p') \<Longrightarrow> pending_step mx (p, hs) (p', hs)"
| leave: "m \<in> set hs \<Longrightarrow> pending_step mx (p, hs) (releasePending mx m p, remove1 m hs)"

definition pending_inv :: "int \<Rightarrow> int gomap \<times> string list \<Rightarrow> bool" where
  "pending_inv mx st \<longleftrightarrow>
     (\<forall>m. pending_of (fst st) m = int (count (mset (snd st)) m) \<and> int (count (mset (snd st)) m) \<le> mx)"

lemma pending_of_put [simp]: "pending_of (gomap_put k v p) m = (if m = k then v else pending_of p m)"
  by (simp add: pending_of_def)

lemma pending_inv_step:
  assumes "pending_step mx st st'" and "0 < mx" and "pending_inv mx st"
  shows "pending_inv mx st'"
  using assms
proof (induction rule: pending_step.induct)
  case (leave m hs p)
  have inv: "pending_of p k = int (count (mset hs) k)" "int (count (mset hs) k) \<le> mx" for k
    using leave.prems by (auto simp: pending_inv_def)
  have "int (count (mset (remove1 m hs)) k) = int (count (mset hs) k) - (if k = m then 1 else 0)" for k
    using leave.hyps by (simp add: of_nat_diff Suc_leI)
  note cnt = this
  show ?case
    unfolding pending_inv_def fst_conv snd_conv cnt
  proof (intro allI conjI)
    fix k
    show "pending_of (releasePending mx m p) k = int (count (mset hs) k) - (if k = m then 1 else 0)"
      using inv(1) assms(2) by (simp add: releasePending_def)
    show "int (count (mset hs) k) - (if k = m then 1 else 0) \<le> mx" using inv(2) [of k] by (cases "k = m") simp_all
  qed
qed (auto simp: pending_inv_def acquirePending_def split: if_splits)

text \<open>
  C31. The pending limit holds. In every state reachable by any interleaving of requests entering
  and leaving the hold, the counter of each Model is exactly the number of requests inside, which
  is never above \<open>MaxPendingPerModel\<close>, and a request is turned away only at the limit.
\<close>

theorem pending_bounded:
  assumes "(pending_step mx)\<^sup>*\<^sup>* ([], []) (p, hs)" and "0 < mx"
  shows "int (count (mset hs) m) \<le> mx \<and> (fst (acquirePending mx m p) \<longleftrightarrow> int (count (mset hs) m) < mx)"
proof -
  have "pending_inv mx (p, hs)"
    using assms
  proof (induction rule: rtranclp_induct)
    case base
    then show ?case by (simp add: pending_inv_def pending_of_def)
  next
    case (step y z)
    then show ?case using pending_inv_step by blast
  qed
  then show ?thesis using assms(2)
    by (auto simp: pending_inv_def acquirePending_def)
qed

theorem pending_bounded_witness: "\<not> fst (acquirePending 1 ''q'' (snd (acquirePending 1 ''q'' [])))"
proof -
  have "pending_step 1 ([], []) (snd (acquirePending 1 ''q'' []), [''q''])"
    by (rule pending_step.enter) (simp add: acquirePending_def pending_of_def)
  then have "(pending_step 1)\<^sup>*\<^sup>* ([], []) (snd (acquirePending 1 ''q'' []), [''q''])" by simp
  from pending_bounded [OF this, of "''q''"] show ?thesis by simp
qed

end
