(* ===== verification/Proxy_SSH.thy ===== *)
theory Proxy_SSH
  imports Proxy_Cache
begin

text \<open>
  squall-proxy's direct data path (\<open>internal/proxy/sshbackend.go\<close>): one SSH tunnel per Model, dialled
  on demand, shared by every generation of the Model, retired when the replica changes and evicted
  when it dies. The tunnels are a store of numbered records, because the goroutines share them by
  pointer. The functions below are the critical sections and atomic accesses of the code; the
  sequential \<open>tunnelFor\<close> composes them, and the step relation \<open>ssh_step\<close> interleaves them.
\<close>

section \<open>Tunnels and the backend\<close>

text \<open>
  \<open>tn_closed\<close> says that a routing decision closed the connection; \<open>tn_lost\<close> that the connection died
  on its own or failed its keepalive.
\<close>

record tunnel =
  tn_endpoint :: ReplicaEndpoint
  tn_refs :: int
  tn_retired :: bool
  tn_closed :: bool
  tn_lost :: bool

record failedDial =
  fd_endpoint :: ReplicaEndpoint
  fd_until :: gotime

text \<open>\<open>'k\<close> is \<open>ssh.Signer\<close>; a nil map is the empty one, and \<open>sb_next\<close> is the next free address.\<close>

record 'k SSHBackend =
  sb_signer :: "'k option"
  sb_conns :: "nat gomap"
  sb_failed :: "failedDial gomap"
  sb_hostKeys :: "string gomap"
  sb_tunnels :: "nat \<Rightarrow> tunnel"
  sb_next :: nat

definition zero_endpoint :: ReplicaEndpoint where
  "zero_endpoint = \<lparr>re_Host = [], re_SSHPort = 0, re_User = [], re_ServicePort = 0\<rparr>"

definition new_tunnel :: "ReplicaEndpoint \<Rightarrow> tunnel" where
  "new_tunnel e = \<lparr>tn_endpoint = e, tn_refs = 0, tn_retired = False, tn_closed = False, tn_lost = False\<rparr>"

definition new_SSHBackend :: "'k SSHBackend" where
  "new_SSHBackend =
     \<lparr>sb_signer = None, sb_conns = [], sb_failed = [], sb_hostKeys = [],
      sb_tunnels = (\<lambda>_. new_tunnel zero_endpoint), sb_next = 0\<rparr>"

definition with_tunnel :: "nat \<Rightarrow> (tunnel \<Rightarrow> tunnel) \<Rightarrow> 'k SSHBackend \<Rightarrow> 'k SSHBackend" where
  "with_tunnel t f b = b\<lparr>sb_tunnels := (sb_tunnels b)(t := f (sb_tunnels b t))\<rparr>"

section \<open>References and retirement\<close>

text \<open>\<open>t.client.Close()\<close>.\<close>

definition close_tunnel :: "nat \<Rightarrow> 'k SSHBackend \<Rightarrow> 'k SSHBackend" where
  "close_tunnel t = with_tunnel t (\<lambda>x. x\<lparr>tn_closed := True\<rparr>)"

text \<open>
  \<open>release\<close> is two atomic accesses: the decrement, which tells whether it reached zero, and the read
  of \<open>retired\<close>. \<open>retire\<close> is two as well: the store, and the read of the count.
\<close>

definition release_dec :: "nat \<Rightarrow> 'k SSHBackend \<Rightarrow> bool \<times> 'k SSHBackend" where
  "release_dec t b =
     (tn_refs (sb_tunnels b t) - 1 = 0, with_tunnel t (\<lambda>x. x\<lparr>tn_refs := tn_refs x - 1\<rparr>) b)"

definition release_test :: "nat \<Rightarrow> 'k SSHBackend \<Rightarrow> bool" where
  "release_test t b = tn_retired (sb_tunnels b t)"

definition tunnel_release :: "nat \<Rightarrow> 'k SSHBackend \<Rightarrow> 'k SSHBackend" where
  "tunnel_release t b =
     (case release_dec t b of
        (zero, b1) \<Rightarrow> if zero \<and> release_test t b1 then close_tunnel t b1 else b1)"

definition retire_store :: "nat \<Rightarrow> 'k SSHBackend \<Rightarrow> 'k SSHBackend" where
  "retire_store t = with_tunnel t (\<lambda>x. x\<lparr>tn_retired := True\<rparr>)"

definition retire_test :: "nat \<Rightarrow> 'k SSHBackend \<Rightarrow> bool" where
  "retire_test t b \<longleftrightarrow> tn_refs (sb_tunnels b t) = 0"

definition tunnel_retire :: "nat \<Rightarrow> 'k SSHBackend \<Rightarrow> 'k SSHBackend" where
  "tunnel_retire t b =
     (let b1 = retire_store t b in if retire_test t b1 then close_tunnel t b1 else b1)"

text \<open>
  \<open>refTransport.RoundTrip\<close>: the reference is taken before the inner transport runs and given back at
  once when it fails. A response carries a \<open>releaseBody\<close> whose flag is the \<open>sync.Once\<close>.
\<close>

definition roundtrip_begin :: "nat \<Rightarrow> 'k SSHBackend \<Rightarrow> 'k SSHBackend" where
  "roundtrip_begin t = with_tunnel t (\<lambda>x. x\<lparr>tn_refs := tn_refs x + 1\<rparr>)"

record releaseBody =
  rb_tunnel :: nat
  rb_once :: bool

definition RoundTrip :: "nat \<Rightarrow> bool \<Rightarrow> 'k SSHBackend \<Rightarrow> releaseBody option \<times> 'k SSHBackend" where
  "RoundTrip t delivered b =
     (let b1 = roundtrip_begin t b
      in if \<not> delivered then (None, tunnel_release t b1)
         else (Some \<lparr>rb_tunnel = t, rb_once = False\<rparr>, b1))"

definition releaseBody_Close :: "releaseBody \<Rightarrow> 'k SSHBackend \<Rightarrow> releaseBody \<times> 'k SSHBackend" where
  "releaseBody_Close rb b =
     (if rb_once rb then (rb, b) else (rb\<lparr>rb_once := True\<rparr>, tunnel_release (rb_tunnel rb) b))"

section \<open>Host keys and dialling\<close>

text \<open>The callback of \<open>pinHostKey\<close>: whether the offered key is accepted.\<close>

definition pinHostKey :: "string \<Rightarrow> string \<Rightarrow> 'k SSHBackend \<Rightarrow> bool \<times> 'k SSHBackend" where
  "pinHostKey addr fingerprint b =
     (case gomap_get (sb_hostKeys b) addr of
        None \<Rightarrow> (True, b\<lparr>sb_hostKeys := gomap_put addr fingerprint (sb_hostKeys b)\<rparr>)
      | Some seen \<Rightarrow> (seen = fingerprint, b))"

text \<open>
  What \<open>dial\<close> asks of the SSH library, and the address the tunnelled transport connects to. The
  library's answer is a parameter: no handshake at all, or the fingerprint the host offered with
  whether the rest of the handshake succeeded.
\<close>

record dial_config =
  dc_Addr :: string
  dc_User :: string
  dc_Timeout :: duration
  dc_Target :: string

definition dialConfig :: "duration \<Rightarrow> ReplicaEndpoint \<Rightarrow> dial_config" where
  "dialConfig dialTimeout e =
     \<lparr>dc_Addr = JoinHostPort (re_Host e) (Itoa (re_SSHPort e)), dc_User = re_User e,
      dc_Timeout = (if dialTimeout \<le> 0 then 15 * Second else dialTimeout),
      dc_Target = JoinHostPort ''localhost'' (Itoa (re_ServicePort e))\<rparr>"

type_synonym handshake = "(string \<times> bool) option"

definition ssh_dial :: "ReplicaEndpoint \<Rightarrow> handshake \<Rightarrow> 'k SSHBackend \<Rightarrow> nat option \<times> 'k SSHBackend" where
  "ssh_dial e answer b =
     (case answer of
        None \<Rightarrow> (None, b)
      | Some (fingerprint, authenticated) \<Rightarrow>
          (case pinHostKey (dc_Addr (dialConfig 0 e)) fingerprint b of
             (accepted, b1) \<Rightarrow>
               if accepted \<and> authenticated
               then (Some (sb_next b1),
                     b1\<lparr>sb_tunnels := (sb_tunnels b1)(sb_next b1 := new_tunnel e), sb_next := Suc (sb_next b1)\<rparr>)
               else (None, b1)))"

section \<open>The signer\<close>

text \<open>
  \<open>loaded\<close> is what \<open>LoadSigner\<close> gives: a nil function, an error and a nil signer are all \<open>None\<close>, and
  only a signer is kept. The load runs without the lock, so the store looks again.
\<close>

definition signer_store :: "'k \<Rightarrow> 'k SSHBackend \<Rightarrow> 'k option \<times> 'k SSHBackend" where
  "signer_store s b =
     (let b1 = (case sb_signer b of None \<Rightarrow> b\<lparr>sb_signer := Some s\<rparr> | Some _ \<Rightarrow> b) in (sb_signer b1, b1))"

definition resolveSigner :: "'k option \<Rightarrow> 'k SSHBackend \<Rightarrow> 'k option \<times> 'k SSHBackend" where
  "resolveSigner loaded b =
     (case sb_signer b of
        Some s \<Rightarrow> (Some s, b)
      | None \<Rightarrow> (case loaded of None \<Rightarrow> (None, b) | Some s \<Rightarrow> signer_store s b))"

text \<open>\<open>ParseSigner\<close>: an absent key is no signer and no error.\<close>

definition ParseSigner :: "(string \<Rightarrow> 'e + 'k) \<Rightarrow> string \<Rightarrow> 'e + 'k option" where
  "ParseSigner parsePrivateKey pem =
     (if TrimSpace pem = [] then Inr None
      else case parsePrivateKey pem of Inl e \<Rightarrow> Inl e | Inr k \<Rightarrow> Inr (Some k))"

section \<open>tunnelFor\<close>

datatype lookup_result = LkFallback | LkUse nat | LkDial

definition dial_backoff :: "duration \<Rightarrow> duration" where
  "dial_backoff d = (if d \<le> 0 then 30 * Second else d)"

text \<open>
  The first critical section: what to do, the tunnel it retired, if any, with \<open>retire\<close> not yet past
  its store, and the new state.
\<close>

definition tunnelFor_lookup ::
  "string \<Rightarrow> ReplicaEndpoint \<Rightarrow> gotime \<Rightarrow> 'k SSHBackend \<Rightarrow> lookup_result \<times> nat option \<times> 'k SSHBackend" where
  "tunnelFor_lookup model want now b =
     (if (case gomap_get (sb_failed b) model of
            None \<Rightarrow> False | Some f \<Rightarrow> fd_endpoint f = want \<and> now < fd_until f)
      then (LkFallback, None, b)
      else case gomap_get (sb_conns b) model of
             None \<Rightarrow> (LkDial, None, b)
           | Some t \<Rightarrow>
               if tn_endpoint (sb_tunnels b t) = want then (LkUse t, None, b)
               else (LkDial, Some t,
                     (retire_store t b)\<lparr>sb_conns := gomap_del model (sb_conns b),
                                        sb_failed := gomap_del model (sb_failed b)\<rparr>))"

definition record_failure :: "duration \<Rightarrow> string \<Rightarrow> ReplicaEndpoint \<Rightarrow> gotime \<Rightarrow> 'k SSHBackend \<Rightarrow> 'k SSHBackend" where
  "record_failure dialBackoff model want now b =
     b\<lparr>sb_failed := gomap_put model \<lparr>fd_endpoint = want, fd_until = now + dial_backoff dialBackoff\<rparr> (sb_failed b)\<rparr>"

text \<open>
  The second critical section, for a tunnel just dialled: the tunnel to use, whether it is the
  new one, and the new state. A loser of the race closes its own connection, which nobody else
  has seen.
\<close>

definition tunnelFor_install :: "string \<Rightarrow> ReplicaEndpoint \<Rightarrow> nat \<Rightarrow> 'k SSHBackend \<Rightarrow> nat \<times> bool \<times> 'k SSHBackend" where
  "tunnelFor_install model want t b =
     (case gomap_get (sb_conns b) model of
        Some existing \<Rightarrow>
          if tn_endpoint (sb_tunnels b existing) = want then (existing, False, close_tunnel t b)
          else (t, True, b\<lparr>sb_conns := gomap_put model t (sb_conns b), sb_failed := gomap_del model (sb_failed b)\<rparr>)
      | None \<Rightarrow>
          (t, True, b\<lparr>sb_conns := gomap_put model t (sb_conns b), sb_failed := gomap_del model (sb_failed b)\<rparr>))"

text \<open>
  \<open>tunnelFor\<close> with no other goroutine in between: \<open>now\<close> is the time of the lookup, \<open>later\<close> the time
  after the dial.
\<close>

definition tunnelFor ::
  "duration \<Rightarrow> 'k option \<Rightarrow> (ReplicaEndpoint \<Rightarrow> 'k \<Rightarrow> handshake) \<Rightarrow> ModelCache option \<Rightarrow> gotime \<Rightarrow> gotime \<Rightarrow> string \<Rightarrow>
   'k SSHBackend \<Rightarrow> nat option \<times> 'k SSHBackend" where
  "tunnelFor dialBackoff loaded net cache now later model b =
     (case cache of
        None \<Rightarrow> (None, b)
      | Some c \<Rightarrow>
     (case resolveSigner loaded b of
        (None, b0) \<Rightarrow> (None, b0)
      | (Some signer, b0) \<Rightarrow>
          let (snap, ok) = cache_Get c model
          in if \<not> ok then (None, b0)
             else case sn_Replica snap of
               None \<Rightarrow> (None, b0)
             | Some want \<Rightarrow>
                 (case tunnelFor_lookup model want now b0 of
                    (LkFallback, _, b1) \<Rightarrow> (None, b1)
                  | (LkUse t, _, b1) \<Rightarrow> (Some t, b1)
                  | (LkDial, old, b1) \<Rightarrow>
                      let b2 = (case old of None \<Rightarrow> b1
                                | Some t \<Rightarrow> if retire_test t b1 then close_tunnel t b1 else b1)
                      in (case ssh_dial want (net want signer) b2 of
                            (None, b3) \<Rightarrow> (None, record_failure dialBackoff model want later b3)
                          | (Some t, b3) \<Rightarrow>
                              (case tunnelFor_install model want t b3 of (u, _, b4) \<Rightarrow> (Some u, b4))))))"

section \<open>Routing\<close>

text \<open>A transport: \<open>None\<close> is no client of the backend's own, \<open>Some t\<close> the client of tunnel \<open>t\<close>.\<close>

definition ssh_Route ::
  "(string \<Rightarrow> string option) \<Rightarrow> nat option \<Rightarrow> string \<Rightarrow> (string \<times> nat option) option" where
  "ssh_Route inner resolved model =
     (case resolved of
        None \<Rightarrow> map_option (\<lambda>u. (u, None)) (inner model)
      | Some t \<Rightarrow> Some (''http://replica'', Some t))"

definition ssh_URL :: "(string \<Rightarrow> string option) \<Rightarrow> nat option \<Rightarrow> string \<Rightarrow> string option" where
  "ssh_URL inner resolved model =
     (case resolved of None \<Rightarrow> inner model | Some _ \<Rightarrow> Some ''http://replica'')"

definition ssh_Client :: "nat option \<Rightarrow> nat option" where
  "ssh_Client resolved = resolved"

section \<open>Watching and shutdown\<close>

text \<open>\<open>watch\<close> after the connection died: evict the tunnel if it is still the Model's.\<close>

definition watch_evict :: "string \<Rightarrow> nat \<Rightarrow> 'k SSHBackend \<Rightarrow> 'k SSHBackend" where
  "watch_evict model t b =
     (if gomap_get (sb_conns b) model = Some t then b\<lparr>sb_conns := gomap_del model (sb_conns b)\<rparr> else b)"

definition watch_keepalive :: "nat \<Rightarrow> bool \<Rightarrow> 'k SSHBackend \<Rightarrow> 'k SSHBackend" where
  "watch_keepalive t answered b =
     (if answered then b else with_tunnel t (\<lambda>x. x\<lparr>tn_lost := True\<rparr>) b)"

text \<open>
  The loop: at each wake-up, after the rest of the system did \<open>world\<close>, either the connection is gone and
  the watcher evicts and returns, or the ticker fired and a keepalive is sent. The flag says whether
  it returned within these wake-ups.
\<close>

fun watch :: "string \<Rightarrow> nat \<Rightarrow> (('k SSHBackend \<Rightarrow> 'k SSHBackend) \<times> bool) list \<Rightarrow> 'k SSHBackend \<Rightarrow> 'k SSHBackend \<times> bool" where
  "watch model t [] b = (b, False)"
| "watch model t ((world, answered) # ws) b =
     (let b1 = world b
      in if tn_closed (sb_tunnels b1 t) \<or> tn_lost (sb_tunnels b1 t) then (watch_evict model t b1, True)
         else watch model t ws (watch_keepalive t answered b1))"

text \<open>\<open>Close\<close>: every tunnel of the map is retired and the map emptied.\<close>

definition ssh_Close :: "'k SSHBackend \<Rightarrow> 'k SSHBackend" where
  "ssh_Close b = (fold (\<lambda>(model, t) b. (tunnel_retire t b)\<lparr>sb_conns := gomap_del model (sb_conns b)\<rparr>) (sb_conns b) b)"

section \<open>Interleavings\<close>

text \<open>
  The goroutines that touch the tunnels, each at its next atomic action: a request before the first
  critical section, dialling, and before the second one; a request that holds the client of a tunnel;
  a response in flight, with the mark that its reference was taken on a tunnel in service while no
  release was between its two accesses; \<open>release\<close> and \<open>retire\<close> between their two accesses; a decided
  \<open>Close\<close>; and the watcher of a tunnel.
\<close>

datatype actor = AcLookup string ReplicaEndpoint | AcDial string ReplicaEndpoint
  | AcInstall string ReplicaEndpoint nat | AcHandle nat | AcStream nat bool
  | AcRelease nat | AcRetire nat | AcClose nat | AcWatch string nat

type_synonym 'k pool = "'k SSHBackend \<times> actor multiset"

definition after_lookup :: "string \<Rightarrow> ReplicaEndpoint \<Rightarrow> lookup_result \<Rightarrow> nat option \<Rightarrow> actor multiset" where
  "after_lookup m want r old =
     (case r of LkFallback \<Rightarrow> {#} | LkUse t \<Rightarrow> {#AcHandle t#} | LkDial \<Rightarrow> {#AcDial m want#}) +
     (case old of None \<Rightarrow> {#} | Some t \<Rightarrow> {#AcRetire t#})"

definition shutdown_store :: "'k SSHBackend \<Rightarrow> 'k SSHBackend" where
  "shutdown_store b = (fold (\<lambda>e. retire_store (snd e)) (sb_conns b) b)\<lparr>sb_conns := []\<rparr>"

text \<open>
  Nothing orders the goroutines: any of them may take its next step, a request may arrive, and a
  connection may be lost, at any moment. A client may run several round trips.
\<close>

inductive ssh_step :: "'k pool \<Rightarrow> 'k pool \<Rightarrow> bool" where
  arrive: "ssh_step (b, A) (b, add_mset (AcLookup m want) A)"
| lookup: "tunnelFor_lookup m want now b = (r, old, b') \<Longrightarrow>
    ssh_step (b, add_mset (AcLookup m want) A) (b', after_lookup m want r old + A)"
| dialled: "ssh_dial want answer b = (Some t, b') \<Longrightarrow>
    ssh_step (b, add_mset (AcDial m want) A) (b', add_mset (AcInstall m want t) A)"
| dial_failed: "ssh_dial want answer b = (None, b') \<Longrightarrow>
    ssh_step (b, add_mset (AcDial m want) A) (record_failure d m want now b', A)"
| install_won: "tunnelFor_install m want t b = (u, True, b') \<Longrightarrow>
    ssh_step (b, add_mset (AcInstall m want t) A) (b', add_mset (AcHandle u) (add_mset (AcWatch m u) A))"
| install_lost: "tunnelFor_install m want t b = (u, False, b') \<Longrightarrow>
    ssh_step (b, add_mset (AcInstall m want t) A) (b', add_mset (AcHandle u) A)"
| roundtrip: "ssh_step (b, add_mset (AcHandle t) A)
    (roundtrip_begin t b,
     add_mset (AcStream t (\<not> tn_retired (sb_tunnels b t) \<and> AcRelease t \<notin># A)) (add_mset (AcHandle t) A))"
| handle_done: "ssh_step (b, add_mset (AcHandle t) A) (b, A)"
| release_first: "release_dec t b = (zero, b') \<Longrightarrow>
    ssh_step (b, add_mset (AcStream t e) A) (b', (if zero then {#AcRelease t#} else {#}) + A)"
| release_second: "ssh_step (b, add_mset (AcRelease t) A) (b, (if release_test t b then {#AcClose t#} else {#}) + A)"
| retire_second: "ssh_step (b, add_mset (AcRetire t) A) (b, (if retire_test t b then {#AcClose t#} else {#}) + A)"
| closing: "ssh_step (b, add_mset (AcClose t) A) (close_tunnel t b, A)"
| keepalive: "ssh_step (b, add_mset (AcWatch m t) A) (watch_keepalive t answered b, add_mset (AcWatch m t) A)"
| connection_lost: "ssh_step (b, A) (watch_keepalive t False b, A)"
| evict: "tn_closed (sb_tunnels b t) \<or> tn_lost (sb_tunnels b t) \<Longrightarrow>
    ssh_step (b, add_mset (AcWatch m t) A) (watch_evict m t b, A)"
| shutdown: "ssh_step (b, A) (shutdown_store b, image_mset AcRetire (mset (map snd (sb_conns b))) + A)"

definition pool_reachable :: "'k pool \<Rightarrow> bool" where
  "pool_reachable p \<longleftrightarrow> ssh_step\<^sup>*\<^sup>* (new_SSHBackend, {#}) p"

section \<open>Invariants of the pool\<close>

fun streams_on :: "nat \<Rightarrow> actor \<Rightarrow> bool" where
  "streams_on t (AcStream u _) \<longleftrightarrow> u = t"
| "streams_on t _ \<longleftrightarrow> False"

fun installs :: "nat \<Rightarrow> actor \<Rightarrow> bool" where
  "installs t (AcInstall _ _ u) \<longleftrightarrow> u = t"
| "installs t _ \<longleftrightarrow> False"

fun ends :: "nat \<Rightarrow> actor \<Rightarrow> bool" where
  "ends t (AcRelease u) \<longleftrightarrow> u = t"
| "ends t (AcRetire u) \<longleftrightarrow> u = t"
| "ends t (AcClose u) \<longleftrightarrow> u = t"
| "ends t _ \<longleftrightarrow> False"

fun uses :: "nat \<Rightarrow> actor \<Rightarrow> bool" where
  "uses t (AcHandle u) \<longleftrightarrow> u = t"
| "uses t (AcStream u _) \<longleftrightarrow> u = t"
| "uses t _ \<longleftrightarrow> False"

definition some_actor :: "('a \<Rightarrow> bool) \<Rightarrow> 'a multiset \<Rightarrow> bool" where
  "some_actor P A \<longleftrightarrow> (\<exists>a\<in>#A. P a)"

lemma some_actor_simps [simp]:
  "\<not> some_actor P {#}" "some_actor P (add_mset a A) \<longleftrightarrow> P a \<or> some_actor P A"
  "some_actor P (A + B) \<longleftrightarrow> some_actor P A \<or> some_actor P B"
  "some_actor P (image_mset f B') \<longleftrightarrow> some_actor (\<lambda>x. P (f x)) B'"
  "some_actor Q (mset xs) \<longleftrightarrow> (\<exists>x\<in>set xs. Q x)"
  by (auto simp: some_actor_def)

lemma no_actor_size: "size (filter_mset P A) = 0 \<longleftrightarrow> \<not> some_actor P A"
  by (induction A) auto

text \<open>
  Who can reach a tunnel: one in service is allocated, open, watched and installed under one Model;
  one being installed is known to one goroutine only; one in use that a routing decision closed was
  retired.
\<close>

definition pool_wf :: "'k pool \<Rightarrow> bool" where
  "pool_wf p =
     (case p of (b, A) \<Rightarrow>
        gomap_wf (sb_conns b) \<and>
        (\<forall>m t. gomap_get (sb_conns b) m = Some t \<longrightarrow>
           t < sb_next b \<and> \<not> tn_retired (sb_tunnels b t) \<and> \<not> tn_closed (sb_tunnels b t) \<and>
           AcWatch m t \<in># A \<and> \<not> some_actor (installs t) A \<and>
           (\<forall>m'. gomap_get (sb_conns b) m' = Some t \<longrightarrow> m' = m)) \<and>
        (\<forall>t. some_actor (installs t) A \<longrightarrow>
           t < sb_next b \<and> \<not> tn_retired (sb_tunnels b t) \<and> \<not> tn_closed (sb_tunnels b t) \<and>
           \<not> some_actor (uses t) A \<and> size (filter_mset (installs t) A) = 1) \<and>
        (\<forall>t. some_actor (uses t) A \<longrightarrow>
           t < sb_next b \<and> (tn_closed (sb_tunnels b t) \<longrightarrow> tn_retired (sb_tunnels b t))) \<and>
        (\<forall>t. some_actor (ends t) A \<longrightarrow> t < sb_next b) \<and>
        (\<forall>t. AcRetire t \<in># A \<or> AcClose t \<in># A \<longrightarrow> tn_retired (sb_tunnels b t)))"

definition pool_refs :: "'k pool \<Rightarrow> bool" where
  "pool_refs p =
     (case p of (b, A) \<Rightarrow> \<forall>t. tn_refs (sb_tunnels b t) = int (size (filter_mset (streams_on t) A)))"

definition pool_marks :: "'k pool \<Rightarrow> bool" where
  "pool_marks p =
     (case p of (b, A) \<Rightarrow>
        \<forall>t. AcStream t True \<in># A \<longrightarrow>
          \<not> tn_closed (sb_tunnels b t) \<and> AcClose t \<notin># A \<and> AcRelease t \<notin># A)"

definition pool_ending :: "'k pool \<Rightarrow> bool" where
  "pool_ending p =
     (case p of (b, A) \<Rightarrow>
        \<forall>t. tn_retired (sb_tunnels b t) \<and> \<not> tn_closed (sb_tunnels b t) \<longrightarrow>
          0 < tn_refs (sb_tunnels b t) \<or> some_actor (ends t) A)"

lemma streams_use: "streams_on t a \<Longrightarrow> uses t a"
  by (cases a) auto

lemma idle_no_stream: "size (filter_mset (streams_on t) A) = 0 \<Longrightarrow> AcStream t e \<notin># A"
  unfolding no_actor_size by (force simp: some_actor_def)

lemma with_tunnel_simps [simp]:
  "sb_tunnels (with_tunnel t f b) u = (if u = t then f (sb_tunnels b t) else sb_tunnels b u)"
  "sb_conns (with_tunnel t f b) = sb_conns b" "sb_next (with_tunnel t f b) = sb_next b"
  "sb_failed (with_tunnel t f b) = sb_failed b" "sb_hostKeys (with_tunnel t f b) = sb_hostKeys b"
  "sb_signer (with_tunnel t f b) = sb_signer b"
  by (simp_all add: with_tunnel_def)

lemmas tunnel_ops = close_tunnel_def release_dec_def release_test_def retire_store_def retire_test_def
  roundtrip_begin_def watch_keepalive_def record_failure_def

lemma ssh_dial_Some:
  assumes "ssh_dial want answer b = (Some t, b')"
  shows "t = sb_next b \<and> sb_next b' = Suc t \<and> sb_conns b' = sb_conns b \<and>
    sb_tunnels b' = (sb_tunnels b)(t := new_tunnel want)"
  using assms by (auto simp: ssh_dial_def pinHostKey_def split: option.splits prod.splits if_splits)

lemma ssh_dial_None:
  assumes "ssh_dial want answer b = (None, b')"
  shows "sb_next b' = sb_next b \<and> sb_conns b' = sb_conns b \<and> sb_tunnels b' = sb_tunnels b"
  using assms by (auto simp: ssh_dial_def pinHostKey_def split: option.splits prod.splits if_splits)

lemma shutdown_fold:
  "sb_conns (fold (\<lambda>e. retire_store (snd e)) es b) = sb_conns b \<and>
   sb_next (fold (\<lambda>e. retire_store (snd e)) es b) = sb_next b \<and>
   sb_tunnels (fold (\<lambda>e. retire_store (snd e)) es b) =
     (\<lambda>t. if t \<in> snd ` set es then (sb_tunnels b t)\<lparr>tn_retired := True\<rparr> else sb_tunnels b t)"
  by (induction es arbitrary: b) (auto simp: retire_store_def fun_eq_iff)

lemma shutdown_store_simps [simp]:
  "sb_conns (shutdown_store b) = []" "sb_next (shutdown_store b) = sb_next b"
  "sb_tunnels (shutdown_store b) t =
     (if t \<in> snd ` set (sb_conns b) then (sb_tunnels b t)\<lparr>tn_retired := True\<rparr> else sb_tunnels b t)"
  by (simp_all add: shutdown_store_def shutdown_fold)

lemma lookup_cases:
  assumes "tunnelFor_lookup m want now b = (r, old, b')"
  obtains (quiet) "b' = b" "old = None" "r = LkFallback \<or> r = LkDial"
  | (hit) t where "b' = b" "old = None" "r = LkUse t" "gomap_get (sb_conns b) m = Some t"
      "tn_endpoint (sb_tunnels b t) = want"
  | (replaced) t where "r = LkDial" "old = Some t" "gomap_get (sb_conns b) m = Some t"
      "sb_conns b' = gomap_del m (sb_conns b)" "sb_next b' = sb_next b"
      "sb_tunnels b' = (sb_tunnels b)(t := (sb_tunnels b t)\<lparr>tn_retired := True\<rparr>)"
proof (cases "gomap_get (sb_conns b) m")
  case None
  then show ?thesis using assms quiet by (auto simp: tunnelFor_lookup_def split: if_splits)
next
  case (Some t)
  then show ?thesis using assms quiet hit [of t] replaced [of t]
    by (simp add: tunnelFor_lookup_def retire_store_def with_tunnel_def split: if_splits) auto
qed

lemma install_cases:
  assumes "tunnelFor_install m want t b = (u, won, b')"
  obtains (lost) "\<not> won" "gomap_get (sb_conns b) m = Some u" "tn_endpoint (sb_tunnels b u) = want" "b' = close_tunnel t b"
  | (won) "won" "u = t" "sb_conns b' = gomap_put m t (sb_conns b)" "sb_next b' = sb_next b" "sb_tunnels b' = sb_tunnels b"
  using assms
  by (cases "gomap_get (sb_conns b) m") (auto simp: tunnelFor_install_def split: if_splits)

lemma pool_refs_step:
  assumes "ssh_step p p'" and "pool_refs p" and "pool_wf p"
  shows "pool_refs p'"
  using assms
proof (induction rule: ssh_step.induct)
  case (lookup m want now b r old b' A)
  then show ?case
    by (elim lookup_cases) (auto simp: pool_refs_def after_lookup_def)
next
  case (dialled want answer b t b' m A)
  have "\<not> some_actor (uses t) A" using dialled ssh_dial_Some [OF dialled.hyps] by (auto simp: pool_wf_def)
  then have "size (filter_mset (streams_on t) A) = 0"
    unfolding no_actor_size by (auto simp: some_actor_def dest: streams_use)
  then show ?case using dialled ssh_dial_Some [OF dialled.hyps] by (auto simp: pool_refs_def new_tunnel_def)
next
  case (dial_failed want answer b b' d m now A)
  then show ?case using ssh_dial_None [OF dial_failed.hyps] by (auto simp: pool_refs_def tunnel_ops)
next
  case (install_won m want t b u b' A)
  then show ?case by (elim install_cases) (auto simp: pool_refs_def)
next
  case (install_lost m want t b u b' A)
  then show ?case by (elim install_cases) (auto simp: pool_refs_def tunnel_ops)
next
  case (release_first t b zero b' e A)
  then show ?case by (auto simp: pool_refs_def tunnel_ops split: if_splits)
qed (auto simp: pool_refs_def tunnel_ops watch_evict_def)

lemma pool_marks_step:
  assumes "ssh_step p p'" and "pool_marks p" and "pool_wf p" and "pool_refs p"
  shows "pool_marks p'"
  using assms
proof (induction rule: ssh_step.induct)
  case (lookup m want now b r old b' A)
  then show ?case
    by (elim lookup_cases) (auto simp: pool_marks_def after_lookup_def)
next
  case (dialled want answer b t b' m A)
  then show ?case using ssh_dial_Some [OF dialled.hyps] by (auto simp: pool_marks_def new_tunnel_def)
next
  case (dial_failed want answer b b' d m now A)
  then show ?case using ssh_dial_None [OF dial_failed.hyps] by (auto simp: pool_marks_def tunnel_ops)
next
  case (install_won m want t b u b' A)
  then show ?case by (elim install_cases) (auto simp: pool_marks_def)
next
  case (install_lost m want t b u b' A)
  have "AcStream t True \<notin># A"
    using install_lost.prems by (auto simp: pool_wf_def some_actor_def dest!: spec [of _ t])
  with install_lost show ?case by (elim install_cases) (auto simp: pool_marks_def tunnel_ops)
next
  case (roundtrip b t A)
  then show ?case by (auto simp: pool_marks_def pool_wf_def tunnel_ops)
next
  case (release_first t b zero b' e A)
  have "AcStream t True \<notin># A" if zero
    using that release_first by (intro idle_no_stream) (simp add: release_dec_def pool_refs_def)
  with release_first show ?case by (auto simp: pool_marks_def tunnel_ops split: if_splits)
next
  case (retire_second b t A)
  have "AcStream t True \<notin># A" if "retire_test t b"
    using that retire_second.prems by (intro idle_no_stream) (simp add: retire_test_def pool_refs_def)
  with retire_second show ?case by (auto simp: pool_marks_def split: if_splits)
qed (auto simp: pool_marks_def tunnel_ops watch_evict_def)

lemma pool_ending_step:
  assumes "ssh_step p p'" and "pool_ending p" and "pool_wf p" and "pool_refs p"
  shows "pool_ending p'"
  using assms
proof (induction rule: ssh_step.induct)
  case (lookup m want now b r old b' A)
  then show ?case
    by (elim lookup_cases) (auto simp: pool_ending_def after_lookup_def)
next
  case (dialled want answer b t b' m A)
  then show ?case using ssh_dial_Some [OF dialled.hyps] by (auto simp: pool_ending_def new_tunnel_def)
next
  case (dial_failed want answer b b' d m now A)
  then show ?case using ssh_dial_None [OF dial_failed.hyps] by (auto simp: pool_ending_def tunnel_ops)
next
  case (install_won m want t b u b' A)
  then show ?case by (elim install_cases) (auto simp: pool_ending_def)
next
  case (install_lost m want t b u b' A)
  then show ?case by (elim install_cases) (auto simp: pool_ending_def tunnel_ops)
next
  case (retire_second b t A)
  have "0 \<le> tn_refs (sb_tunnels b t)" using retire_second by (simp add: pool_refs_def)
  with retire_second show ?case by (auto simp: pool_ending_def tunnel_ops)
next
  case (release_first t b zero b' e A)
  have "0 \<le> tn_refs (sb_tunnels b t) - 1" using release_first by (simp add: pool_refs_def)
  with release_first show ?case by (auto simp: pool_ending_def tunnel_ops split: if_splits)
next
  case (release_second b t A)
  then show ?case by (auto simp: pool_ending_def tunnel_ops)
next
  case (shutdown b A)
  then show ?case by (auto simp: pool_ending_def)
qed (auto simp: pool_ending_def tunnel_ops watch_evict_def)

lemma in_service:
  assumes "pool_wf (b, A)" and "gomap_get (sb_conns b) m = Some t"
  shows "t < sb_next b" "\<not> tn_retired (sb_tunnels b t)" "\<not> tn_closed (sb_tunnels b t)" "AcWatch m t \<in># A"
    "\<not> some_actor (installs t) A"
  using assms by (simp_all add: pool_wf_def del: map_of_eq_Some_iff)

lemma installing_private:
  assumes "pool_wf (b, add_mset (AcInstall m want t) A)"
  shows "t < sb_next b" "\<not> tn_retired (sb_tunnels b t)" "\<not> tn_closed (sb_tunnels b t)"
    "\<not> some_actor (installs t) A" "\<not> some_actor (uses t) A" "\<And>n. gomap_get (sb_conns b) n \<noteq> Some t"
    "\<And>u. some_actor (installs u) A \<Longrightarrow> size (filter_mset (installs u) A) = 1"
proof -
  have "size (filter_mset (installs t) (add_mset (AcInstall m want t) A)) = 1"
    using assms by (auto simp: pool_wf_def simp del: filter_mset_add_mset)
  then have "size (filter_mset (installs t) A) = 0" by simp
  then show one: "\<not> some_actor (installs t) A" by (simp only: no_actor_size not_False_eq_True)
  show "size (filter_mset (installs u) A) = 1" if "some_actor (installs u) A" for u
  proof -
    have "u \<noteq> t" using that one by blast
    with that assms show ?thesis by (auto simp: pool_wf_def)
  qed
  show "gomap_get (sb_conns b) n \<noteq> Some t" for n
  proof
    assume "gomap_get (sb_conns b) n = Some t"
    from in_service(5) [OF assms this] show False by simp
  qed
qed (use assms in \<open>auto simp: pool_wf_def\<close>)

lemma pool_wf_step:
  assumes "ssh_step p p'" and "pool_wf p"
  shows "pool_wf p'"
  using assms
proof (induction rule: ssh_step.induct)
  case (lookup m want now b r old b' A)
  then show ?case
  proof (elim lookup_cases)
    fix t
    assume "b' = b" "old = None" "r = LkUse t" "gomap_get (sb_conns b) m = Some t"
    then show ?thesis using lookup.prems by (auto simp: pool_wf_def after_lookup_def)
  next
    fix t
    assume "r = LkDial" "old = Some t" "gomap_get (sb_conns b) m = Some t"
      "sb_conns b' = gomap_del m (sb_conns b)" "sb_next b' = sb_next b"
      "sb_tunnels b' = (sb_tunnels b)(t := (sb_tunnels b t)\<lparr>tn_retired := True\<rparr>)"
    then show ?thesis using lookup.prems by (auto simp: pool_wf_def after_lookup_def)
  qed (auto simp: pool_wf_def after_lookup_def)
next
  case (dialled want answer b t b' m A)
  note new = ssh_dial_Some [OF dialled.hyps]
  have fresh: "\<not> some_actor (installs t) A" "\<not> some_actor (uses t) A" "\<not> some_actor (ends t) A"
    using dialled.prems new by (auto simp: pool_wf_def)
  moreover from fresh have "size (filter_mset (installs t) A) = 0" by (simp only: no_actor_size) simp
  moreover from fresh have "AcRetire t \<notin># A" "AcClose t \<notin># A" by (force simp: some_actor_def)+
  moreover have "u < t" if "(n, u) \<in> set (sb_conns b)" for n u
    using that dialled.prems new by (auto simp: pool_wf_def)
  moreover from this have "(n, t) \<notin> set (sb_conns b)" for n by blast
  ultimately show ?case using dialled.prems new
    by (auto simp: pool_wf_def new_tunnel_def less_Suc_eq)
next
  case (dial_failed want answer b b' d m now A)
  then show ?case using ssh_dial_None [OF dial_failed.hyps] by (auto simp: pool_wf_def tunnel_ops)
next
  case (install_won m want t b u b' A)
  note priv = installing_private [OF install_won.prems]
  have "AcRetire t \<notin># A" "AcClose t \<notin># A" using priv(2) install_won.prems by (auto simp: pool_wf_def)
  with install_won priv show ?case by (elim install_cases) (auto simp: pool_wf_def)
next
  case (install_lost m want t b u b' A)
  note priv = installing_private [OF install_lost.prems]
  with install_lost show ?case
    by (elim install_cases) (auto simp: pool_wf_def tunnel_ops)
next
  case (shutdown b A)
  then have "gomap_wf (sb_conns b)" by (simp add: pool_wf_def)
  then have "t \<in> snd ` set (sb_conns b) \<longleftrightarrow> (\<exists>m. gomap_get (sb_conns b) m = Some t)" for t
    by (force simp: gomap_get_iff image_iff)
  with shutdown show ?case by (auto simp: pool_wf_def)
next
  case (evict b t m A)
  have wf: "gomap_wf (sb_conns b)" using evict.prems by (simp add: pool_wf_def)
  have others: "AcWatch n u \<in># A" if "(n, u) \<in> set (sb_conns b)" "n \<noteq> m \<or> u \<noteq> t" for n u
    using in_service(4) [OF evict.prems, of n u] that wf by auto
  show ?case
  proof (cases "gomap_get (sb_conns b) m = Some t")
    case True
    with others evict.prems show ?thesis by (auto simp: pool_wf_def watch_evict_def set_gomap_del)
  next
    case False
    then have "AcWatch n u \<in># A" if "(n, u) \<in> set (sb_conns b)" for n u
      using others [OF that] that wf by auto
    with False evict.prems show ?thesis by (auto simp: pool_wf_def watch_evict_def)
  qed
qed (auto simp: pool_wf_def tunnel_ops)

lemma pool_init:
  "pool_wf (new_SSHBackend, {#})" "pool_refs (new_SSHBackend, {#})"
  "pool_marks (new_SSHBackend, {#})" "pool_ending (new_SSHBackend, {#})"
  by (auto simp: pool_wf_def pool_refs_def pool_marks_def pool_ending_def new_SSHBackend_def new_tunnel_def)

definition pool_inv :: "'k pool \<Rightarrow> bool" where
  "pool_inv p \<longleftrightarrow> pool_wf p \<and> pool_refs p \<and> pool_marks p \<and> pool_ending p"

lemma pool_inv_steps: "ssh_step\<^sup>*\<^sup>* p p' \<Longrightarrow> pool_inv p \<Longrightarrow> pool_inv p'"
  by (induction rule: rtranclp_induct)
    (auto simp: pool_inv_def intro: pool_wf_step pool_refs_step pool_marks_step pool_ending_step)

lemma pool_reachable_inv: "pool_reachable p \<Longrightarrow> pool_inv p"
  unfolding pool_reachable_def by (erule pool_inv_steps) (simp add: pool_inv_def pool_init)

section \<open>Retirement\<close>

text \<open>
  C14. A retired connection ends. In every reachable state of every interleaving, a retired tunnel
  that no request holds, that carries no response, and whose retirement and releases have run to
  their end has been closed: between them, \<open>retire\<close> and the last \<open>release\<close> never both miss it.
\<close>

theorem retired_idle_closed:
  assumes "pool_reachable (b, A)" and "tn_retired (sb_tunnels b t)"
    and "\<not> some_actor (uses t) A" and "\<not> some_actor (ends t) A"
  shows "tn_closed (sb_tunnels b t)"
proof -
  have inv: "pool_inv (b, A)" by (rule pool_reachable_inv [OF assms(1)])
  have "\<not> some_actor (streams_on t) A" using assms(3) by (auto simp: some_actor_def dest: streams_use)
  then have "tn_refs (sb_tunnels b t) = 0"
    using inv by (auto simp: pool_inv_def pool_refs_def simp flip: no_actor_size)
  then show ?thesis using inv assms(2,4) by (auto simp: pool_inv_def pool_ending_def)
qed

text \<open>
  Retirement spares the responses in flight. A response whose reference was taken while its
  tunnel was in service, with no other response's \<open>release\<close> between its two accesses, keeps its
  connection: whatever the other goroutines do, no routing decision closes it under that response.
\<close>

theorem retire_spares_streams:
  assumes "pool_reachable (b, A)" and "AcStream t True \<in># A"
  shows "\<not> tn_closed (sb_tunnels b t)"
  using pool_reachable_inv [OF assms(1)] assms(2) by (auto simp: pool_inv_def pool_marks_def)

section \<open>Two schedules\<close>

text \<open>
  A lookup of a Model with no tunnel and no failed dial leads to a dial, which may succeed; the
  tunnel is then installed unless one for the same endpoint is.
\<close>

definition dialled_state :: "ReplicaEndpoint \<Rightarrow> 'k SSHBackend \<Rightarrow> 'k SSHBackend" where
  "dialled_state want b =
     b\<lparr>sb_hostKeys := gomap_put (dc_Addr (dialConfig 0 want)) [] (sb_hostKeys b),
       sb_tunnels := (sb_tunnels b)(sb_next b := new_tunnel want), sb_next := Suc (sb_next b)\<rparr>"

definition installed_state :: "string \<Rightarrow> nat \<Rightarrow> 'k SSHBackend \<Rightarrow> 'k SSHBackend" where
  "installed_state m t b = b\<lparr>sb_conns := gomap_put m t (sb_conns b), sb_failed := gomap_del m (sb_failed b)\<rparr>"

definition unpinned :: "ReplicaEndpoint \<Rightarrow> 'k SSHBackend \<Rightarrow> bool" where
  "unpinned want b \<longleftrightarrow> gomap_get (sb_hostKeys b) (dc_Addr (dialConfig 0 want)) \<in> {None, Some []}"

lemma gomap_put_same: "gomap_get m k = Some v \<Longrightarrow> gomap_put k v m = m"
  by (induction m) auto

lemma sched_request:
  assumes "gomap_get (sb_conns b) m = None" and "gomap_get (sb_failed b) m = None"
  shows "ssh_step\<^sup>*\<^sup>* (b, A) (b, add_mset (AcDial m want) A)"
proof -
  have "ssh_step (b, A) (b, add_mset (AcLookup m want) A)" by (rule arrive)
  moreover have "ssh_step (b, add_mset (AcLookup m want) A) (b, after_lookup m want LkDial None + A)"
    using assms by (intro lookup [of _ _ 0]) (simp add: tunnelFor_lookup_def)
  ultimately show ?thesis by (simp add: after_lookup_def)
qed

lemma sched_dial:
  assumes "unpinned want b"
  shows "ssh_step (b, add_mset (AcDial m want) A) (dialled_state want b, add_mset (AcInstall m want (sb_next b)) A)"
  using assms
  by (intro dialled [of _ "Some ([], True)"])
    (auto simp: unpinned_def ssh_dial_def pinHostKey_def dialled_state_def gomap_put_same)

lemma sched_install:
  assumes "\<forall>u. gomap_get (sb_conns b) m = Some u \<longrightarrow> tn_endpoint (sb_tunnels b u) \<noteq> want"
  shows "ssh_step (b, add_mset (AcInstall m want t) A)
    (installed_state m t b, add_mset (AcHandle t) (add_mset (AcWatch m t) A))"
  using assms
  by (intro install_won) (auto simp: tunnelFor_install_def installed_state_def split: option.split)

lemma sched_in_service:
  obtains b :: "'k SSHBackend" where "pool_reachable (b, {#AcHandle 0, AcWatch m 0#})"
    "gomap_get (sb_conns b) m = Some 0" "gomap_get (sb_failed b) m = None"
    "sb_tunnels b 0 = new_tunnel want"
proof -
  let ?n = "new_SSHBackend :: 'k SSHBackend"
  let ?b = "installed_state m 0 (dialled_state want ?n)"
  note st = new_SSHBackend_def dialled_state_def installed_state_def
  have "ssh_step\<^sup>*\<^sup>* (?n, {#}) (?n, {#AcDial m want#})"
    by (rule sched_request) (simp_all add: st)
  also have "ssh_step (?n, {#AcDial m want#}) (dialled_state want ?n, {#AcInstall m want 0#})"
    using sched_dial [of want ?n m "{#}"] by (simp add: unpinned_def new_SSHBackend_def)
  also have "ssh_step \<dots> (?b, {#AcHandle 0, AcWatch m 0#})"
    using sched_install [of "dialled_state want ?n" m want 0 "{#}"] by (simp add: st)
  finally show ?thesis by (intro that [of ?b]) (simp_all add: pool_reachable_def st)
qed

text \<open>
  C37. The window of \<open>release\<close>. The proviso of the theorem above is needed: for every Model and
  every change of its endpoint there is a schedule in which a response begins on the tunnel in service
  while an earlier response's \<open>release\<close> has counted to zero and not yet read \<open>retired\<close>; the tunnel is
  then retired, and that \<open>release\<close> closes the connection while the response is still in flight.
\<close>

theorem release_window_cuts_stream:
  fixes want want' :: ReplicaEndpoint
  assumes "want \<noteq> want'"
  shows "\<exists>(b :: 'k SSHBackend) A b' A' t.
    pool_reachable (b, A) \<and> gomap_get (sb_conns b) m = Some t \<and> AcStream t False \<in># A \<and>
    ssh_step\<^sup>*\<^sup>* (b, add_mset (AcLookup m want') A) (b', A') \<and> AcStream t False \<in># A' \<and>
    tn_refs (sb_tunnels b' t) = 1 \<and> tn_closed (sb_tunnels b' t)"
proof -
  obtain b :: "'k SSHBackend" where reach: "pool_reachable (b, {#AcHandle 0, AcWatch m 0#})"
    and b: "gomap_get (sb_conns b) m = Some 0" "gomap_get (sb_failed b) m = None"
      "sb_tunnels b 0 = new_tunnel want"
    by (rule sched_in_service)
  let ?b1 = "roundtrip_begin 0 b"
  let ?b2 = "snd (release_dec 0 ?b1)"
  let ?b3 = "roundtrip_begin 0 ?b2"
  let ?A3 = "{#AcStream 0 False, AcHandle 0, AcRelease 0, AcWatch m 0#}"
  have "ssh_step\<^sup>*\<^sup>* (new_SSHBackend, {#}) (b, {#AcHandle 0, AcWatch m 0#})"
    using reach by (simp add: pool_reachable_def)
  also have "ssh_step \<dots> (?b1, {#AcStream 0 True, AcHandle 0, AcWatch m 0#})"
    using roundtrip [of b 0 "{#AcWatch m 0#}"] b by (simp add: new_tunnel_def)
  also have "ssh_step \<dots> (?b2, {#AcHandle 0, AcRelease 0, AcWatch m 0#})"
    using release_first [of 0 ?b1 True ?b2 True "{#AcHandle 0, AcWatch m 0#}"] b
    by (simp add: tunnel_ops new_tunnel_def add_mset_commute)
  also have "ssh_step \<dots> (?b3, ?A3)"
    using roundtrip [of ?b2 0 "{#AcRelease 0, AcWatch m 0#}"] by simp
  finally have r3: "pool_reachable (?b3, ?A3)" by (simp add: pool_reachable_def)
  obtain b4 where look: "tunnelFor_lookup m want' 0 ?b3 = (LkDial, Some 0, b4)"
    and b4: "tn_retired (sb_tunnels b4 0)" "tn_refs (sb_tunnels b4 0) = 1"
    using b assms by (simp add: tunnelFor_lookup_def tunnel_ops new_tunnel_def)
  have "ssh_step\<^sup>*\<^sup>* (?b3, add_mset (AcLookup m want') ?A3) (b4, {#AcDial m want', AcRetire 0#} + ?A3)"
    using lookup [OF look, of ?A3] by (intro r_into_rtranclp) (simp add: after_lookup_def add_mset_commute)
  also have "ssh_step \<dots> (b4, {#AcDial m want'#} + ?A3)"
    using retire_second [of b4 0 "{#AcDial m want'#} + ?A3"] b4 by (simp add: retire_test_def add_mset_commute)
  also have "ssh_step \<dots> (b4, {#AcClose 0, AcDial m want', AcStream 0 False, AcHandle 0, AcWatch m 0#})"
    using release_second [of b4 0 "{#AcDial m want', AcStream 0 False, AcHandle 0, AcWatch m 0#}"] b4
    by (simp add: release_test_def add_mset_commute)
  also have "ssh_step \<dots> (close_tunnel 0 b4, {#AcDial m want', AcStream 0 False, AcHandle 0, AcWatch m 0#})"
    by (rule closing)
  finally have "ssh_step\<^sup>*\<^sup>* (?b3, add_mset (AcLookup m want') ?A3)
    (close_tunnel 0 b4, {#AcDial m want', AcStream 0 False, AcHandle 0, AcWatch m 0#})" .
  moreover have "gomap_get (sb_conns ?b3) m = Some 0" using b by (simp add: tunnel_ops)
  ultimately show ?thesis using r3 b4
    by (intro exI [of _ ?b3] exI [of _ ?A3] exI [of _ "close_tunnel 0 b4"]
        exI [of _ "{#AcDial m want', AcStream 0 False, AcHandle 0, AcWatch m 0#}"] exI [of _ 0])
      (simp add: close_tunnel_def)
qed

definition sample_endpoint :: ReplicaEndpoint where
  "sample_endpoint = \<lparr>re_Host = ''10.0.0.1'', re_SSHPort = 22, re_User = ''root'', re_ServicePort = 8000\<rparr>"

definition moved_endpoint :: ReplicaEndpoint where
  "moved_endpoint = sample_endpoint\<lparr>re_Host := ''10.0.0.2''\<rparr>"

lemma sample_moved: "sample_endpoint \<noteq> moved_endpoint"
  by (simp add: sample_endpoint_def moved_endpoint_def)

theorem release_window_cuts_stream_witness:
  "\<exists>(b :: unit SSHBackend) A b' A' t.
    pool_reachable (b, A) \<and> gomap_get (sb_conns b) ''qwen'' = Some t \<and> AcStream t False \<in># A \<and>
    ssh_step\<^sup>*\<^sup>* (b, add_mset (AcLookup ''qwen'' moved_endpoint) A) (b', A') \<and> AcStream t False \<in># A' \<and>
    tn_refs (sb_tunnels b' t) = 1 \<and> tn_closed (sb_tunnels b' t)"
  by (rule release_window_cuts_stream [OF sample_moved])

theorem retire_spares_streams_witness:
  "\<exists>b :: unit SSHBackend. pool_reachable (b, {#AcStream 0 True, AcHandle 0, AcWatch ''qwen'' 0#}) \<and>
     \<not> tn_closed (sb_tunnels b 0)"
proof -
  obtain b :: "unit SSHBackend" where "pool_reachable (b, {#AcHandle 0, AcWatch ''qwen'' 0#})"
    "sb_tunnels b 0 = new_tunnel sample_endpoint"
    by (rule sched_in_service)
  then have "pool_reachable (roundtrip_begin 0 b, {#AcStream 0 True, AcHandle 0, AcWatch ''qwen'' 0#})"
    using roundtrip [of b 0 "{#AcWatch ''qwen'' 0#}"]
    by (auto simp: pool_reachable_def new_tunnel_def intro: rtranclp.rtrancl_into_rtrancl)
  then show ?thesis using retire_spares_streams [of "roundtrip_begin 0 b"] by (intro exI conjI) auto
qed

theorem retired_idle_closed_witness:
  "\<exists>b :: unit SSHBackend. pool_reachable (b, {#AcDial ''qwen'' moved_endpoint, AcWatch ''qwen'' 0#}) \<and>
     tn_closed (sb_tunnels b 0)"
proof -
  obtain b :: "unit SSHBackend" where reach: "pool_reachable (b, {#AcHandle 0, AcWatch ''qwen'' 0#})"
    and b: "gomap_get (sb_conns b) ''qwen'' = Some 0" "gomap_get (sb_failed b) ''qwen'' = None"
      "sb_tunnels b 0 = new_tunnel sample_endpoint"
    by (rule sched_in_service)
  obtain b' where look: "tunnelFor_lookup ''qwen'' moved_endpoint 0 b = (LkDial, Some 0, b')"
    and b': "tn_retired (sb_tunnels b' 0)" "tn_refs (sb_tunnels b' 0) = 0"
    using b sample_moved by (simp add: tunnelFor_lookup_def tunnel_ops new_tunnel_def)
  let ?A = "{#AcDial ''qwen'' moved_endpoint, AcWatch ''qwen'' 0#}"
  have "ssh_step\<^sup>*\<^sup>* (new_SSHBackend, {#}) (b, {#AcHandle 0, AcWatch ''qwen'' 0#})"
    using reach by (simp add: pool_reachable_def)
  also have "ssh_step \<dots> (b, {#AcWatch ''qwen'' 0#})" by (rule handle_done)
  also have "ssh_step \<dots> (b, add_mset (AcLookup ''qwen'' moved_endpoint) {#AcWatch ''qwen'' 0#})" by (rule arrive)
  also have "ssh_step \<dots> (b', add_mset (AcRetire 0) ?A)"
    using lookup [OF look, of "{#AcWatch ''qwen'' 0#}"] by (simp add: after_lookup_def add_mset_commute)
  also have "ssh_step \<dots> (b', add_mset (AcClose 0) ?A)"
    using retire_second [of b' 0 ?A] b' by (simp add: retire_test_def add_mset_commute)
  also have "ssh_step \<dots> (close_tunnel 0 b', ?A)" by (rule closing)
  finally have "pool_reachable (close_tunnel 0 b', ?A)" by (simp add: pool_reachable_def)
  moreover have "tn_closed (sb_tunnels (close_tunnel 0 b') 0)"
    by (rule retired_idle_closed [OF calculation]) (simp_all add: b' close_tunnel_def)
  ultimately show ?thesis by blast
qed

text \<open>A tunnel that only its watcher knows: open, in nobody's hands, and not the Model's.\<close>

definition orphaned :: "nat \<Rightarrow> 'k pool \<Rightarrow> bool" where
  "orphaned t p =
     (case p of (b, A) \<Rightarrow>
        t < sb_next b \<and> \<not> tn_retired (sb_tunnels b t) \<and> \<not> tn_closed (sb_tunnels b t) \<and>
        t \<notin> snd ` set (sb_conns b) \<and>
        \<not> some_actor (installs t) A \<and> \<not> some_actor (uses t) A \<and> \<not> some_actor (ends t) A)"

lemma set_gomap_put: "set (gomap_put k v m) \<subseteq> insert (k, v) (set m)"
  by (induction m) (auto split: if_splits)

lemma orphaned_step:
  assumes "ssh_step p p'" and "orphaned t p"
  shows "orphaned t p'"
  using assms
proof (induction rule: ssh_step.induct)
  case (lookup m want now b r old b' A)
  have in_conns: "gomap_get (sb_conns b) m = Some u \<Longrightarrow> u \<noteq> t" for u
    using lookup.prems map_of_SomeD [of "sb_conns b" m u] by (force simp: orphaned_def)
  show ?case using lookup.hyps
    by (elim lookup_cases) (use lookup.prems in_conns in \<open>auto simp: orphaned_def after_lookup_def gomap_del_def\<close>)
next
  case (dialled want answer b u b' m A)
  then show ?case using ssh_dial_Some [OF dialled.hyps] by (auto simp: orphaned_def)
next
  case (dial_failed want answer b b' d m now A)
  then show ?case using ssh_dial_None [OF dial_failed.hyps] by (auto simp: orphaned_def tunnel_ops)
next
  case (install_won m want u b v b' A)
  then have "u \<noteq> t" by (auto simp: orphaned_def)
  moreover have "t \<notin> snd ` set (gomap_put m u (sb_conns b))"
    using \<open>u \<noteq> t\<close> install_won.prems image_mono [OF set_gomap_put, of snd m u "sb_conns b"]
    by (auto simp: orphaned_def)
  ultimately show ?case using install_won by (elim install_cases) (auto simp: orphaned_def)
next
  case (install_lost m want u b v b' A)
  have "v \<noteq> t" if "gomap_get (sb_conns b) m = Some v"
    using install_lost.prems map_of_SomeD [OF that] by (force simp: orphaned_def)
  with install_lost show ?case by (elim install_cases) (auto simp: orphaned_def tunnel_ops)
next
  case (evict b u m A)
  then show ?case by (auto simp: orphaned_def watch_evict_def gomap_del_def)
qed (auto simp: orphaned_def tunnel_ops split: if_splits)

lemma orphaned_steps: "ssh_step\<^sup>*\<^sup>* p p' \<Longrightarrow> orphaned t p \<Longrightarrow> orphaned t p'"
  by (induction rule: rtranclp_induct) (auto intro: orphaned_step)

text \<open>
  A leaked connection. For every Model and two endpoints, there is a schedule that leaves the
  tunnel to the newer endpoint orphaned: a slow dial of the older endpoint ends after the newer tunnel
  was installed and overwrites it in the map. From then on nothing the program does, whatever the
  schedule, retires or closes that connection.
\<close>

theorem overwritten_tunnel_leaks:
  fixes old new :: ReplicaEndpoint
  assumes "old \<noteq> new"
  shows "\<exists>(b :: 'k SSHBackend) A t. pool_reachable (b, A) \<and> tn_endpoint (sb_tunnels b t) = new \<and>
    (\<forall>p. ssh_step\<^sup>*\<^sup>* (b, A) p \<longrightarrow> orphaned t p)"
proof -
  let ?n = "new_SSHBackend :: 'k SSHBackend"
  let ?b1 = "dialled_state new ?n"
  let ?b2 = "installed_state m 0 ?b1"
  let ?b3 = "dialled_state old ?b2"
  let ?b4 = "installed_state m 1 ?b3"
  let ?rest = "{#AcWatch m 0#}"
  note st = new_SSHBackend_def dialled_state_def installed_state_def
  have "ssh_step\<^sup>*\<^sup>* (?n, {#}) (?n, {#AcDial m old#})" by (rule sched_request) (simp_all add: st)
  also have "ssh_step\<^sup>*\<^sup>* \<dots> (?n, {#AcDial m new, AcDial m old#})"
    by (rule sched_request) (simp_all add: st)
  also have "ssh_step (?n, {#AcDial m new, AcDial m old#}) (?b1, {#AcInstall m new 0, AcDial m old#})"
    using sched_dial [of new ?n m "{#AcDial m old#}"] by (simp add: unpinned_def new_SSHBackend_def)
  also have "ssh_step \<dots> (?b2, add_mset (AcHandle 0) (add_mset (AcWatch m 0) {#AcDial m old#}))"
    by (rule sched_install) (simp add: st)
  also have "ssh_step \<dots> (?b2, add_mset (AcDial m old) ?rest)"
    using handle_done [of ?b2 0 "{#AcDial m old, AcWatch m 0#}"] by (simp add: add_mset_commute)
  also have "ssh_step \<dots> (?b3, add_mset (AcInstall m old 1) ?rest)"
    using sched_dial [of old ?b2 m ?rest] by (simp add: unpinned_def st)
  also have "ssh_step \<dots> (?b4, add_mset (AcHandle 1) (add_mset (AcWatch m 1) ?rest))"
    using assms by (intro sched_install) (auto simp: st new_tunnel_def)
  finally have "pool_reachable (?b4, add_mset (AcHandle 1) (add_mset (AcWatch m 1) ?rest))"
    by (simp add: pool_reachable_def)
  moreover have "orphaned 0 (?b4, add_mset (AcHandle 1) (add_mset (AcWatch m 1) ?rest))"
    by (simp add: orphaned_def st new_tunnel_def)
  moreover have "tn_endpoint (sb_tunnels ?b4 0) = new" by (simp add: st new_tunnel_def)
  ultimately show ?thesis using orphaned_steps by blast
qed

theorem overwritten_tunnel_leaks_witness:
  "\<exists>(b :: unit SSHBackend) A t. pool_reachable (b, A) \<and> tn_endpoint (sb_tunnels b t) = moved_endpoint \<and>
    (\<forall>p. ssh_step\<^sup>*\<^sup>* (b, A) p \<longrightarrow> orphaned t p)"
  by (rule overwritten_tunnel_leaks [OF sample_moved])

section \<open>Host keys\<close>

lemma pin_kept:
  assumes "pinHostKey addr g b = (ok, b')" and "gomap_get (sb_hostKeys b) a = Some f"
  shows "gomap_get (sb_hostKeys b') a = Some f"
  using assms by (auto simp: pinHostKey_def split: option.splits)

lemma ssh_dial_keeps_pin:
  assumes "ssh_dial want answer b = (r, b')" and "gomap_get (sb_hostKeys b) a = Some f"
  shows "gomap_get (sb_hostKeys b') a = Some f"
proof (cases answer)
  case (Some x)
  obtain g ok where x: "x = (g, ok)" by fastforce
  obtain acc b1 where pin: "pinHostKey (dc_Addr (dialConfig 0 want)) g b = (acc, b1)" by fastforce
  have "gomap_get (sb_hostKeys b1) a = Some f" by (rule pin_kept [OF pin assms(2)])
  then show ?thesis using assms(1) Some x pin by (auto simp: ssh_dial_def split: if_splits)
qed (use assms in \<open>simp add: ssh_dial_def\<close>)

lemma hostKeys_frame:
  "sb_hostKeys (shutdown_store b) = sb_hostKeys b" "sb_hostKeys (watch_evict m t b) = sb_hostKeys b"
  "tunnelFor_lookup m want now b = (r, old, b') \<Longrightarrow> sb_hostKeys b' = sb_hostKeys b"
  "tunnelFor_install m want t b = (u, won, b') \<Longrightarrow> sb_hostKeys b' = sb_hostKeys b"
proof -
  have "sb_hostKeys (fold (\<lambda>e. retire_store (snd e)) es c) = sb_hostKeys c" for es and c :: "'a SSHBackend"
    by (induction es arbitrary: c) (simp_all add: retire_store_def)
  then show "sb_hostKeys (shutdown_store b) = sb_hostKeys b" by (simp add: shutdown_store_def)
qed (auto simp: watch_evict_def tunnelFor_lookup_def tunnelFor_install_def tunnel_ops split: if_splits option.splits)

lemma pin_step:
  assumes "ssh_step p p'" and "gomap_get (sb_hostKeys (fst p)) a = Some f"
  shows "gomap_get (sb_hostKeys (fst p')) a = Some f"
  using assms
  by (induction rule: ssh_step.induct)
    (auto simp: tunnel_ops hostKeys_frame dest: ssh_dial_keeps_pin)

lemma pin_steps:
  "ssh_step\<^sup>*\<^sup>* p p' \<Longrightarrow> gomap_get (sb_hostKeys (fst p)) a = Some f \<Longrightarrow> gomap_get (sb_hostKeys (fst p')) a = Some f"
  by (induction rule: rtranclp_induct) (auto intro: pin_step)

text \<open>
  C23. Trust on first use holds across goroutines. Once a key is pinned for an address, then after
  any interleaving no dial to that address succeeds with another key.
\<close>

theorem host_key_pinned:
  assumes "gomap_get (sb_hostKeys b) (dc_Addr (dialConfig 0 want)) = Some pinned"
    and "ssh_step\<^sup>*\<^sup>* (b, A) (b', A')" and "ssh_dial want (Some (offered, ok)) b' = (Some t, b'')"
  shows "offered = pinned"
  using pin_steps [OF assms(2), of "dc_Addr (dialConfig 0 want)" pinned] assms(1,3)
  by (auto simp: ssh_dial_def pinHostKey_def split: if_splits)

theorem host_key_pinned_witness:
  "fst (ssh_dial sample_endpoint (Some (''other'', True))
     (snd (pinHostKey (dc_Addr (dialConfig 0 sample_endpoint)) ''key'' (new_SSHBackend :: unit SSHBackend)))) = None"
proof (rule ccontr)
  let ?b = "snd (pinHostKey (dc_Addr (dialConfig 0 sample_endpoint)) ''key'' (new_SSHBackend :: unit SSHBackend))"
  have pinned: "gomap_get (sb_hostKeys ?b) (dc_Addr (dialConfig 0 sample_endpoint)) = Some ''key''"
    by (simp add: pinHostKey_def new_SSHBackend_def)
  assume "\<not> ?thesis"
  then obtain t b' where "ssh_dial sample_endpoint (Some (''other'', True)) ?b = (Some t, b')"
    by (metis not_None_eq surjective_pairing)
  from host_key_pinned [OF pinned rtranclp.rtrancl_refl this] show False by simp
qed

section \<open>Direct path or fallback\<close>

lemma tunnelFor_lookup_use:
  "tunnelFor_lookup m want now b = (LkUse t, old, b') \<Longrightarrow>
   b' = b \<and> gomap_get (sb_conns b) m = Some t \<and> tn_endpoint (sb_tunnels b t) = want"
  by (erule lookup_cases) auto

lemma resolveSigner_frame:
  "resolveSigner loaded b = (s, b') \<Longrightarrow>
   sb_conns b' = sb_conns b \<and> sb_tunnels b' = sb_tunnels b \<and> sb_failed b' = sb_failed b"
  by (auto simp: resolveSigner_def signer_store_def Let_def split: option.splits)

text \<open>
  A request goes to its own replica or to the fallback. When \<open>tunnelFor\<close> gives a tunnel, it is
  the Model's tunnel, it leads to the endpoint the request's snapshot publishes, and a signer was
  there; a nil result means no cache, no signer, no published endpoint, a dial still in its backoff,
  or a dial that failed and is now remembered for \<open>DialBackoff\<close>.
\<close>

theorem tunnelFor_sound:
  "case tunnelFor d loaded net cache now later m b of
     (Some t, b') \<Rightarrow>
       (\<exists>c want. cache = Some c \<and> cache_Get c m = (fst (cache_Get c m), True) \<and>
          sn_Replica (fst (cache_Get c m)) = Some want \<and> fst (resolveSigner loaded b) \<noteq> None \<and>
          tn_endpoint (sb_tunnels b' t) = want \<and> gomap_get (sb_conns b') m = Some t)
   | (None, b') \<Rightarrow>
       cache = None \<or> fst (resolveSigner loaded b) = None \<or>
       (\<exists>c. cache = Some c \<and> (\<not> snd (cache_Get c m) \<or> sn_Replica (fst (cache_Get c m)) = None)) \<or>
       (\<exists>f. gomap_get (sb_failed b) m = Some f \<and> now < fd_until f \<and> b' = snd (resolveSigner loaded b)) \<or>
       (\<exists>f. gomap_get (sb_failed b') m = Some f \<and> fd_until f = later + dial_backoff d)"
proof (cases cache)
  case (Some c)
  obtain s b0 where rs: "resolveSigner loaded b = (s, b0)" by fastforce
  obtain snap ok where get: "cache_Get c m = (snap, ok)" by fastforce
  note eq = tunnelFor_def Some rs get
  show ?thesis
  proof (cases "s = None \<or> \<not> ok \<or> sn_Replica snap = None")
    case True
    then show ?thesis by (auto simp: eq split: option.splits)
  next
    case False
    then obtain k want where on: "s = Some k" "ok" "sn_Replica snap = Some want" by auto
    obtain r old b1 where look: "tunnelFor_lookup m want now b0 = (r, old, b1)" by (metis prod_cases3)
    show ?thesis
    proof (cases r)
      case LkFallback
      with look have "b1 = b0" "\<exists>f. gomap_get (sb_failed b0) m = Some f \<and> now < fd_until f"
        by (auto simp: tunnelFor_lookup_def split: option.splits if_splits)
      with LkFallback on look resolveSigner_frame [OF rs] show ?thesis by (auto simp: eq)
    next
      case (LkUse t)
      with on look tunnelFor_lookup_use [of m want now b0 t old b1] show ?thesis by (simp add: eq)
    next
      case LkDial
      define b2 where "b2 = (case old of None \<Rightarrow> b1
        | Some t \<Rightarrow> if retire_test t b1 then close_tunnel t b1 else b1)"
      obtain res b3 where dial: "ssh_dial want (net want k) b2 = (res, b3)" by fastforce
      show ?thesis
      proof (cases res)
        case None
        with LkDial on look dial show ?thesis
          by (auto simp: eq record_failure_def simp flip: b2_def)
      next
        case (Some t)
        obtain u won b4 where inst: "tunnelFor_install m want t b3 = (u, won, b4)" by (metis prod_cases3)
        have "tn_endpoint (sb_tunnels b4 u) = want" "gomap_get (sb_conns b4) m = Some u"
          using inst ssh_dial_Some [OF dial [unfolded Some]]
          by (auto elim!: install_cases simp: new_tunnel_def close_tunnel_def)
        with LkDial on look dial Some inst show ?thesis by (simp add: eq flip: b2_def)
      qed
    qed
  qed
qed (simp add: tunnelFor_def)

text \<open>
  A dead tunnel leaves the path. In every reachable state, the watcher of the Model's tunnel is
  there to evict it as soon as the connection is lost, and after that step no lookup hands it out.
\<close>

theorem dead_tunnel_evicted:
  assumes "pool_reachable (b, A)" and "gomap_get (sb_conns b) m = Some t" and "tn_lost (sb_tunnels b t)"
  shows "ssh_step (b, A) (watch_evict m t b, A - {#AcWatch m t#}) \<and>
    (\<forall>want now. fst (tunnelFor_lookup m want now (watch_evict m t b)) \<noteq> LkUse t)"
proof -
  have "AcWatch m t \<in># A"
    using in_service(4) [of b A m t] pool_reachable_inv [OF assms(1)] assms(2) by (simp add: pool_inv_def)
  then have "ssh_step (b, add_mset (AcWatch m t) (A - {#AcWatch m t#})) (watch_evict m t b, A - {#AcWatch m t#})"
    using assms(3) by (intro evict) simp
  with \<open>AcWatch m t \<in># A\<close> show ?thesis
    using assms(2) by (auto simp: watch_evict_def tunnelFor_lookup_def)
qed

theorem dead_tunnel_evicted_witness:
  "\<exists>b :: unit SSHBackend. pool_reachable (b, {#AcHandle 0, AcWatch ''qwen'' 0#}) \<and> tn_lost (sb_tunnels b 0) \<and>
     fst (tunnelFor_lookup ''qwen'' sample_endpoint 0 (watch_evict ''qwen'' 0 b)) \<noteq> LkUse 0"
proof -
  obtain b :: "unit SSHBackend" where reach: "pool_reachable (b, {#AcHandle 0, AcWatch ''qwen'' 0#})"
    and conn: "gomap_get (sb_conns b) ''qwen'' = Some 0"
    by (rule sched_in_service)
  let ?b = "watch_keepalive 0 False b"
  have "pool_reachable (?b, {#AcHandle 0, AcWatch ''qwen'' 0#})"
    using reach connection_lost by (auto simp: pool_reachable_def intro: rtranclp.rtrancl_into_rtrancl)
  moreover have "tn_lost (sb_tunnels ?b 0)" "gomap_get (sb_conns ?b) ''qwen'' = Some 0"
    using conn by (simp_all add: watch_keepalive_def)
  ultimately show ?thesis using dead_tunnel_evicted [of ?b _ "''qwen''" 0] by blast
qed

text \<open>
  A silent death is noticed. Once one keepalive goes unanswered, the watcher returns at its next
  wake-up at the latest, and the tunnel is no longer the Model's, whatever else ran in between; a lost
  connection never comes back.
\<close>

definition stays_lost :: "nat \<Rightarrow> ('k SSHBackend \<Rightarrow> 'k SSHBackend) \<Rightarrow> bool" where
  "stays_lost t world \<longleftrightarrow> (\<forall>b. tn_lost (sb_tunnels b t) \<longrightarrow> tn_lost (sb_tunnels (world b) t))"

lemma watch_evicts: "gomap_get (sb_conns (watch_evict m t b)) m \<noteq> Some t"
  by (simp add: watch_evict_def)

lemma watch_returned:
  "snd (watch m t ws b) \<Longrightarrow> \<exists>b'. fst (watch m t ws b) = watch_evict m t b' \<and> (tn_closed (sb_tunnels b' t) \<or> tn_lost (sb_tunnels b' t))"
  by (induction m t ws b rule: watch.induct) (auto simp: Let_def split: if_splits)

theorem silent_death_noticed:
  assumes "\<forall>(world, answered)\<in>set (ws @ [(world, False), (world', answered')]). stays_lost t world"
  shows "snd (watch m t (ws @ [(world, False), (world', answered')]) b) \<and>
    gomap_get (sb_conns (fst (watch m t (ws @ [(world, False), (world', answered')]) b))) m \<noteq> Some t"
proof -
  have "snd (watch m t (ws @ [(world, False), (world', answered')]) b)"
    using assms
  proof (induction ws arbitrary: b)
    case Nil
    then show ?case
      by (auto simp: Let_def stays_lost_def watch_keepalive_def)
  next
    case (Cons w ws)
    then show ?case
      by (cases w) (auto simp: Let_def)
  qed
  with watch_returned [OF this] watch_evicts show ?thesis
    by metis
qed

end
