(* ===== verification/Proxy_Route.thy ===== *)
theory Proxy_Route
  imports Proxy_Handler Proxy_SSH
begin

text \<open>
  The request path over the direct data path: the backend that \<open>cmd/proxy\<close> wires, an \<open>SSHBackend\<close> in
  front of a \<open>StatusBackend\<close> (\<open>internal/proxy/sshbackend.go\<close>, \<open>backend.go\<close>, \<open>attempt.go\<close>), as the
  \<open>RouteBackend\<close> of the handler. The handler's state is the SSH backend beside the rest of the world.
\<close>

section \<open>The wired backend\<close>

text \<open>What the backend reads of the world: the Model cache, the wall clock, the outcome of loading the
  replica key and the answers of the hosts it dials.\<close>

record ('w, 'k) ssh_wiring =
  sx_Cache :: "'w \<Rightarrow> ModelCache"
  sx_Now :: "'w \<Rightarrow> gotime"
  sx_Signer :: "'w \<Rightarrow> 'k option"
  sx_Net :: "'w \<Rightarrow> ReplicaEndpoint \<Rightarrow> 'k \<Rightarrow> handshake"
  sx_DialBackoff :: duration
  sx_parseURL :: "string \<Rightarrow> string option"
  sx_DstackBaseURL :: string

definition wired_route ::
  "('w, 'k) ssh_wiring \<Rightarrow> string \<Rightarrow> 'k SSHBackend \<times> 'w \<Rightarrow> (string \<times> nat option) option \<times> 'k SSHBackend \<times> 'w" where
  "wired_route W model st =
     (case st of (b, w) \<Rightarrow>
        (case tunnelFor (sx_DialBackoff W) (sx_Signer W w) (sx_Net W w) (Some (sx_Cache W w))
                (sx_Now W w) (sx_Now W w) model b of
           (resolved, b') \<Rightarrow>
             (ssh_Route (StatusBackend_URL (sx_parseURL W) (sx_DstackBaseURL W) (sx_Cache W w)) resolved model,
              (b', w))))"

definition wired_backend :: "('w, 'k) ssh_wiring \<Rightarrow> ('k SSHBackend \<times> 'w) backend" where
  "wired_backend W = RouteBackend (wired_route W)"

text \<open>A forward whose URL and transport belong together: the placeholder host over a tunnel, or the
  dstack service URL the cache resolves over the default client.\<close>

definition request_suffix :: "http_request \<Rightarrow> string" where
  "request_suffix r = rq_Path r @ (if rq_RawQuery r \<noteq> [] then ''?'' @ rq_RawQuery r else [])"

fun coherent_forward :: "('w, 'k) ssh_wiring \<Rightarrow> http_request \<Rightarrow> string \<Rightarrow> proxy_call \<Rightarrow> bool" where
  "coherent_forward W r m (PcForward c q p) =
     (case c of
        Some t \<Rightarrow> ob_URL q = ''http://replica'' @ request_suffix r
      | None \<Rightarrow> (\<exists>w target. StatusBackend_URL (sx_parseURL W) (sx_DstackBaseURL W) (sx_Cache W w) m = Some target \<and>
                   ob_URL q = target @ request_suffix r))"
| "coherent_forward W r m _ = True"

lemma wired_route_cases:
  assumes "fst (wired_route W m (b, w)) = Some (u, c)"
  shows "(\<exists>t. c = Some t \<and> u = ''http://replica'') \<or>
    c = None \<and> StatusBackend_URL (sx_parseURL W) (sx_DstackBaseURL W) (sx_Cache W w) m = Some u"
  using assms by (auto simp: wired_route_def ssh_Route_def split: prod.splits option.splits)

text \<open>The handler with the backend that \<open>main\<close> gives it.\<close>

definition wire_proxy :: "('w, 'k) ssh_wiring \<Rightarrow> ('k SSHBackend \<times> 'w) proxy_env \<Rightarrow> ('k SSHBackend \<times> 'w) proxy_env" where
  "wire_proxy W E = E\<lparr>px_Backend := wired_backend W\<rparr>"

interpretation wired: request_calls "wire_proxy W E" r m "coherent_forward W r m" for W E r m
proof
  show "coherent_forward W r m c" if "\<not> is_forward c" for c using that by (cases c) auto
  show "coherent_forward W r m (PcForward c (outbound (wire_proxy W E) r u body) p)"
    if "fst (route (wire_proxy W E) m s) = Some (u, c)" for s u c body p
  proof -
    obtain b w where s: "s = (b, w)" by fastforce
    have "fst (wired_route W m (b, w)) = Some (u, c)"
      using that by (simp add: route_def wire_proxy_def wired_backend_def s)
    from wired_route_cases [OF this] show ?thesis
      by (auto simp: outbound_def request_suffix_def Let_def)
  qed
qed simp

text \<open>
  C15. URL and transport never mix. With the SSH backend in front of the status backend, in every
  request, whatever the cache, the pool of tunnels, the clients and the replicas do meanwhile, each
  forward goes either to the placeholder host over a tunnel or to the dstack URL of the Model over
  the default client, with the caller's path and query kept.
\<close>

theorem forward_route_coherent:
  "list_all (coherent_forward W r (fst (modelFromRequest (px_unmarshal E) r)))
     (serve_calls (wire_proxy W E) r ws rs s)"
proof -
  let ?E = "wire_proxy W E"
  obtain m err where req: "modelFromRequest (px_unmarshal ?E) r = (m, err)" by fastforce
  obtain snap cr where get: "px_Get ?E s m = (snap, cr)" by fastforce
  have calls: "extends (coherent_forward W r m) l
      (snd (snd (serve_known (traced_proxy ?E) r m snap cr (map lift_world ws) (map lift_world rs) (x, l))))" for x l
    using wired.serve_known_calls [of W r m "(x, l)"] by simp
  have unm: "px_unmarshal ?E = px_unmarshal E" by (simp add: wire_proxy_def)
  obtain res s1 l1 where known: "serve_known (traced_proxy ?E) r m snap cr (map lift_world ws) (map lift_world rs)
      (px_Begin ?E m s, [PcBegin m]) = (res, (s1, l1))"
    by (metis prod_cases3)
  show ?thesis
    using calls [of "[PcBegin m]" "px_Begin ?E m s"] calls [of "[]" s] known req
    by (auto simp: serve_calls_def serve_trace_def ServeHTTP_def get Let_def extends_def unm split: prod.splits)
qed

definition sample_wiring :: "(unit, unit) ssh_wiring" where
  "sample_wiring =
     \<lparr>sx_Cache = \<lambda>_. cache_Set ''qwen'' (zero_snapshot\<lparr>sn_Phase := Ready, sn_Replica := Some sample_endpoint\<rparr>) NewCache,
      sx_Now = \<lambda>_. 0, sx_Signer = \<lambda>_. Some (), sx_Net = \<lambda>_ _ _. Some (''key'', True), sx_DialBackoff = 0,
      sx_parseURL = Some, sx_DstackBaseURL = ''http://dstack''\<rparr>"

theorem forward_route_coherent_witness:
  "fst (wired_route sample_wiring ''qwen'' (new_SSHBackend, ())) = Some (''http://replica'', Some 0) \<and>
   list_all (coherent_forward sample_wiring sample_http_request ''qwen'')
     (serve_calls (wire_proxy sample_wiring sample_proxy) sample_http_request [] [] (new_SSHBackend, ()))"
proof
  show "fst (wired_route sample_wiring ''qwen'' (new_SSHBackend, ())) = Some (''http://replica'', Some 0)"
    by (simp add: wired_route_def sample_wiring_def tunnelFor_def resolveSigner_def signer_store_def new_SSHBackend_def
        cache_Get_def cache_Set_def cache_store_def cache_broadcast_def NewCache_def tunnelFor_lookup_def ssh_dial_def pinHostKey_def
        tunnelFor_install_def ssh_Route_def)
  show "list_all (coherent_forward sample_wiring sample_http_request ''qwen'')
     (serve_calls (wire_proxy sample_wiring sample_proxy) sample_http_request [] [] (new_SSHBackend, ()))"
    using forward_route_coherent [of sample_wiring sample_http_request sample_proxy "[]" "[]" "(new_SSHBackend, ())"]
    by (simp add: sample_http_model)
qed

end
