(* ===== verification/Proxy_Informer.thy ===== *)
theory Proxy_Informer
  imports Proxy_Cache
begin

text \<open>
  \<open>RunInformerCache\<close> (\<open>internal/proxy/cache.go\<close>): the handlers it registers with client-go's informer
  and the wait that marks the cache synced. The informer itself is not part of the repository; a run
  is the sequence of what it does to squall: handler calls, the return of \<open>WaitForCacheSync\<close> on
  \<open>informer.HasSynced\<close>, and the end of the context. client-go documents that \<open>HasSynced\<close> of the
  informer says nothing about which handler calls were made, so the sequence is arbitrary.
\<close>

text \<open>What a handler is given: an object with its creation time, a tombstone of one, anything else.\<close>

datatype informer_object = Unstructured gotime json | Tombstone json | OtherObject

definition upsert_object :: "(string \<Rightarrow> duration option) \<Rightarrow> informer_object \<Rightarrow> ModelCache \<Rightarrow> ModelCache" where
  "upsert_object parseDuration obj c =
     (case obj of Unstructured created u \<Rightarrow> informer_upsert parseDuration created u c | _ \<Rightarrow> c)"

definition remove_object :: "informer_object \<Rightarrow> ModelCache \<Rightarrow> ModelCache" where
  "remove_object obj c =
     (case obj of Unstructured _ u \<Rightarrow> informer_remove u c | Tombstone u \<Rightarrow> informer_remove u c | OtherObject \<Rightarrow> c)"

datatype informer_event = AddFunc informer_object | UpdateFunc informer_object informer_object
  | DeleteFunc informer_object | StoreSynced | CtxDone

definition handle_event :: "(string \<Rightarrow> duration option) \<Rightarrow> informer_event \<Rightarrow> ModelCache \<Rightarrow> ModelCache" where
  "handle_event parseDuration ev c =
     (case ev of
        AddFunc obj \<Rightarrow> upsert_object parseDuration obj c
      | UpdateFunc _ obj \<Rightarrow> upsert_object parseDuration obj c
      | DeleteFunc obj \<Rightarrow> remove_object obj c
      | StoreSynced \<Rightarrow> cache_SetSynced c
      | CtxDone \<Rightarrow> c)"

text \<open>
  The run: still waiting for the store, serving, or returned. A context that ends during the wait is
  returned as its error, one that ends later as nil; a registration that fails is returned at once.
\<close>

datatype run_state = RunWaiting | RunServing | RunReturned bool

fun run_events :: "(string \<Rightarrow> duration option) \<Rightarrow> informer_event list \<Rightarrow> run_state \<times> ModelCache \<Rightarrow> run_state \<times> ModelCache" where
  "run_events pd [] st = st"
| "run_events pd (ev # evs) (st, c) =
     (case st of
        RunReturned ok \<Rightarrow> (RunReturned ok, c)
      | _ \<Rightarrow> (case ev of
                CtxDone \<Rightarrow> (RunReturned (st = RunServing), c)
              | StoreSynced \<Rightarrow> run_events pd evs (RunServing, handle_event pd ev c)
              | _ \<Rightarrow> run_events pd evs (st, handle_event pd ev c)))"

definition RunInformerCache ::
  "(string \<Rightarrow> duration option) \<Rightarrow> bool \<Rightarrow> informer_event list \<Rightarrow> ModelCache \<Rightarrow> run_state \<times> ModelCache" where
  "RunInformerCache parseDuration registered evs c =
     (if \<not> registered then (RunReturned False, c) else run_events parseDuration evs (RunWaiting, c))"

section \<open>What the cache holds\<close>

text \<open>The last word about a name: a snapshot, its removal, or nothing said.\<close>

definition event_about :: "(string \<Rightarrow> duration option) \<Rightarrow> string \<Rightarrow> informer_event \<Rightarrow> ModelSnapshot option option" where
  "event_about pd name ev =
     (let said = (\<lambda>obj. case obj of
                    Unstructured created u \<Rightarrow> if object_name u = name then Some (Some (snapshot_of pd created u)) else None
                  | _ \<Rightarrow> None);
          gone = (\<lambda>obj. case obj of
                    Unstructured _ u \<Rightarrow> if object_name u = name then Some None else None
                  | Tombstone u \<Rightarrow> if object_name u = name then Some None else None
                  | OtherObject \<Rightarrow> None)
      in case ev of AddFunc obj \<Rightarrow> said obj | UpdateFunc _ obj \<Rightarrow> said obj | DeleteFunc obj \<Rightarrow> gone obj | _ \<Rightarrow> None)"

definition last_word :: "(string \<Rightarrow> duration option) \<Rightarrow> string \<Rightarrow> informer_event list \<Rightarrow> ModelSnapshot option option" where
  "last_word pd name evs = head_option (rev (List.map_filter (event_about pd name) evs))"

definition answer_of :: "ModelSnapshot option \<Rightarrow> ModelSnapshot \<times> bool" where
  "answer_of w = (case w of Some snap \<Rightarrow> (snap, True) | None \<Rightarrow> (zero_snapshot, False))"

lemma cache_Get_Set: "cache_Get (cache_Set n snap c) m = (if m = n then (snap, True) else cache_Get c m)"
  by (auto simp: cache_Set_def)

lemma cache_Get_Delete: "cache_Get (cache_Delete n c) m = (if m = n then (zero_snapshot, False) else cache_Get c m)"
  by (auto simp: cache_Delete_def)

lemma mc_synced_step [simp]:
  "mc_synced (cache_Set n snap c) = mc_synced c" "mc_synced (cache_Delete n c) = mc_synced c"
  by (simp_all add: cache_Set_def cache_Delete_def cache_store_def cache_remove_def cache_broadcast_def split: option.split)

lemmas handler_defs = handle_event_def upsert_object_def remove_object_def informer_upsert_def informer_remove_def
  event_about_def cache_SetSynced_def

lemma handle_event_get:
  "cache_Get (handle_event pd ev c) name =
     (case event_about pd name ev of Some w \<Rightarrow> answer_of w | None \<Rightarrow> cache_Get c name)"
  by (auto simp: handler_defs cache_Get_Set cache_Get_Delete answer_of_def Let_def
      split: informer_event.split informer_object.split) (simp add: cache_Get_def)

lemma handle_event_synced: "mc_synced (handle_event pd ev c) \<longleftrightarrow> mc_synced c \<or> ev = StoreSynced"
  by (auto simp: handler_defs split: informer_event.split informer_object.split)

lemma last_word_Nil [simp]: "last_word pd name [] = None"
  by (simp add: last_word_def map_filter_simps)

lemma last_word_Cons:
  "last_word pd name (ev # evs) = (case last_word pd name evs of Some w \<Rightarrow> Some w | None \<Rightarrow> event_about pd name ev)"
  by (simp add: last_word_def map_filter_simps split: option.split)

lemma run_events_cache:
  assumes "\<nexists>ok. st = RunReturned ok"
  shows "cache_Get (snd (run_events pd evs (st, c))) name =
      (case last_word pd name (takeWhile (\<lambda>ev. ev \<noteq> CtxDone) evs) of
         Some w \<Rightarrow> answer_of w | None \<Rightarrow> cache_Get c name) \<and>
    (mc_synced (snd (run_events pd evs (st, c))) \<longleftrightarrow>
       mc_synced c \<or> StoreSynced \<in> set (takeWhile (\<lambda>ev. ev \<noteq> CtxDone) evs))"
  using assms
proof (induction evs arbitrary: st c)
  case (Cons ev evs)
  show ?case
  proof (cases "ev = CtxDone")
    case True
    with Cons.prems show ?thesis
      by (cases st) simp_all
  next
    case False
    let ?st = "if ev = StoreSynced then RunServing else st"
    have "run_events pd (ev # evs) (st, c) = run_events pd evs (?st, handle_event pd ev c)"
      using Cons.prems False by (cases st; cases ev) simp_all
    moreover have "\<nexists>ok. ?st = RunReturned ok"
      using Cons.prems by simp
    ultimately show ?thesis
      using Cons.IH [of ?st "handle_event pd ev c"] False
      by (auto simp: last_word_Cons handle_event_get handle_event_synced split: option.split)
  qed
qed simp

text \<open>
  C30. The cache says of every Model name what the handlers were last told about it, whatever the order
  and number of calls; tombstones count as deletions, foreign objects are ignored and nothing after
  the end of the context is. Whether the cache calls itself synced, which is what the readiness probe
  answers, depends on the informer's store alone: it is true as soon as the store has synced,
  also when no handler call has yet been made.
\<close>

theorem informer_cache_latest:
  "cache_Get (snd (RunInformerCache pd True evs NewCache)) name =
     (case last_word pd name (takeWhile (\<lambda>ev. ev \<noteq> CtxDone) evs) of
        Some w \<Rightarrow> answer_of w | None \<Rightarrow> (zero_snapshot, False)) \<and>
   (cache_Synced (snd (RunInformerCache pd True evs NewCache)) \<longleftrightarrow>
      StoreSynced \<in> set (takeWhile (\<lambda>ev. ev \<noteq> CtxDone) evs))"
proof -
  have "cache_Get NewCache name = (zero_snapshot, False)" "\<not> mc_synced NewCache"
    by (simp_all add: NewCache_def cache_Get_def)
  with run_events_cache [of RunWaiting pd evs NewCache name] show ?thesis
    by (simp add: RunInformerCache_def cache_Synced_def split: option.split)
qed

end
