(* ===== verification/Go_Encoding.thy ===== *)
theory Go_Encoding
  imports Squall_Prelude
begin

text \<open>
  Parts of Go's standard library that squall's own encodings rest on: \<open>strconv.Atoi\<close>,
  \<open>base64.StdEncoding\<close> and the string literals of \<open>encoding/json\<close>. Strings are bytes; a byte of
  a multi-byte UTF-8 sequence passes through a JSON literal unchanged.
\<close>

text \<open>The process environment: \<open>os.Getenv\<close> gives the empty string for an unset variable.\<close>

type_synonym environ = "string \<Rightarrow> string"

section \<open>strconv.Atoi\<close>

definition digit_value :: "char \<Rightarrow> nat option" where
  "digit_value c = (let n = of_char c :: nat in if 48 \<le> n \<and> n \<le> 57 then Some (n - 48) else None)"

fun parse_digits :: "string \<Rightarrow> nat \<Rightarrow> nat option" where
  "parse_digits [] acc = Some acc"
| "parse_digits (c # s) acc =
     (case digit_value c of None \<Rightarrow> None | Some d \<Rightarrow> parse_digits s (10 * acc + d))"

definition parse_nat :: "string \<Rightarrow> nat option" where
  "parse_nat s = (if s = [] then None else parse_digits s 0)"

text \<open>An optional sign, at least one digit, and a value that fits 64 bits.\<close>

definition Atoi :: "string \<Rightarrow> int option" where
  "Atoi s =
     (let (neg, digits) = (case s of c # t \<Rightarrow> if c = CHR ''-'' then (True, t) else if c = CHR ''+'' then (False, t) else (False, s)
                           | [] \<Rightarrow> (False, []))
      in case parse_nat digits of
           None \<Rightarrow> None
         | Some n \<Rightarrow> let i = (if neg then - int n else int n)
                     in if - (2 ^ 63) \<le> i \<and> i < 2 ^ 63 then Some i else None)"

lemma digit_value_digit [simp]: "d < 10 \<Longrightarrow> digit_value (char_of (48 + d)) = Some d"
  by (simp add: digit_value_def of_char_of)

lemma parse_digits_append:
  "parse_digits (s @ t) acc = (case parse_digits s acc of None \<Rightarrow> None | Some n \<Rightarrow> parse_digits t n)"
  by (induction s arbitrary: acc) (auto split: option.split)

lemma parse_digits_show_nat: "parse_digits (show_nat n) acc = Some (acc * 10 ^ length (show_nat n) + n)"
proof (induction n arbitrary: acc rule: less_induct)
  case (less n)
  show ?case
  proof (cases "n < 10")
    case True
    then show ?thesis
      by (simp add: show_nat.simps [of n])
  next
    case False
    then have "parse_digits (show_nat (n div 10)) acc = Some (acc * 10 ^ length (show_nat (n div 10)) + n div 10)"
      by (intro less) simp
    with False show ?thesis
      by (simp add: show_nat.simps [of n] parse_digits_append algebra_simps)
  qed
qed

lemma parse_nat_show_nat [simp]: "parse_nat (show_nat n) = Some n"
  by (simp add: parse_nat_def parse_digits_show_nat show_nat_ne)

lemma show_nat_no_sign: "c \<in> set (show_nat n) \<Longrightarrow> c \<noteq> CHR ''-'' \<and> c \<noteq> CHR ''+''"
proof -
  assume "c \<in> set (show_nat n)"
  then obtain k :: nat where k: "k \<in> {48..<58}" "c = char_of k"
    using show_nat_set by blast
  then have "of_char c = k"
    by (simp add: of_char_of)
  with k(1) show ?thesis
    by auto
qed

lemma Atoi_Itoa: "- (2 ^ 63) \<le> i \<Longrightarrow> i < 2 ^ 63 \<Longrightarrow> Atoi (Itoa i) = Some i"
proof (cases "i < 0")
  case False
  assume "i < 2 ^ 63"
  obtain c t where "show_nat (nat i) = c # t" "c \<noteq> CHR ''-''" "c \<noteq> CHR ''+''"
    using show_nat_ne [of "nat i"] show_nat_no_sign [of _ "nat i"] by (cases "show_nat (nat i)") auto
  with False \<open>i < 2 ^ 63\<close> parse_nat_show_nat [of "nat i"] show ?thesis
    by (simp add: Atoi_def Itoa_def)
qed (simp add: Atoi_def Itoa_def)

section \<open>base64.StdEncoding\<close>

definition b64_alphabet :: string where
  "b64_alphabet = ''ABCDEFGHIJKLMNOPQRSTUVWXYZabcdefghijklmnopqrstuvwxyz0123456789+/''"

definition b64_digit :: "nat \<Rightarrow> char" where
  "b64_digit n = b64_alphabet ! n"

definition b64_value :: "char \<Rightarrow> nat option" where
  "b64_value c = List.find (\<lambda>n. b64_alphabet ! n = c) [0..<64]"

fun b64_encode :: "nat list \<Rightarrow> string" where
  "b64_encode [] = []"
| "b64_encode [a] = [b64_digit (a div 4), b64_digit (a mod 4 * 16), CHR ''='', CHR ''='']"
| "b64_encode [a, b] =
     [b64_digit (a div 4), b64_digit (a mod 4 * 16 + b div 16), b64_digit (b mod 16 * 4), CHR ''='']"
| "b64_encode (a # b # c # bs) =
     b64_digit (a div 4) # b64_digit (a mod 4 * 16 + b div 16) # b64_digit (b mod 16 * 4 + c div 64) #
     b64_digit (c mod 64) # b64_encode bs"

text \<open>Quanta of four characters; padding ends the input.\<close>

fun b64_quanta :: "string \<Rightarrow> nat list option" where
  "b64_quanta [] = Some []"
| "b64_quanta (w # x # y # z # cs) =
     (case (b64_value w, b64_value x) of
        (Some p, Some q) \<Rightarrow>
          if y = CHR ''='' then (if z = CHR ''='' \<and> cs = [] then Some [p * 4 + q div 16] else None)
          else (case b64_value y of
                  None \<Rightarrow> None
                | Some r \<Rightarrow>
                    if z = CHR ''='' then (if cs = [] then Some [p * 4 + q div 16, q mod 16 * 16 + r div 4] else None)
                    else (case b64_value z of
                            None \<Rightarrow> None
                          | Some t \<Rightarrow> map_option (\<lambda>bs. (p * 4 + q div 16) # (q mod 16 * 16 + r div 4) # (r mod 4 * 64 + t) # bs)
                                        (b64_quanta cs)))
      | _ \<Rightarrow> None)"
| "b64_quanta _ = None"

definition StdEncoding_EncodeToString :: "string \<Rightarrow> string" where
  "StdEncoding_EncodeToString s = b64_encode (map of_char s)"

text \<open>Line breaks are ignored.\<close>

definition StdEncoding_DecodeString :: "string \<Rightarrow> string option" where
  "StdEncoding_DecodeString s =
     map_option (map char_of) (b64_quanta (filter (\<lambda>c. c \<noteq> CHR 0x0A \<and> c \<noteq> CHR 0x0D) s))"

lemma b64_digits_ok: "list_all (\<lambda>n. b64_value (b64_digit n) = Some n \<and> b64_digit n \<noteq> CHR ''='' \<and>
    b64_digit n \<noteq> CHR 0x0A \<and> b64_digit n \<noteq> CHR 0x0D) [0..<64]"
  by code_simp

lemma b64_digit_ok:
  assumes "n < 64"
  shows "b64_value (b64_digit n) = Some n" "b64_digit n \<noteq> CHR ''=''" "b64_digit n \<noteq> CHR 0x0A" "b64_digit n \<noteq> CHR 0x0D"
  using b64_digits_ok assms by (auto simp: list_all_iff)

lemma b64_bounds:
  fixes a b :: nat
  assumes "a < 256" and "b < 256"
  shows "a div 4 < 64" "a mod 4 * 16 < 64" "a mod 4 * 16 + b div 16 < 64" "b mod 16 * 4 < 64"
    "b mod 16 * 4 + a div 64 < 64" "a mod 64 < 64"
proof -
  have "a div 4 < 64" "b div 16 < 16" "a div 64 < 4" "a mod 4 < 4" "b mod 16 < 16"
    using assms by (simp_all add: div_less_iff_less_mult)
  then show "a div 4 < 64" "a mod 4 * 16 < 64" "a mod 4 * 16 + b div 16 < 64" "b mod 16 * 4 < 64"
    "b mod 16 * 4 + a div 64 < 64" "a mod 64 < 64"
    by simp_all
qed

lemma b64_bytes:
  fixes a b c :: nat
  assumes "b < 256" and "c < 256"
  shows "a div 4 * 4 + (a mod 4 * 16 + b div 16) div 16 = a"
    "(a mod 4 * 16 + b div 16) mod 16 * 16 + (b mod 16 * 4 + c div 64) div 4 = b"
    "(b mod 16 * 4 + c div 64) mod 4 * 64 + c mod 64 = c"
proof -
  have "b div 16 < 16" "c div 64 < 4"
    using assms by (simp_all add: div_less_iff_less_mult)
  then show "a div 4 * 4 + (a mod 4 * 16 + b div 16) div 16 = a"
    "(a mod 4 * 16 + b div 16) mod 16 * 16 + (b mod 16 * 4 + c div 64) div 4 = b"
    "(b mod 16 * 4 + c div 64) mod 4 * 64 + c mod 64 = c"
    by simp_all
qed

lemma b64_quanta_encode: "list_all (\<lambda>a. a < 256) bs \<Longrightarrow> b64_quanta (b64_encode bs) = Some bs"
proof (induction bs rule: b64_encode.induct)
  case (2 a)
  then show ?case
    using b64_bytes(1) [of 0 0 a] b64_bounds [of a 0] b64_digit_ok by simp
next
  case (3 a b)
  then show ?case
    using b64_bytes(1,2) [of b 0 a] b64_bounds [of a b] b64_digit_ok by simp
next
  case (4 a b c bs)
  then have IH: "b64_quanta (b64_encode bs) = Some bs" and lt: "a < 256" "b < 256" "c < 256"
    by simp_all
  let ?w = "a div 4" and ?x = "a mod 4 * 16 + b div 16" and ?y = "b mod 16 * 4 + c div 64" and ?z = "c mod 64"
  have digits: "?w < 64" "?x < 64" "?y < 64" "?z < 64"
    using b64_bounds(1,3) [OF lt(1,2)] b64_bounds(5,6) [OF lt(3,2)] by blast+
  show ?case
    unfolding b64_encode.simps b64_quanta.simps digits [THEN b64_digit_ok(1)] IH
    by (simp only: digits [THEN b64_digit_ok(2)] b64_bytes(1,2) [OF lt(2,3), of a] b64_bytes(3) [OF lt(2,3)]
        prod.case option.case if_False option.map)
qed simp

lemma b64_encode_chars: "list_all (\<lambda>a. a < 256) bs \<Longrightarrow> c \<in> set (b64_encode bs) \<Longrightarrow> c \<noteq> CHR 0x0A \<and> c \<noteq> CHR 0x0D"
proof (induction bs rule: b64_encode.induct)
  case (2 a)
  then show ?case
    using b64_bounds [of a 0] b64_digit_ok(3,4) by auto
next
  case (3 a b)
  then show ?case
    using b64_bounds [of a b] b64_digit_ok(3,4) by auto
next
  case (4 a b c bs)
  then show ?case
    using b64_bounds [of a b] b64_bounds [of c b] b64_digit_ok(3,4) by auto
qed simp

lemma StdEncoding_roundtrip: "StdEncoding_DecodeString (StdEncoding_EncodeToString s) = Some s"
proof -
  have bytes: "list_all (\<lambda>a. a < 256) (map of_char s :: nat list)"
    by (simp add: list_all_iff)
  then have "filter (\<lambda>c. c \<noteq> CHR 0x0A \<and> c \<noteq> CHR 0x0D) (b64_encode (map of_char s)) = b64_encode (map of_char s)"
    by (simp add: filter_id_conv b64_encode_chars)
  with bytes show ?thesis
    by (simp add: StdEncoding_DecodeString_def StdEncoding_EncodeToString_def b64_quanta_encode o_def)
qed

section \<open>JSON string literals\<close>

abbreviation quote_char :: char where "quote_char \<equiv> CHR 0x22"
abbreviation backslash :: char where "backslash \<equiv> CHR 0x5C"

definition hex_digit :: "nat \<Rightarrow> char" where
  "hex_digit n = ''0123456789abcdef'' ! n"

text \<open>
  One byte of a literal as \<open>json.Marshal\<close> writes it, with the HTML escapes it applies. The bytes of
  U+2028, U+2029 and of ill-formed UTF-8, which Marshal rewrites, are outside this model: the laws
  below are for ASCII text.
\<close>

definition json_char :: "char \<Rightarrow> string" where
  "json_char c =
     (let n = of_char c :: nat
      in if c = quote_char \<or> c = backslash then [backslash, c]
         else if c = CHR 0x08 then [backslash, CHR ''b'']
         else if c = CHR 0x0C then [backslash, CHR ''f'']
         else if c = CHR 0x0A then [backslash, CHR ''n'']
         else if c = CHR 0x0D then [backslash, CHR ''r'']
         else if c = CHR 0x09 then [backslash, CHR ''t'']
         else if n < 32 \<or> c = CHR ''<'' \<or> c = CHR ''>'' \<or> c = CHR ''&''
         then [backslash, CHR ''u'', CHR ''0'', CHR ''0'', hex_digit (n div 16), hex_digit (n mod 16)]
         else [c])"

definition json_Marshal_string :: "string \<Rightarrow> string" where
  "json_Marshal_string s = quote_char # concat (map json_char s) @ [quote_char]"

definition hex_value :: "char \<Rightarrow> nat option" where
  "hex_value c =
     (let n = of_char c :: nat
      in if 48 \<le> n \<and> n \<le> 57 then Some (n - 48)
         else if 97 \<le> n \<and> n \<le> 102 then Some (n - 87)
         else if 65 \<le> n \<and> n \<le> 70 then Some (n - 55)
         else None)"

fun hex4 :: "string \<Rightarrow> (nat \<times> string) option" where
  "hex4 (a # b # c # d # s) =
     (case (hex_value a, hex_value b, hex_value c, hex_value d) of
        (Some p, Some q, Some r, Some t) \<Rightarrow> Some (((p * 16 + q) * 16 + r) * 16 + t, s)
      | _ \<Rightarrow> None)"
| "hex4 _ = None"

definition utf8 :: "nat \<Rightarrow> string" where
  "utf8 v =
     (if v < 128 then [char_of v]
      else if v < 2048 then [char_of (192 + v div 64), char_of (128 + v mod 64)]
      else if v < 65536 then [char_of (224 + v div 4096), char_of (128 + v div 64 mod 64), char_of (128 + v mod 64)]
      else [char_of (240 + v div 262144), char_of (128 + v div 4096 mod 64), char_of (128 + v div 64 mod 64),
            char_of (128 + v mod 64)])"

text \<open>
  What follows \<open>\u\<close>: a code point, a surrogate pair, or a lone surrogate, read as U+FFFD.
\<close>

definition unicode_escape :: "string \<Rightarrow> (string \<times> string) option" where
  "unicode_escape s =
     (case hex4 s of
        None \<Rightarrow> None
      | Some (v, r) \<Rightarrow>
          if 55296 \<le> v \<and> v < 57344
          then (case r of
                  b # u # r' \<Rightarrow>
                    (if v < 56320 \<and> b = backslash \<and> u = CHR ''u''
                     then (case hex4 r' of
                             Some (w, r'') \<Rightarrow>
                               if 56320 \<le> w \<and> w < 57344 then Some (utf8 (65536 + (v - 55296) * 1024 + (w - 56320)), r'')
                               else Some (utf8 65533, r)
                           | None \<Rightarrow> Some (utf8 65533, r))
                     else Some (utf8 65533, r))
                | _ \<Rightarrow> Some (utf8 65533, r))
          else Some (utf8 v, r))"

definition simple_escape :: "char \<Rightarrow> char option" where
  "simple_escape e =
     (if e = quote_char \<or> e = backslash \<or> e = CHR ''/'' then Some e
      else if e = CHR ''b'' then Some (CHR 0x08)
      else if e = CHR ''f'' then Some (CHR 0x0C)
      else if e = CHR ''n'' then Some (CHR 0x0A)
      else if e = CHR ''r'' then Some (CHR 0x0D)
      else if e = CHR ''t'' then Some (CHR 0x09)
      else None)"

definition json_space :: "char \<Rightarrow> bool" where
  "json_space c \<longleftrightarrow> c \<in> set [CHR '' '', CHR 0x09, CHR 0x0A, CHR 0x0D]"

text \<open>Each step reads one byte or one escape; the fuel is the length of the text.\<close>

fun json_body :: "nat \<Rightarrow> string \<Rightarrow> string option" where
  "json_body 0 s = None"
| "json_body (Suc k) [] = None"
| "json_body (Suc k) (c # s) =
     (if c = quote_char then (if list_all json_space s then Some [] else None)
      else if c = backslash
      then (case s of
              [] \<Rightarrow> None
            | e # t \<Rightarrow>
                if e = CHR ''u''
                then (case unicode_escape t of
                        None \<Rightarrow> None
                      | Some (bytes, r) \<Rightarrow> map_option (\<lambda>rest. bytes @ rest) (json_body k r))
                else (case simple_escape e of
                        None \<Rightarrow> None
                      | Some x \<Rightarrow> map_option (\<lambda>rest. x # rest) (json_body k t)))
      else if of_char c < (32 :: nat) then None
      else map_option (\<lambda>rest. c # rest) (json_body k s))"

definition json_Unmarshal_string :: "string \<Rightarrow> string option" where
  "json_Unmarshal_string b =
     (case dropWhile json_space b of
        c # s \<Rightarrow> if c = quote_char then json_body (length s) s else None
      | [] \<Rightarrow> None)"

definition ascii :: "string \<Rightarrow> bool" where
  "ascii s \<longleftrightarrow> list_all (\<lambda>c. of_char c < (128 :: nat)) s"

lemma hex_digits_ok: "list_all (\<lambda>n. hex_value (hex_digit n) = Some n) [0..<16]"
  by (simp add: upt_rec hex_value_def hex_digit_def)

lemma hex_escape_value: "n < 128 \<Longrightarrow> hex4 [CHR ''0'', CHR ''0'', hex_digit (n div 16), hex_digit (n mod 16)] = Some (n, [])"
  using hex_digits_ok by (simp add: list_all_iff hex_value_def [of "CHR ''0''"])

lemma hex4_rest: "hex4 (a # b # c # d # r) = map_option (\<lambda>(v, _). (v, r)) (hex4 [a, b, c, d])"
  by (cases "hex_value a"; cases "hex_value b"; cases "hex_value c"; cases "hex_value d") simp_all

lemma unicode_escape_ascii:
  assumes "n < 128"
  shows "unicode_escape (CHR ''0'' # CHR ''0'' # hex_digit (n div 16) # hex_digit (n mod 16) # r) = Some ([char_of n], r)"
proof -
  have "hex4 [CHR ''0'', CHR ''0'', hex_digit (n div 16), hex_digit (n mod 16)] = Some (n, [])"
    using assms by (rule hex_escape_value)
  then show ?thesis
    using assms unfolding unicode_escape_def hex4_rest [of _ _ _ _ r] by (simp add: utf8_def del: hex4.simps)
qed

lemma json_body_char:
  assumes "of_char c < (128 :: nat)"
  shows "json_body (Suc k) (json_char c @ r) = map_option (\<lambda>rest. c # rest) (json_body k r)"
proof -
  have app: "(@) [x] = (#) x" for x :: char
    by (simp add: fun_eq_iff)
  show ?thesis
    using assms unicode_escape_ascii [OF assms, of r]
    by (auto simp: json_char_def Let_def simple_escape_def app)
qed

lemma json_body_string:
  assumes "ascii s" and "length s < k"
  shows "json_body k (concat (map json_char s) @ [quote_char]) = Some s"
  using assms
proof (induction s arbitrary: k)
  case Nil
  then show ?case
    by (cases k) simp_all
next
  case (Cons c s)
  then obtain k' where k: "k = Suc k'"
    by (cases k) simp_all
  then show ?case
    using Cons by (simp add: k json_body_char ascii_def)
qed

lemma length_json_char: "1 \<le> length (json_char c)"
  by (simp add: json_char_def Let_def del: length_greater_0_conv)

lemma length_json_chars: "length s \<le> length (concat (map json_char s))"
proof (induction s)
  case (Cons c s)
  then show ?case
    using length_json_char [of c] by (simp del: One_nat_def)
qed simp

lemma json_string_roundtrip: "ascii s \<Longrightarrow> json_Unmarshal_string (json_Marshal_string s) = Some s"
  using length_json_chars [of s]
  by (simp add: json_Unmarshal_string_def json_Marshal_string_def json_space_def json_body_string)

end
