(* ===== verification/Proxy_Main.thy ===== *)
theory Proxy_Main
  imports Proxy_Route Proxy_Informer Proxy_Demand Proxy_Activity Squall_Support Squall_Activity Go_Encoding
begin

text \<open>
  The squall-proxy binary (\<open>cmd/proxy/main.go\<close>): its settings read from the environment, the backend
  it wires, the routes of its mux, the loader of the replica key, the request ceiling it gives the
  handler and the life of the process from start to exit. \<open>os.Getenv\<close> is a function that gives the
  empty string for an unset variable; \<open>time.ParseDuration\<close> is a parameter.
\<close>

section \<open>Environment\<close>

definition envDuration :: "(string \<Rightarrow> duration option) \<Rightarrow> environ \<Rightarrow> string \<Rightarrow> duration \<Rightarrow> duration" where
  "envDuration ParseDuration getenv key def =
     (let v = getenv key
      in if v = [] then def else case ParseDuration v of None \<Rightarrow> def | Some d \<Rightarrow> d)"

definition envInt :: "environ \<Rightarrow> string \<Rightarrow> int \<Rightarrow> int" where
  "envInt getenv key def =
     (let v = getenv key in if v = [] then def else case Atoi v of None \<Rightarrow> def | Some n \<Rightarrow> n)"

definition envOr :: "environ \<Rightarrow> string \<Rightarrow> string \<Rightarrow> string" where
  "envOr getenv key def = (let v = getenv key in if v \<noteq> [] then v else def)"

text \<open>\<open>slog.Level.UnmarshalText\<close>: a level name in any case with an optional signed offset.\<close>

definition level_base :: "string \<Rightarrow> int option" where
  "level_base name =
     (let n = ToLower name
      in if n = ''debug'' then Some (- 4) else if n = ''info'' then Some 0
         else if n = ''warn'' then Some 4 else if n = ''error'' then Some 8 else None)"

definition parse_level :: "string \<Rightarrow> int option" where
  "parse_level s =
     (let plain = (\<lambda>c. c \<noteq> CHR ''+'' \<and> c \<noteq> CHR ''-'');
          name = takeWhile plain s; rest = dropWhile plain s
      in if rest = [] then level_base name
         else case (Atoi rest, level_base name) of (Some off, Some l) \<Rightarrow> Some (wrap64 (l + off)) | _ \<Rightarrow> None)"

definition envLogLevel :: "environ \<Rightarrow> string \<Rightarrow> int \<Rightarrow> int" where
  "envLogLevel getenv key def =
     (let v = getenv key in if v = [] then def else case parse_level v of None \<Rightarrow> def | Some l \<Rightarrow> l)"

definition dstackAuthWarning :: "string \<Rightarrow> string \<Rightarrow> string" where
  "dstackAuthWarning backendURLTemplate dstackToken =
     (if backendURLTemplate \<noteq> [] \<or> dstackToken \<noteq> [] then []
      else ''SQUALL_DSTACK_TOKEN is not set: forwarding to dstack's service proxy will get 403 on every '' @
           ''request (dstack's default per-service auth requires a Bearer token)'')"

text \<open>\<open>file\<close> is the service account's namespace file, if it can be read.\<close>

definition podNamespace :: "string option \<Rightarrow> string" where
  "podNamespace file = (case file of None \<Rightarrow> [] | Some b \<Rightarrow> TrimSpace b)"

section \<open>Wiring\<close>

datatype backend_choice = UseStatus string | UseTemplate string | UseSSH backend_choice string

record proxy_settings =
  ps_LogLevel :: int
  ps_Namespace :: string
  ps_Cooldown :: duration
  ps_Backend :: backend_choice
  ps_DstackToken :: string
  ps_RefreshInterval :: duration
  ps_MaxPendingPerModel :: int
  ps_MaxRequestDuration :: duration
  ps_Addr :: string

definition defaultRefreshCeiling :: duration where
  "defaultRefreshCeiling = 30 * Second"

definition choose_backend :: "environ \<Rightarrow> string option \<Rightarrow> backend_choice" where
  "choose_backend getenv nsFile =
     (let tmpl = getenv ''SQUALL_BACKEND_URL_TEMPLATE'';
          inner = (if tmpl \<noteq> [] then UseTemplate tmpl else UseStatus (getenv ''SQUALL_DSTACK_URL''));
          sshKeyNamespace = envOr getenv ''SQUALL_SSH_KEY_NAMESPACE'' (podNamespace nsFile)
      in if sshKeyNamespace \<noteq> [] then UseSSH inner sshKeyNamespace else inner)"

definition read_settings :: "(string \<Rightarrow> duration option) \<Rightarrow> environ \<Rightarrow> string option \<Rightarrow> proxy_settings" where
  "read_settings ParseDuration getenv nsFile =
     \<lparr>ps_LogLevel = envLogLevel getenv ''SQUALL_LOG_LEVEL'' 0,
      ps_Namespace = getenv ''SQUALL_NAMESPACE'',
      ps_Cooldown = envDuration ParseDuration getenv ''SQUALL_DEMAND_COOLDOWN'' (5 * Second),
      ps_Backend = choose_backend getenv nsFile,
      ps_DstackToken = getenv ''SQUALL_DSTACK_TOKEN'',
      ps_RefreshInterval = envDuration ParseDuration getenv ''SQUALL_DEMAND_REFRESH_INTERVAL'' defaultRefreshCeiling,
      ps_MaxPendingPerModel = envInt getenv ''SQUALL_MAX_PENDING_PER_MODEL'' 0,
      ps_MaxRequestDuration = envDuration ParseDuration getenv ''SQUALL_MAX_REQUEST_DURATION'' (45 * Minute),
      ps_Addr = (let addr = getenv ''SQUALL_PROXY_ADDR'' in if addr = [] then '':8080'' else addr)\<rparr>"

text \<open>\<open>restConfig\<close>: the in-cluster configuration, else a kubeconfig file.\<close>

definition restConfig :: "'c option \<Rightarrow> environ \<Rightarrow> string \<Rightarrow> (string \<Rightarrow> 'e + 'c) \<Rightarrow> 'e + 'c" where
  "restConfig inCluster getenv home BuildConfigFromFlags =
     (case inCluster of
        Some cfg \<Rightarrow> Inr cfg
      | None \<Rightarrow>
          let kubeconfig = getenv ''KUBECONFIG''
          in BuildConfigFromFlags (if kubeconfig = [] then (if home = [] then [] else home @ ''/'') @ ''.kube/config'' else kubeconfig))"

text \<open>
  \<open>main\<close> up to serving: the exit code of the step that failed, or what it serves with. The informer fills
  the cache from here on.
\<close>

record proxy_boot =
  pb_Settings :: proxy_settings
  pb_Cache :: ModelCache
  pb_Demand :: DemandCoalescer
  pb_Activity :: ActivityTracker

definition proxy_main ::
  "(string \<Rightarrow> duration option) \<Rightarrow> environ \<Rightarrow> string option \<Rightarrow> 'e + 'c \<Rightarrow> ('c \<Rightarrow> bool) \<Rightarrow> (string \<Rightarrow> bool) \<Rightarrow> int + proxy_boot" where
  "proxy_main ParseDuration getenv nsFile config NewForConfig listen =
     (let settings = read_settings ParseDuration getenv nsFile
      in case config of
           Inl e \<Rightarrow> Inl 1
         | Inr cfg \<Rightarrow>
             if \<not> NewForConfig cfg then Inl 1
             else if \<not> listen (ps_Addr settings) then Inl 1
             else Inr \<lparr>pb_Settings = settings, pb_Cache = NewCache, pb_Demand = NewDemandCoalescer (ps_Cooldown settings),
                       pb_Activity = NewActivityTracker\<rparr>)"

section \<open>The replica key\<close>

definition replicaSSHKeySecret :: string where "replicaSSHKeySecret = ''squall-replica-ssh-key''"
definition replicaSSHKeyField :: string where "replicaSSHKeyField = ''id_ed25519''"

datatype 'e key_error = KeyGetFailed | KeyMissing | KeyNotBase64 | KeyUnparsable 'e

text \<open>\<open>get\<close> reads a Secret as the API server shows it, its data in base64.\<close>

definition replicaKeyLoader ::
  "(string \<Rightarrow> string \<Rightarrow> json option) \<Rightarrow> (string \<Rightarrow> 'e + 'k) \<Rightarrow> string \<Rightarrow> 'e key_error + 'k option" where
  "replicaKeyLoader get parsePrivateKey namespace =
     (case get namespace replicaSSHKeySecret of
        None \<Rightarrow> Inl KeyGetFailed
      | Some u \<Rightarrow>
          (case nested u [''data'', replicaSSHKeyField] of
             Some (JStr encoded) \<Rightarrow>
               (case StdEncoding_DecodeString encoded of
                  None \<Rightarrow> Inl KeyNotBase64
                | Some raw \<Rightarrow> (case ParseSigner parsePrivateKey raw of Inl e \<Rightarrow> Inl (KeyUnparsable e) | Inr k \<Rightarrow> Inr k))
           | _ \<Rightarrow> Inl KeyMissing))"

section \<open>The request ceiling (handler.go)\<close>

text \<open>When a request's context ends: the caller's hang-up and squall's own ceiling, if any.\<close>

record request_ctx =
  rc_hangup :: "gotime option"
  rc_ceiling :: "gotime option"

definition applyRequestCeiling :: "gotime \<Rightarrow> duration \<Rightarrow> request_ctx \<Rightarrow> request_ctx" where
  "applyRequestCeiling now d c = (if d \<le> 0 then c else c\<lparr>rc_ceiling := Some (now + d)\<rparr>)"

text \<open>The context's cause is what ended it first.\<close>

definition ctx_at :: "request_ctx \<Rightarrow> gotime \<Rightarrow> ctx_state" where
  "ctx_at c t =
     (let past = (\<lambda>x. case x of None \<Rightarrow> False | Some u \<Rightarrow> u \<le> t)
      in if past (rc_hangup c) \<and>
            (\<not> past (rc_ceiling c) \<or> the (rc_hangup c) \<le> the (rc_ceiling c)) then CtxClientGone
         else if past (rc_ceiling c) then CtxCeiling
         else CtxLive)"

lemma ceiling_bounds_request:
  assumes "0 < d" and "now + d \<le> t"
  shows "ctx_at (applyRequestCeiling now d c) t \<noteq> CtxLive"
  using assms by (simp add: ctx_at_def applyRequestCeiling_def Let_def)

lemma no_ceiling_no_bound: "d \<le> 0 \<Longrightarrow> rc_hangup c = None \<Longrightarrow> rc_ceiling c = None \<Longrightarrow> ctx_at (applyRequestCeiling now d c) t = CtxLive"
  by (simp add: ctx_at_def applyRequestCeiling_def Let_def)

section \<open>Routes\<close>

datatype mux_handler = HandleHealthz | HandleModels | HandleActivity | HandleMetrics | HandleForward

text \<open>The registered patterns: a method or none, a path, a handler; the more specific ones first.\<close>

definition newMux :: "(string option \<times> string \<times> mux_handler) list" where
  "newMux =
     [(Some ''GET'', ''/healthz'', HandleHealthz),
      (Some ''GET'', ''/v1/models'', HandleModels),
      (Some ''POST'', ''/v1/models'', HandleModels),
      (Some ''GET'', ActivityPath, HandleActivity),
      (Some ''GET'', ''/metrics'', HandleMetrics),
      (None, ''/'', HandleForward)]"

definition healthz :: "ModelCache \<Rightarrow> int" where
  "healthz c = (if \<not> cache_Synced c then 503 else 200)"

text \<open>
  \<open>http.ServeMux\<close>: a GET pattern also serves HEAD, a pattern that ends in a slash serves its subtree,
  the most specific pattern wins, and a path that is not clean is redirected to its clean form, except
  for CONNECT. Paths are without percent escapes.
\<close>

definition method_matches :: "string option \<Rightarrow> string \<Rightarrow> bool" where
  "method_matches pat m =
     (case pat of None \<Rightarrow> True | Some p \<Rightarrow> m = p \<or> (p = ''GET'' \<and> m = ''HEAD''))"

definition path_matches :: "string \<Rightarrow> string \<Rightarrow> bool" where
  "path_matches pat path = (if HasSuffix pat ''/'' then HasPrefix path pat else path = pat)"

definition mux_match :: "string \<Rightarrow> string \<Rightarrow> mux_handler option" where
  "mux_match m path =
     map_option (\<lambda>(_, _, h). h) (List.find (\<lambda>(pm, pp, h). method_matches pm m \<and> path_matches pp path) newMux)"

definition push_segment :: "string \<Rightarrow> string list \<Rightarrow> string list" where
  "push_segment seg acc =
     (if seg = [] \<or> seg = ''.'' then acc else if seg = ''..'' then butlast acc else acc @ [seg])"

definition path_Clean :: "string \<Rightarrow> string" where
  "path_Clean p = ''/'' @ Join (fold push_segment (Split_char CHR ''/'' p) []) ''/''"

definition cleanPath :: "string \<Rightarrow> string" where
  "cleanPath p =
     (if p = [] then ''/''
      else let p1 = (if HasPrefix p ''/'' then p else ''/'' @ p); np = path_Clean p1
           in if HasSuffix p1 ''/'' \<and> np \<noteq> ''/'' then np @ ''/'' else np)"

datatype mux_answer = MuxServe mux_handler | MuxRedirect string | MuxNotFound

definition mux_route :: "string \<Rightarrow> string \<Rightarrow> mux_answer" where
  "mux_route m path =
     (let target = (if m = ''CONNECT'' then path else cleanPath path)
      in if target \<noteq> path then MuxRedirect target
         else case mux_match m path of Some h \<Rightarrow> MuxServe h | None \<Rightarrow> MuxNotFound)"

section \<open>The life of the process\<close>

text \<open>
  Two goroutines of \<open>main.go\<close> and the handlers they share a server with. The main goroutine is inside
  \<open>ListenAndServe\<close>, back from it, or on its way to \<open>os.Exit\<close>; the other waits for the signal, is inside
  \<open>Shutdown\<close> since an instant, or back from it. \<open>Shutdown\<close> closes the listener first and then waits until no
  request is open or its ten seconds have passed; \<open>ListenAndServe\<close> returns when the listener is closed, or
  with an error of its own. When the main goroutine returns or exits, the process ends, and with it
  every other goroutine: the requests open then are cut.
\<close>

datatype main_pc = MainServing | MainReturning | MainFailed

datatype shutdown_pc = AwaitSignal | InShutdown gotime | ShutdownBack

record process =
  pr_now :: gotime
  pr_signalled :: bool
  pr_listening :: bool
  pr_main :: main_pc
  pr_shutdown :: shutdown_pc
  pr_exited :: "int option"
  pr_open :: nat

definition process_start :: process where
  "process_start = \<lparr>pr_now = 0, pr_signalled = False, pr_listening = True, pr_main = MainServing, pr_shutdown = AwaitSignal,
     pr_exited = None, pr_open = 0\<rparr>"

inductive main_step :: "process \<Rightarrow> process \<Rightarrow> bool" where
  ServeReturns: "pr_exited p = None \<Longrightarrow> pr_main p = MainServing \<Longrightarrow> \<not> pr_listening p \<Longrightarrow> main_step p (p\<lparr>pr_main := MainReturning\<rparr>)"
| ServeFails: "pr_exited p = None \<Longrightarrow> pr_main p = MainServing \<Longrightarrow> pr_listening p \<Longrightarrow> main_step p (p\<lparr>pr_main := MainFailed\<rparr>)"
| MainReturns: "pr_exited p = None \<Longrightarrow> pr_main p = MainReturning \<Longrightarrow> main_step p (p\<lparr>pr_exited := Some 0\<rparr>)"
| MainExits: "pr_exited p = None \<Longrightarrow> pr_main p = MainFailed \<Longrightarrow> main_step p (p\<lparr>pr_exited := Some 1\<rparr>)"

inductive proc_step :: "process \<Rightarrow> process \<Rightarrow> bool" where
  Accept: "pr_exited p = None \<Longrightarrow> pr_listening p \<Longrightarrow> proc_step p (p\<lparr>pr_open := Suc (pr_open p)\<rparr>)"
| Finish: "pr_exited p = None \<Longrightarrow> 0 < pr_open p \<Longrightarrow> proc_step p (p\<lparr>pr_open := pr_open p - 1\<rparr>)"
| Elapse: "pr_exited p = None \<Longrightarrow> 0 \<le> d \<Longrightarrow> proc_step p (p\<lparr>pr_now := pr_now p + d\<rparr>)"
| Sigterm: "pr_exited p = None \<Longrightarrow> proc_step p (p\<lparr>pr_signalled := True\<rparr>)"
| CallShutdown: "pr_exited p = None \<Longrightarrow> pr_signalled p \<Longrightarrow> pr_shutdown p = AwaitSignal \<Longrightarrow>
    proc_step p (p\<lparr>pr_shutdown := InShutdown (pr_now p), pr_listening := False\<rparr>)"
| ShutdownReturns: "pr_exited p = None \<Longrightarrow> pr_shutdown p = InShutdown t \<Longrightarrow> pr_open p = 0 \<or> t + 10 * Second \<le> pr_now p \<Longrightarrow>
    proc_step p (p\<lparr>pr_shutdown := ShutdownBack\<rparr>)"
| Main: "main_step p q \<Longrightarrow> proc_step p q"

inductive_simps main_step_iff: "main_step p q"
inductive_simps proc_step_iff: "proc_step p q"

definition proc_reachable :: "process \<Rightarrow> bool" where
  "proc_reachable = proc_step\<^sup>*\<^sup>* process_start"

section \<open>Properties: routes\<close>

definition clean_segment :: "string \<Rightarrow> bool" where
  "clean_segment seg \<longleftrightarrow> seg \<noteq> [] \<and> seg \<noteq> ''.'' \<and> seg \<noteq> ''..'' \<and> CHR ''/'' \<notin> set seg"

lemma Split_char_parts: "list_all (\<lambda>w. c \<notin> set w) (Split_char c s)"
  by (induction s) (auto split: list.split)

lemma fold_push_clean:
  "list_all clean_segment acc \<Longrightarrow> list_all (\<lambda>w. CHR ''/'' \<notin> set w) ws \<Longrightarrow> list_all clean_segment (fold push_segment ws acc)"
proof (induction ws arbitrary: acc)
  case (Cons w ws)
  have "list_all clean_segment (butlast acc)"
    using Cons.prems(1) unfolding list_all_iff by (blast dest: in_set_butlastD)
  moreover have "CHR ''/'' \<notin> set w"
    using Cons.prems(2) by simp
  ultimately have "list_all clean_segment (push_segment w acc)"
    using Cons.prems(1) by (simp add: push_segment_def clean_segment_def [of w])
  with Cons.IH [of "push_segment w acc"] Cons.prems(2) show ?case
    by simp
qed simp

lemma push_clean: "clean_segment w \<Longrightarrow> push_segment w acc = acc @ [w]"
  by (simp add: push_segment_def clean_segment_def)

lemma fold_push_id: "list_all clean_segment ws \<Longrightarrow> fold push_segment ws acc = acc @ ws"
  by (induction ws arbitrary: acc) (simp_all add: push_clean)

lemma Split_char_Join:
  "ws \<noteq> [] \<Longrightarrow> list_all (\<lambda>w. c \<notin> set w) ws \<Longrightarrow> Split_char c (Join ws [c]) = ws"
  by (induction ws "[c]" rule: Join.induct) (simp_all add: Split_char_no_sep Split_char_append)

lemma Join_clean_last:
  "ws \<noteq> [] \<Longrightarrow> list_all clean_segment ws \<Longrightarrow> Join ws ''/'' \<noteq> [] \<and> last (Join ws ''/'') \<noteq> CHR ''/''"
proof (induction ws "''/''" rule: Join.induct)
  case (2 w)
  then show ?case
    by (auto simp: clean_segment_def dest: last_in_set)
qed auto

text \<open>A clean path is the root or clean segments, with or without a trailing slash.\<close>

lemma cleanPath_form:
  obtains ws tr where "list_all clean_segment ws" and "cleanPath p = ''/'' @ Join ws ''/'' @ (if tr then ''/'' else [])"
    and "tr \<longrightarrow> ws \<noteq> []"
proof (cases "p = []")
  case True
  then show ?thesis
    using that [of "[]" False] by (simp add: cleanPath_def)
next
  case False
  let ?p1 = "if HasPrefix p ''/'' then p else ''/'' @ p"
  let ?ws = "fold push_segment (Split_char CHR ''/'' ?p1) []"
  have ws: "list_all clean_segment ?ws"
    by (rule fold_push_clean) (simp_all add: Split_char_parts)
  have "cleanPath p = ''/'' @ Join ?ws ''/'' @ (if HasSuffix ?p1 ''/'' \<and> ?ws \<noteq> [] then ''/'' else [])"
    using False Join_clean_last [OF _ ws] by (auto simp: cleanPath_def path_Clean_def Let_def)
  with ws show ?thesis
    using that [of ?ws "HasSuffix ?p1 ''/'' \<and> ?ws \<noteq> []"] by simp
qed

lemma cleanPath_clean:
  assumes "list_all clean_segment ws" and "tr \<longrightarrow> ws \<noteq> []"
  shows "cleanPath (''/'' @ Join ws ''/'' @ (if tr then ''/'' else [])) = ''/'' @ Join ws ''/'' @ (if tr then ''/'' else [])"
    (is "cleanPath ?p = _")
proof -
  have sep: "list_all (\<lambda>w. CHR ''/'' \<notin> set w) ws"
    using assms(1) by (auto simp: list_all_iff clean_segment_def)
  have "fold push_segment (Split_char CHR ''/'' ?p) [] = ws"
  proof (cases "ws = []")
    case True
    with assms(2) show ?thesis
      by (simp add: push_segment_def)
  next
    case False
    have "Split_char CHR ''/'' (Join ws ''/'' @ (if tr then ''/'' else [])) = ws @ (if tr then [[]] else [])"
    proof (cases tr)
      case True
      have "Join (ws @ [[]]) ''/'' = Join ws ''/'' @ ''/''"
        using False by (induction ws "''/''" rule: Join.induct) simp_all
      with True Split_char_Join [of "ws @ [[]]" "CHR ''/''"] sep show ?thesis
        by simp
    qed (use False Split_char_Join [OF False sep] in simp)
    with assms(1) show ?thesis
      by (simp add: push_segment_def [of "[]"] fold_push_id)
  qed
  moreover have "HasSuffix ?p ''/'' \<longleftrightarrow> tr \<or> ws = []"
    using Join_clean_last [OF _ assms(1)] assms(2)
    by (cases "Join ws ''/''" rule: rev_cases) (auto simp: HasSuffix_def suffix_def append_eq_Cons_conv)
  moreover have "''/'' @ Join ws ''/'' \<noteq> ''/''" if "ws \<noteq> []"
    using Join_clean_last [OF that assms(1)] by simp
  ultimately show ?thesis
    using assms(2) by (auto simp: cleanPath_def path_Clean_def Let_def HasPrefix_def)
qed

lemma cleanPath_idem: "cleanPath (cleanPath p) = cleanPath p"
  by (rule cleanPath_form [of p]) (metis cleanPath_clean)

text \<open>The requests squall answers itself.\<close>

definition own_route :: "string \<Rightarrow> string \<Rightarrow> bool" where
  "own_route m path \<longleftrightarrow>
     m \<in> {''GET'', ''HEAD''} \<and> path \<in> {''/healthz'', ''/v1/models'', ActivityPath, ''/metrics''} \<or>
     m = ''POST'' \<and> path = ''/v1/models''"

lemma pattern_exact: "path_matches ''/healthz'' p \<longleftrightarrow> p = ''/healthz''" "path_matches ''/v1/models'' p \<longleftrightarrow> p = ''/v1/models''"
  "path_matches ActivityPath p \<longleftrightarrow> p = ActivityPath" "path_matches ''/metrics'' p \<longleftrightarrow> p = ''/metrics''"
  "path_matches ''/'' p \<longleftrightarrow> HasPrefix p ''/''"
  by (simp_all add: path_matches_def HasSuffix_def suffix_def ActivityPath_def)

lemma mux_match_own: "HasPrefix p ''/'' \<Longrightarrow>
    \<exists>h. mux_match m p = Some h \<and> (h = HandleForward \<longleftrightarrow> \<not> own_route m p)"
  unfolding mux_match_def newMux_def own_route_def
  by (simp add: pattern_exact method_matches_def)

lemma cleanPath_rooted: "HasPrefix (cleanPath p) ''/''"
  by (simp add: cleanPath_def path_Clean_def Let_def HasPrefix_def)

text \<open>
  Every request ends at a handler after at most one redirect: the mux serves a request directly or
  redirects it to its clean path, and that path is served and not redirected again. It reaches the
  forwarding handler exactly when it is not one of the routes squall answers itself, among them the
  activity report that the controller reads, so that report is never forwarded to a model.
\<close>

theorem mux_serves_every_request:
  assumes "m \<noteq> ''CONNECT''"
  shows "\<exists>h. mux_route m (cleanPath p) = MuxServe h \<and>
     (mux_route m p = MuxServe h \<or> mux_route m p = MuxRedirect (cleanPath p)) \<and>
     (h = HandleForward \<longleftrightarrow> \<not> own_route m (cleanPath p))"
proof -
  obtain h where h: "mux_match m (cleanPath p) = Some h" "h = HandleForward \<longleftrightarrow> \<not> own_route m (cleanPath p)"
    using mux_match_own [OF cleanPath_rooted] by blast
  then have "mux_route m (cleanPath p) = MuxServe h"
    using assms by (simp add: mux_route_def cleanPath_idem)
  moreover have "mux_route m p = MuxServe h \<or> mux_route m p = MuxRedirect (cleanPath p)"
    using assms h(1) by (cases "cleanPath p = p") (simp_all add: mux_route_def)
  ultimately show ?thesis
    using h(2) by blast
qed

theorem mux_serves_every_request_witness:
  "mux_route ''POST'' ''/v1//chat/../completions'' = MuxRedirect ''/v1/completions'' \<and>
   mux_route ''POST'' ''/v1/completions'' = MuxServe HandleForward"
proof -
  have clean: "cleanPath ''/v1//chat/../completions'' = ''/v1/completions''"
    by code_simp
  have "\<not> own_route ''POST'' ''/v1/completions''"
    by (simp add: own_route_def)
  with mux_serves_every_request [of "''POST''" "''/v1//chat/../completions''"] clean
  show ?thesis
    by (auto simp: mux_route_def)
qed

section \<open>Properties: the replica key\<close>

text \<open>A Secret's data as the API server serves it.\<close>

definition secret_object :: "string gomap \<Rightarrow> json" where
  "secret_object data = JObj [(''data'', JObj (map (\<lambda>(k, v). (k, JStr (StdEncoding_EncodeToString v))) data))]"

text \<open>
  What the libraries promise: the PEM text of a generated private key parses to a signer whose public key
  is the one of its pair.
\<close>

definition crypto_ok :: "('s, 'p, 'b) ssh_crypto \<Rightarrow> (string \<Rightarrow> 'e + 'k) \<Rightarrow> ('k \<Rightarrow> 'p) \<Rightarrow> bool" where
  "crypto_ok cy parse publicKey \<longleftrightarrow>
     (\<forall>s pub priv s1 p b. cy_GenerateKey cy s = (Some (pub, priv), s1) \<longrightarrow> cy_NewPublicKey cy pub = Some p \<longrightarrow>
        cy_MarshalPrivateKey cy priv ''squall'' = Some b \<longrightarrow>
        TrimSpace (cy_EncodeToMemory cy b) \<noteq> [] \<and> (\<exists>k. parse (cy_EncodeToMemory cy b) = Inr k \<and> publicKey k = p))"

text \<open>A Secret whose two entries are one pair.\<close>

definition holds_pair :: "('s, 'p, 'b) ssh_crypto \<Rightarrow> (string \<Rightarrow> 'e + 'k) \<Rightarrow> ('k \<Rightarrow> 'p) \<Rightarrow> string gomap \<Rightarrow> bool" where
  "holds_pair cy parse publicKey data \<longleftrightarrow> gomap_wf data \<and>
     (\<exists>priv k. gomap_get data sshKeySecretPrivateKey = Some priv \<and> TrimSpace priv \<noteq> [] \<and> parse priv = Inr k \<and>
        gomap_get data sshKeySecretPublicKey = Some (cy_MarshalAuthorizedKey cy (publicKey k)))"

lemma generated_pair:
  assumes "crypto_ok cy parse publicKey" and "generateSSHKeypair cy s = (Some (pub, priv), s')"
  shows "holds_pair cy parse publicKey [(sshKeySecretPrivateKey, priv), (sshKeySecretPublicKey, pub)]"
proof -
  from assms(2) obtain x y p b where "cy_GenerateKey cy s = (Some (x, y), s')" "cy_NewPublicKey cy x = Some p"
    "cy_MarshalPrivateKey cy y ''squall'' = Some b" "pub = cy_MarshalAuthorizedKey cy p" "priv = cy_EncodeToMemory cy b"
    by (auto simp: generateSSHKeypair_def split: prod.splits option.splits)
  moreover from this assms(1) obtain k where "TrimSpace priv \<noteq> []" "parse priv = Inr k" "publicKey k = p"
    unfolding crypto_ok_def by blast
  ultimately show ?thesis
    by (auto simp: holds_pair_def sshKeySecretPrivateKey_def sshKeySecretPublicKey_def)
qed

lemma map_of_rev_wf: "distinct (map fst m) \<Longrightarrow> map_of (rev m) = map_of m"
  by (subst map_of_inject_set) (simp_all add: rev_map [symmetric])

lemma loader_reads_pair:
  assumes "holds_pair cy parse publicKey data" and "read ns replicaSSHKeySecret = Some (secret_object data)"
  shows "\<exists>k. replicaKeyLoader read parse ns = Inr (Some k) \<and>
    gomap_get data sshKeySecretPublicKey = Some (cy_MarshalAuthorizedKey cy (publicKey k))"
proof -
  from assms(1) obtain priv k where data: "gomap_wf data" "gomap_get data sshKeySecretPrivateKey = Some priv" "TrimSpace priv \<noteq> []" "parse priv = Inr k"
    "gomap_get data sshKeySecretPublicKey = Some (cy_MarshalAuthorizedKey cy (publicKey k))"
    by (auto simp: holds_pair_def)
  have "map_of (rev (map (\<lambda>(k, v). (k, JStr (StdEncoding_EncodeToString v))) data)) replicaSSHKeyField =
      Some (JStr (StdEncoding_EncodeToString priv))"
    using data(1,2)
    by (subst map_of_rev_wf) (simp_all add: replicaSSHKeyField_def sshKeySecretPrivateKey_def comp_def case_prod_unfold, force)
  with data assms(2) show ?thesis
    by (auto simp: replicaKeyLoader_def secret_object_def StdEncoding_roundtrip ParseSigner_def)
qed

text \<open>
  C24. The key the proxy dials with is the key the replica authorises. Whether \<open>EnsureSSHKey\<close> finds the
  Secret, mints a pair and creates it, or loses the race to another controller replica and reads the
  winner's, the line it returns for the run spec is the public half of exactly the signer the proxy's loader
  then parses from that Secret, provided every Secret found under that name was written the same way.
\<close>

theorem minted_key_reaches_proxy:
  assumes crypto: "crypto_ok cy parse publicKey" "sk_generate E = generateSSHKeypair cy"
    and api: "\<And>data t t'. sk_create E ns SSHKeySecretName data t = (ApiOk, t') \<Longrightarrow> read t' ns SSHKeySecretName = Some (secret_object data)"
      "\<And>data t t'. sk_get E ns SSHKeySecretName t = ((ApiOk, data), t') \<Longrightarrow> read t' ns SSHKeySecretName = Some (secret_object data)"
    and own: "\<And>data t t'. sk_get E ns SSHKeySecretName t = ((ApiOk, data), t') \<Longrightarrow> holds_pair cy parse publicKey data"
    and "EnsureSSHKey E ns s = (pub, s')" and "pub \<noteq> []"
  shows "\<exists>k. replicaKeyLoader (read s') parse ns = Inr (Some k) \<and> cy_MarshalAuthorizedKey cy (publicKey k) = pub"
proof -
  let ?good = "\<lambda>data. holds_pair cy parse publicKey data \<and> read s' ns SSHKeySecretName = Some (secret_object data) \<and>
      gomap_get data sshKeySecretPublicKey = Some pub"
  have found: "?good data" if "sk_get E ns SSHKeySecretName t = ((ApiOk, data), s')" "env_at data sshKeySecretPublicKey = pub" for data t
    using api(2) [OF that(1)] own [OF that(1)] that(2) assms(7) by (auto simp: env_at_def split: option.splits)
  have minted: "?good [(sshKeySecretPrivateKey, priv), (sshKeySecretPublicKey, pub)]"
    if "generateSSHKeypair cy t = (Some (pub, priv), t')"
      "sk_create E ns SSHKeySecretName [(sshKeySecretPrivateKey, priv), (sshKeySecretPublicKey, pub)] t' = (ApiOk, s')" for priv t t'
    using api(1) [OF that(2)] generated_pair [OF crypto(1) that(1)]
    by (simp add: sshKeySecretPrivateKey_def sshKeySecretPublicKey_def)
  obtain r d t where get: "sk_get E ns SSHKeySecretName s = ((r, d), t)"
    by (metis prod.exhaust)
  have "\<exists>data. ?good data"
  proof (cases r)
    case ApiOk
    then show ?thesis
      using found [of s d] get assms(6) by (auto simp: EnsureSSHKey_def env_at_def split: option.splits)
  next
    case ApiNotFound
    with get assms(6,7) crypto(2) obtain p q t2 where gen: "generateSSHKeypair cy t = (Some (p, q), t2)"
      by (auto simp: EnsureSSHKey_def split: prod.splits option.splits)
    obtain r3 t3 where "sk_create E ns SSHKeySecretName [(sshKeySecretPrivateKey, q), (sshKeySecretPublicKey, p)] t2 = (r3, t3)"
      by fastforce
    with ApiNotFound get assms(6,7) crypto(2) gen found minted [of t q t2] show ?thesis
      by (cases r3) (auto simp: EnsureSSHKey_def split: prod.splits api_result.splits)
  qed (use get assms(6,7) in \<open>auto simp: EnsureSSHKey_def\<close>)
  then obtain data where data: "holds_pair cy parse publicKey data" "read s' ns SSHKeySecretName = Some (secret_object data)"
    "gomap_get data sshKeySecretPublicKey = Some pub"
    by blast
  from loader_reads_pair [OF data(1), of "read s'" ns] data(2,3) show ?thesis
    by (auto simp: replicaSSHKeySecret_def SSHKeySecretName_def)
qed

text \<open>An API server that holds the one minted Secret or none.\<close>

definition sample_crypto :: "(bool, string, string) ssh_crypto" where
  "sample_crypto =
     \<lparr>cy_GenerateKey = \<lambda>s. (Some (''pk'', ''sk''), s), cy_NewPublicKey = Some, cy_MarshalPrivateKey = \<lambda>k comment. Some k,
      cy_MarshalAuthorizedKey = \<lambda>p. ''ssh-ed25519 '' @ p, cy_EncodeToMemory = \<lambda>b. ''PEM '' @ b\<rparr>"

definition sample_parse :: "string \<Rightarrow> unit + string" where
  "sample_parse pem = (if pem = ''PEM sk'' then Inr ''pk'' else Inl ())"

definition sample_pair :: "string gomap" where
  "sample_pair = [(sshKeySecretPrivateKey, ''PEM sk''), (sshKeySecretPublicKey, ''ssh-ed25519 pk'')]"

definition one_secret_api :: "bool ssh_key_env" where
  "one_secret_api =
     \<lparr>sk_get = \<lambda>ns name s. if s then ((ApiOk, sample_pair), s) else ((ApiNotFound, []), s),
      sk_create = \<lambda>ns name data s. if s then (ApiAlreadyExists, s) else if data = sample_pair then (ApiOk, True) else (ApiError, s),
      sk_generate = generateSSHKeypair sample_crypto\<rparr>"

theorem minted_key_reaches_proxy_witness:
  "\<exists>k. replicaKeyLoader (\<lambda>ns name. Some (secret_object sample_pair)) sample_parse ''squall'' = Inr (Some k) \<and>
     cy_MarshalAuthorizedKey sample_crypto (id k) = ''ssh-ed25519 pk''"
proof -
  let ?read = "\<lambda>t ns (name :: string). if t then Some (secret_object sample_pair) else None"
  have crypto: "crypto_ok sample_crypto sample_parse id"
    by (simp add: crypto_ok_def sample_crypto_def sample_parse_def TrimSpace_def is_space_def)
  have pair: "holds_pair sample_crypto sample_parse id sample_pair"
    by (simp add: holds_pair_def sample_pair_def sample_parse_def sample_crypto_def sshKeySecretPrivateKey_def
        sshKeySecretPublicKey_def TrimSpace_def is_space_def)
  have gen: "sk_generate one_secret_api = generateSSHKeypair sample_crypto"
    by (simp add: one_secret_api_def)
  have "EnsureSSHKey one_secret_api ''squall'' False = (''ssh-ed25519 pk'', True)"
    by (simp add: EnsureSSHKey_def one_secret_api_def generateSSHKeypair_def sample_crypto_def sample_pair_def)
  then have "\<exists>k. replicaKeyLoader (?read True) sample_parse ''squall'' = Inr (Some k) \<and>
      cy_MarshalAuthorizedKey sample_crypto (id k) = ''ssh-ed25519 pk''"
    by (intro minted_key_reaches_proxy [OF crypto gen, of "''squall''" ?read])
      (use pair in \<open>auto simp: one_secret_api_def split: if_splits\<close>)
  then show ?thesis by simp
qed

section \<open>Properties: start\<close>

text \<open>
  A proxy that starts is not ready before its cache is filled, has no request open and no demand
  written, and with the duration variables unset its cooldown is one under which demand cannot expire
  beneath a held request.
\<close>

lemma proxy_boots_unready:
  assumes "proxy_main pd getenv nsFile config nfc listen = Inr b"
  shows "healthz (pb_Cache b) = 503" and "tracker_Report (pb_Activity b) = []"
    and "getenv ''SQUALL_DEMAND_COOLDOWN'' = [] \<Longrightarrow> 0 \<le> dc_cooldown (pb_Demand b) \<and> dc_cooldown (pb_Demand b) \<le> 53 * Second"
  using assms
  by (auto simp: proxy_main_def Let_def healthz_def NewCache_def cache_Synced_def NewDemandCoalescer_def read_settings_def envDuration_def
      tracker_Report_def NewActivityTracker_def
      split: sum.splits if_splits)

section \<open>Properties: shutdown\<close>

lemma shutdown_order:
  assumes "proc_reachable p"
  shows "(pr_listening p \<longleftrightarrow> pr_shutdown p = AwaitSignal) \<and> (pr_shutdown p \<noteq> AwaitSignal \<longrightarrow> pr_signalled p) \<and>
    (pr_main p = MainReturning \<longrightarrow> \<not> pr_listening p) \<and> (pr_exited p = Some 0 \<longrightarrow> pr_main p = MainReturning)"
  using assms unfolding proc_reachable_def
  by (induction rule: rtranclp_induct) (auto simp: process_start_def proc_step_iff main_step_iff)

text \<open>
  The drain on shutdown is not waited for. In every state a process can reach in which \<open>Shutdown\<close> has been
  called, whatever number of requests is open and however little of the ten seconds has passed, the main
  goroutine ends the process by its own next steps alone, with all of them cut: it waits neither for them
  nor for the goroutine that is inside \<open>Shutdown\<close>.
\<close>

theorem shutdown_cuts_open_requests:
  assumes "proc_reachable p" and "pr_exited p = None" and "pr_shutdown p = InShutdown t" and "pr_main p \<noteq> MainFailed"
  shows "\<exists>q. main_step\<^sup>*\<^sup>* p q \<and> pr_exited q = Some 0 \<and> pr_open q = pr_open p \<and> pr_shutdown q = InShutdown t \<and> pr_now q = pr_now p"
proof -
  have closed: "\<not> pr_listening p"
    using shutdown_order [OF assms(1)] assms(3) by simp
  let ?q = "p\<lparr>pr_main := MainReturning, pr_exited := Some 0\<rparr>"
  have "main_step\<^sup>*\<^sup>* p ?q"
  proof (cases "pr_main p")
    case MainServing
    with assms(2) closed have "main_step p (p\<lparr>pr_main := MainReturning\<rparr>)" "main_step (p\<lparr>pr_main := MainReturning\<rparr>) ?q"
      by (auto simp: main_step_iff)
    then show ?thesis
      by (meson converse_rtranclp_into_rtranclp rtranclp.rtrancl_refl)
  next
    case MainReturning
    with assms(2) have "main_step p ?q"
      by (simp add: main_step_iff)
    then show ?thesis
      by blast
  qed (use assms(4) in simp)
  then show ?thesis
    using assms(3) by (intro exI [of _ ?q]) simp
qed

theorem shutdown_cuts_open_requests_witness:
  "\<exists>p q. proc_reachable p \<and> main_step\<^sup>*\<^sup>* p q \<and> pr_exited q = Some 0 \<and> pr_open q = 1"
proof -
  let ?p1 = "process_start\<lparr>pr_open := 1\<rparr>" let ?p2 = "?p1\<lparr>pr_signalled := True\<rparr>"
  let ?p3 = "?p2\<lparr>pr_shutdown := InShutdown 0, pr_listening := False\<rparr>"
  have "proc_step process_start ?p1" "proc_step ?p1 ?p2" "proc_step ?p2 ?p3"
    by (auto simp: proc_step_iff process_start_def)
  then have "proc_reachable ?p3"
    unfolding proc_reachable_def by (meson rtranclp.rtrancl_into_rtrancl rtranclp.rtrancl_refl)
  with shutdown_cuts_open_requests [OF this, of 0] show ?thesis
    by (auto simp: process_start_def)
qed

end
