(* ===== verification/Test_Binaries.thy ===== *)
theory Test_Binaries
  imports Dstack_Client Proxy_Main
begin

text \<open>
  The clock seam (\<open>internal/clock/clock.go\<close>) and the two binaries of the end-to-end cluster:
  \<open>cmd/fake-dstack\<close>, the in-memory server behind HTTP with a ticker beside it, as the set of states it can
  reach under any requests, and \<open>cmd/model-mock\<close>, the canned chat engine.
\<close>

section \<open>Clocks\<close>

record FakeClock =
  fk_t :: gotime

definition NewFakeClock :: "gotime \<Rightarrow> FakeClock" where
  "NewFakeClock t = \<lparr>fk_t = t\<rparr>"

definition fake_Now :: "FakeClock \<Rightarrow> gotime" where
  "fake_Now c = fk_t c"

definition fake_Advance :: "duration \<Rightarrow> FakeClock \<Rightarrow> FakeClock" where
  "fake_Advance d c = c\<lparr>fk_t := fk_t c + d\<rparr>"

text \<open>The interface, with the wall clock read at the call.\<close>

datatype Clock = RealClock | Fake FakeClock

definition clock_Now :: "gotime \<Rightarrow> Clock \<Rightarrow> gotime" where
  "clock_Now wall c = (case c of RealClock \<Rightarrow> wall | Fake f \<Rightarrow> fake_Now f)"

text \<open>A nil clock of the reconciler, the proxy's handler or the reaper is the wall clock.\<close>

definition reconciler_now :: "gotime \<Rightarrow> Clock option \<Rightarrow> gotime" where
  "reconciler_now wall c = (case c of None \<Rightarrow> clock_Now wall RealClock | Some k \<Rightarrow> clock_Now wall k)"

definition handler_clock :: "Clock option \<Rightarrow> Clock" where
  "handler_clock c = (case c of None \<Rightarrow> RealClock | Some k \<Rightarrow> k)"

definition reaper_now :: "gotime \<Rightarrow> (unit \<Rightarrow> gotime) option \<Rightarrow> gotime" where
  "reaper_now wall c = (case c of Some f \<Rightarrow> f () | None \<Rightarrow> wall)"

lemma fake_clock_sum: "fake_Now (fold fake_Advance ds (NewFakeClock t)) = t + sum_list ds"
  by (induction ds arbitrary: t) (simp_all add: fake_Now_def fake_Advance_def NewFakeClock_def)

lemma fake_clock_ignores_wall: "clock_Now wall (Fake f) = clock_Now wall' (Fake f)"
  by (simp add: clock_Now_def)

section \<open>fake-dstack\<close>

definition mock_Handler :: "(json \<Rightarrow> string) \<Rightarrow> gotime \<Rightarrow> mockServer transport" where
  "mock_Handler render now = NewHTTPServer render ValidToken now"

datatype main_end = Serving string | Exited int

definition fake_dstack_main :: "(string \<Rightarrow> string) \<Rightarrow> (string \<Rightarrow> bool) \<Rightarrow> main_end" where
  "fake_dstack_main getenv listen =
     (let env = getenv ''FAKE_DSTACK_ADDR''; addr = (if env = [] then '':8080'' else env)
      in if listen addr then Serving addr else Exited 1)"

text \<open>The server's states: any request at any time, and the ticker's ticks between them.\<close>

inductive fake_dstack :: "(json \<Rightarrow> string) \<Rightarrow> mockServer \<Rightarrow> bool" for render where
  fd_start: "fake_dstack render mock_New"
| fd_request: "fake_dstack render s \<Longrightarrow> fake_dstack render (snd (mock_Handler render now path auth j s))"
| fd_tick: "fake_dstack render s \<Longrightarrow> fake_dstack render (mock_Tick now s)"

text \<open>What a request can do to the server; over the wire the fleet's idle duration is always zero.\<close>

lemma project_route_effect:
  "mock_project_route render now op j s = Some r \<Longrightarrow>
     snd r = s \<or> (\<exists>q. ka_FleetIdleDuration q = 0 \<and> snd r = snd (mock_Apply now q s)) \<or>
     (\<exists>n. snd r = snd (mock_Stop n s)) \<or> (\<exists>n. snd r = snd (mock_Delete n s)) \<or> (\<exists>n bs. snd r = mock_EnsureFleet n bs s)"
proof -
  have app: "snd (handleApply render now j s) = s \<or>
      (\<exists>q. ka_FleetIdleDuration q = 0 \<and> snd (handleApply render now j s) = snd (mock_Apply now q s))"
    unfolding handleApply_def
    by (auto split: option.splits prod.splits sum.splits mock_error.splits)
      (metis (mono_tags, lifting) mockApplyRequest.select_convs(5) snd_conv)+
  have del: "snd (handleDeleteRun render j s) = s \<or> (\<exists>n. snd (handleDeleteRun render j s) = snd (mock_Delete n s))"
    unfolding handleDeleteRun_def
    by (auto split: option.splits prod.splits sum.splits mock_error.splits list.splits) (metis snd_conv)+
  have stop: "snd (handleStopRun render j s) = s \<or> (\<exists>n. snd (handleStopRun render j s) = snd (mock_Stop n s))"
    unfolding handleStopRun_def
    by (auto split: option.splits prod.splits sum.splits mock_error.splits list.splits) (metis snd_conv)+
  have fl: "snd (handleApplyFleet render j s) = s \<or> (\<exists>n bs. snd (handleApplyFleet render j s) = mock_EnsureFleet n bs s)"
    unfolding handleApplyFleet_def Let_def by (auto split: option.splits)
  assume "mock_project_route render now op j s = Some r"
  then show ?thesis
    using app del stop fl by (auto simp: mock_project_route_def split: if_splits)
qed

lemma request_effect:
  obtains "snd (mock_Handler render now path auth j s) = s"
  | q where "ka_FleetIdleDuration q = 0" "snd (mock_Handler render now path auth j s) = snd (mock_Apply now q s)"
  | n where "snd (mock_Handler render now path auth j s) = snd (mock_Stop n s)"
  | n where "snd (mock_Handler render now path auth j s) = snd (mock_Delete n s)"
  | n bs where "snd (mock_Handler render now path auth j s) = mock_EnsureFleet n bs s"
proof -
  have "snd (mock_Handler render now path auth j s) = s \<or>
      (\<exists>op r. mock_project_route render now op j s = Some r \<and> snd (mock_Handler render now path auth j s) = snd r)"
    unfolding mock_Handler_def NewHTTPServer_def Let_def
    by (auto split: list.splits option.splits if_splits)
  with that show thesis
    using project_route_effect by metis
qed

definition held_service :: "mockService \<Rightarrow> bool" where
  "held_service svc \<longleftrightarrow> sv_fleetIdleDuration svc = 0 \<and> sv_instanceUp svc = (\<not> sv_terminal svc)"

definition all_held :: "mockServer \<Rightarrow> bool" where
  "all_held s \<longleftrightarrow> list_all held_service (map snd (ms_services s))"

lemma gomap_put_all: "list_all P (map snd m) \<Longrightarrow> P v \<Longrightarrow> list_all P (map snd (gomap_put k v m))"
  by (induction k v m rule: gomap_put.induct) auto

lemma all_heldD: "all_held s \<Longrightarrow> gomap_get (ms_services s) n = Some svc \<Longrightarrow> held_service svc"
  by (auto simp: all_held_def list_all_iff dest!: map_of_SomeD)

lemma all_held_Tick: "all_held s \<Longrightarrow> mock_Tick now s = s"
  by (cases s) (auto simp: all_held_def mock_Tick_def tick_service_def held_service_def list_all_iff
      intro!: map_idI)

lemma all_held_Apply:
  assumes "all_held s" and "ka_FleetIdleDuration q = 0"
  shows "all_held (snd (mock_Apply now q s))"
proof -
  have "held_service (apply_service now q svc)" if "sv_fleetIdleDuration svc = 0" "\<not> sv_terminal svc" for svc
    using that assms(2) by (simp add: held_service_def apply_service_def Let_def)
  then show ?thesis
    using assms all_heldD [OF assms(1)] unfolding mock_Apply_def
    by (auto simp: all_held_def Let_def held_service_def fresh_service_def intro!: gomap_put_all split: option.splits)
qed

lemma all_held_request: "all_held s \<Longrightarrow> all_held (snd (mock_Handler render now path auth j s))"
proof (cases rule: request_effect [of render now path auth j s])
  case (2 q)
  then show "all_held s \<Longrightarrow> ?thesis" by (simp add: all_held_Apply)
next
  case (3 n)
  then show "all_held s \<Longrightarrow> ?thesis"
    by (auto simp: mock_Stop_def all_held_def held_service_def split: option.splits
        dest: all_heldD [unfolded all_held_def, of s] intro!: gomap_put_all)
next
  case (4 n)
  then show "all_held s \<Longrightarrow> ?thesis"
    by (auto simp: mock_Delete_def all_held_def gomap_del_def list_all_iff split: option.splits)
qed (simp_all add: mock_EnsureFleet_def all_held_def split: option.split)

lemma fake_dstack_held: "fake_dstack render s \<Longrightarrow> all_held s"
  by (induction rule: fake_dstack.induct)
    (simp_all add: all_held_request all_held_Tick, simp add: all_held_def mock_New_def)

text \<open>
  The ticker of fake-dstack never releases anything. Whatever requests the server has answered, with any
  body, token and route, a tick changes nothing, because no request on the wire carries a fleet idle
  duration; every run that is neither stopped nor deleted holds its instance, also while its Model sleeps,
  and no other run does.
\<close>

theorem fake_dstack_never_releases:
  assumes "fake_dstack render s"
  shows "mock_Tick now s = s \<and> mock_InstanceCount n s = (if mock_ident s n = None then 0 else 1)"
  using fake_dstack_held [OF assms] all_heldD [of s n] all_held_Tick [of s now]
  by (auto simp: mock_InstanceCount_def mock_ident_def live_service_def held_service_def split: option.splits)

lemma mock_Handler_sleep:
  "fake_dstack render (snd (mock_Handler render now path auth j mock_New))"
  by (intro fd_request fd_start)

theorem fake_dstack_never_releases_witness:
  "\<exists>j. mock_InstanceCount ''m'' (mock_Tick (9 * Hour)
     (snd (mock_Handler (\<lambda>_. []) Hour ''/api/project/main/runs/apply'' (''Bearer '' @ ValidToken) j mock_New))) = 1"
proof -
  let ?j = "enc_applyRequest (newApplyRequest \<lparr>api_RunSpec = Some (enc_normalized
    (normalize \<lparr>rin_RunName = ''m'', rin_Replicas = 0, rin_IdleDuration = None\<rparr>)), api_CurrentResource = None\<rparr>)"
  let ?s = "snd (mock_Handler (\<lambda>_. []) Hour ''/api/project/main/runs/apply'' (''Bearer '' @ ValidToken) ?j mock_New)"
  have "mock_ident ?s ''m'' \<noteq> None"
    by code_simp
  with fake_dstack_never_releases [OF mock_Handler_sleep, where n = "''m''" and now = "9 * Hour"]
  have "mock_InstanceCount ''m'' (mock_Tick (9 * Hour) ?s) = 1"
    by metis
  then show ?thesis ..
qed

section \<open>model-mock\<close>

record chatMessage =
  cm_Role :: string
  cm_Content :: string

record chatChoice =
  cc_Index :: int
  cc_Message :: chatMessage
  cc_FinishReason :: string

record chatUsage =
  cu_PromptTokens :: int
  cu_CompletionTokens :: int
  cu_TotalTokens :: int

record chatResponse =
  cr_ID :: string
  cr_Object :: string
  cr_Created :: int
  cr_Model :: string
  cr_Choices :: "chatChoice list"
  cr_Usage :: chatUsage

definition enc_chatResponse :: "chatResponse \<Rightarrow> json" where
  "enc_chatResponse r = JObj
     [(''id'', JStr (cr_ID r)), (''object'', JStr (cr_Object r)), (''created'', JNum (cr_Created r)), (''model'', JStr (cr_Model r)),
      (''choices'', JArr (map (\<lambda>c. JObj [(''index'', JNum (cc_Index c)),
         (''message'', JObj [(''role'', JStr (cm_Role (cc_Message c))), (''content'', JStr (cm_Content (cc_Message c)))]),
         (''finish_reason'', JStr (cc_FinishReason c))]) (cr_Choices r))),
      (''usage'', JObj [(''prompt_tokens'', JNum (cu_PromptTokens (cr_Usage r))),
         (''completion_tokens'', JNum (cu_CompletionTokens (cr_Usage r))), (''total_tokens'', JNum (cu_TotalTokens (cr_Usage r)))])]"

text \<open>
  \<open>Decode(&req)\<close> with its error ignored: a body that is not an object leaves the model empty, a member of
  another type leaves what an earlier one set.
\<close>

definition decode_chatRequest :: "json option \<Rightarrow> string" where
  "decode_chatRequest body =
     (case body of
        Some (JObj kvs) \<Rightarrow>
          fold (\<lambda>(k, v) m. if ToLower k = ''model'' then (case v of JStr s \<Rightarrow> s | _ \<Rightarrow> m) else m) kvs []
      | _ \<Rightarrow> [])"

text \<open>The answer, after the time slept before it.\<close>

definition chatCompletions ::
  "(json \<Rightarrow> string) \<Rightarrow> (string \<Rightarrow> string) \<Rightarrow> (string \<Rightarrow> duration option) \<Rightarrow> json option \<Rightarrow> duration \<times> http_outcome" where
  "chatCompletions render getenv ParseDuration body =
     (let delay = getenv ''MODEL_MOCK_DELAY'';
          slept = (if delay \<noteq> [] then (case ParseDuration delay of Some d \<Rightarrow> max 0 d | None \<Rightarrow> 0) else 0);
          resp = \<lparr>cr_ID = ''chatcmpl-mock'', cr_Object = ''chat.completion'', cr_Created = 1700000000,
            cr_Model = decode_chatRequest body,
            cr_Choices = [\<lparr>cc_Index = 0, cc_Message = \<lparr>cm_Role = ''assistant'', cm_Content = ''mock response from model-mock''\<rparr>,
              cc_FinishReason = ''stop''\<rparr>],
            cr_Usage = \<lparr>cu_PromptTokens = 1, cu_CompletionTokens = 1, cu_TotalTokens = 2\<rparr>\<rparr>;
          v = enc_chatResponse resp
      in (slept, HTTPResponse 200 (render v) (Some v)))"

datatype engine_handler = EngineHealthz | EngineChat

definition model_mock_mux :: "(string option \<times> string \<times> engine_handler) list" where
  "model_mock_mux = [(Some ''GET'', ''/healthz'', EngineHealthz), (Some ''POST'', ''/v1/chat/completions'', EngineChat)]"

text \<open>On clean paths: a path that matches under another method is refused with 405.\<close>

definition model_mock_serve ::
  "(json \<Rightarrow> string) \<Rightarrow> (string \<Rightarrow> string) \<Rightarrow> (string \<Rightarrow> duration option) \<Rightarrow> string \<Rightarrow> string \<Rightarrow> json option \<Rightarrow> duration \<times> http_outcome" where
  "model_mock_serve render getenv ParseDuration m path body =
     (case List.find (\<lambda>(pm, pp, h). method_matches pm m \<and> path_matches pp path) model_mock_mux of
        Some (_, _, EngineHealthz) \<Rightarrow> (0, HTTPResponse 200 [] None)
      | Some (_, _, EngineChat) \<Rightarrow> chatCompletions render getenv ParseDuration body
      | None \<Rightarrow>
          (0, if list_ex (\<lambda>(pm, pp, h). path_matches pp path) model_mock_mux
              then HTTPResponse 405 ''Method Not Allowed'' None else HTTPResponse 404 ''404 page not found'' None))"

definition model_mock_main :: "(string \<Rightarrow> string) \<Rightarrow> (string \<Rightarrow> bool) \<Rightarrow> main_end" where
  "model_mock_main getenv listen =
     (let env = getenv ''MODEL_MOCK_ADDR''; addr = (if env = [] then '':8080'' else env)
      in if listen addr then Serving addr else Exited 1)"

text \<open>Whatever the request, the answer is a completion for the model it names, and reading it back gives that name.\<close>

lemma chatCompletions_echo:
  "\<exists>t raw v. chatCompletions render getenv pd body = (t, HTTPResponse 200 raw (Some v)) \<and> 0 \<le> t \<and>
     decode_chatRequest (Some v) = decode_chatRequest body"
  by (auto simp: chatCompletions_def Let_def enc_chatResponse_def decode_chatRequest_def [of "Some (JObj [(_, _), _, _, _, _, _])"]
      ToLower_def lower_char_def split: option.split)

lemma model_mock_serve_cases:
  "model_mock_serve render getenv pd ''POST'' ''/v1/chat/completions'' body = chatCompletions render getenv pd body"
  "model_mock_serve render getenv pd ''GET'' ''/v1/chat/completions'' body = (0, HTTPResponse 405 ''Method Not Allowed'' None)"
  "model_mock_serve render getenv pd ''HEAD'' ''/healthz'' body = (0, HTTPResponse 200 [] None)"
  "model_mock_serve render getenv pd ''POST'' ''/v1/models'' body = (0, HTTPResponse 404 ''404 page not found'' None)"
  by (simp_all add: model_mock_serve_def model_mock_mux_def method_matches_def path_matches_def HasSuffix_def suffix_def)

end
