(* ===== verification/Squall_Reaper.thy ===== *)
theory Squall_Reaper
  imports Squall_Trace
begin

text \<open>
  The orphan reaper (\<open>internal/controller/squall/reaper.go\<close>): one \<open>Sweep\<close> over every run dstack
  lists, against every Model the API server holds. Listing Models, listing runs and stopping a run
  are the functions of \<open>sweep_env\<close> over an external state. The ticker loop of \<open>Start\<close> only calls
  \<open>Sweep\<close> and logs its error.
\<close>

section \<open>The sweep\<close>

definition DefaultReapInterval :: duration where
  "DefaultReapInterval = Minute"

definition DefaultReapTimeout :: duration where
  "DefaultReapTimeout = 30 * Second"

definition DefaultReapGrace :: duration where
  "DefaultReapGrace = 5 * Minute"

record 's Reaper =
  rp_ListModels :: "'s \<Rightarrow> Model list option \<times> 's"
  rp_ListRuns :: "'s \<Rightarrow> (dstack_error + Run list) \<times> 's"
  rp_Stop :: "string \<Rightarrow> 's \<Rightarrow> dstack_error option \<times> 's"
  rp_Interval :: duration
  rp_Grace :: duration
  rp_Timeout :: duration

definition reap_grace :: "'s Reaper \<Rightarrow> duration" where
  "reap_grace R = (if rp_Grace R \<le> 0 then DefaultReapGrace else rp_Grace R)"

datatype sweep_error = ListModelsFailed | ListRunsFailed dstack_error | StopFailed string dstack_error

text \<open>A \<open>types.NamespacedName\<close>.\<close>

type_synonym namespaced_name = "string \<times> string"

definition named :: "Model \<Rightarrow> namespaced_name" where
  "named m = (md_Namespace m, md_Name m)"

fun index_owners ::
  "Model list \<Rightarrow> namespaced_name gomap \<Rightarrow> namespaced_name gomap \<Rightarrow> namespaced_name gomap \<times> namespaced_name gomap" where
  "index_owners [] owned live = (owned, live)"
| "index_owners (m # ms) owned live =
     index_owners ms (fold (\<lambda>name. gomap_put name (named m)) (runNamesFor m) owned)
       (gomap_put (md_UID m) (named m) live)"

fun sweep_runs ::
  "'s Reaper \<Rightarrow> gotime \<Rightarrow> namespaced_name gomap \<Rightarrow> namespaced_name gomap \<Rightarrow> Run list \<Rightarrow> nat \<Rightarrow> sweep_error list \<Rightarrow> 's \<Rightarrow>
   (nat \<times> sweep_error list) \<times> 's" where
  "sweep_runs R now owned live [] reaped errs s = ((reaped, errs), s)"
| "sweep_runs R now owned live (run # runs) reaped errs s =
     (if gomap_get owned (run_Name run) \<noteq> None then sweep_runs R now owned live runs reaped errs s
      else if IsTerminal run then sweep_runs R now owned live runs reaped errs s
      else if time_sub now (run_SubmittedAt run) < reap_grace R
      then sweep_runs R now owned live runs reaped errs s
      else
        let markedUID = env_at (run_Env run) ModelUIDEnvKey in
        if markedUID = [] then sweep_runs R now owned live runs reaped errs s
        else if gomap_get live markedUID \<noteq> None then sweep_runs R now owned live runs reaped errs s
        else case rp_Stop R (run_Name run) s of
               (Some e, s1) \<Rightarrow>
                 if \<not> err_is e ErrNotFound
                 then sweep_runs R now owned live runs reaped (errs @ [StopFailed (run_Name run) e]) s1
                 else sweep_runs R now owned live runs (reaped + 1) errs s1
             | (None, s1) \<Rightarrow> sweep_runs R now owned live runs (reaped + 1) errs s1)"

text \<open>
  The number of orphans acted on and the joined errors (none for a clean pass). The context's
  deadline acts through the calls: an expired one makes them fail.
\<close>

definition Sweep :: "'s Reaper \<Rightarrow> gotime \<Rightarrow> 's \<Rightarrow> (nat \<times> sweep_error list) \<times> 's" where
  "Sweep R now s =
     (case rp_ListModels R s of
        (None, s1) \<Rightarrow> ((0, [ListModelsFailed]), s1)
      | (Some models, s1) \<Rightarrow>
          (case index_owners models [] [] of
             (owned, live) \<Rightarrow>
               (case rp_ListRuns R s1 of
                  (Inl e, s2) \<Rightarrow> ((0, [ListRunsFailed e]), s2)
                | (Inr runs, s2) \<Rightarrow> sweep_runs R now owned live runs 0 [] s2)))"

section \<open>The loop\<close>

text \<open>
  What \<open>Start\<close> meets between its start and the end of its context: ticks of its ticker with the time
  they fire at, and changes of the world. A failed sweep is only logged.
\<close>

datatype 's reaper_event = ReapTick gotime | ReapWorld "'s \<Rightarrow> 's" | ReapDone

definition reap_interval :: "'s Reaper \<Rightarrow> duration" where
  "reap_interval R = (if rp_Interval R \<le> 0 then DefaultReapInterval else rp_Interval R)"

fun reaper_Start :: "'s Reaper \<Rightarrow> 's reaper_event list \<Rightarrow> 's \<Rightarrow> 's" where
  "reaper_Start R [] s = s"
| "reaper_Start R (ReapTick now # evs) s = reaper_Start R evs (snd (Sweep R now s))"
| "reaper_Start R (ReapWorld f # evs) s = reaper_Start R evs (f s)"
| "reaper_Start R (ReapDone # evs) s = s"

section \<open>The ownership index\<close>

lemma fold_put_get:
  "gomap_get (fold (\<lambda>name. gomap_put name v) names m) k = (if k \<in> set names then Some v else gomap_get m k)"
  by (induction names arbitrary: m) auto

lemma index_owners_get:
  assumes "index_owners ms owned live = (owned', live')"
  shows "gomap_get owned' k \<noteq> None \<longleftrightarrow> gomap_get owned k \<noteq> None \<or> (\<exists>m\<in>set ms. k \<in> set (runNamesFor m))"
    and "gomap_get live' u \<noteq> None \<longleftrightarrow> gomap_get live u \<noteq> None \<or> (\<exists>m\<in>set ms. u = md_UID m)"
  using assms by (induction ms owned live rule: index_owners.induct) (auto simp: fold_put_get split: if_splits)

text \<open>
  A provable orphan: no Model claims the run's name, it is alive and past the grace period, and it
  carries squall's stamp of a Model that no longer exists.
\<close>

definition orphan :: "Model list \<Rightarrow> duration \<Rightarrow> gotime \<Rightarrow> Run \<Rightarrow> bool" where
  "orphan models grace now run \<longleftrightarrow>
     (\<forall>m\<in>set models. run_Name run \<notin> set (runNamesFor m)) \<and> \<not> IsTerminal run \<and>
     grace \<le> time_sub now (run_SubmittedAt run) \<and>
     (\<exists>uid. gomap_get (run_Env run) ModelUIDEnvKey = Some uid \<and> uid \<noteq> [] \<and>
        (\<forall>m\<in>set models. md_UID m \<noteq> uid))"

section \<open>Traced sweeps\<close>

definition traced_reaper :: "'s Reaper \<Rightarrow> 's traced Reaper" where
  "traced_reaper R =
     \<lparr>rp_ListModels = silent (rp_ListModels R), rp_ListRuns = silent (rp_ListRuns R),
      rp_Stop = \<lambda>n. noted (CallStop n) (rp_Stop R n), rp_Interval = rp_Interval R,
      rp_Grace = rp_Grace R, rp_Timeout = rp_Timeout R\<rparr>"

definition sweep_calls :: "'s Reaper \<Rightarrow> gotime \<Rightarrow> 's \<Rightarrow> ext_call list" where
  "sweep_calls R now s = snd (snd (Sweep (traced_reaper R) now (s, [])))"

definition called_name :: "ext_call \<Rightarrow> string option" where
  "called_name c = (case c of CallStop n _ \<Rightarrow> Some n | _ \<Rightarrow> None)"

lemma traced_reaper_simps [simp]:
  "reap_grace (traced_reaper R) = reap_grace R"
  "rp_ListModels (traced_reaper R) = silent (rp_ListModels R)"
  "rp_ListRuns (traced_reaper R) = silent (rp_ListRuns R)"
  "rp_Stop (traced_reaper R) n = noted (CallStop n) (rp_Stop R n)"
  by (simp_all add: reap_grace_def traced_reaper_def)

lemma orphan_index:
  assumes "index_owners models [] [] = (owned, live)"
  shows "orphan models grace now run \<longleftrightarrow>
      gomap_get owned (run_Name run) = None \<and> \<not> IsTerminal run \<and>
      \<not> time_sub now (run_SubmittedAt run) < grace \<and>
      env_at (run_Env run) ModelUIDEnvKey \<noteq> [] \<and>
      gomap_get live (env_at (run_Env run) ModelUIDEnvKey) = None"
  using index_owners_get(1) [OF assms, of "run_Name run"]
    index_owners_get(2) [OF assms, of "env_at (run_Env run) ModelUIDEnvKey"]
  by (auto simp: orphan_def env_at_def split: option.splits)

lemma sweep_runs_step:
  assumes "index_owners models [] [] = (owned, live)"
  shows "sweep_runs R now owned live (run # runs) k es s =
     (if orphan models (reap_grace R) now run
      then case rp_Stop R (run_Name run) s of
             (e, s1) \<Rightarrow>
               if (case e of Some e \<Rightarrow> \<not> err_is e ErrNotFound | None \<Rightarrow> False)
               then sweep_runs R now owned live runs k (es @ [StopFailed (run_Name run) (the e)]) s1
               else sweep_runs R now owned live runs (k + 1) es s1
      else sweep_runs R now owned live runs k es s)"
  unfolding orphan_index [OF assms] sweep_runs.simps Let_def
  by (simp split: option.split prod.split)

lemma sweep_runs_calls:
  assumes "index_owners models [] [] = (owned, live)"
  shows "map called_name (snd (snd (sweep_runs (traced_reaper R) now owned live runs k es (s, l)))) =
     map called_name l @ map (\<lambda>r. Some (run_Name r)) (filter (orphan models (reap_grace R) now) runs)"
  by (induction runs arbitrary: k es s l)
    (simp_all add: sweep_runs_step [OF assms] called_name_def del: sweep_runs.simps(2))

lemma sweep_runs_count:
  assumes "index_owners models [] [] = (owned, live)"
  shows "fst (fst (sweep_runs R now owned live runs k es s)) + length (snd (fst (sweep_runs R now owned live runs k es s)))
     = k + length es + length (filter (orphan models (reap_grace R) now) runs)"
  by (induction runs arbitrary: k es s)
    (simp_all add: sweep_runs_step [OF assms] del: sweep_runs.simps(2) split: prod.split)

section \<open>Properties\<close>

lemma sweep_calls_orphans:
  assumes "rp_ListModels R s = (Some models, s1)" and "rp_ListRuns R s1 = (Inr runs, s2)"
  shows "map called_name (sweep_calls R now s) =
     map (\<lambda>r. Some (run_Name r)) (filter (orphan models (reap_grace R) now) runs) \<and>
     fst (fst (Sweep R now s)) + length (snd (fst (Sweep R now s))) =
       length (filter (orphan models (reap_grace R) now) runs)"
proof -
  obtain owned live where own: "index_owners models [] [] = (owned, live)" by fastforce
  from sweep_runs_calls [OF own, of R now runs 0 "[]" s2 "[]"]
    sweep_runs_count [OF own, of R now runs 0 "[]" s2] show ?thesis
    using assms own by (simp add: sweep_calls_def Sweep_def)
qed

text \<open>
  C13. The reaper stops exactly the provable orphans. On a complete view, a sweep issues one Stop
  for each listed run that no Model claims by name, that is alive, at least the grace period old
  and stamped with the UID of a Model that does not exist, in listing order, and no other call,
  whatever dstack answers to the earlier ones; each is counted as reaped or reported as an error.
\<close>

theorem sweep_stops_orphans:
  assumes "rp_ListModels R s = (Some models, s1)" and "rp_ListRuns R s1 = (Inr runs, s2)"
  shows "map called_name (sweep_calls R now s) =
     map (\<lambda>r. Some (run_Name r)) (filter (orphan models (reap_grace R) now) runs) \<and>
     fst (fst (Sweep R now s)) + length (snd (fst (Sweep R now s))) =
       length (filter (orphan models (reap_grace R) now) runs)"
  using assms by (rule sweep_calls_orphans)

definition sample_orphan :: Run where
  "sample_orphan = sample_run\<lparr>run_Env := [(ModelUIDEnvKey, ''gone'')]\<rparr>"

definition sample_reaper :: "unit Reaper" where
  "sample_reaper =
     \<lparr>rp_ListModels = \<lambda>s. (Some [sample_model], s), rp_ListRuns = \<lambda>s. (Inr [sample_run, sample_orphan], s),
      rp_Stop = \<lambda>n s. (None, s), rp_Interval = 0, rp_Grace = 0, rp_Timeout = 0\<rparr>"

theorem sweep_stops_orphans_witness:
  "map called_name (sweep_calls sample_reaper Hour ()) = [Some ''squall-qwen'']"
  using sweep_stops_orphans [of sample_reaper "()" "[sample_model]" "()" "[sample_run, sample_orphan]" "()" Hour]
  by (simp add: sample_reaper_def orphan_def sample_orphan_def sample_run_def sample_model_def
      sample_status_def runNamesFor_def dstackRunName_def reap_grace_def DefaultReapGrace_def
      IsTerminal_def finishedRunStatuses_def ModelUIDEnvKey_def time_sub_def minDuration_def
      maxDuration_def)

text \<open>
  The reaper never acts on a partial view: when listing the Models or the runs fails, the
  sweep makes no call, reports zero runs reaped and returns the error.
\<close>

theorem sweep_partial_view:
  assumes "fst (rp_ListModels R s) = None \<or> (\<exists>e. fst (rp_ListRuns R (snd (rp_ListModels R s))) = Inl e)"
  shows "sweep_calls R now s = [] \<and> fst (fst (Sweep R now s)) = 0 \<and> snd (fst (Sweep R now s)) \<noteq> []"
  using assms
  by (cases "rp_ListModels R s"; cases "rp_ListRuns R (snd (rp_ListModels R s))")
    (auto simp: sweep_calls_def Sweep_def split: option.splits prod.splits sum.splits)

theorem sweep_partial_view_witness:
  "sweep_calls (sample_reaper\<lparr>rp_ListModels := \<lambda>s. (None, s)\<rparr>) Hour () = []"
  using sweep_partial_view [of "sample_reaper\<lparr>rp_ListModels := \<lambda>s. (None, s)\<rparr>" "()" Hour] by simp

section \<open>The loop\<close>

text \<open>The calls of every sweep of a run of the loop, in order.\<close>

fun reaper_calls :: "'s Reaper \<Rightarrow> 's reaper_event list \<Rightarrow> 's \<Rightarrow> ext_call list" where
  "reaper_calls R [] s = []"
| "reaper_calls R (ReapTick now # evs) s = sweep_calls R now s @ reaper_calls R evs (snd (Sweep R now s))"
| "reaper_calls R (ReapWorld f # evs) s = reaper_calls R evs (f s)"
| "reaper_calls R (ReapDone # evs) s = []"

lemma reaper_calls_append:
  "ReapDone \<notin> set evs \<Longrightarrow> reaper_calls R (evs @ evs') s = reaper_calls R evs s @ reaper_calls R evs' (reaper_Start R evs s)"
  by (induction R evs s rule: reaper_Start.induct) auto

text \<open>
  The reaper keeps trying: whatever happened before, failed sweeps and failed stops included, the
  first tick at which it can list the Models and the runs makes a stop call for every run that is an
  orphan then, and for no other run; a sweep that failed before has not lost one.
\<close>

theorem reaper_retries_orphans:
  assumes "ReapDone \<notin> set evs"
    and "rp_ListModels R (reaper_Start R evs s) = (Some models, s1)" and "rp_ListRuns R s1 = (Inr runs, s2)"
  shows "map called_name (reaper_calls R (evs @ [ReapTick now]) s) =
     map called_name (reaper_calls R evs s) @
     map (\<lambda>r. Some (run_Name r)) (filter (orphan models (reap_grace R) now) runs)"
  using sweep_calls_orphans [OF assms(2,3), of now] by (simp add: reaper_calls_append [OF assms(1)])

text \<open>A reaper whose first listing of the Models fails.\<close>

definition flaky_reaper :: "bool Reaper" where
  "flaky_reaper =
     \<lparr>rp_ListModels = \<lambda>up. (if up then Some [sample_model] else None, True), rp_ListRuns = \<lambda>s. (Inr [sample_run, sample_orphan], s),
      rp_Stop = \<lambda>n s. (None, s), rp_Interval = 0, rp_Grace = 0, rp_Timeout = 0\<rparr>"

theorem reaper_retries_orphans_witness:
  "map called_name (reaper_calls flaky_reaper [ReapTick Hour, ReapTick (Hour + Minute)] False) = [Some ''squall-qwen'']"
proof -
  have first: "reaper_Start flaky_reaper [ReapTick Hour] False = True" "reaper_calls flaky_reaper [ReapTick Hour] False = []"
    by (simp_all add: flaky_reaper_def Sweep_def sweep_calls_def)
  have "filter (orphan [sample_model] (reap_grace flaky_reaper) (Hour + Minute)) [sample_run, sample_orphan] = [sample_orphan]"
    by (simp add: flaky_reaper_def orphan_def sample_orphan_def sample_run_def sample_model_def
        sample_status_def runNamesFor_def dstackRunName_def reap_grace_def DefaultReapGrace_def
        IsTerminal_def finishedRunStatuses_def ModelUIDEnvKey_def time_sub_def minDuration_def maxDuration_def)
  with reaper_retries_orphans [of "[ReapTick Hour]" flaky_reaper False "[sample_model]" True "[sample_run, sample_orphan]" True
      "Hour + Minute"] first
  show ?thesis
    by (simp add: flaky_reaper_def sample_orphan_def sample_run_def)
qed

end
