(* ===== verification/Squall_Metrics.thy ===== *)
theory Squall_Metrics
  imports Squall_Reconcile "HOL-Library.AList"
begin

text \<open>
  What squall-controller reports about its Models: the collectors of \<open>internal/metrics\<close> and the
  places of \<open>model_controller.go\<close> and \<open>finalizer.go\<close> that feed them. A collector is its map from
  Models to entries; a scrape is the list of samples it sends. A duration is exported in seconds; the
  samples carry the duration itself. The counter vectors belong to the Prometheus client and are the
  list of calls made on them.
\<close>

section \<open>Samples\<close>

type_synonym modelKey = "string \<times> string"

datatype metric_value = VSeconds duration | VPrice float64 | VCount int

record metric_sample =
  ms_name :: string
  ms_value :: metric_value
  ms_labels :: "string list"

definition key_sample :: "string \<Rightarrow> metric_value \<Rightarrow> modelKey \<Rightarrow> metric_sample" where
  "key_sample name v k = \<lparr>ms_name = name, ms_value = v, ms_labels = [fst k, snd k]\<rparr>"

section \<open>Age (model_age.go)\<close>

record ageEntry =
  ae_runID :: string
  ae_since :: gotime
  ae_maxLifetime :: duration
  ae_declared :: bool

definition age_Observe ::
  "string \<Rightarrow> string \<Rightarrow> string \<Rightarrow> duration \<Rightarrow> gotime \<Rightarrow> (modelKey \<times> ageEntry) list \<Rightarrow> (modelKey \<times> ageEntry) list" where
  "age_Observe namespace name runID maxLifetime now entries =
     (let key = (namespace, name)
      in if runID = [] then AList.delete key entries
         else
           let e = (case map_of entries key of
                      Some e \<Rightarrow> if ae_runID e \<noteq> runID
                                then \<lparr>ae_runID = runID, ae_since = now, ae_maxLifetime = 0, ae_declared = False\<rparr> else e
                    | None \<Rightarrow> \<lparr>ae_runID = runID, ae_since = now, ae_maxLifetime = 0, ae_declared = False\<rparr>)
           in AList.update key (e\<lparr>ae_maxLifetime := maxLifetime, ae_declared := 0 < maxLifetime\<rparr>) entries)"

definition age_Forget :: "string \<Rightarrow> string \<Rightarrow> (modelKey \<times> ageEntry) list \<Rightarrow> (modelKey \<times> ageEntry) list" where
  "age_Forget namespace name entries = AList.delete (namespace, name) entries"

definition age_Collect :: "gotime \<Rightarrow> (modelKey \<times> ageEntry) list \<Rightarrow> metric_sample list" where
  "age_Collect now entries =
     concat (map (\<lambda>(k, e).
       if \<not> ae_declared e then []
       else [key_sample ''squall_model_age_seconds'' (VSeconds (time_sub now (ae_since e))) k,
             key_sample ''squall_model_max_lifetime_seconds'' (VSeconds (ae_maxLifetime e)) k]) entries)"

section \<open>Price (model_price.go)\<close>

record priceEntry =
  pe_observed :: float64
  pe_hasObserved :: bool
  pe_declared :: float64
  pe_hasDeclared :: bool

definition price_Observe ::
  "string \<Rightarrow> string \<Rightarrow> float64 \<Rightarrow> bool \<Rightarrow> float64 \<Rightarrow> bool \<Rightarrow> (modelKey \<times> priceEntry) list \<Rightarrow> (modelKey \<times> priceEntry) list" where
  "price_Observe namespace name observed hasObserved declared hasDeclared entries =
     (if \<not> hasObserved \<and> \<not> hasDeclared then AList.delete (namespace, name) entries
      else AList.update (namespace, name)
             \<lparr>pe_observed = observed, pe_hasObserved = hasObserved, pe_declared = declared, pe_hasDeclared = hasDeclared\<rparr>
             entries)"

definition price_Forget :: "string \<Rightarrow> string \<Rightarrow> (modelKey \<times> priceEntry) list \<Rightarrow> (modelKey \<times> priceEntry) list" where
  "price_Forget namespace name entries = AList.delete (namespace, name) entries"

definition price_Collect :: "(modelKey \<times> priceEntry) list \<Rightarrow> metric_sample list" where
  "price_Collect entries =
     concat (map (\<lambda>(k, e).
       if \<not> pe_hasObserved e \<or> \<not> pe_hasDeclared e then []
       else [key_sample ''squall_model_price_per_hour'' (VPrice (pe_observed e)) k,
             key_sample ''squall_model_max_price_per_hour'' (VPrice (pe_declared e)) k]) entries)"

section \<open>Uncontrolled time (uncontrolled.go)\<close>

record uncontrolledEntry =
  ue_since :: gotime
  ue_timeout :: duration

definition uncontrolled_Observe ::
  "string \<Rightarrow> string \<Rightarrow> gotime option \<Rightarrow> duration \<Rightarrow> (modelKey \<times> uncontrolledEntry) list \<Rightarrow> (modelKey \<times> uncontrolledEntry) list" where
  "uncontrolled_Observe namespace name since timeout entries =
     AList.update (namespace, name)
       \<lparr>ue_since = (case since of None \<Rightarrow> 0 | Some t \<Rightarrow> t), ue_timeout = timeout\<rparr> entries"

definition uncontrolled_Forget ::
  "string \<Rightarrow> string \<Rightarrow> (modelKey \<times> uncontrolledEntry) list \<Rightarrow> (modelKey \<times> uncontrolledEntry) list" where
  "uncontrolled_Forget namespace name entries = AList.delete (namespace, name) entries"

definition uncontrolled_Collect :: "gotime \<Rightarrow> (modelKey \<times> uncontrolledEntry) list \<Rightarrow> metric_sample list" where
  "uncontrolled_Collect now entries =
     concat (map (\<lambda>(k, e).
       let seconds = (if \<not> isZero (ue_since e) then time_sub now (ue_since e) else 0)
       in [key_sample ''squall_model_uncontrolled_seconds'' (VSeconds seconds) k,
           key_sample ''squall_model_uncontrolled_timeout_seconds'' (VSeconds (ue_timeout e)) k]) entries)"

section \<open>Idle time (idle.go)\<close>

record idleEntry =
  ie_lastRequestAt :: gotime
  ie_window :: duration

definition idle_Observe ::
  "string \<Rightarrow> string \<Rightarrow> gotime option \<Rightarrow> bool \<Rightarrow> duration \<Rightarrow> (modelKey \<times> idleEntry) list \<Rightarrow> (modelKey \<times> idleEntry) list" where
  "idle_Observe ns name lastAt active window entries =
     (case lastAt of
        None \<Rightarrow> AList.delete (ns, name) entries
      | Some t \<Rightarrow>
          if \<not> active \<or> isZero t then AList.delete (ns, name) entries
          else AList.update (ns, name) \<lparr>ie_lastRequestAt = t, ie_window = window\<rparr> entries)"

definition idle_Forget :: "string \<Rightarrow> string \<Rightarrow> (modelKey \<times> idleEntry) list \<Rightarrow> (modelKey \<times> idleEntry) list" where
  "idle_Forget ns name entries = AList.delete (ns, name) entries"

definition idle_Collect :: "gotime \<Rightarrow> (modelKey \<times> idleEntry) list \<Rightarrow> metric_sample list" where
  "idle_Collect now entries =
     concat (map (\<lambda>(k, e).
       [key_sample ''squall_model_idle_seconds'' (VSeconds (time_sub now (ie_lastRequestAt e))) k,
        key_sample ''squall_model_scale_down_delay_seconds'' (VSeconds (ie_window e)) k]) entries)"

section \<open>Operational state (model_operational.go)\<close>

record FleetObservation =
  fo_Backend :: string
  fo_Name :: string
  fo_State :: string

record ModelObservation =
  mo_Namespace :: string
  mo_Name :: string
  mo_Phase :: string
  mo_Backend :: string
  mo_ProvisioningReason :: string
  mo_RunActive :: bool
  mo_Replicas :: int
  mo_Fleets :: "FleetObservation list"

datatype counter_call = CTransition string string string string | CAttempt string string string
  | COutcome string string string string string duration

record operational_collector =
  oc_models :: "(modelKey \<times> ModelObservation) list"
  oc_calls :: "counter_call list"

definition operational_Observe :: "ModelObservation \<Rightarrow> operational_collector \<Rightarrow> operational_collector" where
  "operational_Observe obs c = c\<lparr>oc_models := AList.update (mo_Namespace obs, mo_Name obs) obs (oc_models c)\<rparr>"

definition operational_Forget :: "string \<Rightarrow> string \<Rightarrow> operational_collector \<Rightarrow> operational_collector" where
  "operational_Forget namespace name c = c\<lparr>oc_models := AList.delete (namespace, name) (oc_models c)\<rparr>"

definition RecordTransition :: "string \<Rightarrow> string \<Rightarrow> string \<Rightarrow> string \<Rightarrow> operational_collector \<Rightarrow> operational_collector" where
  "RecordTransition namespace name backend tr c = c\<lparr>oc_calls := oc_calls c @ [CTransition namespace name backend tr]\<rparr>"

definition RecordProvisioningAttempt :: "string \<Rightarrow> string \<Rightarrow> string \<Rightarrow> operational_collector \<Rightarrow> operational_collector" where
  "RecordProvisioningAttempt namespace name backend c = c\<lparr>oc_calls := oc_calls c @ [CAttempt namespace name backend]\<rparr>"

definition RecordProvisioningOutcome ::
  "string \<Rightarrow> string \<Rightarrow> string \<Rightarrow> string \<Rightarrow> string \<Rightarrow> duration \<Rightarrow> operational_collector \<Rightarrow> operational_collector" where
  "RecordProvisioningOutcome namespace name backend oc reason d c =
     c\<lparr>oc_calls := oc_calls c @ [COutcome namespace name backend oc reason d]\<rparr>"

definition observation_samples :: "ModelObservation \<Rightarrow> metric_sample list" where
  "observation_samples obs =
     [\<lparr>ms_name = ''squall_model_phase'', ms_value = VCount 1, ms_labels = [mo_Namespace obs, mo_Name obs, mo_Phase obs]\<rparr>,
      \<lparr>ms_name = ''squall_model_run_active'', ms_value = VCount (if mo_RunActive obs then 1 else 0),
       ms_labels = [mo_Namespace obs, mo_Name obs]\<rparr>,
      \<lparr>ms_name = ''squall_model_replicas'', ms_value = VCount (mo_Replicas obs), ms_labels = [mo_Namespace obs, mo_Name obs]\<rparr>] @
     map (\<lambda>f. \<lparr>ms_name = ''squall_model_fleet_state'', ms_value = VCount 1,
                ms_labels = [mo_Namespace obs, mo_Name obs, fo_Backend f, fo_Name f, fo_State f]\<rparr>) (mo_Fleets obs) @
     (if mo_ProvisioningReason obs \<noteq> []
      then [\<lparr>ms_name = ''squall_model_provisioning_failure'', ms_value = VCount 1,
             ms_labels = [mo_Namespace obs, mo_Name obs, mo_Backend obs, mo_ProvisioningReason obs]\<rparr>] else [])"

definition operational_Collect :: "operational_collector \<Rightarrow> metric_sample list" where
  "operational_Collect c = concat (map (\<lambda>(k, obs). observation_samples obs) (oc_models c))"

section \<open>Descriptors\<close>

text \<open>The descriptors a collector is built with and announces: metric name and label names.\<close>

type_synonym metric_desc = "string \<times> string list"

abbreviation model_labels :: "string list" where
  "model_labels \<equiv> [''namespace'', ''name'']"

definition age_Desc :: "metric_desc list" where
  "age_Desc = [(''squall_model_age_seconds'', model_labels), (''squall_model_max_lifetime_seconds'', model_labels)]"

definition price_Desc :: "metric_desc list" where
  "price_Desc = [(''squall_model_price_per_hour'', model_labels), (''squall_model_max_price_per_hour'', model_labels)]"

definition uncontrolled_Desc :: "metric_desc list" where
  "uncontrolled_Desc =
     [(''squall_model_uncontrolled_seconds'', model_labels), (''squall_model_uncontrolled_timeout_seconds'', model_labels)]"

definition idle_Desc :: "metric_desc list" where
  "idle_Desc = [(''squall_model_idle_seconds'', model_labels), (''squall_model_scale_down_delay_seconds'', model_labels)]"

definition operational_Desc :: "metric_desc list" where
  "operational_Desc =
     [(''squall_model_phase'', model_labels @ [''phase'']),
      (''squall_model_run_active'', model_labels),
      (''squall_model_replicas'', model_labels),
      (''squall_model_fleet_state'', model_labels @ [''backend'', ''fleet'', ''state'']),
      (''squall_model_provisioning_failure'', model_labels @ [''backend'', ''reason'']),
      (''squall_model_transitions_total'', model_labels @ [''backend'', ''transition'']),
      (''squall_model_provisioning_attempts_total'', model_labels @ [''backend'']),
      (''squall_model_provisioning_outcomes_total'', model_labels @ [''backend'', ''outcome'', ''reason'']),
      (''squall_model_provisioning_duration_seconds'', model_labels @ [''backend'', ''outcome''])]"

text \<open>Everything the controller registers.\<close>

definition registered :: "metric_desc list" where
  "registered = age_Desc @ price_Desc @ uncontrolled_Desc @ idle_Desc @ operational_Desc"

text \<open>The label values each call on a counter or histogram vector passes, with the vector's name.\<close>

fun counter_labels :: "counter_call \<Rightarrow> (string \<times> string list) list" where
  "counter_labels (CTransition namespace name backend tr) =
     [(''squall_model_transitions_total'', [namespace, name, backend, tr])]"
| "counter_labels (CAttempt namespace name backend) =
     [(''squall_model_provisioning_attempts_total'', [namespace, name, backend])]"
| "counter_labels (COutcome namespace name backend oc reason d) =
     [(''squall_model_provisioning_outcomes_total'', [namespace, name, backend, oc, reason]),
      (''squall_model_provisioning_duration_seconds'', [namespace, name, backend, oc])]"

definition described :: "string \<times> string list \<Rightarrow> bool" where
  "described x \<longleftrightarrow>
     (case map_of registered (fst x) of Some ls \<Rightarrow> length ls = length (snd x) | None \<Rightarrow> False)"

section \<open>Feeding the collectors (model_controller.go, finalizer.go)\<close>

text \<open>The reconciler's collectors; a nil one is \<open>None\<close>.\<close>

record metrics_state =
  mt_age :: "(modelKey \<times> ageEntry) list option"
  mt_price :: "(modelKey \<times> priceEntry) list option"
  mt_uncontrolled :: "(modelKey \<times> uncontrolledEntry) list option"
  mt_idle :: "(modelKey \<times> idleEntry) list option"
  mt_operational :: "operational_collector option"

definition metricBackend :: "Model \<Rightarrow> string" where
  "metricBackend model =
     (case pl_Backends (sp_Placement (md_Spec model)) of
        [] \<Rightarrow> ''_none'' | [b] \<Rightarrow> b | _ \<Rightarrow> ''_multiple'')"

definition metricProvisioningReason :: "string \<Rightarrow> string" where
  "metricProvisioningReason reason =
     (if reason = ReasonHardStopFired then ''hard_stop''
      else if reason = ReasonNoCapacity then ''no_capacity''
      else if reason = ReasonInsufficientCredit then ''insufficient_credit''
      else if reason = ReasonBackendRateLimited then ''rate_limited''
      else ''other'')"

definition recordProvisioningAttempt :: "Model \<Rightarrow> Action \<Rightarrow> metrics_state \<Rightarrow> metrics_state" where
  "recordProvisioningAttempt model action ms =
     (if 0 < ac_Replicas action
      then ms\<lparr>mt_operational := map_option
             (RecordProvisioningAttempt (md_Namespace model) (md_Name model) (metricBackend model)) (mt_operational ms)\<rparr>
      else ms)"

text \<open>\<open>priceAsFloat64\<close> drops the parse error, which leaves zero.\<close>

definition priceAsFloat64 :: "(string \<Rightarrow> float64 option) \<Rightarrow> string \<Rightarrow> float64" where
  "priceAsFloat64 ParseFloat p = (case ParseFloat p of Some v \<Rightarrow> v | None \<Rightarrow> F_Fin 0 0)"

definition recordMetrics ::
  "(string \<Rightarrow> float64 option) \<Rightarrow> Model \<Rightarrow> float64 \<Rightarrow> gotime option \<Rightarrow> bool \<Rightarrow> gotime \<Rightarrow> metrics_state \<Rightarrow> metrics_state" where
  "recordMetrics ParseFloat model observedPerHour uncontrolledSince runActive now ms =
     (let ns = md_Namespace model; name = md_Name model; spec = md_Spec model;
          runID = (if runActive then st_RunID (md_Status model) else []);
          maxPrice = pl_MaxPricePerHour (sp_Placement spec);
          hasDeclared = (maxPrice \<noteq> None);
          declared = (case maxPrice of Some p \<Rightarrow> priceAsFloat64 ParseFloat p | None \<Rightarrow> F_Fin 0 0)
      in ms\<lparr>mt_age := map_option (age_Observe ns name runID (sp_MaxLifetime spec) now) (mt_age ms),
            mt_price := map_option (price_Observe ns name observedPerHour (f_gt_zero observedPerHour) declared hasDeclared)
              (mt_price ms),
            mt_uncontrolled := map_option (uncontrolled_Observe ns name uncontrolledSince (uncontrolledTimeoutFor spec))
              (mt_uncontrolled ms),
            mt_idle := map_option (idle_Observe ns name (st_LastRequestAt (md_Status model)) runActive (sp_IdleTimeout spec))
              (mt_idle ms)\<rparr>)"

fun phase_string :: "ModelPhase \<Rightarrow> string" where
  "phase_string Asleep = ''Asleep''" | "phase_string Waking = ''Waking''" | "phase_string Ready = ''Ready''"
| "phase_string Draining = ''Draining''" | "phase_string Recreating = ''Recreating''" | "phase_string Dead = ''Dead''"
| "phase_string (PhaseOther p) = p"

definition failure_of :: "meta_api \<Rightarrow> ModelStatus \<Rightarrow> Condition option" where
  "failure_of M st =
     (case m_Find M (st_Conditions st) ConditionProvisioning of
        Some c \<Rightarrow> if cond_Status c = CondFalse then Some c else None
      | None \<Rightarrow> None)"

definition model_observation :: "meta_api \<Rightarrow> Model \<Rightarrow> Observed \<Rightarrow> ModelObservation" where
  "model_observation M model observed =
     \<lparr>mo_Namespace = md_Namespace model, mo_Name = md_Name model,
      mo_Phase = phase_string (st_Phase (md_Status model)), mo_Backend = metricBackend model,
      mo_ProvisioningReason =
        (case failure_of M (md_Status model) of Some c \<Rightarrow> metricProvisioningReason (cond_Reason c) | None \<Rightarrow> []),
      mo_RunActive = (ob_Run observed \<noteq> None),
      mo_Replicas = (case ob_Run observed of Some r \<Rightarrow> run_Replicas r | None \<Rightarrow> 0),
      mo_Fleets = map (\<lambda>f. \<lparr>fo_Backend = fs_Backend f, fo_Name = fs_Name f, fo_State = fs_State f\<rparr>) (st_Fleet (md_Status model))\<rparr>"

definition phase_transition :: "ModelPhase \<Rightarrow> ModelPhase \<Rightarrow> string" where
  "phase_transition before after =
     (if before = after then []
      else case after of Recreating \<Rightarrow> ''recreate'' | Waking \<Rightarrow> ''wake'' | Asleep \<Rightarrow> ''sleep'' | _ \<Rightarrow> [])"

text \<open>A failure is new when the Model had none before, or one with another message.\<close>

definition fresh_failure :: "meta_api \<Rightarrow> ModelStatus \<Rightarrow> ModelStatus \<Rightarrow> bool" where
  "fresh_failure M prior st =
     (case failure_of M st of
        None \<Rightarrow> False
      | Some c \<Rightarrow> (case m_Find M (st_Conditions prior) ConditionProvisioning of
                     None \<Rightarrow> True
                   | Some p \<Rightarrow> cond_Status p \<noteq> CondFalse \<or> cond_Message p \<noteq> cond_Message c))"

definition recordOperational ::
  "meta_api \<Rightarrow> Model \<Rightarrow> Observed \<Rightarrow> ModelStatus \<Rightarrow> gotime \<Rightarrow> operational_collector \<Rightarrow> operational_collector" where
  "recordOperational M model observed prior now c =
     (let ns = md_Namespace model; name = md_Name model; backend = metricBackend model; st = md_Status model;
          c1 = operational_Observe (model_observation M model observed) c;
          tr = phase_transition (st_Phase prior) (st_Phase st);
          c2 = (if tr \<noteq> [] then RecordTransition ns name backend tr c1 else c1);
          d = (case st_WakeStartedAt st of Some t \<Rightarrow> time_sub now t | None \<Rightarrow> 0);
          c3 = (if st_Phase prior \<noteq> Ready \<and> st_Phase st = Ready
                then RecordProvisioningOutcome ns name backend ''success'' [] d c2 else c2)
      in if fresh_failure M prior st
         then RecordProvisioningOutcome ns name backend ''failure''
                (case failure_of M st of Some f \<Rightarrow> metricProvisioningReason (cond_Reason f) | None \<Rightarrow> []) d c3
         else c3)"

definition recordOperationalMetrics ::
  "meta_api \<Rightarrow> Model \<Rightarrow> Observed \<Rightarrow> ModelStatus \<Rightarrow> gotime \<Rightarrow> metrics_state \<Rightarrow> metrics_state" where
  "recordOperationalMetrics M model observed prior now ms =
     ms\<lparr>mt_operational := map_option (recordOperational M model observed prior now) (mt_operational ms)\<rparr>"

text \<open>What the pass records after the status patch: the price is that of the run it looked at.\<close>

definition recordPass ::
  "(string \<Rightarrow> float64 option) \<Rightarrow> meta_api \<Rightarrow> Model \<Rightarrow> Observed \<Rightarrow> ModelStatus \<Rightarrow> gotime option \<Rightarrow> gotime \<Rightarrow> metrics_state \<Rightarrow> metrics_state" where
  "recordPass ParseFloat M model observed prior uncontrolledSince now ms =
     (let price = (case ob_Run observed of Some r \<Rightarrow> run_PricePerHour r | None \<Rightarrow> F_Fin 0 0);
          runActive = (case ob_Run observed of Some r \<Rightarrow> 0 < run_Replicas r | None \<Rightarrow> False)
      in recordOperationalMetrics M model observed prior now
           (recordMetrics ParseFloat model price uncontrolledSince runActive now ms))"

text \<open>The end of a teardown (\<open>finalizer.go\<close>).\<close>

definition forgetMetrics :: "Model \<Rightarrow> metrics_state \<Rightarrow> metrics_state" where
  "forgetMetrics model ms =
     (let ns = md_Namespace model; name = md_Name model
      in ms\<lparr>mt_age := map_option (age_Forget ns name) (mt_age ms),
            mt_price := map_option (price_Forget ns name) (mt_price ms),
            mt_uncontrolled := map_option (uncontrolled_Forget ns name) (mt_uncontrolled ms),
            mt_idle := map_option (idle_Forget ns name) (mt_idle ms),
            mt_operational := map_option
              (\<lambda>c. operational_Forget ns name (RecordTransition ns name (metricBackend model) ''delete'' c))
              (mt_operational ms)\<rparr>)"

definition opt_samples :: "('a \<Rightarrow> metric_sample list) \<Rightarrow> 'a option \<Rightarrow> metric_sample list" where
  "opt_samples f x = (case x of None \<Rightarrow> [] | Some c \<Rightarrow> f c)"

text \<open>One scrape of every registered collector.\<close>

definition scrape :: "gotime \<Rightarrow> metrics_state \<Rightarrow> metric_sample list" where
  "scrape now ms =
     opt_samples (age_Collect now) (mt_age ms) @ opt_samples price_Collect (mt_price ms) @
     opt_samples (uncontrolled_Collect now) (mt_uncontrolled ms) @ opt_samples (idle_Collect now) (mt_idle ms) @
     opt_samples operational_Collect (mt_operational ms)"

section \<open>The states the collectors go through\<close>

definition new_metrics :: metrics_state where
  "new_metrics = \<lparr>mt_age = Some [], mt_price = Some [], mt_uncontrolled = Some [], mt_idle = Some [],
     mt_operational = Some \<lparr>oc_models = [], oc_calls = []\<rparr>\<rparr>"

text \<open>Every sequence of passes, provisioning attempts and teardowns of any Models.\<close>

inductive metrics_reachable :: "(string \<Rightarrow> float64 option) \<Rightarrow> meta_api \<Rightarrow> metrics_state \<Rightarrow> bool"
  for ParseFloat :: "string \<Rightarrow> float64 option" and M :: meta_api where
  MetricsNew: "metrics_reachable ParseFloat M new_metrics"
| MetricsPass: "metrics_reachable ParseFloat M ms \<Longrightarrow>
    metrics_reachable ParseFloat M (recordPass ParseFloat M model observed prior since now ms)"
| MetricsAttempt: "metrics_reachable ParseFloat M ms \<Longrightarrow>
    metrics_reachable ParseFloat M (recordProvisioningAttempt model action ms)"
| MetricsForget: "metrics_reachable ParseFloat M ms \<Longrightarrow> metrics_reachable ParseFloat M (forgetMetrics model ms)"

text \<open>A series is a metric name with its label values: what Prometheus refuses to collect twice.\<close>

definition series :: "metric_sample \<Rightarrow> string \<times> string list" where
  "series s = (ms_name s, ms_labels s)"

definition of_model :: "modelKey \<Rightarrow> metric_sample \<Rightarrow> bool" where
  "of_model k s \<longleftrightarrow> take 2 (ms_labels s) = [fst k, snd k]"

lemma key_sample_simps [simp]:
  "ms_name (key_sample n v k) = n" "series (key_sample n v k) = (n, [fst k, snd k])"
  "of_model k' (key_sample n v k) \<longleftrightarrow> k' = k"
  "key_sample n v k = key_sample n' v' k' \<longleftrightarrow> n = n' \<and> v = v' \<and> k = k'"
  by (auto simp: key_sample_def series_def of_model_def prod_eq_iff)

lemma set_update_sub: "set (AList.update k v es) \<subseteq> insert (k, v) (set es)"
  by (induction es) auto

section \<open>Collectors with one entry per Model\<close>

text \<open>
  What the five collectors share: a scrape sends the samples of every entry, and the samples of an
  entry carry the Model it is filed under.
\<close>

locale model_collector =
  fixes collect :: "(modelKey \<times> 'e) list \<Rightarrow> metric_sample list"
    and emit :: "modelKey \<Rightarrow> 'e \<Rightarrow> metric_sample list"
    and fits :: "modelKey \<Rightarrow> 'e \<Rightarrow> bool"
  assumes collect_eq: "collect es = concat (map (\<lambda>(k, e). emit k e) es)"
    and emit_of_model: "fits k e \<Longrightarrow> s \<in> set (emit k e) \<Longrightarrow> of_model k s"
begin

definition entries_wf :: "(modelKey \<times> 'e) list \<Rightarrow> bool" where
  "entries_wf es \<longleftrightarrow> distinct (map fst es) \<and> (\<forall>(k, e) \<in> set es. fits k e)"

lemma entries_wf_Nil [simp]: "entries_wf []"
  by (simp add: entries_wf_def)

lemma entries_wf_delete: "entries_wf es \<Longrightarrow> entries_wf (AList.delete k es)"
  by (auto simp: entries_wf_def AList.delete_eq distinct_map_filter)

lemma entries_wf_update: "entries_wf es \<Longrightarrow> fits k e \<Longrightarrow> entries_wf (AList.update k e es)"
  using set_update_sub [of k e es] by (fastforce simp: entries_wf_def distinct_update)

lemma collect_of_model:
  assumes "entries_wf es" and "s \<in> set (collect es)"
  obtains k e where "(k, e) \<in> set es" and "s \<in> set (emit k e)" and "of_model k s"
  using assms emit_of_model unfolding collect_eq entries_wf_def by fastforce

lemma collect_deleted:
  assumes "entries_wf es" and "s \<in> set (collect (AList.delete k es))"
  shows "\<not> of_model k s"
  using entries_wf_delete [OF assms(1)] assms(2)
proof (rule collect_of_model)
  fix k' e
  assume "(k', e) \<in> set (AList.delete k es)" and "of_model k' s"
  then show "\<not> of_model k s"
    by (auto simp: AList.delete_eq of_model_def prod_eq_iff)
qed

lemma distinct_collect:
  "entries_wf es \<Longrightarrow> distinct (map series (collect es)) \<longleftrightarrow> (\<forall>(k, e) \<in> set es. distinct (map series (emit k e)))"
proof (induction es)
  case (Cons x es)
  obtain k e where x: "x = (k, e)"
    by (cases x)
  have wf: "entries_wf es" and fit: "fits k e" and fresh: "k \<notin> fst ` set es"
    using Cons.prems by (auto simp: entries_wf_def x)
  have "series s \<noteq> series t" if "s \<in> set (emit k e)" "t \<in> set (collect es)" for s t
    using wf that(2)
  proof (rule collect_of_model)
    fix k' e'
    assume "(k', e') \<in> set es" and "of_model k' t"
    with fresh emit_of_model [OF fit that(1)] show ?thesis
      by (auto simp: of_model_def series_def prod_eq_iff image_iff)
  qed
  then have "series ` set (emit k e) \<inter> series ` set (collect es) = {}"
    by blast
  moreover have "collect (x # es) = emit k e @ collect es"
    by (simp add: collect_eq x)
  ultimately show ?case
    using Cons.IH [OF wf] by (simp add: x)
qed (simp add: collect_eq)

end

text \<open>
  The alert pairs: an observed gauge and its declared threshold. An entry that does not show sends
  neither of them.
\<close>

locale gauge_pair = model_collector collect emit fits
  for collect :: "(modelKey \<times> 'e) list \<Rightarrow> metric_sample list"
    and emit :: "modelKey \<Rightarrow> 'e \<Rightarrow> metric_sample list"
    and fits :: "modelKey \<Rightarrow> 'e \<Rightarrow> bool" +
  fixes observed declared :: string
    and shown :: "'e \<Rightarrow> bool" and val lim :: "'e \<Rightarrow> metric_value"
  assumes emit_eq: "emit k e =
      (if shown e then [key_sample observed (val e) k, key_sample declared (lim e) k] else [])"
    and names_differ: "observed \<noteq> declared"
begin

lemma distinct_emit: "distinct (map series (emit k e))"
  using names_differ by (simp add: emit_eq)

lemma distinct_pairs: "entries_wf es \<Longrightarrow> distinct (map series (collect es))"
  by (simp add: distinct_collect distinct_emit)

lemma mem_collect: "s \<in> set (collect es) \<longleftrightarrow>
    (\<exists>k e. (k, e) \<in> set es \<and> shown e \<and> (s = key_sample observed (val e) k \<or> s = key_sample declared (lim e) k))"
proof -
  have "s \<in> set (emit k e) \<longleftrightarrow> shown e \<and> (s = key_sample observed (val e) k \<or> s = key_sample declared (lim e) k)" for k e
    by (simp add: emit_eq)
  moreover have "s \<in> set (collect es) \<longleftrightarrow> (\<exists>k e. (k, e) \<in> set es \<and> s \<in> set (emit k e))"
    unfolding collect_eq set_concat set_map by fastforce
  ultimately show ?thesis
    by blast
qed

lemma collect_names: "s \<in> set (collect es) \<Longrightarrow> ms_name s \<in> {observed, declared}"
  by (auto simp: mem_collect)

lemma observed_iff: "key_sample observed v k \<in> set (collect es) \<longleftrightarrow> (\<exists>e. (k, e) \<in> set es \<and> shown e \<and> v = val e)"
  using names_differ unfolding mem_collect key_sample_simps by blast

lemma declared_iff: "key_sample declared v k \<in> set (collect es) \<longleftrightarrow> (\<exists>e. (k, e) \<in> set es \<and> shown e \<and> v = lim e)"
  using names_differ unfolding mem_collect key_sample_simps by blast

lemma paired: "(\<exists>v. key_sample observed v k \<in> set (collect es)) \<longleftrightarrow> (\<exists>v. key_sample declared v k \<in> set (collect es))"
  by (auto simp: observed_iff declared_iff)

end

abbreviation (input) any_entry :: "modelKey \<Rightarrow> 'e \<Rightarrow> bool" where
  "any_entry k e \<equiv> True"

definition age_emit :: "gotime \<Rightarrow> modelKey \<Rightarrow> ageEntry \<Rightarrow> metric_sample list" where
  "age_emit now k e = (if ae_declared e
     then [key_sample ''squall_model_age_seconds'' (VSeconds (time_sub now (ae_since e))) k,
           key_sample ''squall_model_max_lifetime_seconds'' (VSeconds (ae_maxLifetime e)) k] else [])"

definition price_emit :: "modelKey \<Rightarrow> priceEntry \<Rightarrow> metric_sample list" where
  "price_emit k e = (if pe_hasObserved e \<and> pe_hasDeclared e
     then [key_sample ''squall_model_price_per_hour'' (VPrice (pe_observed e)) k,
           key_sample ''squall_model_max_price_per_hour'' (VPrice (pe_declared e)) k] else [])"

definition uncontrolled_seconds :: "gotime \<Rightarrow> uncontrolledEntry \<Rightarrow> duration" where
  "uncontrolled_seconds now e = (if isZero (ue_since e) then 0 else time_sub now (ue_since e))"

definition uncontrolled_emit :: "gotime \<Rightarrow> modelKey \<Rightarrow> uncontrolledEntry \<Rightarrow> metric_sample list" where
  "uncontrolled_emit now k e =
     [key_sample ''squall_model_uncontrolled_seconds'' (VSeconds (uncontrolled_seconds now e)) k,
      key_sample ''squall_model_uncontrolled_timeout_seconds'' (VSeconds (ue_timeout e)) k]"

definition idle_emit :: "gotime \<Rightarrow> modelKey \<Rightarrow> idleEntry \<Rightarrow> metric_sample list" where
  "idle_emit now k e =
     [key_sample ''squall_model_idle_seconds'' (VSeconds (time_sub now (ie_lastRequestAt e))) k,
      key_sample ''squall_model_scale_down_delay_seconds'' (VSeconds (ie_window e)) k]"

lemmas emit_defs = age_emit_def price_emit_def uncontrolled_emit_def uncontrolled_seconds_def idle_emit_def
lemmas collect_defs = age_Collect_def price_Collect_def uncontrolled_Collect_def idle_Collect_def

lemma collect_emits:
  "age_Collect now es = concat (map (\<lambda>(k, e). age_emit now k e) es)"
  "price_Collect ps = concat (map (\<lambda>(k, e). price_emit k e) ps)"
  "uncontrolled_Collect now us = concat (map (\<lambda>(k, e). uncontrolled_emit now k e) us)"
  "idle_Collect now js = concat (map (\<lambda>(k, e). idle_emit now k e) js)"
  by (auto simp: emit_defs collect_defs Let_def intro!: arg_cong [where f = concat])

interpretation age: gauge_pair "age_Collect now" "age_emit now" any_entry
  "''squall_model_age_seconds''" "''squall_model_max_lifetime_seconds''"
  ae_declared "\<lambda>e. VSeconds (time_sub now (ae_since e))" "\<lambda>e. VSeconds (ae_maxLifetime e)" for now
  by unfold_locales (auto simp: collect_emits emit_defs split: if_splits)

interpretation price: gauge_pair price_Collect price_emit any_entry
  "''squall_model_price_per_hour''" "''squall_model_max_price_per_hour''"
  "\<lambda>e. pe_hasObserved e \<and> pe_hasDeclared e" "\<lambda>e. VPrice (pe_observed e)" "\<lambda>e. VPrice (pe_declared e)"
  by unfold_locales (auto simp: collect_emits emit_defs split: if_splits)

interpretation uncontrolled: gauge_pair "uncontrolled_Collect now" "uncontrolled_emit now" any_entry
  "''squall_model_uncontrolled_seconds''" "''squall_model_uncontrolled_timeout_seconds''"
  "\<lambda>e. True" "\<lambda>e. VSeconds (uncontrolled_seconds now e)" "\<lambda>e. VSeconds (ue_timeout e)" for now
  by unfold_locales (auto simp: collect_emits emit_defs split: if_splits)

interpretation idle: gauge_pair "idle_Collect now" "idle_emit now" any_entry
  "''squall_model_idle_seconds''" "''squall_model_scale_down_delay_seconds''"
  "\<lambda>e. True" "\<lambda>e. VSeconds (time_sub now (ie_lastRequestAt e))" "\<lambda>e. VSeconds (ie_window e)" for now
  by unfold_locales (auto simp: collect_emits emit_defs split: if_splits)

text \<open>The operational collector files an observation under the Model it names.\<close>

definition observed_as :: "modelKey \<Rightarrow> ModelObservation \<Rightarrow> bool" where
  "observed_as k obs \<longleftrightarrow> k = (mo_Namespace obs, mo_Name obs)"

definition operational_samples :: "(modelKey \<times> ModelObservation) list \<Rightarrow> metric_sample list" where
  "operational_samples models = concat (map (\<lambda>(k, obs). observation_samples obs) models)"

interpretation operational: model_collector operational_samples "\<lambda>k. observation_samples" observed_as
  by unfold_locales (auto simp: operational_samples_def observation_samples_def observed_as_def of_model_def split: if_splits)

section \<open>Properties\<close>

definition metrics_wf :: "metrics_state \<Rightarrow> bool" where
  "metrics_wf ms \<longleftrightarrow>
     pred_option age.entries_wf (mt_age ms) \<and> pred_option price.entries_wf (mt_price ms) \<and>
     pred_option uncontrolled.entries_wf (mt_uncontrolled ms) \<and> pred_option idle.entries_wf (mt_idle ms) \<and>
     pred_option (\<lambda>c. operational.entries_wf (oc_models c)) (mt_operational ms)"

lemma operational_Collect_models: "operational_Collect c = operational_samples (oc_models c)"
  by (simp add: operational_Collect_def operational_samples_def)

lemma Observe_wf:
  "age.entries_wf es \<Longrightarrow> age.entries_wf (age_Observe ns n r d now es)"
  "price.entries_wf ps \<Longrightarrow> price.entries_wf (price_Observe ns n a b c d' ps)"
  "uncontrolled.entries_wf us \<Longrightarrow> uncontrolled.entries_wf (uncontrolled_Observe ns n s d us)"
  "idle.entries_wf js \<Longrightarrow> idle.entries_wf (idle_Observe ns n t act w js)"
  by (simp_all add: age_Observe_def price_Observe_def uncontrolled_Observe_def idle_Observe_def Let_def
      age.entries_wf_delete age.entries_wf_update price.entries_wf_delete price.entries_wf_update
      uncontrolled.entries_wf_update idle.entries_wf_delete idle.entries_wf_update split: option.split)

lemma oc_models_simps [simp]:
  "oc_models (RecordTransition ns n b t c) = oc_models c"
  "oc_models (RecordProvisioningAttempt ns n b c) = oc_models c"
  "oc_models (RecordProvisioningOutcome ns n b out r d c) = oc_models c"
  "oc_models (operational_Observe obs c) = AList.update (mo_Namespace obs, mo_Name obs) obs (oc_models c)"
  "oc_models (operational_Forget ns n c) = AList.delete (ns, n) (oc_models c)"
  by (simp_all add: RecordTransition_def RecordProvisioningAttempt_def RecordProvisioningOutcome_def
      operational_Observe_def operational_Forget_def)

lemma oc_models_recordOperational [simp]:
  "oc_models (recordOperational M model observed prior now c) =
     AList.update (md_Namespace model, md_Name model) (model_observation M model observed) (oc_models c)"
  by (simp add: recordOperational_def Let_def model_observation_def)

lemma metrics_wf_recordPass:
  "metrics_wf ms \<Longrightarrow> metrics_wf (recordPass ParseFloat M model observed prior since now ms)"
  by (simp add: metrics_wf_def recordPass_def recordMetrics_def recordOperationalMetrics_def Let_def
      option.pred_map o_def)
    (auto elim!: option.pred_mono_strong intro: Observe_wf operational.entries_wf_update
      simp: observed_as_def model_observation_def)

lemma metrics_wf_forget: "metrics_wf ms \<Longrightarrow> metrics_wf (forgetMetrics model ms)"
  by (simp add: metrics_wf_def forgetMetrics_def Let_def option.pred_map o_def age_Forget_def price_Forget_def
      uncontrolled_Forget_def idle_Forget_def)
    (auto elim!: option.pred_mono_strong
      intro: age.entries_wf_delete price.entries_wf_delete uncontrolled.entries_wf_delete idle.entries_wf_delete
        operational.entries_wf_delete)

lemma metrics_wf_attempt: "metrics_wf ms \<Longrightarrow> metrics_wf (recordProvisioningAttempt model action ms)"
  by (simp add: metrics_wf_def recordProvisioningAttempt_def option.pred_map o_def)

lemma reachable_wf: "metrics_reachable ParseFloat M ms \<Longrightarrow> metrics_wf ms"
  by (induction rule: metrics_reachable.induct)
    (simp_all add: metrics_wf_recordPass metrics_wf_forget metrics_wf_attempt, simp add: metrics_wf_def new_metrics_def)

lemma distinct_observation_samples: "distinct (map series (observation_samples obs)) \<longleftrightarrow> distinct (mo_Fleets obs)"
proof -
  have "inj_on (\<lambda>f :: FleetObservation. (''squall_model_fleet_state'',
      [mo_Namespace obs, mo_Name obs, fo_Backend f, fo_Name f, fo_State f])) S" for S
    by (auto simp: inj_on_def)
  then show ?thesis
    by (auto simp: observation_samples_def series_def distinct_map o_def)
qed

lemma operational_names: "s \<in> set (operational_samples es) \<Longrightarrow>
    ms_name s \<in> {''squall_model_phase'', ''squall_model_run_active'', ''squall_model_replicas'',
      ''squall_model_fleet_state'', ''squall_model_provisioning_failure''}"
  by (auto simp: operational_samples_def observation_samples_def split: if_splits)

text \<open>Collectors whose metric names differ never send the same series.\<close>

lemma distinct_series_concat:
  assumes "\<And>N xs. (N, xs) \<in> set ps \<Longrightarrow> ms_name ` set xs \<subseteq> set N" and "distinct (concat (map fst ps))"
  shows "distinct (map series (concat (map snd ps))) \<longleftrightarrow> (\<forall>xs \<in> set (map snd ps). distinct (map series xs))"
  using assms
proof (induction ps)
  case (Cons p ps)
  obtain N xs where p: "p = (N, xs)"
    by (cases p)
  have names: "ms_name s \<in> set N" if "s \<in> set xs" for s
    using Cons.prems(1) [of N xs] that by (auto simp: p)
  have others: "ms_name t \<in> set (concat (map fst ps))" if "t \<in> set (concat (map snd ps))" for t
  proof -
    from that obtain M ys where "(M, ys) \<in> set ps" "t \<in> set ys"
      by auto
    then show ?thesis
      using Cons.prems(1) [of M ys] by force
  qed
  have "set N \<inter> set (concat (map fst ps)) = {}"
    using Cons.prems(2) by (auto simp: p)
  with names others have "series s \<noteq> series t" if "s \<in> set xs" "t \<in> set (concat (map snd ps))" for s t
    using that by (metis Pair_inject disjoint_iff series_def)
  then have "series ` set xs \<inter> series ` set (concat (map snd ps)) = {}"
    by blast
  moreover have "distinct (map series (concat (map snd ps))) \<longleftrightarrow> (\<forall>xs \<in> set (map snd ps). distinct (map series xs))"
    using Cons.prems by (intro Cons.IH) auto
  ultimately show ?case
    by (simp add: p)
qed simp

lemma opt_samples_simps [simp]: "opt_samples f None = []" "opt_samples f (Some c) = f c"
  by (simp_all add: opt_samples_def)

lemma opt_samples_map_iff: "s \<in> set (opt_samples f (map_option g x)) \<longleftrightarrow> (\<exists>c. x = Some c \<and> s \<in> set (f (g c)))"
  by (cases x) auto

lemma opt_samples_names:
  "(\<And>c s. s \<in> set (f c) \<Longrightarrow> ms_name s \<in> N) \<Longrightarrow> ms_name ` set (opt_samples f x) \<subseteq> N"
  by (cases x) auto

definition scrape_parts :: "gotime \<Rightarrow> metrics_state \<Rightarrow> (string list \<times> metric_sample list) list" where
  "scrape_parts now ms =
     [([''squall_model_age_seconds'', ''squall_model_max_lifetime_seconds''], opt_samples (age_Collect now) (mt_age ms)),
      ([''squall_model_price_per_hour'', ''squall_model_max_price_per_hour''], opt_samples price_Collect (mt_price ms)),
      ([''squall_model_uncontrolled_seconds'', ''squall_model_uncontrolled_timeout_seconds''],
       opt_samples (uncontrolled_Collect now) (mt_uncontrolled ms)),
      ([''squall_model_idle_seconds'', ''squall_model_scale_down_delay_seconds''], opt_samples (idle_Collect now) (mt_idle ms)),
      ([''squall_model_phase'', ''squall_model_run_active'', ''squall_model_replicas'', ''squall_model_fleet_state'',
        ''squall_model_provisioning_failure''], opt_samples operational_Collect (mt_operational ms))]"

lemma scrape_concat: "scrape now ms = concat (map snd (scrape_parts now ms))"
  by (simp add: scrape_def scrape_parts_def)

lemma scrape_parts_names: "(N, xs) \<in> set (scrape_parts now ms) \<Longrightarrow> ms_name ` set xs \<subseteq> set N"
proof -
  have "s \<in> set (operational_Collect c) \<Longrightarrow> ms_name s \<in> {''squall_model_phase'', ''squall_model_run_active'',
      ''squall_model_replicas'', ''squall_model_fleet_state'', ''squall_model_provisioning_failure''}" for s c
    unfolding operational_Collect_models by (rule operational_names)
  note names = opt_samples_names [where f = "age_Collect now" and x = "mt_age ms", OF age.collect_names]
    opt_samples_names [where f = "price_Collect" and x = "mt_price ms", OF price.collect_names]
    opt_samples_names [where f = "uncontrolled_Collect now" and x = "mt_uncontrolled ms", OF uncontrolled.collect_names]
    opt_samples_names [where f = "idle_Collect now" and x = "mt_idle ms", OF idle.collect_names]
    opt_samples_names [where f = operational_Collect and x = "mt_operational ms", OF this]
  assume "(N, xs) \<in> set (scrape_parts now ms)"
  then show ?thesis
    using names by (simp add: scrape_parts_def) (elim disjE conjE; simp)
qed

lemma distinct_opt_samples:
  "pred_option P x \<Longrightarrow> (\<And>c. P c \<Longrightarrow> distinct (map series (f c))) \<Longrightarrow> distinct (map series (opt_samples f x))"
  by (cases x) auto

lemma distinct_scrape:
  assumes "metrics_wf ms"
  shows "distinct (map series (scrape now ms)) \<longleftrightarrow>
    pred_option (\<lambda>c. \<forall>(k, obs) \<in> set (oc_models c). distinct (mo_Fleets obs)) (mt_operational ms)"
proof -
  have "distinct (map series (opt_samples (age_Collect now) (mt_age ms)))"
    "distinct (map series (opt_samples price_Collect (mt_price ms)))"
    "distinct (map series (opt_samples (uncontrolled_Collect now) (mt_uncontrolled ms)))"
    "distinct (map series (opt_samples (idle_Collect now) (mt_idle ms)))"
    using assms unfolding metrics_wf_def
    by (blast intro: distinct_opt_samples age.distinct_pairs price.distinct_pairs uncontrolled.distinct_pairs
        idle.distinct_pairs)+
  moreover have "distinct (concat (map fst (scrape_parts now ms)))"
    by (simp add: scrape_parts_def)
  ultimately have "distinct (map series (scrape now ms)) \<longleftrightarrow>
      distinct (map series (opt_samples operational_Collect (mt_operational ms)))"
    unfolding scrape_concat distinct_series_concat [OF scrape_parts_names]
    by (simp add: distinct_series_concat [OF scrape_parts_names]) (simp add: scrape_parts_def)
  also have "\<dots> \<longleftrightarrow> pred_option (\<lambda>c. \<forall>(k, obs) \<in> set (oc_models c). distinct (mo_Fleets obs)) (mt_operational ms)"
    using assms by (cases "mt_operational ms")
      (auto simp: metrics_wf_def operational_Collect_models operational.distinct_collect distinct_observation_samples)
  finally show ?thesis .
qed

text \<open>
  C32. No series is sent twice, the condition Prometheus puts on a whole scrape: whatever passes,
  provisioning attempts and teardowns came before, a scrape of the controller repeats no series
  exactly when no Model's fleet list has the same entry twice. The witness shows what that condition is
  worth: \<open>spec.placement.backends\<close> may name a backend twice, preflight then reports its fleet twice,
  and one such Model makes the scrape invalid.
\<close>

theorem scrape_series_unique_iff:
  assumes "metrics_reachable ParseFloat M ms"
  shows "distinct (map series (scrape now ms)) \<longleftrightarrow>
    pred_option (\<lambda>c. \<forall>(k, obs) \<in> set (oc_models c). distinct (mo_Fleets obs)) (mt_operational ms)"
  using assms by (intro distinct_scrape reachable_wf)

text \<open>A Model that names its backend twice, with the fleets preflight reports for it.\<close>

definition admitting_client :: "unit preflight_client" where
  "admitting_client = \<lparr>pf_BackendConfigured = \<lambda>b s. (Inr True, s), pf_HasFleetFor = \<lambda>b s. (Inr True, s),
     pf_EnsureFleet = \<lambda>f s. (None, s)\<rparr>"

definition repeated_model :: Model where
  "repeated_model = sample_model\<lparr>
     md_Spec := sample_spec\<lparr>sp_Placement := \<lparr>pl_Backends = [''aws'', ''aws''], pl_Regions = [], pl_MaxPricePerHour = None\<rparr>\<rparr>,
     md_Status := sample_status\<lparr>st_Fleet := snd (snd (fst (preflight admitting_client [''aws'', ''aws''] ())))\<rparr>\<rparr>"

abbreviation repeated_metrics :: metrics_state where
  "repeated_metrics \<equiv> recordPass (\<lambda>p. None) (ref_meta 0) repeated_model
     \<lparr>ob_Run = None, ob_ProvisioningFailure = None, ob_Ready = False, ob_Activity = None\<rparr> sample_status None Hour new_metrics"

theorem scrape_series_unique_iff_witness:
  "\<not> distinct (map series (scrape Hour repeated_metrics)) \<and>
   distinct (map series (scrape Hour (forgetMetrics repeated_model repeated_metrics)))"
proof -
  let ?ok = "pred_option (\<lambda>c. \<forall>(k, obs) \<in> set (oc_models c). distinct (mo_Fleets obs))"
  have reach: "metrics_reachable (\<lambda>p. None) (ref_meta 0) repeated_metrics"
    by (intro MetricsPass MetricsNew)
  have ops: "mt_operational repeated_metrics = map_option (recordOperational (ref_meta 0) repeated_model
      \<lparr>ob_Run = None, ob_ProvisioningFailure = None, ob_Ready = False, ob_Activity = None\<rparr> sample_status Hour)
        (mt_operational new_metrics)"
    by (simp add: recordPass_def recordOperationalMetrics_def recordMetrics_def Let_def)
  have "\<not> ?ok (mt_operational repeated_metrics)"
    unfolding ops by (simp add: new_metrics_def model_observation_def repeated_model_def preflight_def admitting_client_def)
  moreover have "?ok (mt_operational (forgetMetrics repeated_model repeated_metrics))"
    by (simp add: forgetMetrics_def Let_def ops) (simp add: new_metrics_def)
  ultimately show ?thesis
    using scrape_series_unique_iff [OF reach, of Hour]
      scrape_series_unique_iff [OF MetricsForget [OF reach, of repeated_model], of Hour] by blast
qed

text \<open>The observed gauges the alert rules read, each with its declared threshold.\<close>

definition alert_pairs :: "(string \<times> string) list" where
  "alert_pairs =
     [(''squall_model_age_seconds'', ''squall_model_max_lifetime_seconds''),
      (''squall_model_price_per_hour'', ''squall_model_max_price_per_hour''),
      (''squall_model_uncontrolled_seconds'', ''squall_model_uncontrolled_timeout_seconds''),
      (''squall_model_idle_seconds'', ''squall_model_scale_down_delay_seconds'')]"

lemma registered_gauges:
  "list_all (\<lambda>(n, d). map_of registered n = Some model_labels \<and> map_of registered d = Some model_labels) alert_pairs"
  by code_simp

lemma registered_operational:
  "map_of registered ''squall_model_phase'' = Some (model_labels @ [''phase''])"
  "map_of registered ''squall_model_run_active'' = Some model_labels"
  "map_of registered ''squall_model_replicas'' = Some model_labels"
  "map_of registered ''squall_model_fleet_state'' = Some (model_labels @ [''backend'', ''fleet'', ''state''])"
  "map_of registered ''squall_model_provisioning_failure'' = Some (model_labels @ [''backend'', ''reason''])"
  "map_of registered ''squall_model_transitions_total'' = Some (model_labels @ [''backend'', ''transition''])"
  "map_of registered ''squall_model_provisioning_attempts_total'' = Some (model_labels @ [''backend''])"
  "map_of registered ''squall_model_provisioning_outcomes_total'' = Some (model_labels @ [''backend'', ''outcome'', ''reason''])"
  "map_of registered ''squall_model_provisioning_duration_seconds'' = Some (model_labels @ [''backend'', ''outcome''])"
  by code_simp+

lemma key_sample_described: "map_of registered n = Some model_labels \<Longrightarrow> described (series (key_sample n v k))"
  by (simp add: described_def)

lemma observation_described: "s \<in> set (observation_samples obs) \<Longrightarrow> described (series s)"
  by (auto simp: observation_samples_def series_def described_def registered_operational split: if_splits)

lemma counter_described: "x \<in> set (counter_labels c) \<Longrightarrow> described x"
  by (cases c) (auto simp: described_def registered_operational)

lemma opt_samples_iff: "s \<in> set (opt_samples f x) \<longleftrightarrow> (\<exists>c. x = Some c \<and> s \<in> set (f c))"
  by (cases x) auto

lemma scrape_described: "s \<in> set (scrape now ms) \<Longrightarrow> described (series s)"
  using registered_gauges
  by (auto simp: scrape_def opt_samples_iff alert_pairs_def age.mem_collect price.mem_collect uncontrolled.mem_collect
      idle.mem_collect operational_Collect_def intro: key_sample_described observation_described)

text \<open>Every series the controller can export: the gauges of a scrape and what the counter calls name.\<close>

definition exported :: "gotime \<Rightarrow> metrics_state \<Rightarrow> (string \<times> string list) list" where
  "exported now ms = map series (scrape now ms) @
     (case mt_operational ms of None \<Rightarrow> [] | Some c \<Rightarrow> concat (map counter_labels (oc_calls c)))"

text \<open>
  C35. The exported series have the shape that was registered: every gauge of a scrape and every
  call on a counter or histogram names a registered metric and passes as many label values as its
  descriptor has labels. (The client library panics in the counter calls otherwise, and the scrape fails.)
\<close>

theorem exported_series_registered:
  assumes "x \<in> set (exported now ms)"
  shows "described x"
  using assms by (auto simp: exported_def scrape_described counter_described split: option.splits)

theorem exported_series_registered_witness:
  "described (''squall_model_transitions_total'', [''a'', ''qwen'', ''_multiple'', ''delete''])"
proof -
  have "(''squall_model_transitions_total'', [''a'', ''qwen'', ''_multiple'', ''delete''])
      \<in> set (exported Hour (forgetMetrics repeated_model new_metrics))"
    by (simp add: exported_def forgetMetrics_def Let_def new_metrics_def operational_Forget_def RecordTransition_def
        metricBackend_def repeated_model_def sample_model_def)
  from exported_series_registered [OF this] show ?thesis .
qed

text \<open>
  A deleted Model leaves nothing behind: after the teardown's last step no gauge of any collector
  carries the Model's namespace and name.
\<close>

theorem forgotten_model_has_no_series:
  assumes "metrics_reachable ParseFloat M ms" and "s \<in> set (scrape now (forgetMetrics model ms))"
  shows "\<not> of_model (md_Namespace model, md_Name model) s"
  using assms(2) reachable_wf [OF assms(1)]
  by (auto simp: scrape_def forgetMetrics_def Let_def metrics_wf_def age_Forget_def price_Forget_def
      uncontrolled_Forget_def idle_Forget_def operational_Collect_models opt_samples_map_iff
      dest: age.collect_deleted price.collect_deleted uncontrolled.collect_deleted
        idle.collect_deleted operational.collect_deleted)

theorem forgotten_model_has_no_series_witness:
  "(\<exists>s \<in> set (scrape Hour repeated_metrics). of_model (''a'', ''qwen'') s) \<and>
   filter (of_model (''a'', ''qwen'')) (scrape Hour (forgetMetrics repeated_model repeated_metrics)) = []"
proof
  have reach: "metrics_reachable (\<lambda>p. None) (ref_meta 0) repeated_metrics"
    by (intro MetricsPass MetricsNew)
  show "filter (of_model (''a'', ''qwen'')) (scrape Hour (forgetMetrics repeated_model repeated_metrics)) = []"
    using forgotten_model_has_no_series [OF reach, of _ Hour repeated_model]
    by (simp add: filter_empty_conv repeated_model_def sample_model_def)
  have "mt_uncontrolled repeated_metrics = Some [((''a'', ''qwen''), \<lparr>ue_since = 0, ue_timeout = uncontrolledTimeoutFor (md_Spec repeated_model)\<rparr>)]"
    by (simp add: recordPass_def recordMetrics_def recordOperationalMetrics_def Let_def new_metrics_def uncontrolled_Observe_def
        repeated_model_def sample_model_def)
  then show "\<exists>s \<in> set (scrape Hour repeated_metrics). of_model (''a'', ''qwen'') s"
    by (simp add: scrape_def uncontrolled_Collect_def Let_def)
qed

lemma distinct_concat_unique:
  assumes "distinct (concat (map fst ps))" and "(N, xs) \<in> set ps" and "(N', ys) \<in> set ps" and "n \<in> set N" and "n \<in> set N'"
  shows "xs = ys"
  using assms
proof (induction ps)
  case (Cons p ps)
  have "n \<notin> set N \<or> n \<notin> set (fst p)" if "(N, zs) \<in> set ps" for N zs
    using Cons.prems(1) that by fastforce
  with Cons show ?case
    by auto
qed simp

lemma sample_in_part:
  assumes "(N, xs) \<in> set (scrape_parts now ms)" and "n \<in> set N"
  shows "key_sample n v k \<in> set (scrape now ms) \<longleftrightarrow> key_sample n v k \<in> set xs"
proof
  assume "key_sample n v k \<in> set (scrape now ms)"
  then obtain N' ys where part: "(N', ys) \<in> set (scrape_parts now ms)" and mem: "key_sample n v k \<in> set ys"
    unfolding scrape_concat by auto
  then have "n \<in> set N'"
    using scrape_parts_names [OF part] by force
  then have "ys = xs"
    using distinct_concat_unique [OF _ part assms(1) _ assms(2)] by (simp add: scrape_parts_def)
  with mem show "key_sample n v k \<in> set xs"
    by simp
qed (use assms(1) in \<open>force simp: scrape_concat\<close>)

lemma opt_samples_ex: "(\<exists>v. g v \<in> set (opt_samples f x)) \<longleftrightarrow> (\<exists>c. x = Some c \<and> (\<exists>v. g v \<in> set (f c)))"
  by (cases x) auto

text \<open>
  The alert rules compare an observed gauge with its declared threshold: a scrape has both gauges of a
  pair for a Model or neither of them, so no rule ever compares against an absent or zero threshold.
\<close>

theorem alert_pairs_complete:
  assumes "(observed, declared) \<in> set alert_pairs"
  shows "(\<exists>v. key_sample observed v k \<in> set (scrape now ms)) \<longleftrightarrow> (\<exists>v. key_sample declared v k \<in> set (scrape now ms))"
proof -
  have part_mem: "(fst (scrape_parts now ms ! i), snd (scrape_parts now ms ! i)) \<in> set (scrape_parts now ms)" if "i < 5" for i
  proof -
    have "length (scrape_parts now ms) = 5"
      by (simp add: scrape_parts_def)
    with that show ?thesis
      by simp
  qed
  have pair: ?thesis if "(N, xs) \<in> set (scrape_parts now ms)" "observed \<in> set N" "declared \<in> set N"
    "(\<exists>v. key_sample observed v k \<in> set xs) \<longleftrightarrow> (\<exists>v. key_sample declared v k \<in> set xs)" for N xs
    using that by (simp add: sample_in_part)
  have "length alert_pairs = 4"
    by (simp add: alert_pairs_def)
  with assms obtain i where "i < 4" and i: "(observed, declared) = alert_pairs ! i"
    by (metis in_set_conv_nth)
  then consider (age) "i = 0" | (price) "i = 1" | (unc) "i = 2" | (idle) "i = 3"
    by linarith
  then show ?thesis
  proof cases
    case age
    with i show ?thesis
      by (intro pair [OF part_mem [of 0]])
        (simp_all add: alert_pairs_def scrape_parts_def opt_samples_ex age.paired)
  next
    case price
    with i show ?thesis
      by (intro pair [OF part_mem [of 1]])
        (simp_all add: alert_pairs_def scrape_parts_def opt_samples_ex price.paired)
  next
    case unc
    with i show ?thesis
      by (intro pair [OF part_mem [of 2]])
        (simp_all add: alert_pairs_def scrape_parts_def opt_samples_ex uncontrolled.paired)
  next
    case idle
    with i show ?thesis
      by (intro pair [OF part_mem [of 3]])
        (simp_all add: alert_pairs_def scrape_parts_def opt_samples_ex idle.paired)
  qed
qed

section \<open>The age of a run\<close>

text \<open>
  The reference for \<open>age_Observe\<close>: of a Model's own observations, oldest first, the last one counts, and
  its age runs from the first of the unbroken run of observations with the same run id that ends there.
\<close>

definition age_reference :: "(string \<times> duration \<times> gotime) list \<Rightarrow> ageEntry option" where
  "age_reference h =
     (case rev h of
        [] \<Rightarrow> None
      | (r, d, t) # older \<Rightarrow>
          if r = [] then None
          else Some \<lparr>ae_runID = r, ae_since = snd (snd (last ((r, d, t) # takeWhile (\<lambda>x. fst x = r) older))),
                     ae_maxLifetime = d, ae_declared = 0 < d\<rparr>)"

definition age_observations :: "(modelKey \<times> string \<times> duration \<times> gotime) list \<Rightarrow> (modelKey \<times> ageEntry) list" where
  "age_observations h = fold (\<lambda>(k, r, d, t). age_Observe (fst k) (snd k) r d t) h []"

definition observations_of :: "modelKey \<Rightarrow> (modelKey \<times> 'a) list \<Rightarrow> 'a list" where
  "observations_of k h = map snd (filter (\<lambda>x. fst x = k) h)"

lemma age_Observe_lookup:
  "map_of (age_Observe ns n r d t es) k =
     (if k \<noteq> (ns, n) then map_of es k
      else if r = [] then None
      else Some \<lparr>ae_runID = r,
        ae_since = (case map_of es k of Some e \<Rightarrow> if ae_runID e = r then ae_since e else t | None \<Rightarrow> t),
        ae_maxLifetime = d, ae_declared = 0 < d\<rparr>)"
  by (auto simp: age_Observe_def Let_def update_conv' delete_conv' split: option.splits)

lemma age_reference_snoc:
  "age_reference (h @ [(r, d, t)]) =
     (if r = [] then None
      else Some \<lparr>ae_runID = r,
        ae_since = (case age_reference h of Some e \<Rightarrow> if ae_runID e = r then ae_since e else t | None \<Rightarrow> t),
        ae_maxLifetime = d, ae_declared = 0 < d\<rparr>)"
  by (cases "rev h") (auto simp: age_reference_def)

text \<open>
  C33. However the observations of several Models interleave, each Model's age entry is the reference's:
  the clock of a run starts at its first observation, restarts at every change of the run id, is not
  moved by observing the same run again or by another Model, and an observation without a run clears it.
\<close>

theorem age_matches_reference:
  "map_of (age_observations h) k = age_reference (observations_of k h)"
proof (induction h rule: rev_induct)
  case (snoc x h)
  obtain k' r d t where x: "x = (k', r, d, t)"
    by (cases x)
  have "map_of (age_observations (h @ [x])) k = map_of (age_Observe (fst k') (snd k') r d t (age_observations h)) k"
    by (simp add: age_observations_def x)
  with snoc show ?case
    by (auto simp: age_Observe_lookup observations_of_def x age_reference_snoc)
qed (simp add: age_observations_def observations_of_def age_reference_def)

end
