(* ===== verification/Squall_Price.thy ===== *)
theory Squall_Price
  imports Squall_API Go_Encoding
begin

text \<open>
  The text form of a price ceiling (\<open>api/squall/v1alpha1/price.go\<close>): it is read from a JSON number
  or string without changing its spelling, and always written as a string.
\<close>

definition Price_UnmarshalJSON :: "string \<Rightarrow> string \<Rightarrow> string" where
  "Price_UnmarshalJSON p b =
     (let s = TrimSpace b
      in if s = ''null'' then p
         else if HasPrefix s [quote_char]
         then (case json_Unmarshal_string b of Some unquoted \<Rightarrow> unquoted | None \<Rightarrow> s)
         else s)"

definition Price_MarshalJSON :: "string \<Rightarrow> string" where
  "Price_MarshalJSON p = json_Marshal_string p"

lemma dropWhile_hd: "s = [] \<or> \<not> P (hd s) \<Longrightarrow> dropWhile P s = s"
  by (cases s) auto

lemma TrimSpace_id: "\<not> is_space (hd s) \<Longrightarrow> \<not> is_space (last s) \<Longrightarrow> TrimSpace s = s"
  by (simp add: TrimSpace_def dropWhile_hd hd_rev)

lemma TrimSpace_Marshal: "TrimSpace (Price_MarshalJSON p) = Price_MarshalJSON p"
  by (intro TrimSpace_id) (simp_all add: Price_MarshalJSON_def json_Marshal_string_def is_space_def)

lemma Unmarshal_Marshal:
  assumes "ascii p"
  shows "Price_UnmarshalJSON q (Price_MarshalJSON p) = p"
proof -
  have "Price_MarshalJSON p \<noteq> ''null''" "HasPrefix (Price_MarshalJSON p) [quote_char]"
    by (simp_all add: Price_MarshalJSON_def json_Marshal_string_def HasPrefix_def)
  with assms show ?thesis
    unfolding Price_UnmarshalJSON_def Let_def TrimSpace_Marshal
    by (simp add: Price_MarshalJSON_def json_string_roundtrip)
qed

text \<open>The text of a JSON number.\<close>

definition number_text :: "string \<Rightarrow> bool" where
  "number_text s \<longleftrightarrow> s \<noteq> [] \<and> list_all (\<lambda>c. c \<in> set ''0123456789+-.eE'') s"

lemma number_char:
  assumes "c \<in> set ''0123456789+-.eE''"
  shows "\<not> is_space c" "c \<noteq> quote_char" "c \<noteq> CHR ''n''" "of_char c < (128 :: nat)"
  using assms by (auto simp: is_space_def)

lemma Unmarshal_number:
  assumes "number_text p"
  shows "Price_UnmarshalJSON q p = p"
proof -
  obtain c s where p: "p = c # s" and "c \<in> set ''0123456789+-.eE''"
    using assms by (cases p) (auto simp: number_text_def)
  moreover have "last p \<in> set ''0123456789+-.eE''"
    using assms unfolding number_text_def list_all_iff by (blast intro: last_in_set)
  ultimately have "TrimSpace p = p" "c \<noteq> CHR ''n''" "c \<noteq> quote_char"
    using number_char by (auto intro!: TrimSpace_id simp del: set_simps list.set)
  then show ?thesis
    by (simp add: Price_UnmarshalJSON_def Let_def HasPrefix_def p)
qed

text \<open>
  C34. A price keeps its spelling: whatever text a Model's price is, storing the Model writes a JSON
  string that is read back as that text, and a bare JSON number is read as exactly the characters
  written; so the number and its quoted form are the same price, \<open>0.80\<close> does not become \<open>0.8\<close>, and
  further trips through the API server change nothing.
\<close>

theorem price_spelling_kept:
  assumes "ascii p"
  shows "Price_UnmarshalJSON q (Price_MarshalJSON p) = p \<and>
    (number_text p \<longrightarrow> Price_UnmarshalJSON q p = p \<and>
       Price_UnmarshalJSON q (Price_MarshalJSON (Price_UnmarshalJSON r p)) = p)"
  using Unmarshal_Marshal [OF assms] Unmarshal_number by simp

theorem price_spelling_kept_witness:
  "Price_UnmarshalJSON [] (Price_MarshalJSON (Price_UnmarshalJSON [] ''0.80'')) = ''0.80''"
  using price_spelling_kept [of "''0.80''" "[]" "[]"] by (simp add: ascii_def number_text_def)

end
