(* ===== verification/Go_Flags.thy ===== *)
theory Go_Flags
  imports Squall_Prelude
begin

text \<open>
  Go's \<open>flag\<close> package, as far as \<open>cmd/controller/main.go\<close> uses it: \<open>flag.Parse\<close> over the process
  arguments with string and boolean flags, stopping at the first argument that is not a flag. What the
  flags set is the state \<open>'c\<close>.
\<close>

definition ParseBool :: "string \<Rightarrow> bool option" where
  "ParseBool s =
     (if s \<in> {''1'', ''t'', ''T'', ''true'', ''TRUE'', ''True''} then Some True
      else if s \<in> {''0'', ''f'', ''F'', ''false'', ''FALSE'', ''False''} then Some False
      else None)"

record 'c flag_def =
  fd_bool :: bool
  fd_set :: "string \<Rightarrow> 'c \<Rightarrow> 'c option"

datatype flag_exit = FlagHelp | FlagError

text \<open>\<open>--name=value\<close> without its dashes, cut at the first equals sign after the first character.\<close>

definition cut_value :: "string \<Rightarrow> string \<times> string option" where
  "cut_value s =
     (let name = take 1 s @ takeWhile (\<lambda>c. c \<noteq> CHR ''='') (drop 1 s)
      in (name, if name = s then None else Some (drop (length name + 1) s)))"

text \<open>The argument's name part, or that it is no flag; \<open>Some None\<close> is the terminator.\<close>

definition flag_name :: "string \<Rightarrow> string option option" where
  "flag_name s =
     (if length s < 2 \<or> hd s \<noteq> CHR ''-'' then None
      else if s ! 1 = CHR ''-'' then (if length s = 2 then Some None else Some (Some (drop 2 s)))
      else Some (Some (drop 1 s)))"

function flag_Parse :: "(string \<Rightarrow> 'c flag_def option) \<Rightarrow> 'c \<Rightarrow> string list \<Rightarrow> flag_exit + 'c \<times> string list" where
  "flag_Parse formal c [] = Inr (c, [])"
| "flag_Parse formal c (s # args) =
     (case flag_name s of
        None \<Rightarrow> Inr (c, s # args)
      | Some None \<Rightarrow> Inr (c, args)
      | Some (Some n) \<Rightarrow>
          if n = [] \<or> hd n = CHR ''-'' \<or> hd n = CHR ''='' then Inl FlagError
          else let (name, value) = cut_value n
               in case formal name of
                    None \<Rightarrow> Inl (if name = ''help'' \<or> name = ''h'' then FlagHelp else FlagError)
                  | Some d \<Rightarrow>
                      if fd_bool d
                      then (case fd_set d (case value of None \<Rightarrow> ''true'' | Some v \<Rightarrow> v) c of
                              None \<Rightarrow> Inl FlagError | Some c' \<Rightarrow> flag_Parse formal c' args)
                      else (case value of
                              Some v \<Rightarrow>
                                (case fd_set d v c of None \<Rightarrow> Inl FlagError | Some c' \<Rightarrow> flag_Parse formal c' args)
                            | None \<Rightarrow>
                                if args = [] then Inl FlagError
                                else (case fd_set d (hd args) c of
                                        None \<Rightarrow> Inl FlagError | Some c' \<Rightarrow> flag_Parse formal c' (tl args))))"
  by pat_completeness auto
termination
  by (relation "measure (\<lambda>(_, _, args). length args)") auto

text \<open>A flag that is written with its value reads exactly that value, whatever it contains.\<close>

definition plain_name :: "string \<Rightarrow> bool" where
  "plain_name n \<longleftrightarrow> n \<noteq> [] \<and> hd n \<noteq> CHR ''-'' \<and> CHR ''='' \<notin> set n"

lemma cut_value_eq: "plain_name n \<Longrightarrow> cut_value (n @ CHR ''='' # v) = (n, Some v)"
  by (cases n) (auto simp: cut_value_def plain_name_def takeWhile_append Let_def)

lemma flag_Parse_value:
  assumes "plain_name n" and "formal n = Some d"
  shows "flag_Parse formal c ((''--'' @ n @ ''='' @ v) # args) =
    (case fd_set d v c of None \<Rightarrow> Inl FlagError | Some c' \<Rightarrow> flag_Parse formal c' args)"
proof -
  have "flag_name (''--'' @ n @ ''='' @ v) = Some (Some (n @ CHR ''='' # v))"
    using assms(1) by (simp add: flag_name_def plain_name_def)
  moreover have "hd (n @ CHR ''='' # v) = hd n" "n \<noteq> []" "hd n \<noteq> CHR ''-''" "hd n \<noteq> CHR ''=''"
    using assms(1) by (cases n; auto simp: plain_name_def)+
  ultimately show ?thesis
    using assms(2) cut_value_eq [OF assms(1)] by (simp split: option.split)
qed

lemma flag_Parse_unknown:
  assumes "plain_name n" and "formal n = None" and "n \<noteq> ''help''" and "n \<noteq> ''h''"
  shows "flag_Parse formal c ((''--'' @ n @ ''='' @ v) # args) = Inl FlagError"
proof -
  have "flag_name (''--'' @ n @ ''='' @ v) = Some (Some (n @ CHR ''='' # v))"
    using assms(1) by (simp add: flag_name_def plain_name_def)
  with assms cut_value_eq [OF assms(1)] show ?thesis
    by simp
qed

end
