(* ===== verification/Squall_Main.thy ===== *)
theory Squall_Main
  imports Squall_Passes Squall_Reaper Proxy_Main Dstack_Client Go_Flags
begin

text \<open>
  The squall-controller binary (\<open>cmd/controller/main.go\<close>): its flags and how they are parsed, the options
  of its manager and metrics server, the settings it reads from the environment, and the order of its start with every early
  exit. The manager of controller-runtime is a parameter: what each call on it returned.
\<close>

section \<open>Flags and the metrics server\<close>

record controller_flags =
  cf_metricsAddr :: string
  cf_probeAddr :: string
  cf_enableLeaderElection :: bool
  cf_secureMetrics :: bool
  cf_metricsCertPath :: string
  cf_metricsCertName :: string
  cf_metricsCertKey :: string
  cf_enableHTTP2 :: bool

definition default_flags :: controller_flags where
  "default_flags =
     \<lparr>cf_metricsAddr = ''0'', cf_probeAddr = '':8081'', cf_enableLeaderElection = False, cf_secureMetrics = True,
      cf_metricsCertPath = [], cf_metricsCertName = ''tls.crt'', cf_metricsCertKey = ''tls.key'', cf_enableHTTP2 = False\<rparr>"

text \<open>
  The flags as \<open>main\<close> registers them; the logger registers its own beside them (\<open>opts.BindFlags\<close>), which are
  the parameter \<open>zap\<close>: for a name, whether it is boolean and which values it accepts.
\<close>

abbreviation string_flag :: "(string \<Rightarrow> 'c \<Rightarrow> 'c) \<Rightarrow> 'c flag_def option" where
  "string_flag put \<equiv> Some \<lparr>fd_bool = False, fd_set = \<lambda>v c. Some (put v c)\<rparr>"

abbreviation bool_flag :: "(bool \<Rightarrow> 'c \<Rightarrow> 'c) \<Rightarrow> 'c flag_def option" where
  "bool_flag put \<equiv> Some \<lparr>fd_bool = True, fd_set = \<lambda>v c. map_option (\<lambda>b. put b c) (ParseBool v)\<rparr>"

definition controller_formal ::
  "(string \<Rightarrow> (bool \<times> (string \<Rightarrow> bool)) option) \<Rightarrow> string \<Rightarrow> controller_flags flag_def option" where
  "controller_formal zap n =
     (if n = ''metrics-bind-address'' then string_flag (\<lambda>v c. c\<lparr>cf_metricsAddr := v\<rparr>)
      else if n = ''health-probe-bind-address'' then string_flag (\<lambda>v c. c\<lparr>cf_probeAddr := v\<rparr>)
      else if n = ''leader-elect'' then bool_flag (\<lambda>b c. c\<lparr>cf_enableLeaderElection := b\<rparr>)
      else if n = ''metrics-secure'' then bool_flag (\<lambda>b c. c\<lparr>cf_secureMetrics := b\<rparr>)
      else if n = ''metrics-cert-path'' then string_flag (\<lambda>v c. c\<lparr>cf_metricsCertPath := v\<rparr>)
      else if n = ''metrics-cert-name'' then string_flag (\<lambda>v c. c\<lparr>cf_metricsCertName := v\<rparr>)
      else if n = ''metrics-cert-key'' then string_flag (\<lambda>v c. c\<lparr>cf_metricsCertKey := v\<rparr>)
      else if n = ''enable-http2'' then bool_flag (\<lambda>b c. c\<lparr>cf_enableHTTP2 := b\<rparr>)
      else map_option (\<lambda>(b, accepts). \<lparr>fd_bool = b, fd_set = \<lambda>v c. if accepts v then Some c else None\<rparr>) (zap n))"

record tls_config =
  tc_NextProtos :: "string list"
  tc_WatchedCertificate :: bool

datatype tls_option = DisableHTTP2 | WatchCertificate

fun apply_tls_option :: "tls_option \<Rightarrow> tls_config \<Rightarrow> tls_config" where
  "apply_tls_option DisableHTTP2 c = c\<lparr>tc_NextProtos := [''http/1.1'']\<rparr>"
| "apply_tls_option WatchCertificate c = c\<lparr>tc_WatchedCertificate := True\<rparr>"

record metricsserver_options =
  mso_BindAddress :: string
  mso_SecureServing :: bool
  mso_TLSOpts :: "tls_option list"
  mso_Authenticated :: bool

definition metrics_server_options :: "controller_flags \<Rightarrow> metricsserver_options" where
  "metrics_server_options f =
     \<lparr>mso_BindAddress = cf_metricsAddr f, mso_SecureServing = cf_secureMetrics f,
      mso_TLSOpts = (if \<not> cf_enableHTTP2 f then [DisableHTTP2] else []) @
        (if 0 < length (cf_metricsCertPath f) then [WatchCertificate] else []),
      mso_Authenticated = cf_secureMetrics f\<rparr>"

text \<open>The manager: its cache never holds Secrets, and the lease it elects its leader with.\<close>

record manager_options =
  mo_Metrics :: metricsserver_options
  mo_DisableCacheFor :: "string list"
  mo_HealthProbeBindAddress :: string
  mo_LeaderElection :: bool
  mo_LeaderElectionID :: string

definition manager_options_for :: "controller_flags \<Rightarrow> manager_options" where
  "manager_options_for f =
     \<lparr>mo_Metrics = metrics_server_options f, mo_DisableCacheFor = [''Secret''], mo_HealthProbeBindAddress = cf_probeAddr f,
      mo_LeaderElection = cf_enableLeaderElection f, mo_LeaderElectionID = ''f257cf47.ackstorm.ai''\<rparr>"

section \<open>Settings\<close>

record controller_settings =
  cs_DstackURL :: string
  cs_Client :: HTTPClient
  cs_ClientTimeout :: duration
  cs_ProxyNamespace :: string
  cs_ProxyName :: string
  cs_IdleRequeueInterval :: duration
  cs_ServedBaseURL :: string
  cs_ServedToken :: string

definition dstack_project :: "environ \<Rightarrow> string" where
  "dstack_project getenv =
     (let p = getenv ''SQUALL_DSTACK_PROJECT'' in if p = [] then ''main'' else p)"

definition controller_config :: "(string \<Rightarrow> duration option) \<Rightarrow> environ \<Rightarrow> controller_settings" where
  "controller_config ParseDuration getenv =
     \<lparr>cs_DstackURL = getenv ''SQUALL_DSTACK_URL'',
      cs_Client = \<lparr>hc_project = dstack_project getenv, hc_token = getenv ''SQUALL_DSTACK_TOKEN''\<rparr>,
      cs_ClientTimeout = 30 * Second,
      cs_ProxyNamespace = getenv ''SQUALL_PROXY_SERVICE_NAMESPACE'',
      cs_ProxyName = getenv ''SQUALL_PROXY_SERVICE_NAME'',
      cs_IdleRequeueInterval = (case ParseDuration (getenv ''SQUALL_IDLE_REQUEUE_INTERVAL'') of None \<Rightarrow> 0 | Some d \<Rightarrow> d),
      cs_ServedBaseURL = getenv ''SQUALL_DSTACK_URL'',
      cs_ServedToken = getenv ''SQUALL_DSTACK_TOKEN''\<rparr>"

text \<open>The reconciler \<open>main\<close> builds; fields it does not name keep their zero value.\<close>

definition wire_reconciler :: "controller_settings \<Rightarrow> 's reconcile_env \<Rightarrow> 's reconcile_env" where
  "wire_reconciler c E =
     E\<lparr>rc_ProxyNamespace := cs_ProxyNamespace c, rc_ProxyName := cs_ProxyName c, rc_SSHKeyNamespace := [],
       rc_HasServedModels := True, rc_IdleRequeueInterval := cs_IdleRequeueInterval c\<rparr>"

text \<open>The reaper \<open>main\<close> adds: every duration is left at its default.\<close>

definition wire_reaper :: "'s Reaper \<Rightarrow> 's Reaper" where
  "wire_reaper R = R\<lparr>rp_Interval := 0, rp_Grace := 0, rp_Timeout := 0\<rparr>"

section \<open>Start\<close>

text \<open>Whether each call on the libraries succeeded.\<close>

record manager_calls =
  mg_CertWatcher :: bool
  mg_NewManager :: bool
  mg_SetupWithManager :: bool
  mg_AddReaper :: bool
  mg_AddCertWatcher :: bool
  mg_AddHealthzCheck :: bool
  mg_AddReadyzCheck :: bool
  mg_Start :: bool

datatype startup_failure = NoCertWatcher | NoManager | NoDstackURL | NoController | NoReaper
  | NoCertWatcherRunnable | NoHealthz | NoReadyz | ManagerFailed

definition start_controller ::
  "(string \<Rightarrow> duration option) \<Rightarrow> controller_flags \<Rightarrow> environ \<Rightarrow> manager_calls \<Rightarrow> startup_failure + controller_settings" where
  "start_controller ParseDuration f getenv mg =
     (let certs = 0 < length (cf_metricsCertPath f)
      in if certs \<and> \<not> mg_CertWatcher mg then Inl NoCertWatcher
         else if \<not> mg_NewManager mg then Inl NoManager
         else if getenv ''SQUALL_DSTACK_URL'' = [] then Inl NoDstackURL
         else if \<not> mg_SetupWithManager mg then Inl NoController
         else if \<not> mg_AddReaper mg then Inl NoReaper
         else if certs \<and> \<not> mg_AddCertWatcher mg then Inl NoCertWatcherRunnable
         else if \<not> mg_AddHealthzCheck mg then Inl NoHealthz
         else if \<not> mg_AddReadyzCheck mg then Inl NoReadyz
         else if \<not> mg_Start mg then Inl ManagerFailed
         else Inr (controller_config ParseDuration getenv))"

text \<open>The process: its exit code, or the manager's options and the settings it ran with until it was stopped.\<close>

definition controller_main ::
  "(string \<Rightarrow> (bool \<times> (string \<Rightarrow> bool)) option) \<Rightarrow> (string \<Rightarrow> duration option) \<Rightarrow> string list \<Rightarrow> environ \<Rightarrow> manager_calls \<Rightarrow>
   int + manager_options \<times> controller_settings" where
  "controller_main zap ParseDuration args getenv mg =
     (case flag_Parse (controller_formal zap) default_flags args of
        Inl FlagHelp \<Rightarrow> Inl 0
      | Inl FlagError \<Rightarrow> Inl 2
      | Inr (f, rest) \<Rightarrow>
          (case start_controller ParseDuration f getenv mg of
             Inl e \<Rightarrow> Inl 1
           | Inr cfg \<Rightarrow> Inr (manager_options_for f, cfg)))"

section \<open>Properties\<close>

text \<open>The arguments that spell out every flag.\<close>

definition bool_text :: "bool \<Rightarrow> string" where
  "bool_text b = (if b then ''true'' else ''false'')"

lemma ParseBool_text [simp]: "ParseBool (bool_text b) = Some b"
  by (simp add: ParseBool_def bool_text_def)

definition flag_args :: "controller_flags \<Rightarrow> string list" where
  "flag_args f =
     [''--'' @ ''metrics-bind-address'' @ ''='' @ cf_metricsAddr f,
      ''--'' @ ''health-probe-bind-address'' @ ''='' @ cf_probeAddr f,
      ''--'' @ ''leader-elect'' @ ''='' @ bool_text (cf_enableLeaderElection f),
      ''--'' @ ''metrics-secure'' @ ''='' @ bool_text (cf_secureMetrics f),
      ''--'' @ ''metrics-cert-path'' @ ''='' @ cf_metricsCertPath f,
      ''--'' @ ''metrics-cert-name'' @ ''='' @ cf_metricsCertName f,
      ''--'' @ ''metrics-cert-key'' @ ''='' @ cf_metricsCertKey f,
      ''--'' @ ''enable-http2'' @ ''='' @ bool_text (cf_enableHTTP2 f)]"

lemma string_flag_step:
  assumes "controller_formal zap n = string_flag put" and "plain_name n"
  shows "flag_Parse (controller_formal zap) c ((''--'' @ n @ ''='' @ v) # args) = flag_Parse (controller_formal zap) (put v c) args"
  using flag_Parse_value [OF assms(2), of "controller_formal zap"] assms(1) by simp

lemma bool_flag_step:
  assumes "controller_formal zap n = bool_flag put" and "plain_name n"
  shows "flag_Parse (controller_formal zap) c ((''--'' @ n @ ''='' @ bool_text b) # args) = flag_Parse (controller_formal zap) (put b c) args"
  using flag_Parse_value [OF assms(2), of "controller_formal zap"] assms(1) by simp

text \<open>
  Every configuration can be written on the command line, and what is written is what runs: whatever
  addresses, paths and switches the arguments spell out, and whatever flags the logger adds, parsing
  them gives exactly those values and leaves no argument over, whatever the flags were before.
\<close>

theorem flags_roundtrip:
  "flag_Parse (controller_formal zap) c (flag_args f) = Inr (f, [])"
proof -
  note flag = controller_formal_def plain_name_def
  show ?thesis
    unfolding flag_args_def
    by ((subst string_flag_step bool_flag_step, simp add: flag, simp add: flag)+) simp
qed

text \<open>Without the flag the metrics server offers HTTP/1.1 only, whatever else is configured.\<close>

lemma http2_needs_flag:
  assumes "\<not> cf_enableHTTP2 f"
  shows "tc_NextProtos (fold apply_tls_option (mso_TLSOpts (metrics_server_options f)) c) = [''http/1.1'']"
  using assms by (simp add: metrics_server_options_def)

lemma started_has_dstack:
  "start_controller pd f getenv mg = Inr c \<Longrightarrow> cs_DstackURL c \<noteq> [] \<and> hc_project (cs_Client c) \<noteq> []"
  by (auto simp: start_controller_def controller_config_def dstack_project_def Let_def split: if_splits)

text \<open>
  The two binaries look for the replica key in one place: when the proxy Service the controller is told
  about lives in the proxy's own namespace, the controller mints the key where the proxy loads it.
\<close>

theorem key_namespaces_agree:
  assumes "TrimSpace ns = ns" and "ns \<noteq> []"
    and "controller_env ''SQUALL_PROXY_SERVICE_NAMESPACE'' = ns" and "proxy_env ''SQUALL_SSH_KEY_NAMESPACE'' = []"
  shows "\<exists>inner. choose_backend proxy_env (Some ns) =
     UseSSH inner (operatorNamespace (wire_reconciler (controller_config pd controller_env) E))"
  using assms by (simp add: choose_backend_def envOr_def podNamespace_def operatorNamespace_def wire_reconciler_def
      controller_config_def Let_def)

text \<open>
  A controller that was never told about the proxy still gives capacity up. With both proxy
  Service variables unset it has no evidence for any Model, so no Model is found idle; but the first
  pass over a running on-demand Model without demand starts the uncontrolled clock, and every pass that
  looks at the run after the uncontrolled timeout flips it to zero replicas.
\<close>

theorem unwired_controller_gives_up:
  assumes env: "getenv ''SQUALL_PROXY_SERVICE_NAMESPACE'' = []" "getenv ''SQUALL_PROXY_SERVICE_NAME'' = []"
    and E: "E = wire_reconciler (controller_config pd getenv) E0"
    and first: "observe E run key (md_Spec model) t s = (Inr ob, s')" "ob_Run ob = Some r" "0 < run_Replicas r"
    and idle: "st_UncontrolledSince (md_Status model) = None" "sp_MinReplicas (md_Spec model) = 0"
    and later: "observe E run key (md_Spec model) now s2 = (Inr ob2, s3)" "ob_Run ob2 = Some r2" "0 < run_Replicas r2"
    and t: "\<not> isZero t" "0 < uncontrolledTimeoutFor (md_Spec model)"
      "uncontrolledTimeoutFor (md_Spec model) < time_sub now t"
  shows "\<not> sleepDue (ob_Activity ob2) durable idle_timeout now \<and>
    st_UncontrolledSince (md_Status (snd (updateActivityStatus model ob False t))) = Some t \<and>
    ac_Apply (snd (Decide M ob2 (md_Status (snd (updateActivityStatus (snd (updateActivityStatus model ob False t)) ob2 False now)))
      (md_Spec model) False now)) \<and>
    ac_Replicas (snd (Decide M ob2 (md_Status (snd (updateActivityStatus (snd (updateActivityStatus model ob False t)) ob2 False now)))
      (md_Spec model) False now)) = 0"
proof -
  have none: "ob_Activity ob' = None" if "observe E run key spec u v = (Inr ob', v')" for ob' spec u v v'
    using that env unfolding E observe_def
    by (auto simp: env_gather_def gatherActivity_def wire_reconciler_def controller_config_def no_observation_def Let_def
        split: prod.splits sum.splits if_splits)
  let ?m = "snd (updateActivityStatus model ob False t)"
  have since: "st_UncontrolledSince (md_Status ?m) = Some t"
    using first idle(1) none [OF first(1)] by (simp add: updateActivityStatus_def Let_def)
  then have since2: "st_UncontrolledSince (md_Status (snd (updateActivityStatus ?m ob2 False now))) = Some t"
    using later none [OF later(1)] by (simp add: updateActivityStatus_def [of ?m] Let_def)
  then have "uncontrolledDue (st_UncontrolledSince (md_Status (snd (updateActivityStatus ?m ob2 False now))))
      (uncontrolledTimeoutFor (md_Spec model)) False now"
    using t by (simp add: uncontrolledDue_def isZeroPtr_def)
  then have due: "scale_down_due ob2 (md_Status (snd (updateActivityStatus ?m ob2 False now))) (md_Spec model) False now"
    using idle(2) by (simp add: scale_down_due_def)
  have "run_Replicas r2 \<noteq> 0"
    using later(3) by simp
  from Decide_up_given_up(1,2) [OF later(2) this due] since none [OF later(1)] show ?thesis
    by (simp add: sleepDue_def)
qed

theorem unwired_controller_gives_up_witness:
  "\<exists>ob. fst (observe (wire_reconciler (controller_config (\<lambda>d. None) (\<lambda>k. [])) sample_env) ''squall-qwen'' ''qwen''
       (md_Spec sample_model) (100 * Hour) (Some sample_run)) = Inr ob \<and>
     ac_Replicas (snd (Decide (ref_meta 0) ob
       (md_Status (snd (updateActivityStatus (snd (updateActivityStatus sample_model ob False Hour)) ob False (100 * Hour))))
       (md_Spec sample_model) False (100 * Hour))) = 0"
proof -
  let ?E = "wire_reconciler (controller_config (\<lambda>d. None) (\<lambda>k. [])) sample_env"
  let ?ob = "no_observation\<lparr>ob_Run := Some sample_run, ob_Ready := run_ProbesReady sample_run\<rparr>"
  have ob: "observe ?E ''squall-qwen'' ''qwen'' (md_Spec sample_model) u (Some sample_run) = (Inr ?ob, Some sample_run)" for u
    by (simp add: observe_def wire_reconciler_def controller_config_def sample_env_def sample_run_def IsTerminal_def
        finishedRunStatuses_def env_gather_def gatherActivity_def freshSuccess_def no_observation_def Let_def)
  have run: "ob_Run ?ob = Some sample_run" "0 < run_Replicas sample_run"
    by (simp_all add: sample_run_def)
  have timeout: "\<not> isZero Hour" "0 < uncontrolledTimeoutFor (md_Spec sample_model)"
    "uncontrolledTimeoutFor (md_Spec sample_model) < time_sub (100 * Hour) Hour"
    by (simp_all add: isZero_def uncontrolledTimeoutFor_def sample_model_def sample_spec_def DefaultUncontrolledGrace_def
        MaxUncontrolledTimeout_def time_sub_def minDuration_def maxDuration_def wrap64_def)
  have "st_UncontrolledSince (md_Status sample_model) = None" "sp_MinReplicas (md_Spec sample_model) = 0"
    by (simp_all add: sample_model_def sample_status_def sample_spec_def)
  from unwired_controller_gives_up [OF refl refl refl ob run this ob run timeout, of _ _ "ref_meta 0"] ob show ?thesis
    by (intro exI [of _ ?ob]) simp
qed

end
