(* ===== verification/Proxy_Stream.thy ===== *)
theory Proxy_Stream
  imports Proxy_Handler
begin

text \<open>
  The bytes of a committed response (\<open>internal/proxy/attempt.go\<close>: \<open>streamCommit\<close>, \<open>peekAndRestore\<close> and
  its \<open>spliceBody\<close>; \<open>handler.go\<close>: \<open>metricResponseWriter\<close>), down to the buffers of \<open>net/http\<close>. A response
  body is a reader that gives one chunk per read and may never end, so the copy loop is a partial
  function: a copy that never returns is \<open>None\<close>. An error is its text. The upstream's reader keeps to
  a declared Content-Length and gives no bytes where a response has no body, so the refusals of \<open>net/http\<close>
  for those cases do not arise.
\<close>

section \<open>The client's connection\<close>

text \<open>
  \<open>net/http\<close>'s response writer. Body bytes go through two \<open>bufio.Writer\<close>s, the response's (2048 bytes) and
  the connection's, each of which remembers its first error and answers every later write with it.
  The status line, the headers and the chunk framing share the connection's buffer, so how many of the
  body bytes in it and of those just written a write passes on is a parameter, \<open>rw_Spill\<close>.
  \<open>rw_Accepts\<close> is how many body bytes the connection still takes, \<open>None\<close> for one that does not break;
  \<open>rw_Body\<close> are those it took, and \<open>rw_Fault\<close> is the error of a write to the broken connection.
\<close>

record response_writer =
  rw_Header :: "string list gomap"
  rw_Sent :: "(int \<times> string list gomap) option"
  rw_Buf :: string
  rw_Err :: "string option"
  rw_ConnBuf :: string
  rw_ConnErr :: "string option"
  rw_Spill :: "string \<Rightarrow> string \<Rightarrow> nat"
  rw_Accepts :: "nat option"
  rw_Fault :: string
  rw_Body :: string
  rw_CanFlush :: bool

definition bufferBeforeChunkingSize :: nat where
  "bufferBeforeChunkingSize = 2048"

definition conn_send :: "string \<Rightarrow> response_writer \<Rightarrow> string option \<times> response_writer" where
  "conn_send p w =
     (case rw_Accepts w of
        None \<Rightarrow> (None, w\<lparr>rw_Body := rw_Body w @ p\<rparr>)
      | Some k \<Rightarrow>
          (if length p \<le> k then None else Some (rw_Fault w),
           w\<lparr>rw_Body := rw_Body w @ take k p, rw_Accepts := Some (k - length p)\<rparr>))"

text \<open>The connection's buffer. After an error nothing of it is ever sent, so what it then holds does not matter.\<close>

definition bufw_Write :: "string \<Rightarrow> response_writer \<Rightarrow> string option \<times> response_writer" where
  "bufw_Write p w =
     (case rw_ConnErr w of
        Some e \<Rightarrow> (Some e, w)
      | None \<Rightarrow>
          let j = rw_Spill w (rw_ConnBuf w) p; q = rw_ConnBuf w @ p
          in case conn_send (take j q) w of
               (err, w1) \<Rightarrow> (err, w1\<lparr>rw_ConnBuf := drop j q, rw_ConnErr := err\<rparr>))"

definition bufw_Flush :: "response_writer \<Rightarrow> string option \<times> response_writer" where
  "bufw_Flush w =
     (case rw_ConnErr w of
        Some e \<Rightarrow> (Some e, w)
      | None \<Rightarrow> (case conn_send (rw_ConnBuf w) w of (err, w1) \<Rightarrow> (err, w1\<lparr>rw_ConnBuf := [], rw_ConnErr := err\<rparr>)))"

text \<open>The response's buffer, \<open>Write\<close> and \<open>Flush\<close> of \<open>bufio.Writer\<close>: a write that does not fit an empty buffer bypasses it.\<close>

definition buf_pass :: "string \<Rightarrow> response_writer \<Rightarrow> string option \<times> response_writer" where
  "buf_pass p w = (case bufw_Write p w of (err, w1) \<Rightarrow> (err, w1\<lparr>rw_Buf := [], rw_Err := err\<rparr>))"

definition buf_Flush :: "response_writer \<Rightarrow> string option \<times> response_writer" where
  "buf_Flush w =
     (case rw_Err w of
        Some e \<Rightarrow> (Some e, w)
      | None \<Rightarrow> if rw_Buf w = [] then (None, w) else buf_pass (rw_Buf w) w)"

definition buf_Write :: "string \<Rightarrow> response_writer \<Rightarrow> string option \<times> response_writer" where
  "buf_Write p w =
     (case rw_Err w of
        Some e \<Rightarrow> (Some e, w)
      | None \<Rightarrow>
          let room = bufferBeforeChunkingSize - length (rw_Buf w) in
          if length p \<le> room then (None, w\<lparr>rw_Buf := rw_Buf w @ p\<rparr>)
          else if rw_Buf w = [] then buf_pass p w
          else case buf_pass (rw_Buf w @ take room p) w of
                 (Some e, w1) \<Rightarrow> (Some e, w1)
               | (None, w1) \<Rightarrow>
                   if length (drop room p) \<le> bufferBeforeChunkingSize then (None, w1\<lparr>rw_Buf := drop room p\<rparr>)
                   else buf_pass (drop room p) w1)"

definition rw_WriteHeader :: "int \<Rightarrow> response_writer \<Rightarrow> response_writer" where
  "rw_WriteHeader status w =
     (case rw_Sent w of Some _ \<Rightarrow> w | None \<Rightarrow> w\<lparr>rw_Sent := Some (status, rw_Header w)\<rparr>)"

definition rw_Write :: "string \<Rightarrow> response_writer \<Rightarrow> string option \<times> response_writer" where
  "rw_Write p w = buf_Write p (rw_WriteHeader 200 w)"

text \<open>\<open>Flush\<close> empties both buffers and has no result: its errors are dropped.\<close>

definition rw_Flush :: "response_writer \<Rightarrow> response_writer" where
  "rw_Flush w = snd (bufw_Flush (snd (buf_Flush (rw_WriteHeader 200 w))))"

text \<open>\<open>metricResponseWriter\<close> remembers the first status; zero is none yet.\<close>

record metricResponseWriter =
  mw_status :: int
  mw_inner :: response_writer

definition mw_WriteHeader :: "int \<Rightarrow> metricResponseWriter \<Rightarrow> metricResponseWriter" where
  "mw_WriteHeader status mw =
     (let mw1 = (if mw_status mw = 0 then mw\<lparr>mw_status := status\<rparr> else mw)
      in mw1\<lparr>mw_inner := rw_WriteHeader status (mw_inner mw1)\<rparr>)"

definition mw_Write :: "string \<Rightarrow> metricResponseWriter \<Rightarrow> string option \<times> metricResponseWriter" where
  "mw_Write p mw =
     (let mw1 = (if mw_status mw = 0 then mw_WriteHeader 200 mw else mw)
      in case rw_Write p (mw_inner mw1) of (err, w) \<Rightarrow> (err, mw1\<lparr>mw_inner := w\<rparr>))"

definition mw_Flush :: "metricResponseWriter \<Rightarrow> metricResponseWriter" where
  "mw_Flush mw = (if rw_CanFlush (mw_inner mw) then mw\<lparr>mw_inner := rw_Flush (mw_inner mw)\<rparr> else mw)"

section \<open>Bodies\<close>

datatype read_end = EOF | ReadFault string

text \<open>Read number \<open>i\<close> into a buffer of the given size gives some bytes and, when it is the last one, how the body ended.\<close>

type_synonym body_reads = "nat \<Rightarrow> nat \<Rightarrow> string \<times> read_end option"

definition copyBufferSize :: nat where
  "copyBufferSize = 32 * 1024"

text \<open>
  The body as the copy loop reads it: it ends at read \<open>n\<close>, and no read gives more than its buffer holds,
  which is the contract of \<open>io.Reader\<close>.
\<close>

definition body_ends :: "body_reads \<Rightarrow> nat \<Rightarrow> read_end \<Rightarrow> bool" where
  "body_ends reads n e \<longleftrightarrow> (\<forall>i<n. snd (reads i copyBufferSize) = None) \<and> snd (reads n copyBufferSize) = Some e \<and>
     (\<forall>i k. length (fst (reads i k)) \<le> k)"

definition body_chunks :: "body_reads \<Rightarrow> nat \<Rightarrow> nat \<Rightarrow> string list" where
  "body_chunks reads i n = filter (\<lambda>p. p \<noteq> []) (map (\<lambda>k. fst (reads k copyBufferSize)) [i..<Suc n])"

text \<open>
  \<open>peekAndRestore\<close> on a body of known bytes and end: up to \<open>limit\<close> bytes are read ahead and put back
  in front; a fault met while reading ahead gives no bytes and leaves the body where it stands.
\<close>

definition peek_stream :: "nat \<Rightarrow> string \<times> read_end \<Rightarrow> string \<times> (string \<times> read_end)" where
  "peek_stream limit body =
     (case body of (bytes, e) \<Rightarrow>
        if length bytes < limit \<and> e \<noteq> EOF then ([], ([], e))
        else (take limit bytes, (take limit bytes @ drop limit bytes, e)))"

section \<open>streamCommit\<close>

definition header_Add :: "string \<Rightarrow> string \<Rightarrow> string list gomap \<Rightarrow> string list gomap" where
  "header_Add k v h =
     gomap_put (canonicalKey k) ((case gomap_get h (canonicalKey k) of Some vs \<Rightarrow> vs | None \<Rightarrow> []) @ [v]) h"

definition copy_headers :: "string list gomap \<Rightarrow> string list gomap \<Rightarrow> string list gomap" where
  "copy_headers src h = fold (\<lambda>(k, vs) h. fold (header_Add k) vs h) src h"

text \<open>One chunk: an empty read writes nothing, a written chunk is flushed at once.\<close>

definition write_chunk :: "string \<Rightarrow> metricResponseWriter \<Rightarrow> string option \<times> metricResponseWriter" where
  "write_chunk p mw =
     (if p = [] then (None, mw)
      else case mw_Write p mw of
             (Some e, mw1) \<Rightarrow> (Some e, mw1)
           | (None, mw1) \<Rightarrow> (None, mw_Flush mw1))"

partial_function (option) stream_loop ::
  "body_reads \<Rightarrow> nat \<Rightarrow> metricResponseWriter \<Rightarrow> (string option \<times> metricResponseWriter) option" where
  "stream_loop reads i mw =
     (case reads i copyBufferSize of (p, e) \<Rightarrow>
        (case write_chunk p mw of
           (Some err, mw1) \<Rightarrow> Some (Some err, mw1)
         | (None, mw1) \<Rightarrow>
             (case e of
                Some EOF \<Rightarrow> Some (None, mw1)
              | Some (ReadFault err) \<Rightarrow> Some (Some err, mw1)
              | None \<Rightarrow> stream_loop reads (Suc i) mw1)))"

definition stream_start :: "int \<Rightarrow> string list gomap \<Rightarrow> metricResponseWriter \<Rightarrow> metricResponseWriter" where
  "stream_start status hdr mw =
     mw_WriteHeader status
       (mw\<lparr>mw_inner := (mw_inner mw)\<lparr>rw_Header := copy_headers (stripHopByHop hdr) (rw_Header (mw_inner mw))\<rparr>\<rparr>)"

definition streamCommit ::
  "int \<Rightarrow> string list gomap \<Rightarrow> body_reads \<Rightarrow> metricResponseWriter \<Rightarrow>
   (string option \<times> metricResponseWriter) option" where
  "streamCommit status hdr reads mw = stream_loop reads 0 (stream_start status hdr mw)"

section \<open>Lemmas\<close>

text \<open>Of a connection that takes \<open>k\<close> more bytes, what arrives and whether all of it does.\<close>

definition fits :: "nat option \<Rightarrow> string \<Rightarrow> bool" where
  "fits k p \<longleftrightarrow> (case k of None \<Rightarrow> True | Some n \<Rightarrow> length p \<le> n)"

definition arriving :: "nat option \<Rightarrow> string \<Rightarrow> string" where
  "arriving k p = (case k of None \<Rightarrow> p | Some n \<Rightarrow> take n p)"

definition room_after :: "nat option \<Rightarrow> string \<Rightarrow> nat option" where
  "room_after k p = (case k of None \<Rightarrow> None | Some n \<Rightarrow> Some (n - length p))"

lemma room_simps:
  "fits k (p @ q) \<longleftrightarrow> fits k p \<and> fits (room_after k p) q"
  "fits k p \<Longrightarrow> arriving k (p @ q) = p @ arriving (room_after k p) q"
  "\<not> fits k p \<Longrightarrow> arriving k (p @ q) = arriving k p"
  "fits k p \<Longrightarrow> arriving k p = p" "fits k []" "room_after k [] = k" "arriving k [] = []"
  "room_after (room_after k p) q = room_after k (p @ q)"
  "\<not> fits k p \<Longrightarrow> room_after k p = Some 0"
  by (auto simp: fits_def arriving_def room_after_def split: option.splits)

lemma conn_send_eq:
  "conn_send p w = (if fits (rw_Accepts w) p then None else Some (rw_Fault w),
     w\<lparr>rw_Body := rw_Body w @ arriving (rw_Accepts w) p, rw_Accepts := room_after (rw_Accepts w) p\<rparr>)"
  by (cases "rw_Accepts w") (simp_all add: conn_send_def fits_def arriving_def room_after_def)

text \<open>
  A writer whose status line is fixed, and how far its buffers know of a broken connection: nothing
  is wrong and nothing buffered; the connection's buffer knows; the response's buffer knows too.
\<close>

definition started :: "int \<Rightarrow> string list gomap \<Rightarrow> metricResponseWriter \<Rightarrow> bool" where
  "started status hdr mw \<longleftrightarrow> mw_status mw = status \<and> status \<noteq> 0 \<and> rw_Sent (mw_inner mw) = Some (status, hdr) \<and>
     rw_CanFlush (mw_inner mw)"

definition clean :: "response_writer \<Rightarrow> bool" where
  "clean w \<longleftrightarrow> rw_Buf w = [] \<and> rw_Err w = None \<and> rw_ConnBuf w = [] \<and> rw_ConnErr w = None"

definition broken :: "nat \<Rightarrow> response_writer \<Rightarrow> bool" where
  "broken b w \<longleftrightarrow> rw_ConnErr w = Some (rw_Fault w) \<and>
     (rw_Err w = Some (rw_Fault w) \<or> b = 1 \<and> rw_Err w = None \<and> rw_Buf w = [])"

lemma bufw_frame:
  "bufw_Write p w = (err, w1) \<Longrightarrow> rw_Sent w1 = rw_Sent w \<and> rw_CanFlush w1 = rw_CanFlush w \<and> rw_Fault w1 = rw_Fault w \<and>
     rw_Err w1 = rw_Err w \<and> rw_Buf w1 = rw_Buf w"
  "rw_Sent (snd (bufw_Flush w)) = rw_Sent w \<and> rw_CanFlush (snd (bufw_Flush w)) = rw_CanFlush w \<and>
     rw_Fault (snd (bufw_Flush w)) = rw_Fault w \<and> rw_Err (snd (bufw_Flush w)) = rw_Err w \<and> rw_Buf (snd (bufw_Flush w)) = rw_Buf w"
  by (auto simp: bufw_Write_def bufw_Flush_def conn_send_eq Let_def split: option.splits)

text \<open>Bytes through the connection's empty buffer and flushed: all of them arrive that fit.\<close>

lemma bufw_through:
  assumes "rw_ConnBuf w = []" and "rw_ConnErr w = None" and "bufw_Write p w = (err, w1)" and "bufw_Flush (upd w1) = (err', w2)"
    and "\<And>v. rw_ConnErr (upd v) = rw_ConnErr v \<and> rw_ConnBuf (upd v) = rw_ConnBuf v \<and> rw_Accepts (upd v) = rw_Accepts v \<and>
      rw_Body (upd v) = rw_Body v \<and> rw_Fault (upd v) = rw_Fault v"
  shows "rw_Body w2 = rw_Body w @ arriving (rw_Accepts w) p" and "rw_Accepts w2 = room_after (rw_Accepts w) p"
    and "rw_ConnErr w2 = (if fits (rw_Accepts w) p then None else Some (rw_Fault w))"
    and "fits (rw_Accepts w) p \<Longrightarrow> err = None \<and> rw_ConnBuf w2 = []"
    and "err \<noteq> None \<Longrightarrow> err = Some (rw_Fault w) \<and> w2 = upd w1 \<and> \<not> fits (rw_Accepts w) p"
proof -
  let ?j = "rw_Spill w [] p" and ?k = "rw_Accepts w"
  let ?t = "take ?j p" and ?d = "drop ?j p"
  have w1: "err = (if fits ?k ?t then None else Some (rw_Fault w))" "rw_Body w1 = rw_Body w @ arriving ?k ?t"
    "rw_Accepts w1 = room_after ?k ?t" "rw_ConnBuf w1 = ?d" "rw_ConnErr w1 = err" "rw_Fault w1 = rw_Fault w"
    using assms(1-3) by (auto simp: bufw_Write_def conn_send_eq Let_def)
  have split: "fits ?k p \<longleftrightarrow> fits ?k ?t \<and> fits (room_after ?k ?t) ?d"
    "fits ?k ?t \<Longrightarrow> arriving ?k p = ?t @ arriving (room_after ?k ?t) ?d"
    "\<not> fits ?k ?t \<Longrightarrow> arriving ?k p = arriving ?k ?t"
    "room_after (room_after ?k ?t) ?d = room_after ?k p"
    using room_simps(1-3,8) [of ?k ?t ?d] by simp_all
  have w2: "rw_Body w2 = rw_Body w @ arriving ?k p \<and> rw_Accepts w2 = room_after ?k p \<and>
      rw_ConnErr w2 = (if fits ?k p then None else Some (rw_Fault w)) \<and>
      (fits ?k p \<longrightarrow> err = None \<and> rw_ConnBuf w2 = []) \<and> (err \<noteq> None \<longrightarrow> err = Some (rw_Fault w) \<and> w2 = upd w1 \<and> \<not> fits ?k p)"
  proof (cases "fits ?k ?t")
    case True
    then have "rw_ConnErr (upd w1) = None" "rw_ConnBuf (upd w1) = ?d" "rw_Accepts (upd w1) = room_after ?k ?t"
      "rw_Body (upd w1) = rw_Body w1" "rw_Fault (upd w1) = rw_Fault w"
      using w1 assms(5) by simp_all
    then have "snd (bufw_Flush (upd w1)) = (upd w1)\<lparr>rw_Body := rw_Body w1 @ arriving (room_after ?k ?t) ?d, rw_Accepts := room_after (room_after ?k ?t) ?d,
        rw_ConnBuf := [], rw_ConnErr := (if fits (room_after ?k ?t) ?d then None else Some (rw_Fault w))\<rparr>"
      by (simp add: bufw_Flush_def conn_send_eq)
    with assms(4) True w1(1,2) split show ?thesis
      by (simp add: room_simps(4))
  next
    case False
    then have "\<not> fits ?k p"
      using split(1) by blast
    moreover have "w2 = upd w1"
      using False w1 assms(4,5) by (simp add: bufw_Flush_def)
    ultimately show ?thesis
      using False w1 split(3) room_simps(9) [of ?k p] room_simps(9) [OF False] assms(5) [of w1] by simp
  qed
  then show "rw_Body w2 = rw_Body w @ arriving ?k p" "rw_Accepts w2 = room_after ?k p"
    "rw_ConnErr w2 = (if fits ?k p then None else Some (rw_Fault w))"
    "fits ?k p \<Longrightarrow> err = None \<and> rw_ConnBuf w2 = []"
    "err \<noteq> None \<Longrightarrow> err = Some (rw_Fault w) \<and> w2 = upd w1 \<and> \<not> fits ?k p"
    by blast+
qed

text \<open>One chunk on a clean connection: it arrives as far as it fits; if it does not, the write fails or a buffer knows.\<close>

lemma rw_Write_clean:
  assumes "clean w" and "rw_Sent w = Some x" and "p \<noteq> []" and "rw_Write p w = (err, w1)"
    and "w2 = (if err = None then rw_Flush w1 else w1)"
  shows "rw_Body w2 = rw_Body w @ arriving (rw_Accepts w) p \<and> rw_Accepts w2 = room_after (rw_Accepts w) p \<and>
    rw_Sent w2 = Some x \<and> rw_CanFlush w2 = rw_CanFlush w \<and> rw_Fault w2 = rw_Fault w \<and>
    (if fits (rw_Accepts w) p then err = None \<and> clean w2
     else err = Some (rw_Fault w) \<or> err = None \<and> broken 1 w2) \<and>
    (length p \<le> bufferBeforeChunkingSize \<longrightarrow> err = None)"
proof -
  let ?v = "if length p \<le> bufferBeforeChunkingSize then w\<lparr>rw_Buf := p\<rparr> else w"
  obtain e wa where wa: "bufw_Write p ?v = (e, wa)"
    by fastforce
  let ?upd = "\<lambda>v. v\<lparr>rw_Buf := [], rw_Err := e\<rparr>"
  obtain e' wb where wb: "bufw_Flush (?upd wa) = (e', wb)"
    by fastforce
  have w: "rw_Buf w = []" "rw_Err w = None" "rw_ConnBuf w = []" "rw_ConnErr w = None"
    using assms(1) by (simp_all add: clean_def)
  have v: "rw_ConnBuf ?v = []" "rw_ConnErr ?v = None" "rw_Accepts ?v = rw_Accepts w" "rw_Body ?v = rw_Body w" "rw_Fault ?v = rw_Fault w"
    using w by simp_all
  note through = bufw_through [where upd = ?upd, OF v(1,2) wa wb, unfolded v(3-5), simplified]
  have w2: "w2 = wb" and err: "err = (if length p \<le> bufferBeforeChunkingSize then None else e)"
    using assms(2-5) w wa wb through(5)
    by (auto simp: rw_Write_def rw_Flush_def rw_WriteHeader_def buf_Write_def buf_pass_def buf_Flush_def Let_def
        dest: bufw_frame(1) split: if_splits)
  have frame: "rw_Sent wb = Some x" "rw_CanFlush wb = rw_CanFlush w" "rw_Fault wb = rw_Fault w" "rw_Err wb = e" "rw_Buf wb = []"
    using bufw_frame(1) [OF wa] bufw_frame(2) [of "?upd wa"] wb assms(2) by (auto split: if_splits)
  show ?thesis
    using through frame by (cases e) (auto simp: w2 err clean_def broken_def split: if_splits)
qed

text \<open>On a broken connection nothing more arrives, and one more chunk at most is taken without an error.\<close>

lemma rw_Write_broken:
  assumes "broken b w" and "rw_Sent w = Some x" and "p \<noteq> []" and "rw_Write p w = (err, w1)"
    and "w2 = (if err = None then rw_Flush w1 else w1)"
  shows "rw_Body w2 = rw_Body w \<and> rw_Sent w2 = Some x \<and> rw_CanFlush w2 = rw_CanFlush w \<and> rw_Fault w2 = rw_Fault w \<and>
    (err = Some (rw_Fault w) \<or> err = None \<and> b = 1 \<and> broken 0 w2)"
  using assms
  by (auto simp: rw_Write_def rw_Flush_def rw_WriteHeader_def buf_Write_def buf_pass_def buf_Flush_def bufw_Write_def bufw_Flush_def
      broken_def Let_def split: if_splits)

lemma write_chunk_writer:
  assumes "started status hdr mw" and "p \<noteq> []" and "write_chunk p mw = (err, mw1)"
  shows "\<exists>w1. rw_Write p (mw_inner mw) = (err, w1) \<and> mw_inner mw1 = (if err = None then rw_Flush w1 else w1) \<and>
    mw_status mw1 = mw_status mw"
proof -
  obtain e w1 where w1: "rw_Write p (mw_inner mw) = (e, w1)"
    by fastforce
  have "rw_CanFlush w1"
    using assms(1) w1 bufw_frame(1)
    by (auto simp: started_def rw_Write_def rw_WriteHeader_def buf_Write_def buf_pass_def Let_def split: if_splits option.splits prod.splits)
  with assms w1 show ?thesis
    by (auto simp: write_chunk_def mw_Write_def mw_Flush_def started_def Let_def split: option.splits)
qed

definition end_error :: "read_end \<Rightarrow> string option" where
  "end_error e = (case e of EOF \<Rightarrow> None | ReadFault err \<Rightarrow> Some err)"

lemma body_chunks_step:
  assumes "i \<le> n"
  shows "body_chunks reads i n =
    (let p = fst (reads i copyBufferSize); rest = (if i = n then [] else body_chunks reads (Suc i) n)
     in if p = [] then rest else p # rest)"
  using assms by (auto simp: body_chunks_def upt_conv_Cons Let_def)

text \<open>The loop from read \<open>i\<close> on, over a body that ends at read \<open>n\<close>: its next step.\<close>

lemma stream_loop_step:
  assumes "body_ends reads n e" and "i \<le> n" and "write_chunk (fst (reads i copyBufferSize)) mw = (err, mw1)"
  shows "stream_loop reads i mw =
    (case err of Some x \<Rightarrow> Some (Some x, mw1)
     | None \<Rightarrow> if i = n then Some (end_error e, mw1) else stream_loop reads (Suc i) mw1)"
proof (cases "i = n")
  case True
  with assms(1) obtain p where "reads i copyBufferSize = (p, Some e)"
    by (metis body_ends_def prod.collapse)
  with True assms(3) show ?thesis
    by (subst stream_loop.simps) (auto simp: end_error_def split: option.split read_end.split)
next
  case False
  with assms(1,2) obtain p where "reads i copyBufferSize = (p, None)"
    by (metis body_ends_def le_neq_implies_less prod.collapse)
  with False assms(3) show ?thesis
    by (subst stream_loop.simps) (auto split: option.split)
qed

text \<open>On a broken connection the loop stops with an error after \<open>b\<close> more chunks, or the body ends first.\<close>

lemma stream_loop_broken:
  assumes "body_ends reads n e" and "i \<le> n" and "started status hdr mw" and "broken b (mw_inner mw)"
  shows "\<exists>err mw'. stream_loop reads i mw = Some (err, mw') \<and> started status hdr mw' \<and>
    rw_Body (mw_inner mw') = rw_Body (mw_inner mw) \<and> err \<in> {end_error e, Some (rw_Fault (mw_inner mw))} \<and>
    (b < length (body_chunks reads i n) \<longrightarrow> err = Some (rw_Fault (mw_inner mw))) \<and>
    (body_chunks reads i n = [] \<longrightarrow> err = end_error e)"
  using assms(2-4)
proof (induction "n - i" arbitrary: i mw b rule: less_induct)
  case less
  let ?p = "fst (reads i copyBufferSize)" and ?f = "rw_Fault (mw_inner mw)"
  obtain err mw1 where w: "write_chunk ?p mw = (err, mw1)"
    by fastforce
  note step = stream_loop_step [OF assms(1) less.prems(1) w]
  define b' where "b' = (if ?p = [] then b else 0)"
  have after: "started status hdr mw1 \<and> rw_Body (mw_inner mw1) = rw_Body (mw_inner mw) \<and> rw_Fault (mw_inner mw1) = ?f \<and>
      (err = Some ?f \<and> ?p \<noteq> [] \<or> err = None \<and> broken b' (mw_inner mw1) \<and> (?p \<noteq> [] \<longrightarrow> b = 1))"
  proof (cases "?p = []")
    case True
    with w less.prems show ?thesis
      by (simp add: write_chunk_def b'_def)
  next
    case False
    from write_chunk_writer [OF less.prems(2) False w] obtain w1 where
      w1: "rw_Write ?p (mw_inner mw) = (err, w1)" "mw_inner mw1 = (if err = None then rw_Flush w1 else w1)" "mw_status mw1 = mw_status mw"
      by blast
    from rw_Write_broken [OF less.prems(3) _ False w1(1,2)] less.prems(2) w1(3) False show ?thesis
      by (auto simp: started_def b'_def)
  qed
  have chunks: "body_chunks reads i n = (if ?p = [] then [] else [?p]) @ (if i = n then [] else body_chunks reads (Suc i) n)"
    using body_chunks_step [OF less.prems(1), of reads] by (simp add: Let_def)
  show ?case
  proof (cases "err = None \<and> i \<noteq> n")
    case True
    then have "n - Suc i < n - i" "Suc i \<le> n" "broken b' (mw_inner mw1)" "stream_loop reads i mw = stream_loop reads (Suc i) mw1"
      using less.prems(1) after step by auto
    with less.hyps [of "Suc i" mw1 b'] after chunks True show ?thesis
      by (auto simp: b'_def split: if_splits)
  next
    case False
    with step after chunks show ?thesis
      by (auto split: if_splits option.splits)
  qed
qed

text \<open>
  On a clean connection the bytes that fit arrive, and a break before the last two chunks is
  noticed.
\<close>

lemma stream_loop_clean:
  assumes "body_ends reads n e" and "i \<le> n" and "started status hdr mw" and "clean (mw_inner mw)"
  shows "\<exists>err mw'. stream_loop reads i mw = Some (err, mw') \<and> started status hdr mw' \<and>
    rw_Body (mw_inner mw') = rw_Body (mw_inner mw) @ arriving (rw_Accepts (mw_inner mw)) (concat (body_chunks reads i n)) \<and>
    err \<in> {end_error e, Some (rw_Fault (mw_inner mw))} \<and>
    (fits (rw_Accepts (mw_inner mw)) (concat (body_chunks reads i n)) \<longrightarrow> err = end_error e) \<and>
    (\<not> fits (rw_Accepts (mw_inner mw)) (concat (butlast (butlast (body_chunks reads i n)))) \<longrightarrow>
     err = Some (rw_Fault (mw_inner mw))) \<and>
    (fits (rw_Accepts (mw_inner mw)) (concat (butlast (body_chunks reads i n))) \<and>
     length (last (body_chunks reads i n)) \<le> bufferBeforeChunkingSize \<longrightarrow> err = end_error e)"
  using assms(2-4)
proof (induction "n - i" arbitrary: i mw rule: less_induct)
  case less
  let ?p = "fst (reads i copyBufferSize)" and ?f = "rw_Fault (mw_inner mw)" and ?k = "rw_Accepts (mw_inner mw)"
  let ?rest = "if i = n then [] else body_chunks reads (Suc i) n"
  have chunks: "body_chunks reads i n = (if ?p = [] then ?rest else ?p # ?rest)"
    using body_chunks_step [OF less.prems(1), of reads] by (simp add: Let_def)
  obtain err mw1 where w: "write_chunk ?p mw = (err, mw1)"
    by fastforce
  note step = stream_loop_step [OF assms(1) less.prems(1) w]
  have after: "started status hdr mw1 \<and> rw_Fault (mw_inner mw1) = ?f \<and> rw_Accepts (mw_inner mw1) = room_after ?k ?p \<and>
      rw_Body (mw_inner mw1) = rw_Body (mw_inner mw) @ arriving ?k ?p \<and>
      (if fits ?k ?p then err = None \<and> clean (mw_inner mw1) else err = Some ?f \<or> err = None \<and> broken 1 (mw_inner mw1)) \<and>
      (length ?p \<le> bufferBeforeChunkingSize \<longrightarrow> err = None)"
  proof (cases "?p = []")
    case True
    with w less.prems show ?thesis
      by (simp add: write_chunk_def room_simps)
  next
    case False
    from write_chunk_writer [OF less.prems(2) False w] obtain w1 where
      w1: "rw_Write ?p (mw_inner mw) = (err, w1)" "mw_inner mw1 = (if err = None then rw_Flush w1 else w1)" "mw_status mw1 = mw_status mw"
      by blast
    from rw_Write_clean [OF less.prems(3) _ False w1(1,2)] less.prems(2) w1(3) show ?thesis
      by (auto simp: started_def)
  qed
  show ?case
  proof (cases "fits ?k ?p")
    case True
    show ?thesis
    proof (cases "i = n")
      case False
      then have "n - Suc i < n - i" "Suc i \<le> n" "stream_loop reads i mw = stream_loop reads (Suc i) mw1"
        using less.prems(1) after step True by auto
      with less.hyps [of "Suc i" mw1] after chunks True False show ?thesis
        by (auto simp: room_simps split: if_splits)
    qed (use step after chunks True in \<open>auto simp: room_simps\<close>)
  next
    case broke: False
    then have p: "?p \<noteq> []"
      by (auto simp: room_simps)
    show ?thesis
    proof (cases "err = None \<and> i \<noteq> n")
      case True
      then have "stream_loop reads i mw = stream_loop reads (Suc i) mw1" "Suc i \<le> n" "broken 1 (mw_inner mw1)"
        using less.prems(1) after step broke by auto
      moreover have "butlast xs = [] \<longleftrightarrow> \<not> Suc 0 < length xs" for xs :: "string list"
        by (cases xs rule: rev_cases) auto
      ultimately show ?thesis
        using stream_loop_broken [OF assms(1), of "Suc i" status hdr mw1 1] after chunks broke p True
        by (auto simp: room_simps split: if_splits)
    next
      case False
      with step after chunks broke p show ?thesis
        by (auto simp: room_simps split: if_splits option.splits)
    qed
  qed
qed

section \<open>Properties\<close>

definition fresh_writer :: "metricResponseWriter \<Rightarrow> bool" where
  "fresh_writer mw \<longleftrightarrow> mw_status mw = 0 \<and> rw_Sent (mw_inner mw) = None \<and> rw_Body (mw_inner mw) = [] \<and>
     rw_Header (mw_inner mw) = [] \<and> clean (mw_inner mw) \<and> rw_CanFlush (mw_inner mw)"

lemma stream_start_fresh:
  assumes "fresh_writer mw" and "status \<noteq> 0"
  shows "started status (copy_headers (stripHopByHop hdr) []) (stream_start status hdr mw)"
    and "clean (mw_inner (stream_start status hdr mw))" and "rw_Body (mw_inner (stream_start status hdr mw)) = []"
    and "rw_Accepts (mw_inner (stream_start status hdr mw)) = rw_Accepts (mw_inner mw)"
    and "rw_Fault (mw_inner (stream_start status hdr mw)) = rw_Fault (mw_inner mw)"
  using assms
  by (simp_all add: fresh_writer_def stream_start_def mw_WriteHeader_def rw_WriteHeader_def started_def clean_def Let_def)

text \<open>
  C16. A committed response is copied exactly, through the buffers of \<open>net/http\<close>. For every body that
  ends, however it is cut into reads, and every client, however many bytes its connection takes before
  it breaks, \<open>streamCommit\<close> returns; the client has the upstream status, the upstream headers without
  the hop-by-hop ones, and the body bytes in order, all of them or as many as the connection took. The
  result is the body's own end (nil, or the read error) or the connection's error: the former when
  all bytes were taken, the latter when the connection broke before the last two chunks.
\<close>

theorem streamCommit_exact:
  assumes "body_ends reads n e" and "fresh_writer mw" and "status \<noteq> 0"
  shows "\<exists>err mw'. streamCommit status hdr reads mw = Some (err, mw') \<and> mw_status mw' = status \<and>
    rw_Sent (mw_inner mw') = Some (status, copy_headers (stripHopByHop hdr) []) \<and>
    rw_Body (mw_inner mw') = arriving (rw_Accepts (mw_inner mw)) (concat (body_chunks reads 0 n)) \<and>
    err \<in> {end_error e, Some (rw_Fault (mw_inner mw))} \<and>
    (fits (rw_Accepts (mw_inner mw)) (concat (body_chunks reads 0 n)) \<longrightarrow> err = end_error e) \<and>
    (\<not> fits (rw_Accepts (mw_inner mw)) (concat (butlast (butlast (body_chunks reads 0 n)))) \<longrightarrow>
     err = Some (rw_Fault (mw_inner mw)))"
proof -
  note start = stream_start_fresh [OF assms(2,3), of hdr]
  from stream_loop_clean [OF assms(1) le0 start(1,2)] show ?thesis
    unfolding start(3-5) streamCommit_def started_def by auto
qed

definition sample_writer :: "nat option \<Rightarrow> metricResponseWriter" where
  "sample_writer k =
     \<lparr>mw_status = 0, mw_inner = \<lparr>rw_Header = [], rw_Sent = None, rw_Buf = [], rw_Err = None, rw_ConnBuf = [], rw_ConnErr = None,
        rw_Spill = \<lambda>buffered p. if length buffered + length p \<le> 4096 then 0 else length buffered + length p,
        rw_Accepts = k, rw_Fault = ''broken pipe'', rw_Body = [], rw_CanFlush = True\<rparr>\<rparr>"

definition sample_reads :: body_reads where
  "sample_reads i k =
     (if i = 0 then (take k ''data: a'', None) else if i = 1 then ([], None) else (take k ''data: b'', Some EOF))"

lemma sample_reads_end: "body_ends sample_reads 2 EOF"
  by (auto simp: body_ends_def sample_reads_def)

lemma sample_reads_chunks: "body_chunks sample_reads 0 2 = [''data: a'', ''data: b'']"
  by (simp add: body_chunks_def sample_reads_def copyBufferSize_def upt_rec)

lemma sample_writer_fresh: "fresh_writer (sample_writer k)"
  by (simp add: fresh_writer_def sample_writer_def clean_def)

theorem streamCommit_exact_witness:
  "\<exists>mw'. streamCommit 200 [] sample_reads (sample_writer (Some 14)) = Some (None, mw') \<and>
     rw_Body (mw_inner mw') = ''data: adata: b''"
  using streamCommit_exact [OF sample_reads_end sample_writer_fresh, of 200 "[]" "Some 14"]
  by (auto simp: sample_reads_chunks fits_def arriving_def sample_writer_def end_error_def)

text \<open>
  The end of a response can be lost without an error. When the connection breaks within the last chunk
  and that chunk fits the response's buffer, the write only fills the buffer and the flush that meets
  the break drops its error: \<open>streamCommit\<close> answers as if the client had taken everything, and with
  a clean end of the body \<open>commit\<close> records a success for a response that was cut.
\<close>

theorem cut_tail_unreported:
  assumes "body_ends reads n EOF" and "fresh_writer mw" and "status \<noteq> 0"
    and "fits (rw_Accepts (mw_inner mw)) (concat (butlast (body_chunks reads 0 n)))"
    and "length (last (body_chunks reads 0 n)) \<le> 2048"
    and "\<not> fits (rw_Accepts (mw_inner mw)) (concat (body_chunks reads 0 n))"
  shows "\<exists>mw'. streamCommit status hdr reads mw = Some (None, mw') \<and>
    rw_Body (mw_inner mw') = arriving (rw_Accepts (mw_inner mw)) (concat (body_chunks reads 0 n)) \<and>
    rw_Body (mw_inner mw') \<noteq> concat (body_chunks reads 0 n)"
proof -
  note start = stream_start_fresh [OF assms(2,3), of hdr]
  have "arriving k p \<noteq> p" if "\<not> fits k p" for k p
    using that by (auto simp: arriving_def fits_def split: option.splits)
  with stream_loop_clean [OF assms(1) le0 start(1,2)] assms(4-6) show ?thesis
    unfolding start(3-5) streamCommit_def by (auto simp: bufferBeforeChunkingSize_def end_error_def)
qed

theorem cut_tail_unreported_witness:
  "\<exists>mw'. streamCommit 200 [] sample_reads (sample_writer (Some 9)) = Some (None, mw') \<and>
     rw_Body (mw_inner mw') = ''data: ada''"
  using cut_tail_unreported [OF sample_reads_end sample_writer_fresh, of 200 "Some 9" "[]"]
  by (auto simp: sample_reads_chunks fits_def arriving_def sample_writer_def)

text \<open>A body that never ends, over a connection that never breaks, is copied for ever.\<close>

lemma write_chunk_unbroken:
  assumes "started status hdr mw" and "clean (mw_inner mw)" and "rw_Accepts (mw_inner mw) = None" and "write_chunk p mw = (err, mw1)"
  shows "err = None \<and> started status hdr mw1 \<and> clean (mw_inner mw1) \<and> rw_Accepts (mw_inner mw1) = None"
proof (cases "p = []")
  case False
  from write_chunk_writer [OF assms(1) False assms(4)] obtain w1 where
    w1: "rw_Write p (mw_inner mw) = (err, w1)" "mw_inner mw1 = (if err = None then rw_Flush w1 else w1)" "mw_status mw1 = mw_status mw"
    by blast
  from rw_Write_clean [OF assms(2) _ False w1(1,2)] assms(1,3) w1(3) show ?thesis
    by (auto simp: started_def fits_def room_after_def)
qed (use assms in \<open>simp add: write_chunk_def\<close>)

lemma stream_loop_endless:
  assumes "\<And>i. snd (reads i copyBufferSize) = None" and "started status hdr mw" and "clean (mw_inner mw)"
    and "rw_Accepts (mw_inner mw) = None"
  shows "stream_loop reads i mw = None"
proof -
  let ?ok = "\<lambda>mw. started status hdr mw \<and> clean (mw_inner mw) \<and> rw_Accepts (mw_inner mw) = None"
  have "?ok mw \<longrightarrow> (\<forall>i. snd (reads i copyBufferSize) = None) \<longrightarrow> False" if "stream_loop reads i mw = Some y" for y i mw
  proof (rule stream_loop.raw_induct [OF _ that], intro impI)
    fix loop :: "body_reads \<Rightarrow> nat \<Rightarrow> metricResponseWriter \<Rightarrow> (string option \<times> metricResponseWriter) option"
      and reads :: body_reads and i mw y
    assume ih: "\<And>reads i mw y. loop reads i mw = Some y \<Longrightarrow> ?ok mw \<longrightarrow> (\<forall>i. snd (reads i copyBufferSize) = None) \<longrightarrow> False"
      and now: "(case reads i copyBufferSize of (p, e) \<Rightarrow> (case write_chunk p mw of
           (Some err, mw1) \<Rightarrow> Some (Some err, mw1)
         | (None, mw1) \<Rightarrow> (case e of Some EOF \<Rightarrow> Some (None, mw1) | Some (ReadFault err) \<Rightarrow> Some (Some err, mw1)
              | None \<Rightarrow> loop reads (Suc i) mw1))) = Some y"
      and ok: "?ok mw" and none: "\<forall>i. snd (reads i copyBufferSize) = None"
    obtain p where r: "reads i copyBufferSize = (p, None)" using none by (metis prod.collapse)
    obtain err mw1 where w: "write_chunk p mw = (err, mw1)" by fastforce
    note ws = write_chunk_unbroken [OF _ _ _ w, of status hdr] 
    have "loop reads (Suc i) mw1 = Some y" using now ws ok by (simp add: r w)
    from ih [OF this] show False using ws ok none by simp
  qed
  then show ?thesis using assms by (cases "stream_loop reads i mw") blast+
qed

text \<open>
  Looking ahead loses nothing of a body that can be read: the bytes and the end of a response are
  the same after \<open>peekAndRestore\<close>, unless the body breaks inside the bytes it looks at, whose bytes
  are then gone.
\<close>

lemma peek_keeps_body:
  "snd (peek_stream limit (bytes, e)) =
     (if length bytes < limit \<and> e \<noteq> EOF then ([], e) else (bytes, e))"
  by (simp add: peek_stream_def)

end
