(* ===== verification/Proxy_Metrics.thy ===== *)
theory Proxy_Metrics
  imports Proxy_Stream
begin

text \<open>
  What squall-proxy reports about its requests: the metrics of \<open>internal/proxy/metrics.go\<close> with the
  places of \<open>handler.go\<close> that record them, and the level of the request log line. The metric vectors
  belong to the Prometheus client; what the proxy does to them is the list of its calls, and a gauge
  or counter is read off that list.
\<close>

section \<open>Metric calls (metrics.go)\<close>

datatype metric_event = MInc string "string list" | MDec string "string list"
  | MObserve string "string list" duration

definition FormatBool :: "bool \<Rightarrow> string" where
  "FormatBool b = (if b then ''true'' else ''false'')"

definition metric_requests :: string where "metric_requests = ''squall_proxy_requests_total''"
definition metric_duration :: string where "metric_duration = ''squall_proxy_request_duration_seconds''"
definition metric_inFlight :: string where "metric_inFlight = ''squall_proxy_requests_in_flight''"
definition metric_held :: string where "metric_held = ''squall_proxy_held_requests''"

definition pm_Observe :: "string \<Rightarrow> string \<Rightarrow> int \<Rightarrow> bool \<Rightarrow> duration \<Rightarrow> metric_event list" where
  "pm_Observe model oc status held elapsed =
     [MInc metric_requests [model, oc, Itoa status, FormatBool held],
      MObserve metric_duration [model, oc, FormatBool held] elapsed]"

text \<open>\<open>Begin\<close> and \<open>Hold\<close>, each with the function it returns.\<close>

definition pm_Begin :: "string \<Rightarrow> metric_event list \<times> metric_event list" where
  "pm_Begin model = ([MInc metric_inFlight [model]], [MDec metric_inFlight [model]])"

definition pm_Hold :: "string \<Rightarrow> metric_event list \<times> metric_event list" where
  "pm_Hold model = ([MInc metric_held [model]], [MDec metric_held [model]])"

definition modelMetricLabel :: "string \<Rightarrow> bool \<Rightarrow> string" where
  "modelMetricLabel model hasCR = (if \<not> hasCR then ''_unknown'' else model)"

definition requestMetricOutcome :: "request_result \<Rightarrow> string" where
  "requestMetricOutcome res =
     (case rr_outcome res of
        outcomeCommitted \<Rightarrow> ''forwarded''
      | outcomeImmediate \<Rightarrow> ''rejected''
      | outcomeWaitContract \<Rightarrow> if rr_reason res \<noteq> [] then ''failed'' else ''rejected''
      | outcomeGatewayAuth \<Rightarrow> ''failed''
      | outcomeClientGone \<Rightarrow> ''client_gone''
      | outcomeCeiling \<Rightarrow> ''failed'')"

section \<open>The request log line (handler.go)\<close>

datatype log_level = LevelDebug | LevelInfo | LevelWarn

definition request_log_level :: "request_outcome \<Rightarrow> duration \<Rightarrow> log_level" where
  "request_log_level oc held =
     (case oc of
        outcomeCommitted \<Rightarrow> if 0 < held then LevelInfo else LevelDebug
      | outcomeWaitContract \<Rightarrow> LevelInfo
      | outcomeImmediate \<Rightarrow> LevelInfo
      | outcomeClientGone \<Rightarrow> LevelInfo
      | _ \<Rightarrow> LevelWarn)"

text \<open>
  What a request leaves for its log line, and the line: a level and named values. \<open>outcome_text\<close> and \<open>reason_text\<close> are
  the strings of the outcome constants and of the error.
\<close>

record requestRecord =
  rec_model :: string
  rec_phase :: ModelPhase
  rec_outcome :: request_outcome
  rec_held :: duration
  rec_reason :: "attempt_error list"

datatype log_value = LogString string | LogPhase ModelPhase | LogInt int

definition request_log ::
  "(request_outcome \<Rightarrow> string) \<Rightarrow> (attempt_error list \<Rightarrow> string) \<Rightarrow> requestRecord \<Rightarrow> duration \<Rightarrow> log_level \<times> (string \<times> log_value) list" where
  "request_log outcome_text reason_text rec elapsed =
     (request_log_level (rec_outcome rec) (rec_held rec),
      [(''model'', LogString (rec_model rec)), (''outcome'', LogString (outcome_text (rec_outcome rec))),
       (''phase'', LogPhase (rec_phase rec)), (''duration_ms'', LogInt (go_div elapsed Millisecond))] @
      (if reason_text (rec_reason rec) \<noteq> [] then [(''reason'', LogString (reason_text (rec_reason rec)))] else []) @
      (if 0 < rec_held rec then [(''held_ms'', LogInt (go_div (rec_held rec) Millisecond))] else []))"

text \<open>A line names each value once, and a request that waited is never logged below Info and always with its wait.\<close>

lemma request_log_line:
  "distinct (map fst (snd (request_log ot rt rec elapsed)))"
  "0 < rec_held rec \<Longrightarrow> fst (request_log ot rt rec elapsed) \<noteq> LevelDebug \<and>
     (''held_ms'', LogInt (go_div (rec_held rec) Millisecond)) \<in> set (snd (request_log ot rt rec elapsed))"
  by (auto simp: request_log_def request_log_level_def split: request_outcome.splits)

section \<open>The metrics of one request (handler.go)\<close>

text \<open>The status the response writer saw; a caller that hung up saw none.\<close>

definition answer_status :: "client_answer \<Rightarrow> int" where
  "answer_status a =
     (case a of NoAnswer \<Rightarrow> 0 | StatusAnswer n \<Rightarrow> n | WaitAnswer n _ \<Rightarrow> n | Streamed p _ \<Rightarrow> up_StatusCode p)"

text \<open>Whether the request enters the hold: the Model blocks, is schedulable and has a place left.\<close>

definition enters_hold :: "'s proxy_env \<Rightarrow> string \<Rightarrow> ModelSnapshot \<Rightarrow> bool \<Rightarrow> 's \<Rightarrow> bool" where
  "enters_hold E model snap hasCR s \<longleftrightarrow>
     pa_Block (proxy_Decide (sn_Phase snap) hasCR 0) \<and> \<not> (hasCR \<and> \<not> sn_Schedulable snap) \<and>
     fst (px_acquirePending E model s)"

text \<open>
  The calls of one request in order: in flight, held, no longer held, no longer in flight, and the
  observation that the first deferred function makes last. \<open>waited\<close> is the measured hold.
\<close>

definition deferred_events :: "bool \<Rightarrow> bool \<Rightarrow> string \<Rightarrow> metric_event list \<Rightarrow> metric_event list" where
  "deferred_events known holds label observed =
     (if known then fst (pm_Begin label) else []) @ (if holds then fst (pm_Hold label) else []) @
     (if holds then snd (pm_Hold label) else []) @ (if known then snd (pm_Begin label) else []) @ observed"

definition request_events ::
  "'s proxy_env \<Rightarrow> http_request \<Rightarrow> ('s \<Rightarrow> 's) list \<Rightarrow> ('s \<Rightarrow> 's) list \<Rightarrow> duration \<Rightarrow> duration \<Rightarrow> 's \<Rightarrow> metric_event list" where
  "request_events E r ws retries waited elapsed s =
     (let (model, errStatus) = modelFromRequest (px_unmarshal E) r;
          (snap, hasCR) = px_Get E s model;
          label = (if errStatus \<noteq> 0 then ''_unknown'' else modelMetricLabel model hasCR);
          holds = (errStatus = 0 \<and> enters_hold E model snap hasCR (if hasCR then px_Begin E model s else s));
          res = fst (ServeHTTP E r ws retries s)
      in deferred_events (errStatus = 0 \<and> hasCR) holds label
           (pm_Observe label (requestMetricOutcome res) (answer_status (rr_answer res)) (holds \<and> 0 < waited) elapsed))"

section \<open>Gauges over interleaved requests\<close>

text \<open>A gauge is the number of its increments less the number of its decrements.\<close>

definition gauge :: "string \<Rightarrow> string list \<Rightarrow> metric_event list \<Rightarrow> int" where
  "gauge name ls log =
     int (length (filter (\<lambda>e. e = MInc name ls) log)) - int (length (filter (\<lambda>e. e = MDec name ls) log))"

text \<open>The log and, for each request still running, the calls it has yet to make.\<close>

inductive metric_step :: "'s proxy_env \<Rightarrow> metric_event list \<times> metric_event list multiset \<Rightarrow>
    metric_event list \<times> metric_event list multiset \<Rightarrow> bool" for E where
  accept: "metric_step E (log, R) (log, add_mset (request_events E r ws rs waited elapsed s) R)"
| emit: "metric_step E (log, add_mset (e # es) R) (log @ [e], add_mset es R)"
| finish: "metric_step E (log, add_mset [] R) (log, R)"

lemma gauge_simps [simp]:
  "gauge n ls [] = 0" "gauge n ls (xs @ ys) = gauge n ls xs + gauge n ls ys"
  by (simp_all add: gauge_def)

lemma gauge_Cons: "gauge n ls (e # es) = gauge n ls [e] + gauge n ls es"
  by (simp add: gauge_def)

lemmas metric_names = metric_requests_def metric_duration_def metric_inFlight_def metric_held_def

lemma metric_neq: "metric_inFlight \<noteq> metric_held"
  by (simp add: metric_names)

definition is_gauge :: "string \<Rightarrow> bool" where
  "is_gauge n \<longleftrightarrow> n \<in> {metric_inFlight, metric_held}"

text \<open>Every suffix of a request's calls brings a gauge down or leaves it, and all of them together leave it.\<close>

definition settles :: "string \<Rightarrow> string list \<Rightarrow> metric_event list \<Rightarrow> bool" where
  "settles n ls es \<longleftrightarrow> (\<forall>k. gauge n ls (drop k es) \<le> 0)"

lemma settles_tl: "settles n ls (e # es) \<Longrightarrow> settles n ls es"
  unfolding settles_def by (metis drop_Suc_Cons)

lemma drop_observed:
  assumes "is_gauge n"
  shows "gauge n ls (drop k (pm_Observe label oc st h d)) = 0"
proof -
  consider "k = 0" | "k = 1" | "2 \<le> k" by linarith
  then show ?thesis
    by cases (use assms in \<open>auto simp: pm_Observe_def gauge_def is_gauge_def metric_names\<close>)
qed

lemma gauge_event:
  "gauge n ls (MInc n' ls' # es) = (if n = n' \<and> ls = ls' then 1 else 0) + gauge n ls es"
  "gauge n ls (MDec n' ls' # es) = (if n = n' \<and> ls = ls' then - 1 else 0) + gauge n ls es"
  by (auto simp: gauge_def)

lemma deferred_events_settle:
  assumes "is_gauge n"
  shows "gauge n ls (deferred_events known holds label (pm_Observe label oc st h d)) = 0 \<and>
    settles n ls (deferred_events known holds label (pm_Observe label oc st h d))"
proof -
  have obs: "gauge n' ls' (drop k (pm_Observe label oc st h d)) = 0"
    "gauge n' ls' (pm_Observe label oc st h d) = 0" if "n' = metric_inFlight \<or> n' = metric_held" for n' ls' k
    using drop_observed [of n' ls' k label oc st h d] drop_observed [of n' ls' 0 label oc st h d] that
    by (simp_all add: is_gauge_def)
  have "n = metric_inFlight \<or> n = metric_held" using assms by (simp add: is_gauge_def)
  then show ?thesis
    using metric_neq
    by (cases known; cases holds; simp add: deferred_events_def settles_def pm_Begin_def pm_Hold_def drop_Cons'
        gauge_event obs)
qed

lemma request_events_settle:
  assumes "is_gauge n"
  shows "gauge n ls (request_events E r ws rs waited elapsed s) = 0 \<and>
    settles n ls (request_events E r ws rs waited elapsed s)"
  using deferred_events_settle [OF assms]
  by (auto simp: request_events_def Let_def split: prod.split)

definition metric_inv :: "string \<Rightarrow> string list \<Rightarrow> metric_event list \<times> metric_event list multiset \<Rightarrow> bool" where
  "metric_inv n ls st \<longleftrightarrow>
     gauge n ls (fst st) + sum_mset (image_mset (gauge n ls) (snd st)) = 0 \<and> (\<forall>es\<in>#snd st. settles n ls es)"

lemma metric_inv_step:
  assumes "metric_step E st st'" and "is_gauge n" and "metric_inv n ls st"
  shows "metric_inv n ls st'"
  using assms
proof (induction rule: metric_step.induct)
  case (accept log R r ws rs waited elapsed s)
  then show ?case
    using request_events_settle [OF accept.prems(1), of ls E r ws rs waited elapsed s] by (simp add: metric_inv_def)
next
  case (emit log e es R)
  then show ?case by (auto simp: metric_inv_def gauge_Cons [of n ls e es] dest: settles_tl)
qed (simp add: metric_inv_def)

lemma settled_sum_le:
  assumes "\<forall>es\<in>#R. settles n ls es"
  shows "sum_mset (image_mset (gauge n ls) R) \<le> 0"
  using assms
proof (induction R)
  case (add es R)
  moreover have "gauge n ls es \<le> 0" using add.prems by (auto simp: settles_def dest!: spec [of _ 0])
  ultimately show ?case by simp
qed simp

text \<open>
  The request gauges are balanced. Whatever the requests do and however their calls interleave,
  the in-flight and held gauges of every label are never negative, and they are back at zero once no
  request is running.
\<close>

theorem proxy_gauges_balanced:
  assumes "(metric_step E)\<^sup>*\<^sup>* ([], {#}) (log, R)" and "is_gauge n"
  shows "0 \<le> gauge n ls log \<and> (R = {#} \<longrightarrow> gauge n ls log = 0)"
proof -
  have "metric_inv n ls (log, R)"
    using assms(1)
    by (induction rule: rtranclp_induct) (auto simp: metric_inv_def [of n ls "([], {#})"] intro: metric_inv_step [OF _ assms(2)])
  then show ?thesis using settled_sum_le [of R n ls] by (auto simp: metric_inv_def)
qed

theorem proxy_gauges_balanced_witness:
  "0 \<le> gauge metric_held [''qwen''] (fst (pm_Begin ''qwen''))"
proof -
  let ?E = "sample_proxy :: unit proxy_env"
  let ?es = "request_events ?E sample_http_request [] [] 0 0 ()"
  have ev: "\<exists>es. ?es = MInc metric_inFlight [''qwen''] # es"
    by (simp add: request_events_def sample_http_model sample_proxy_Get deferred_events_def modelMetricLabel_def
        pm_Begin_def Let_def)
  then obtain es where es: "?es = MInc metric_inFlight [''qwen''] # es" by blast
  have "metric_step ?E ([], {#}) ([], {#?es#})" by (rule metric_step.accept)
  moreover have "metric_step ?E ([], {#?es#}) ([MInc metric_inFlight [''qwen'']], {#es#})"
    using metric_step.emit [of ?E "[]" "MInc metric_inFlight [''qwen'']" es "{#}"] by (simp add: es)
  ultimately have "(metric_step ?E)\<^sup>*\<^sup>* ([], {#}) ([MInc metric_inFlight [''qwen'']], {#es#})" by simp
  from proxy_gauges_balanced [OF this, of metric_held "[''qwen'']"] show ?thesis
    by (simp add: is_gauge_def pm_Begin_def)
qed

fun event_labels :: "metric_event \<Rightarrow> string list" where
  "event_labels (MInc _ ls) = ls" | "event_labels (MDec _ ls) = ls" | "event_labels (MObserve _ ls _) = ls"

text \<open>
  Callers cannot grow the metrics. Every series a request touches is labelled with a Model that
  the cache knows or with the one label of all other names.
\<close>

theorem metric_labels_bounded:
  assumes "e \<in> set (request_events E r ws rs waited elapsed s)"
  shows "hd (event_labels e) = ''_unknown'' \<or> snd (px_Get E s (hd (event_labels e)))"
proof -
  obtain m err where req: "modelFromRequest (px_unmarshal E) r = (m, err)" by fastforce
  obtain snap cr where get: "px_Get E s m = (snap, cr)" by fastforce
  show ?thesis using assms
    by (auto simp: request_events_def req get deferred_events_def pm_Begin_def pm_Hold_def pm_Observe_def
        modelMetricLabel_def Let_def split: if_splits)
qed

theorem metric_labels_bounded_witness:
  "snd (px_Get (sample_proxy :: unit proxy_env) () ''qwen'')"
proof -
  have "MInc metric_inFlight [''qwen''] \<in> set (request_events (sample_proxy :: unit proxy_env) sample_http_request [] [] 0 0 ())"
    by (simp add: request_events_def sample_http_model sample_proxy_Get deferred_events_def modelMetricLabel_def
        pm_Begin_def Let_def)
  from metric_labels_bounded [OF this] show ?thesis by simp
qed

end
