(* ===== verification/Spec2Isabelle.thy ===== *)
theory Spec2Isabelle
  imports Squall_Journal Squall_Override Activity_Wire Squall_DeepCopy Test_Binaries Squall_Reaper Squall_Metrics Squall_Price Squall_Main Dstack_Client Proxy_Activity Proxy_Demand
    Proxy_Handler Proxy_SSH Proxy_Route Proxy_Stream Proxy_Metrics Proxy_Informer Proxy_Main
begin

text \<open>
  Verification library of squall, a Kubernetes operator that runs LLM replicas on rented GPUs
  through dstack, scales them to zero when idle and wakes them on demand.

  \<^bold>\<open>The program.\<close> A \<open>Model\<close> resource describes one served model. squall-controller reconciles it:
  each pass reads the Model's dstack run, gathers idle evidence from every proxy replica, decides a
  phase and an action (\<open>phase.go\<close>), and carries the action out with one compare-and-swap Apply
  (\<open>model_controller.go\<close>); deletion goes through a drain-first finalizer (\<open>finalizer.go\<close>), and a
  reaper audits dstack for runs no Model owns (\<open>reaper.go\<close>). squall-proxy receives the requests: it
  looks the Model up in an informer cache, forwards, holds the request while the Model wakes
  (signalling demand by an annotation the controller reads), reaches replicas over pooled SSH tunnels
  or dstack's own proxy, and reports per-Model activity, which is the controller's only evidence that
  a replica is idle. Both binaries export metrics that the cost alerts read. The two rules the code repeats are that
  waking fails open and sleeping fails safe: money may be spent on doubt, work may not be cut on doubt.

  \<^bold>\<open>Theories and sources\<close> (paths under \<open>src/\<close>).
  \<^item> \<open>Squall_Prelude\<close>: instants and durations in nanoseconds with Go's saturating \<open>Sub\<close> and
    wrapping \<open>int64\<close>, Go's string functions, maps as association lists with distinct keys.
  \<^item> \<open>Squall_API\<close>: \<open>api/squall/v1alpha1\<close>, the Model's spec, status, conditions and price. Kubernetes'
    condition helpers are the parameter \<open>meta_api\<close> with the contract \<open>meta_ok\<close>; \<open>ref_meta\<close> satisfies it.
  \<^item> \<open>Squall_DeepCopy\<close>: \<open>zz_generated.deepcopy.go\<close> over an explicit store, with the locale \<open>deep_copier\<close> for
    what every generated copy promises. Everywhere else the Model's records are values.
  \<^item> \<open>Squall_Dstack\<close>, \<open>Dstack_Wire\<close>, \<open>Dstack_Client\<close>: \<open>internal/dstack\<close>, the types, error classification,
    probe readiness, the messages of both sides (locale \<open>wire_message\<close>, interpreted on each of them) and
    the HTTP client as exchanges of JSON trees over a transport parameter.
  \<^item> \<open>Dstack_Mock\<close>: \<open>internal/dstack/mock/mock.go\<close>, the in-memory dstack, with its step relation and
    invariant; its HTTP front end (\<open>mock/http.go\<close>) is in \<open>Dstack_Client\<close>. The locale \<open>run_service\<close>
    states what a dstack promises its clients, interpreted on the in-memory server.
  \<^item> \<open>Squall_Phase\<close>: \<open>phase.go\<close>, \<open>Decide\<close> and the four deadlines.
  \<^item> \<open>Squall_Activity\<close>: \<open>activity.go\<close> and the gathering part of \<open>model_controller.go\<close>, with the map
    iteration order an explicit argument; it rests on the locale \<open>idle_reporter\<close>, which
    \<open>Proxy_Activity\<close> (\<open>internal/proxy/activity.go\<close>) interprets on the tracker. \<open>Activity_Wire\<close> is the
    report as the JSON that one serves and the other reads, an instance of \<open>wire_message\<close> too.
  \<^item> \<open>Squall_Engine\<close>, \<open>Squall_Support\<close>: start commands, resources and probes (\<open>engine.go\<close>); run names,
    ownership, served models, secret environments, preflight, validation and the SSH key.
  \<^item> \<open>Squall_Reconcile\<close>: \<open>Reconcile\<close> and \<open>reconcileDelete\<close>, every call that changes state included.
    Kubernetes, dstack and the proxies are one external state reached through \<open>reconcile_env\<close>.
  \<^item> \<open>Squall_Trace\<close>, \<open>Squall_Passes\<close>: the calls a pass makes, in order, for every environment
    (\<open>traced\<close> records calls and answers and changes nothing else), and the properties of whole passes.
  \<^item> \<open>Squall_Wake\<close>, \<open>Squall_System\<close>: what a pass with demand plans, and the reconciler on a dstack
    that keeps its contract. The locale \<open>dstack_contract\<close> states the contract and proves what whole
    passes achieve; it is interpreted on the HTTP client against the in-memory server, and
    \<open>controller_history\<close> are the histories of one controller and that server. The in-memory server accepts
    what the controller sends of a live run except for a changed idle duration.
  \<^item> \<open>Squall_Override\<close>: the same on a dstack that refuses overrides as the real one does. Which
    configurations it finds different from the stored one is a parameter, the contract is interpreted on it as
    well, and \<open>strict_history\<close> are its histories.
  \<^item> \<open>Squall_Journal\<close>: the same with the Model as the API server stores it between passes. \<open>journal\<close>
    are the histories of passes, status writes, edits, deaths and ticks; the parameter \<open>keep\<close> says
    how a stored instant reads back.
  \<^item> \<open>Squall_Reaper\<close>: \<open>Sweep\<close> and the loop of \<open>Start\<close>.
  \<^item> \<open>Squall_Metrics\<close>: \<open>internal/metrics\<close> and what passes and teardowns feed it. The locale
    \<open>model_collector\<close> states what the five collectors share and \<open>gauge_pair\<close>, which extends it, the
    declared and observed gauges of an alert; both are interpreted on the collectors.
  \<^item> \<open>Proxy_Decision\<close>, \<open>Proxy_Cache\<close>, \<open>Proxy_Demand\<close>, \<open>Proxy_Handler\<close>: \<open>internal/proxy\<close>, the decision
    table and forward classification, the cache with its subscriptions (locale \<open>publisher\<close>; a write of the map and its broadcast are two steps),
    demand signalling, and \<open>ServeHTTP\<close> end to end over \<open>proxy_env\<close> (locales \<open>forward_calls\<close> and
    \<open>request_calls\<close> for what a request may do to the outside).
  \<^item> \<open>Proxy_Informer\<close>: \<open>RunInformerCache\<close> over an arbitrary sequence of informer events.
  \<^item> \<open>Proxy_SSH\<close>, \<open>Proxy_Route\<close>: \<open>sshbackend.go\<close>, the tunnel pool as operations and as a step
    relation \<open>ssh_step\<close> whose actors are the requests, dials, watchers and retirements in flight, with
    its invariant; and the handler over that backend.
  \<^item> \<open>Proxy_Stream\<close>, \<open>Proxy_Metrics\<close>: the copy of a response to the client through the two buffers of
    \<open>net/http\<close>, and the metric calls of a request with the gauges over interleaved requests.
  \<^item> \<open>Go_Encoding\<close>, \<open>Squall_Price\<close>: \<open>Atoi\<close>, base64 and JSON string literals, and the price's JSON form
    (\<open>price.go\<close>).
  \<^item> \<open>Go_Flags\<close>, \<open>Proxy_Main\<close>, \<open>Squall_Main\<close>: \<open>cmd/proxy/main.go\<close> and \<open>cmd/controller/main.go\<close>: flags,
    settings from the environment, wiring, routes, the replica key, start, and exit as a step relation of
    \<open>main\<close>, the goroutine that shuts the server down and the requests.
  \<^item> \<open>Test_Binaries\<close>: \<open>cmd/fake-dstack\<close>, \<open>cmd/model-mock\<close> and \<open>internal/clock\<close>.
  \<^item> This theory: controller and reaper together, and proxies and controller together.

  \<^bold>\<open>What is shown.\<close> Every scale-down has a live run, the right anchor and a cause in real time, and
  complete idle evidence means that no proxy that answered had a request open, so that an open request
  is never cut by an idle sleep; every request for a
  known Model is counted from before its first forward to after its last step, and only what it
  learnt is charged to the replica. A pass applies at most once, on the run it just read, only for
  a valid spec, stamped with the Model's UID, and does nothing when dstack cannot be read; a sleep
  re-sends the environment, key and durations of the run and takes the rest from the current spec. Teardown stops, then deletes, then releases the finalizer. On the
  in-memory server over HTTP the whole cycle runs: a demand signal brings the replica up in the next
  pass and a later one reports it Ready, idle evidence takes it away in place, a teardown ends within
  two passes past its deadline, and no replica that stays unready outlives its provisioning deadline as long
  as status writes land. On a dstack that refuses overrides a controller alone loses no race: an Apply is
  accepted or refused as an override of the live run, a refused wake ends the run and the next one is minted
  and accepted, and a refused sleep leaves it alone. The reaper stops exactly the provable orphans and never a
  run the controller minted for a listed Model. Demand cannot expire under a held request, and a
  stale anchor never wins against the in-memory server, over HTTP as well. Over the direct data path
  no forward mixes a tunnel with another's address, a pinned host key is never replaced, a retired
  tunnel ends with its last stream, a committed response is copied byte for byte as far as the client takes it, and the key the proxy
  dials with is the one the run spec authorises. A deep copy of a Model is a value: nothing written through
  it shows in the original. A scrape has no series twice as long as no Model
  lists a backend twice, and every exported series fits its descriptor. The remaining properties
  characterise single components, and some state defects (named as findings): a Model edited while it is
  awake that never sleeps again, a release that cuts a stream, a shutdown that does not wait for open requests, the tail
  of a response lost without an error, a readiness that does not wait for the cache, a wake anchor that outlives its run,
  one that outlives the readiness it waited for, and one that a lost status write loses for good.

  \<^bold>\<open>Modelling choices.\<close> Time is an argument of every operation; an instant is an integer of
  nanoseconds and 0 the zero \<open>time.Time\<close>. (Kubernetes stores whole seconds. The
  truncation is modelled where a deadline is decided on it: in the demand annotation, and in
  \<open>Squall_Journal\<close>, whose \<open>keep\<close> may be short of the instant by up to a second.) Recursions are structural,
  except for the copy loop of a response, which is a partial function proved to return for every
  body that ends, and the reader of a JSON literal, whose fuel is the length of the text, of which every
  step consumes at least a byte. The waits of the proxy, which real time bounds, consume an explicit
  list of what the rest of the system did between wake-ups. Operations under one lock are atomic
  steps, and properties over interleavings quantify over sequences of them. Run numbers, deployment
  numbers and the counts of requests and failures are unbounded integers where Go's wrap after \<open>2^63\<close> or more
  increments. Text that only a human
  reads (error and log messages beyond those that become status) is abstracted.

  \<^bold>\<open>Not modelled:\<close> scheme registration, which has no behaviour of its own, log lines other than the proxy's request log, the helpers of the
  end-to-end tests, the samples of the counter and histogram vectors (the calls that feed them are, their
  collection is the Prometheus client's), client-go, controller-runtime, the Prometheus client, apimachinery and x/crypto/ssh (each a
  parameter or the sequence of its calls), JSON bodies as text, and TCP. \<open>time.ParseDuration\<close>,
  \<open>strconv.ParseFloat\<close> and the RFC 3339 text of an instant are parameters.
\<close>

section \<open>Controller and reaper together\<close>

text \<open>
  C25. The reaper never touches what the controller just bought. A run that carries the environment
  of a wake Apply of any reconcile pass over a Model, which has a UID as every stored Model does, is
  not an orphan for any sweep whose listing contains that Model, whatever name dstack files the run
  under, however old it is and whatever grace the reaper uses.
\<close>

theorem minted_run_not_reaped:
  assumes "CallApply q r \<in> set (pass_calls E (ApiOk, m) now s)" and "req_Replicas q = 1"
    and "run_Env run = req_Env q" and "m \<in> set models"
  shows "\<not> orphan models grace now' run"
  using wake_apply_stamp [OF assms(1,2)] assms(3,4) by (auto simp: orphan_def)

theorem minted_run_not_reaped_witness:
  "\<exists>q r. CallApply q r \<in> set (pass_calls sample_env (ApiOk, pinned_model) Hour None) \<and>
     \<not> orphan [pinned_model] 0 (99 * Hour) (sample_run\<lparr>run_Env := req_Env q\<rparr>)"
proof -
  from sample_passes(1) obtain q r
    where q: "CallApply q r \<in> set (pass_calls sample_env (ApiOk, pinned_model) Hour None)" "req_Replicas q = 1"
    by (rule appliesE)
  have "\<not> orphan [pinned_model] 0 (99 * Hour) (sample_run\<lparr>run_Env := req_Env q\<rparr>)"
    by (rule minted_run_not_reaped [OF q]) simp_all
  with q show ?thesis by blast
qed

section \<open>Proxies and controller together\<close>

text \<open>
  C3. An open request keeps its replica from being put to sleep as idle, across both binaries. Suppose a
  serving proxy address, when it can be reached, answers with the JSON its activity endpoint serves of
  a tracker that has a request for the Model open, held or streaming. If a reconcile pass nevertheless asks dstack for zero replicas, then the gathered
  evidence was not idle and the cause is one of three, each with its deadline passed: the replica's
  probes are not ready and the wake is older than the provisioning timeout; every proxy answered and
  the requests fail, at least the threshold of them and none successful since; or some proxy
  did not answer, no demand stands and the Model has been without control for the uncontrolled timeout.
\<close>

theorem open_request_keeps_replica:
  assumes sleep: "CallApply q r \<in> set (pass_calls E (ApiOk, m) now s)" "req_Replicas q = 0"
    and dstack: "\<And>run. live_run (fst (rc_DGet E (runNameFor m) s)) = Some run \<Longrightarrow> 0 \<le> run_Replicas run"
    and proxies: "rc_ProxyName E \<noteq> []" "s' = snd (rc_DGet E (runNameFor m) s)" "rc_slices E s' = Some items"
      "range_order (rc_order E (concat (map slice_addresses items))) (concat (map slice_addresses items))"
    and reports: "a \<in> set (concat (map slice_addresses items))"
      "\<And>i. rc_fetch E s' i (''http://'' @ a @ ActivityPath) \<in>
         {ActivityUnreachable, activity_exchange (Some (tracker_ServeHTTP (tracker_run (history i) NewActivityTracker)))}"
      "\<And>i. report_fits (tracker_Report (tracker_run (history i) NewActivityTracker))"
    and streaming: "\<And>i. 0 < in_flight (tracker_run (history i) NewActivityTracker) (md_Name m)"
  shows "\<exists>run e. req_Current q = Some run \<and> env_gather E (md_Name m) now s' = Some e \<and>
    \<not> (ev_Complete e \<and> ev_AllIdle e) \<and>
    (\<not> run_ProbesReady run \<and>
       (\<exists>w. st_WakeStartedAt (md_Status m) = Some w \<and> sp_ProvisioningTimeout (md_Spec m) < time_sub now w) \<or>
     sp_MinReplicas (md_Spec m) = 0 \<and> ev_Complete e \<and>
       failure_floor (mh_FailureThreshold (sp_Health (md_Spec m))) \<le> ev_FailuresSinceSuccess e \<and>
       mh_UnhealthyAfter (sp_Health (md_Spec m)) < time_sub now (ev_NewestLastSuccessAt e) \<or>
     sp_MinReplicas (md_Spec m) = 0 \<and> \<not> ev_Complete e \<and> \<not> hasDemand (rc_rfc3339 E) m now \<and>
       (\<exists>t. st_UncontrolledSince (md_Status m) = Some t \<and> uncontrolledTimeoutFor (md_Spec m) < time_sub now t))"
proof -
  let ?d = "hasDemand (rc_rfc3339 E) m now"
  from sleep obtain ob s2 run where obs: "observe E (runNameFor m) (md_Name m) (md_Spec m) now s = (Inr ob, s2)"
    and run: "ob_Run ob = Some run" "req_Current q = Some run" "run_Replicas run \<noteq> 0"
    and due: "scale_down_due ob (md_Status (statusForDecide E m (runNameFor m) ob ?d now)) (md_Spec m) ?d now"
    by (rule sleep_Apply_due)
  from obs run(1,3) dstack [of run] proxies(2)
  have ob: "ob_ProvisioningFailure ob = None" "ob_Activity ob = env_gather E (md_Name m) now s'"
    "run_ProbesReady run \<Longrightarrow> ob_Ready ob"
    by (auto simp: observe_def no_observation_def live_run_def Let_def split: prod.splits sum.splits if_splits)
  obtain e where e: "env_gather E (md_Name m) now s' = Some e"
    using proxies(1,3) by (simp add: env_gather_def gatherActivity_def Let_def)
  then have gather: "gatherActivity True (Some items) (rc_fetch E s') (md_Name m) now (rc_order E) = Some e"
    using proxies(1,3) by (simp add: env_gather_def)
  have "r = tracker_Report (tracker_run (history i) NewActivityTracker)"
    if "rc_fetch E s' i (''http://'' @ a @ ActivityPath) = ActivityAnswer 200 (Some r)" for i r
    using that reports(2) [of i] exchange_report [OF reports(3), of i] by auto
  from open_request_not_idle [OF gather proxies(4) reports(1) this streaming] have idle: "\<not> (ev_Complete e \<and> ev_AllIdle e)" .
  note anchors = statusForDecide_anchors(1,3) [OF ob(1)] statusForDecide_anchors(2) [OF ob(1) trans [OF ob(2) e]]
  note success = order.strict_trans2 [OF _ time_sub_anti [OF success_anchor_newer]]
  from due idle ob(2,3) e show ?thesis
    unfolding scale_down_due_def due_iffs anchors(1)
    by (intro exI [of _ run] exI [of _ e]) (auto simp: run(2) anchors(3) intro: success dest: anchors(2))
qed

text \<open>A proxy replica with a request for \<open>qwen\<close> open.\<close>

definition busy_env :: "Run option reconcile_env" where
  "busy_env = sample_env\<lparr>rc_ProxyNamespace := ''a'', rc_ProxyName := ''p'', rc_slices := \<lambda>s. Some [sample_slice\<lparr>es_Ports := []\<rparr>],
     rc_fetch := \<lambda>s i u. activity_exchange (Some (tracker_ServeHTTP (tracker_run [(Hour, EvBegin ''qwen'')] NewActivityTracker))),
     rc_order := remdups\<rparr>"

lemma busy_pass:
  "applies 0 (pass_calls busy_env (ApiOk, stuck_model) (100 * Hour) (Some (sample_run\<lparr>run_ProbesReady := False\<rparr>)))"
  by code_simp

theorem open_request_keeps_replica_witness:
  "\<exists>q r run. CallApply q r \<in> set (pass_calls busy_env (ApiOk, stuck_model) (100 * Hour)
       (Some (sample_run\<lparr>run_ProbesReady := False\<rparr>))) \<and> req_Current q = Some run \<and> \<not> run_ProbesReady run"
proof -
  let ?s = "Some (sample_run\<lparr>run_ProbesReady := False\<rparr>)"
  from busy_pass obtain q r
    where q: "CallApply q r \<in> set (pass_calls busy_env (ApiOk, stuck_model) (100 * Hour) ?s)" "req_Replicas q = 0"
    by (rule appliesE)
  have get: "rc_DGet busy_env n ?s = (Inr (sample_run\<lparr>run_ProbesReady := False\<rparr>), ?s)" for n
    by (simp add: busy_env_def sample_env_def)
  have addr: "concat (map slice_addresses [sample_slice\<lparr>es_Ports := []\<rparr>]) = [''a'']"
    by (simp add: sample_slice_def slice_addresses_def slice_port_def)
  have model: "md_Name stuck_model = ''qwen''" "sp_MinReplicas (md_Spec stuck_model) = 1"
    by (simp_all add: stuck_model_def pinned_model_def sample_model_def)
  have env: "rc_ProxyName busy_env \<noteq> []" "rc_slices busy_env s = Some [sample_slice\<lparr>es_Ports := []\<rparr>]"
    "rc_fetch busy_env s i u = activity_exchange (Some (tracker_ServeHTTP (tracker_run [(Hour, EvBegin ''qwen'')] NewActivityTracker)))"
    "rc_order busy_env = remdups" for s i u
    by (simp_all add: busy_env_def)
  have flight: "in_flight (tracker_run [(Hour, EvBegin ''qwen'')] NewActivityTracker) ''qwen'' = 1"
    by (simp add: in_flight_def tracker_Begin_def NewActivityTracker_def Let_def)
  have fits: "report_fits (tracker_Report (tracker_run [(Hour, EvBegin ''qwen'')] NewActivityTracker))"
    by (simp add: report_fits_def tracker_Report_def tracker_Begin_def NewActivityTracker_def counters_for_def zero_counters_def
        is_duration_def minDuration_def maxDuration_def Let_def)
  have up: "0 \<le> run_Replicas run" if "live_run (fst (rc_DGet busy_env (runNameFor stuck_model) ?s)) = Some run" for run
    using that unfolding get by (auto simp: live_run_def sample_run_def split: if_splits)
  from open_request_keeps_replica [where s' = ?s and items = "[sample_slice\<lparr>es_Ports := []\<rparr>]" and a = "''a''" and
      history = "\<lambda>_. [(Hour, EvBegin ''qwen'')]", OF q up env(1)]
  have "\<exists>run. req_Current q = Some run \<and> \<not> run_ProbesReady run"
    unfolding addr get env model flight using fits by (auto simp: range_order_def simp del: tracker_run.simps)
  with q show ?thesis by blast
qed

end
